(* ===== verification/Prelude.thy ===== *)
theory Prelude
  imports
    Main
    "HOL-Library.Word"
    "HOL-Library.Finite_Map"
    "HOL-Library.Char_ord"
    "HOL-Library.List_Lexorder"
    "HOL-Library.Product_Lexorder"
begin

text \<open>
  Shared vocabulary of the development: the machine integers, the times, the strings and the
  containers of the Rust standard library that the program uses, with the lemmas and the
  automation that every component relies on.

  \<^item> integers keep their width (\<open>u64 = 64 word\<close>); the saturating operations are written out;
  \<^item> a \<open>Duration\<close> is its number of nanoseconds, an \<open>Instant\<close> a signed nanosecond reading of the
    monotonic clock with the range of the 64-bit Unix representation;
  \<^item> a \<open>str\<close> is the list of its UTF-8 bytes;
  \<^item> a \<open>HashMap\<close> is a finite map, a \<open>BTreeSet\<close> the sorted list of its elements, a
    \<open>VecDeque\<close> a list whose head is the front.
\<close>

named_theorems std_simps \<open>unfolding of the modelled standard-library operations\<close>
named_theorems inv_intros \<open>preservation lemmas of the component invariants\<close>

type_synonym u8 = "8 word"
type_synonym u16 = "16 word"
type_synonym u32 = "32 word"
type_synonym u64 = "64 word"
type_synonym str = string
type_synonym usize = "64 word"

subsection \<open>Saturating arithmetic\<close>

definition sat_add :: "'a::len word \<Rightarrow> 'a word \<Rightarrow> 'a word" where
  "sat_add a b = (if unat a + unat b < 2 ^ LENGTH('a) then a + b else - 1)"

definition sat_sub :: "'a::len word \<Rightarrow> 'a word \<Rightarrow> 'a word" where
  "sat_sub a b = (if b \<le> a then a - b else 0)"

definition sat_mul :: "'a::len word \<Rightarrow> 'a word \<Rightarrow> 'a word" where
  "sat_mul a b = (if unat a * unat b < 2 ^ LENGTH('a) then a * b else - 1)"

definition sat_pow :: "'a::len word \<Rightarrow> nat \<Rightarrow> 'a word" where
  "sat_pow a n = (if unat a ^ n < 2 ^ LENGTH('a) then of_nat (unat a ^ n) else - 1)"

lemma unat_minus_one_word: "unat (- 1 :: 'a::len word) = 2 ^ LENGTH('a) - 1"
  by (simp add: unat_eq_nat_uint unsigned_minus_1_eq_mask mask_eq_exp_minus_1 nat_diff_distrib nat_power_eq)

lemma unat_less_word_size: "unat a < 2 ^ LENGTH('a)"
  for a :: "'a::len word"
  by (rule unsigned_less)

lemma unat_le_word_max: "unat a \<le> 2 ^ LENGTH('a) - 1"
  for a :: "'a::len word"
  using unat_less_word_size [of a] by linarith

lemma nat_le_pred: "(m::nat) < k \<Longrightarrow> m \<le> k - 1"
  by linarith

lemma unat_sat_add: "unat (sat_add a b) = min (unat a + unat b) (2 ^ LENGTH('a) - 1)"
  for a b :: "'a::len word"
  by (auto simp: sat_add_def unat_word_ariths unat_minus_one_word min_def)

lemma unat_sat_sub: "unat (sat_sub a b) = unat a - unat b"
  for a b :: "'a::len word"
  by (auto simp: sat_sub_def unat_sub word_le_nat_alt)

lemma unat_sat_mul: "unat (sat_mul a b) = min (unat a * unat b) (2 ^ LENGTH('a) - 1)"
  for a b :: "'a::len word"
  by (cases "unat a * unat b < 2 ^ LENGTH('a)")
    (simp_all add: sat_mul_def unat_word_ariths unat_minus_one_word min_absorb1 min_absorb2)

lemma unat_sat_pow: "unat (sat_pow a n) = min (unat a ^ n) (2 ^ LENGTH('a) - 1)"
  for a :: "'a::len word"
proof (cases "unat a ^ n < 2 ^ LENGTH('a)")
  case True
  then have "unat (of_nat (unat a ^ n) :: 'a word) = unat a ^ n"
    by (simp only: unat_of_nat mod_less)
  with True show ?thesis
    unfolding sat_pow_def by (simp only: if_True min_absorb1 less_imp_le_nat Suc_leI nat_le_pred)
next
  case False
  then show ?thesis
    by (simp add: sat_pow_def unat_minus_one_word min_absorb2)
qed


subsection \<open>Durations and instants\<close>

type_synonym duration = nat
type_synonym instant = int

definition nanos_per_sec :: nat where
  "nanos_per_sec = 1000000000"

definition nanos_per_milli :: nat where
  "nanos_per_milli = 1000000"

definition duration_max :: duration where
  "duration_max = (2 ^ 64 - 1) * nanos_per_sec + 999999999"

definition instant_max :: instant where
  "instant_max = (2 ^ 63 - 1) * 1000000000 + 999999999"

definition instant_min :: instant where
  "instant_min = - (2 ^ 63) * 1000000000"

definition from_secs :: "u64 \<Rightarrow> duration" where
  "from_secs s = unat s * nanos_per_sec"

definition from_millis :: "u64 \<Rightarrow> duration" where
  "from_millis m = unat m * nanos_per_milli"

definition as_secs :: "duration \<Rightarrow> u64" where
  "as_secs d = of_nat (d div nanos_per_sec)"

definition as_millis :: "duration \<Rightarrow> nat" where
  "as_millis d = d div nanos_per_milli"

text \<open>\<open>Instant::duration_since\<close> saturates to zero when the earlier reading is the later one.\<close>

definition duration_since :: "instant \<Rightarrow> instant \<Rightarrow> duration" where
  "duration_since now earlier = nat (now - earlier)"

definition instant_checked_add :: "instant \<Rightarrow> duration \<Rightarrow> instant option" where
  "instant_checked_add t d = (if t + int d \<le> instant_max then Some (t + int d) else None)"

definition instant_checked_sub :: "instant \<Rightarrow> duration \<Rightarrow> instant option" where
  "instant_checked_sub t d = (if instant_min \<le> t - int d then Some (t - int d) else None)"

definition duration_sat_mul :: "duration \<Rightarrow> u32 \<Rightarrow> duration" where
  "duration_sat_mul d n = min (d * unat n) duration_max"

lemmas time_defs [std_simps] =
  nanos_per_sec_def nanos_per_milli_def duration_since_def instant_checked_add_def
  instant_checked_sub_def instant_max_def instant_min_def

lemma instant_checked_add_Some:
  "instant_checked_add t d = Some t' \<Longrightarrow> t' = t + int d"
  by (simp add: instant_checked_add_def split: if_splits)

lemma instant_checked_add_ge:
  "instant_checked_add t d = Some t' \<Longrightarrow> t \<le> t'"
  by (auto dest: instant_checked_add_Some)

subsection \<open>Containers\<close>

text \<open>\<open>HashMap::len\<close>.\<close>

definition map_len :: "('k, 'v) fmap \<Rightarrow> nat" where
  "map_len m = fcard (fmdom m)"

lemma map_len_empty [simp]: "map_len fmempty = 0"
  by (simp add: map_len_def)

lemma map_len_upd: "map_len (fmupd k v m) = (if k |\<in>| fmdom m then map_len m else Suc (map_len m))"
  by (simp add: map_len_def fcard_finsert_if)

lemma map_len_drop: "map_len (fmdrop k m) = (if k |\<in>| fmdom m then map_len m - 1 else map_len m)"
  by (simp add: map_len_def fcard_fminus_fsingleton)

lemma map_len_drop_le: "map_len (fmdrop k m) \<le> map_len m"
  by (simp add: map_len_drop)

lemma map_len_filter_le: "map_len (fmfilter P m) \<le> map_len m"
  by (auto simp: map_len_def intro!: fcard_mono)

text \<open>
  A \<open>BTreeSet\<close> is the strictly increasing list of its elements: \<open>first\<close> is the head,
  \<open>pop_first\<close> the tail.
\<close>

definition bt_insert :: "'a::linorder \<Rightarrow> 'a list \<Rightarrow> 'a list" where
  "bt_insert = insort_insert"

definition bt_remove :: "'a \<Rightarrow> 'a list \<Rightarrow> 'a list" where
  "bt_remove = remove1"

definition bt_wf :: "'a::linorder list \<Rightarrow> bool" where
  "bt_wf xs \<longleftrightarrow> sorted xs \<and> distinct xs"

lemma bt_wf_Nil [simp, intro]: "bt_wf []"
  by (simp add: bt_wf_def)

lemma bt_wf_insert [intro]: "bt_wf xs \<Longrightarrow> bt_wf (bt_insert x xs)"
  by (simp add: bt_wf_def bt_insert_def sorted_insort_insert distinct_insort_insert)

lemma bt_wf_remove [intro]: "bt_wf xs \<Longrightarrow> bt_wf (bt_remove x xs)"
  by (simp add: bt_wf_def bt_remove_def sorted_remove1)

lemma set_bt_insert [simp]: "set (bt_insert x xs) = insert x (set xs)"
  by (simp add: bt_insert_def set_insort_insert)

lemma set_bt_remove: "bt_wf xs \<Longrightarrow> set (bt_remove x xs) = set xs - {x}"
  by (simp add: bt_wf_def bt_remove_def)

text \<open>A bounded \<open>VecDeque\<close> used as a ring: drop the front element when full, then push.\<close>

definition push_bounded :: "nat \<Rightarrow> 'a list \<Rightarrow> 'a \<Rightarrow> 'a list" where
  "push_bounded cap q x = (if cap \<le> length q then tl q else q) @ [x]"

lemma length_push_bounded: "length q \<le> max 1 cap \<Longrightarrow> length (push_bounded cap q x) \<le> max 1 cap"
  by (auto simp: push_bounded_def)

end
