(* ===== verification/Text_Lib.thy ===== *)
theory Text_Lib
  imports Prelude
begin

text \<open>
  The string operations of the Rust standard library that the program uses, over the UTF-8
  bytes of a string: prefixes, splitting, trimming, ASCII case, decimal and hexadecimal numbers.
  The lemmas characterise each (what \<open>split_once\<close> finds, when \<open>trim\<close> changes nothing, that
  parsing a printed number gives the number back).
\<close>

subsection \<open>Strings\<close>

definition char_code :: "char \<Rightarrow> nat" where
  "char_code c = of_char c"

definition bytes_str :: "nat list \<Rightarrow> str" where
  "bytes_str = map char_of"

definition is_ascii_digit :: "char \<Rightarrow> bool" where
  "is_ascii_digit c \<longleftrightarrow> 48 \<le> char_code c \<and> char_code c \<le> 57"

definition is_ascii_upper :: "char \<Rightarrow> bool" where
  "is_ascii_upper c \<longleftrightarrow> 65 \<le> char_code c \<and> char_code c \<le> 90"

definition is_ascii_alphanumeric :: "char \<Rightarrow> bool" where
  "is_ascii_alphanumeric c \<longleftrightarrow> is_ascii_digit c \<or> is_ascii_upper c
     \<or> (97 \<le> char_code c \<and> char_code c \<le> 122)"

definition lower_char :: "char \<Rightarrow> char" where
  "lower_char c = (if is_ascii_upper c then char_of (char_code c + 32) else c)"

text \<open>\<open>str::to_ascii_lowercase\<close> and \<open>str::eq_ignore_ascii_case\<close>.\<close>

definition ascii_lower :: "str \<Rightarrow> str" where
  "ascii_lower = map lower_char"

definition eq_ignore_case :: "str \<Rightarrow> str \<Rightarrow> bool" where
  "eq_ignore_case a b \<longleftrightarrow> ascii_lower a = ascii_lower b"

text \<open>\<open>strip_prefix p s\<close>: the rest of \<open>s\<close> after \<open>p\<close>, if \<open>s\<close> starts with \<open>p\<close>.\<close>

fun strip_prefix :: "str \<Rightarrow> str \<Rightarrow> str option" where
  "strip_prefix [] s = Some s"
| "strip_prefix (p # ps) [] = None"
| "strip_prefix (p # ps) (c # cs) = (if p = c then strip_prefix ps cs else None)"

definition starts_with :: "str \<Rightarrow> str \<Rightarrow> bool" where
  "starts_with s p \<longleftrightarrow> strip_prefix p s \<noteq> None"

definition ends_with :: "str \<Rightarrow> str \<Rightarrow> bool" where
  "ends_with s p \<longleftrightarrow> starts_with (rev s) (rev p)"

text \<open>\<open>str::split\<close> with a character predicate: always at least one piece.\<close>

fun split_by :: "(char \<Rightarrow> bool) \<Rightarrow> str \<Rightarrow> str list" where
  "split_by P [] = [[]]"
| "split_by P (c # cs) =
     (if P c then [] # split_by P cs
      else (case split_by P cs of [] \<Rightarrow> [[c]] | p # ps \<Rightarrow> (c # p) # ps))"

definition split_on :: "char \<Rightarrow> str \<Rightarrow> str list" where
  "split_on c = split_by (\<lambda>x. x = c)"

fun split_once :: "char \<Rightarrow> str \<Rightarrow> (str \<times> str) option" where
  "split_once c [] = None"
| "split_once c (x # xs) =
     (if x = c then Some ([], xs)
      else map_option (\<lambda>(a, b). (x # a, b)) (split_once c xs))"

definition trim_start_matches :: "char \<Rightarrow> str \<Rightarrow> str" where
  "trim_start_matches c = dropWhile (\<lambda>x. x = c)"

definition trim_end_matches :: "char \<Rightarrow> str \<Rightarrow> str" where
  "trim_end_matches c s = rev (dropWhile (\<lambda>x. x = c) (rev s))"

text \<open>
  \<open>str::trim\<close> removes the characters with the Unicode property White_Space; over UTF-8 bytes
  these are the following byte sequences.
\<close>

definition white_space :: "str list" where
  "white_space = map bytes_str
     ([[9], [10], [11], [12], [13], [32], [0xC2, 0x85], [0xC2, 0xA0], [0xE1, 0x9A, 0x80],
       [0xE2, 0x80, 0xA8], [0xE2, 0x80, 0xA9], [0xE2, 0x80, 0xAF], [0xE2, 0x81, 0x9F],
       [0xE3, 0x80, 0x80]] @ map (\<lambda>n. [0xE2, 0x80, n]) [0x80..<0x8B])"

fun strip_any :: "str list \<Rightarrow> str \<Rightarrow> str option" where
  "strip_any [] s = None"
| "strip_any ([] # ps) s = strip_any ps s"
| "strip_any ((c # p) # ps) s =
     (case strip_prefix (c # p) s of Some r \<Rightarrow> Some r | None \<Rightarrow> strip_any ps s)"

lemma strip_prefix_length: "strip_prefix p s = Some r \<Longrightarrow> length s = length p + length r"
  by (induction p s rule: strip_prefix.induct) (auto split: if_splits)

lemma strip_any_length: "strip_any ps s = Some r \<Longrightarrow> length r < length s"
  by (induction ps s rule: strip_any.induct)
    (auto split: option.splits dest: strip_prefix_length simp del: strip_prefix.simps)

function trim_with :: "str list \<Rightarrow> str \<Rightarrow> str" where
  "trim_with ws s = (case strip_any ws s of None \<Rightarrow> s | Some r \<Rightarrow> trim_with ws r)"
  by pat_completeness auto
termination
  by (relation "measure (\<lambda>(ws, s). length s)") (auto dest: strip_any_length)

declare trim_with.simps [simp del]

definition trim_start :: "str \<Rightarrow> str" where
  "trim_start = trim_with white_space"

definition trim_end :: "str \<Rightarrow> str" where
  "trim_end s = rev (trim_with (map rev white_space) (rev s))"

definition trim :: "str \<Rightarrow> str" where
  "trim s = trim_end (trim_start s)"

lemma trim_with_length: "length (trim_with ws s) \<le> length s"
proof (induction ws s rule: trim_with.induct)
  case (1 ws s)
  then show ?case
    by (subst trim_with.simps) (fastforce split: option.splits dest: strip_any_length)
qed

lemma trim_length: "length (trim s) \<le> length s"
  using trim_with_length [of "map rev white_space" "rev (trim_with white_space s)"]
    trim_with_length [of white_space s]
  by (simp add: trim_def trim_end_def trim_start_def)

lemma strip_any_None:
  "(\<And>p. p \<in> set ws \<Longrightarrow> p \<noteq> [] \<Longrightarrow> hd p \<noteq> c) \<Longrightarrow> strip_any ws (c # cs) = None"
proof (induction ws)
  case (Cons p ws)
  show ?case
  proof (cases p)
    case Nil
    with Cons show ?thesis by auto
  next
    case (Cons d q)
    then have "d \<noteq> c" using Cons.prems [of p] by auto
    with Cons Cons.IH Cons.prems show ?thesis by auto
  qed
qed simp

text \<open>Strings that start and end with a visible ASCII character are their own trimming.\<close>

definition visible :: "char \<Rightarrow> bool" where
  "visible c \<longleftrightarrow> 33 \<le> char_code c \<and> char_code c \<le> 126"

lemma white_space_not_visible:
  "list_all (\<lambda>p. p \<noteq> [] \<and> \<not> visible (hd p) \<and> \<not> visible (last p)) white_space"
  by (simp add: white_space_def bytes_str_def visible_def char_code_def upt_rec)

lemma strip_any_single:
  assumes "[c] \<in> set ws" "\<And>p. p \<in> set ws \<Longrightarrow> p \<noteq> [] \<Longrightarrow> hd p = c \<Longrightarrow> p = [c]"
  shows "strip_any ws (c # cs) = Some cs"
  using assms
proof (induction ws)
  case (Cons p ws)
  have IH: "p \<noteq> [c] \<Longrightarrow> strip_any ws (c # cs) = Some cs"
    using Cons.prems by (intro Cons.IH) auto
  show ?case
  proof (cases p)
    case Nil
    with IH show ?thesis by simp
  next
    case p: (Cons d q)
    show ?thesis
    proof (cases "p = [c]")
      case False
      then have "d \<noteq> c" using Cons.prems(2) [of p] p by auto
      with IH [OF False] p show ?thesis by simp
    qed (use p in auto)
  qed
qed simp

lemma char_of_blank: "char_of n = CHR '' '' \<longleftrightarrow> n mod 256 = (32 :: nat)"
proof
  assume "char_of n = CHR '' ''"
  then have "of_char (char_of n) = (of_char CHR '' '' :: nat)" by (rule arg_cong)
  then show "n mod 256 = 32" by simp
next
  assume "n mod 256 = 32"
  then have "char_of n = char_of (32 :: nat)" by (metis char_of_mod_256)
  moreover have "char_of (32 :: nat) = CHR '' ''" by code_simp
  ultimately show "char_of n = CHR '' ''" by (rule trans)
qed

lemma space_in_white_space:
  "list_all (\<lambda>p. hd p = CHR '' '' \<longrightarrow> p = [CHR '' '']) white_space" "[CHR '' ''] \<in> set white_space"
  by (simp_all add: white_space_def bytes_str_def upt_rec char_of_blank eq_commute [of "CHR '' ''"])

text \<open>A blank in front is trimmed.\<close>

lemma trim_blank: "trim (CHR '' '' # s) = trim s"
proof -
  have "strip_any white_space (CHR '' '' # s) = Some s"
    using space_in_white_space unfolding list_all_iff by (intro strip_any_single) blast+
  then have "trim_with white_space (CHR '' '' # s) = trim_with white_space s"
    by (subst trim_with.simps) (simp only: option.case)
  then have "trim_start (CHR '' '' # s) = trim_start s" by (simp add: trim_start_def)
  then show ?thesis by (simp add: trim_def)
qed

lemma trim_start_visible: "visible c \<Longrightarrow> trim_start (c # cs) = c # cs"
proof -
  assume c: "visible c"
  have "strip_any white_space (c # cs) = None"
    using white_space_not_visible c by (intro strip_any_None) (auto simp: list_all_iff)
  then show ?thesis by (subst trim_start_def, subst trim_with.simps) simp
qed

lemma trim_end_visible: "visible c \<Longrightarrow> trim_end (cs @ [c]) = cs @ [c]"
proof -
  assume c: "visible c"
  have "strip_any (map rev white_space) (c # rev cs) = None"
    using white_space_not_visible c
    by (intro strip_any_None) (auto simp: list_all_iff hd_rev)
  then show ?thesis by (subst trim_end_def, subst trim_with.simps) simp
qed

lemma trim_visible:
  assumes "s \<noteq> []" "visible (hd s)" "visible (last s)"
  shows "trim s = s"
proof -
  have "trim_start s = s" using assms by (cases s) (auto simp: trim_start_visible)
  moreover have "trim_end s = s"
    using assms trim_end_visible [of "last s" "butlast s"] by simp
  ultimately show ?thesis by (simp add: trim_def)
qed

lemma trim_Nil [simp]: "trim [] = []"
  using trim_length [of "[]"] by simp

lemma split_by_nonempty [simp]: "split_by P s \<noteq> []"
  by (induction P s rule: split_by.induct) (auto split: list.splits)

lemma split_by_pieces: "piece \<in> set (split_by P s) \<Longrightarrow> c \<in> set piece \<Longrightarrow> \<not> P c"
proof (induction P s arbitrary: piece rule: split_by.induct)
  case (2 P x xs)
  show ?case
  proof (cases "P x")
    case True
    with 2 show ?thesis by auto
  next
    case False
    obtain p ps where s: "split_by P xs = p # ps"
      by (meson neq_Nil_conv split_by_nonempty)
    from 2(3) False s consider "piece = x # p" | "piece \<in> set ps" by auto
    then show ?thesis using 2(2)[OF False] 2(4) False s by cases auto
  qed
qed simp

lemma split_once_Some: "split_once c s = Some (a, b) \<longleftrightarrow> s = a @ c # b \<and> c \<notin> set a"
proof (induction c s arbitrary: a rule: split_once.induct)
  case (2 c x xs)
  then show ?case by (cases a) auto
qed simp

lemma split_once_None: "split_once c s = None \<longleftrightarrow> c \<notin> set s"
  by (induction c s rule: split_once.induct) auto

lemma starts_with_iff: "starts_with s p \<longleftrightarrow> (\<exists>r. s = p @ r)"
  unfolding starts_with_def by (induction p s rule: strip_prefix.induct) auto

lemma strip_prefix_Some: "strip_prefix p s = Some r \<longleftrightarrow> s = p @ r"
  by (induction p s rule: strip_prefix.induct) auto

lemma ends_with_singleton: "ends_with s [c] \<longleftrightarrow> s \<noteq> [] \<and> last s = c"
  by (cases s rule: rev_cases) (auto simp: ends_with_def starts_with_iff)

subsection \<open>Numbers as text\<close>

definition digit_char :: "nat \<Rightarrow> char" where
  "digit_char d = char_of (if d < 10 then 48 + d else 87 + d)"

fun show_nat :: "nat \<Rightarrow> str" where
  "show_nat n = (if n < 10 then [digit_char n] else show_nat (n div 10) @ [digit_char (n mod 10)])"

fun show_hex :: "nat \<Rightarrow> str" where
  "show_hex n = (if n < 16 then [digit_char n] else show_hex (n div 16) @ [digit_char (n mod 16)])"

declare show_nat.simps [simp del] show_hex.simps [simp del]

text \<open>\<open>{:0wx}\<close> pads with zeros on the left up to the width.\<close>

definition pad_zeros :: "nat \<Rightarrow> str \<Rightarrow> str" where
  "pad_zeros w s = replicate (w - length s) CHR ''0'' @ s"

fun digits_value :: "nat \<Rightarrow> str \<Rightarrow> nat" where
  "digits_value acc [] = acc"
| "digits_value acc (c # cs) = digits_value (acc * 10 + (char_code c - 48)) cs"

text \<open>
  \<open>str::parse\<close> of an unsigned integer whose largest value is \<open>m\<close>: an optional plus sign, at
  least one digit, no overflow.
\<close>

definition parse_unsigned :: "nat \<Rightarrow> str \<Rightarrow> nat option" where
  "parse_unsigned m s =
     (let ds = (case s of c # cs \<Rightarrow> if c = CHR ''+'' then cs else s | [] \<Rightarrow> s)
      in if ds \<noteq> [] \<and> list_all is_ascii_digit ds \<and> digits_value 0 ds \<le> m
         then Some (digits_value 0 ds) else None)"

definition parse_u64 :: "str \<Rightarrow> u64 option" where
  "parse_u64 s = map_option of_nat (parse_unsigned (2 ^ 64 - 1) s)"

lemma digits_value_append: "digits_value acc (a @ b) = digits_value (digits_value acc a) b"
  by (induction a arbitrary: acc) auto

lemma char_code_digit: "d < 10 \<Longrightarrow> char_code (digit_char d) = 48 + d"
  by (simp add: char_code_def digit_char_def)

lemma show_nat_nonempty [simp]: "show_nat n \<noteq> []"
  by (subst show_nat.simps) simp

lemma digit_char_is_digit: "d < 10 \<Longrightarrow> is_ascii_digit (digit_char d)"
  by (simp add: is_ascii_digit_def char_code_digit)

lemma show_nat_digits: "list_all is_ascii_digit (show_nat n)"
proof (induction n rule: show_nat.induct)
  case (1 n)
  then show ?case
    by (subst show_nat.simps) (simp add: digit_char_is_digit)
qed

lemma digits_value_show_nat: "digits_value 0 (show_nat n) = n"
proof (induction n rule: show_nat.induct)
  case (1 n)
  then show ?case
    by (subst show_nat.simps) (auto simp: digits_value_append char_code_digit)
qed

lemma show_nat_head_not_plus: "show_nat n = c # cs \<Longrightarrow> c \<noteq> CHR ''+''"
  using show_nat_digits [of n] by (auto simp: is_ascii_digit_def char_code_def)

lemma parse_unsigned_show_nat: "n \<le> m \<Longrightarrow> parse_unsigned m (show_nat n) = Some n"
  using show_nat_digits [of n] show_nat_head_not_plus [of n] digits_value_show_nat [of n]
  by (auto simp: parse_unsigned_def Let_def split: list.splits simp del: digits_value.simps)

lemma show_nat_inject [simp]: "show_nat a = show_nat b \<longleftrightarrow> a = b"
  by (metis digits_value_show_nat)

lemma digits_value_zeros: "digits_value acc (replicate n CHR ''0'') = acc * 10 ^ n"
  by (induction n arbitrary: acc) (simp_all add: char_code_def)

lemma digits_value_drop_zeros: "digits_value 0 (dropWhile (\<lambda>x. x = CHR ''0'') ds) = digits_value 0 ds"
  by (induction ds) (simp_all add: char_code_def)

lemma digit_char_code: "is_ascii_digit c \<Longrightarrow> digit_char (char_code c - 48) = c"
  by (cases "char_code c - 48 < 10") (auto simp: digit_char_def is_ascii_digit_def char_code_def)

lemma digits_value_mono: "acc \<le> digits_value acc ds"
proof (induction ds arbitrary: acc)
  case (Cons c ds)
  have "acc \<le> acc * 10 + (char_code c - 48)" by simp
  also have "\<dots> \<le> digits_value (acc * 10 + (char_code c - 48)) ds" by (rule Cons.IH)
  finally show ?case by simp
qed simp

lemma digit_char_0: "digit_char 0 = CHR ''0''"
  by code_simp

lemma digit_zero_iff: "is_ascii_digit c \<Longrightarrow> char_code c - 48 = 0 \<longleftrightarrow> c = CHR ''0''"
proof -
  assume c: "is_ascii_digit c"
  have "char_code c - 48 = 0 \<Longrightarrow> c = CHR ''0''"
    using digit_char_code [OF c] digit_char_0 by metis
  then show ?thesis by (auto simp: char_code_def)
qed

text \<open>A digit string without a leading zero is the decimal print of its value.\<close>

lemma digits_value_pos:
  "ds \<noteq> [] \<Longrightarrow> is_ascii_digit (hd ds) \<Longrightarrow> hd ds \<noteq> CHR ''0'' \<Longrightarrow> 0 < digits_value 0 ds"
  using digit_zero_iff [of "hd ds"] digits_value_mono [of "char_code (hd ds) - 48" "tl ds"]
  by (cases ds) auto

lemma show_nat_digits_value:
  assumes "ds \<noteq> []" "list_all is_ascii_digit ds" "hd ds \<noteq> CHR ''0''"
  shows "show_nat (digits_value 0 ds) = ds"
  using assms
proof (induction ds rule: rev_induct)
  case (snoc c ds)
  have c: "is_ascii_digit c" using snoc.prems by simp
  have lt: "char_code c - 48 < 10" using c by (auto simp: is_ascii_digit_def)
  show ?case
  proof (cases "ds = []")
    case True
    then show ?thesis using c lt by (subst show_nat.simps) (simp add: digit_char_code)
  next
    case False
    then have pos: "0 < digits_value 0 ds"
      using snoc.prems by (intro digits_value_pos) (auto simp: hd_append neq_Nil_conv)
    have IH: "show_nat (digits_value 0 ds) = ds"
      using snoc False by (simp add: hd_append)
    show ?thesis
      using pos lt c IH by (subst show_nat.simps) (simp add: digits_value_append digit_char_code)
  qed
qed simp

lemma parse_u64_show_nat: "parse_u64 (show_nat (unat w)) = Some w"
  using unat_le_word_max [of w] by (simp add: parse_u64_def parse_unsigned_show_nat)

text \<open>Evaluation of string operations on literals.\<close>

lemma digit_chars:
  "digit_char 0 = CHR ''0''"
  "digit_char 1 = CHR ''1''"
  "digit_char 2 = CHR ''2''"
  "digit_char 3 = CHR ''3''"
  "digit_char 4 = CHR ''4''"
  "digit_char 5 = CHR ''5''"
  "digit_char 6 = CHR ''6''"
  "digit_char 7 = CHR ''7''"
  "digit_char 8 = CHR ''8''"
  "digit_char 9 = CHR ''9''"
  "digit_char 10 = CHR ''a''"
  "digit_char 11 = CHR ''b''"
  "digit_char 12 = CHR ''c''"
  "digit_char 13 = CHR ''d''"
  "digit_char 14 = CHR ''e''"
  "digit_char 15 = CHR ''f''"
  by code_simp+

lemma lower_case_codes:
  "char_of (97 :: nat) = CHR ''a''"
  "char_of (98 :: nat) = CHR ''b''"
  "char_of (99 :: nat) = CHR ''c''"
  "char_of (100 :: nat) = CHR ''d''"
  "char_of (101 :: nat) = CHR ''e''"
  "char_of (102 :: nat) = CHR ''f''"
  "char_of (103 :: nat) = CHR ''g''"
  "char_of (104 :: nat) = CHR ''h''"
  "char_of (105 :: nat) = CHR ''i''"
  "char_of (106 :: nat) = CHR ''j''"
  "char_of (107 :: nat) = CHR ''k''"
  "char_of (108 :: nat) = CHR ''l''"
  "char_of (109 :: nat) = CHR ''m''"
  "char_of (110 :: nat) = CHR ''n''"
  "char_of (111 :: nat) = CHR ''o''"
  "char_of (112 :: nat) = CHR ''p''"
  "char_of (113 :: nat) = CHR ''q''"
  "char_of (114 :: nat) = CHR ''r''"
  "char_of (115 :: nat) = CHR ''s''"
  "char_of (116 :: nat) = CHR ''t''"
  "char_of (117 :: nat) = CHR ''u''"
  "char_of (118 :: nat) = CHR ''v''"
  "char_of (119 :: nat) = CHR ''w''"
  "char_of (120 :: nat) = CHR ''x''"
  "char_of (121 :: nat) = CHR ''y''"
  "char_of (122 :: nat) = CHR ''z''"
  by code_simp+

lemmas text_eval = digit_chars lower_case_codes
  visible_def char_code_def is_ascii_digit_def is_ascii_upper_def starts_with_def
  ends_with_def ascii_lower_def lower_char_def bit_Suc_0_iff

end
