(* ===== verification/Json.thy ===== *)
theory Json
  imports Text_Lib
begin

text \<open>
  JSON documents as the crate handles them, and the derived (de)serialisation of its structs.

  A \<open>json\<close> is a document tree: the fields of an object in document order, duplicates kept.
  A \<open>serde_json::Value\<close> is a document in canonical form, \<open>canon\<close>: object keys sorted, the
  last of several equal keys winning, as in the sorted map of \<open>serde_json\<close>. Numbers keep the
  three representations of \<open>serde_json::Number\<close>; a float is its IEEE-754 bit pattern.

  Text and bytes are not parsed here: printing and parsing of document text belong to the
  package \<open>serde_json\<close> and enter the model as parameters (theory \<open>Externals\<close>).
\<close>

datatype number = PosInt u64 | NegInt int | FloatBits u64

datatype json =
    JNull
  | JBool bool
  | JNum number
  | JStr str
  | JArr "json list"
  | JObj "(str \<times> json) list"

subsection \<open>Values: canonical documents\<close>

fun obj_insert :: "str \<Rightarrow> json \<Rightarrow> (str \<times> json) list \<Rightarrow> (str \<times> json) list" where
  "obj_insert k v [] = [(k, v)]"
| "obj_insert k v ((k', v') # r) =
     (if k = k' then (k, v) # r
      else if k < k' then (k, v) # (k', v') # r
      else (k', v') # obj_insert k v r)"

fun canon :: "json \<Rightarrow> json"
  and canon_list :: "json list \<Rightarrow> json list"
  and canon_fields :: "(str \<times> json) list \<Rightarrow> (str \<times> json) list \<Rightarrow> (str \<times> json) list" where
  "canon JNull = JNull"
| "canon (JBool b) = JBool b"
| "canon (JNum n) = JNum n"
| "canon (JStr s) = JStr s"
| "canon (JArr xs) = JArr (canon_list xs)"
| "canon (JObj fs) = JObj (canon_fields [] fs)"
| "canon_list [] = []"
| "canon_list (x # xs) = canon x # canon_list xs"
| "canon_fields acc [] = acc"
| "canon_fields acc ((k, v) # fs) = canon_fields (obj_insert k (canon v) acc) fs"

lemma map_of_obj_insert: "map_of (obj_insert k v fs) = (map_of fs)(k \<mapsto> v)"
  by (induction k v fs rule: obj_insert.induct) (auto simp: fun_eq_iff)

text \<open>Key lookup in a canonical object sees the last duplicate of the document.\<close>

lemma map_of_canon_fields:
  "map_of (canon_fields acc fs) k
     = (case map_of (rev fs) k of Some v \<Rightarrow> Some (canon v) | None \<Rightarrow> map_of acc k)"
  by (induction fs arbitrary: acc)
    (auto simp: map_of_obj_insert map_add_def split: option.splits)

text \<open>\<open>Value::get\<close>, \<open>Value::as_str\<close>, \<open>Value::as_u64\<close>.\<close>

fun jget :: "str \<Rightarrow> json \<Rightarrow> json option" where
  "jget k (JObj fs) = map_of fs k"
| "jget k _ = None"

fun as_str :: "json \<Rightarrow> str option" where
  "as_str (JStr s) = Some s"
| "as_str _ = None"

fun as_u64 :: "json \<Rightarrow> u64 option" where
  "as_u64 (JNum (PosInt n)) = Some n"
| "as_u64 _ = None"

subsection \<open>Derived deserialisation\<close>

text \<open>
  A derived struct accepts an object (known names at most once, unknown names ignored) or the
  positional array form (at most as many elements as fields). The result maps a field name to
  its document, if present.
\<close>

definition struct_fields :: "str list \<Rightarrow> json \<Rightarrow> (str \<Rightarrow> json option) option" where
  "struct_fields names j =
     (case j of
        JObj fs \<Rightarrow> if distinct (filter (\<lambda>k. k \<in> set names) (map fst fs))
                   then Some (map_of (filter (\<lambda>(k, _). k \<in> set names) fs)) else None
      | JArr xs \<Rightarrow> if length xs \<le> length names then Some (map_of (zip names xs)) else None
      | _ \<Rightarrow> None)"

fun de_string :: "json \<Rightarrow> str option" where
  "de_string (JStr s) = Some s"
| "de_string _ = None"

fun de_bool :: "json \<Rightarrow> bool option" where
  "de_bool (JBool b) = Some b"
| "de_bool _ = None"

fun de_u64 :: "json \<Rightarrow> u64 option" where
  "de_u64 (JNum (PosInt n)) = Some n"
| "de_u64 _ = None"

fun de_u32 :: "json \<Rightarrow> u32 option" where
  "de_u32 (JNum (PosInt n)) = (if unat n < 2 ^ 32 then Some (ucast n) else None)"
| "de_u32 _ = None"

definition de_value :: "json \<Rightarrow> json option" where
  "de_value j = Some (canon j)"

fun de_list :: "(json \<Rightarrow> 'a option) \<Rightarrow> json list \<Rightarrow> 'a list option" where
  "de_list f [] = Some []"
| "de_list f (x # xs) =
     (case f x of None \<Rightarrow> None | Some y \<Rightarrow> map_option ((#) y) (de_list f xs))"

definition de_vec :: "(json \<Rightarrow> 'a option) \<Rightarrow> json \<Rightarrow> 'a list option" where
  "de_vec f j = (case j of JArr xs \<Rightarrow> de_list f xs | _ \<Rightarrow> None)"

text \<open>A required field, and an \<open>Option\<close> field with \<open>default\<close>: absent and \<open>null\<close> are \<open>None\<close>.\<close>

definition req_field :: "(str \<Rightarrow> json option) \<Rightarrow> str \<Rightarrow> (json \<Rightarrow> 'a option) \<Rightarrow> 'a option" where
  "req_field m k f = (case m k of None \<Rightarrow> None | Some j \<Rightarrow> f j)"

definition opt_field :: "(str \<Rightarrow> json option) \<Rightarrow> str \<Rightarrow> (json \<Rightarrow> 'a option) \<Rightarrow> 'a option option" where
  "opt_field m k f =
     (case m k of None \<Rightarrow> Some None
      | Some j \<Rightarrow> if j = JNull then Some None else map_option Some (f j))"

text \<open>\<open>skip_serializing_if = "Option::is_none"\<close>.\<close>

definition opt_entry :: "str \<Rightarrow> ('a \<Rightarrow> json) \<Rightarrow> 'a option \<Rightarrow> (str \<times> json) list" where
  "opt_entry k f x = (case x of None \<Rightarrow> [] | Some y \<Rightarrow> [(k, f y)])"

definition ser_u32 :: "u32 \<Rightarrow> json" where
  "ser_u32 n = JNum (PosInt (ucast n))"

lemma unat_ucast_u32_u64: "unat (ucast (n :: u32) :: u64) = unat n"
  by transfer (simp add: take_bit_int_eq_self_iff min_def)

lemma ucast_ucast_u32: "ucast (ucast (n :: u32) :: u64) = n"
  by transfer simp

lemma de_u32_ser_u32 [simp]: "de_u32 (ser_u32 n) = Some n"
  using unat_less_word_size [of n]
  by (simp add: ser_u32_def unat_ucast_u32_u64 ucast_ucast_u32)

lemma de_list_map: "(\<And>x. x \<in> set xs \<Longrightarrow> f (g x) = Some x) \<Longrightarrow> de_list f (map g xs) = Some xs"
  by (induction xs) auto

lemmas serde_defs = struct_fields_def req_field_def opt_field_def opt_entry_def de_vec_def de_value_def

end
