(* ===== verification/Kite.thy ===== *)
theory Kite
  imports Json
begin

text \<open>
  Kite networks and the price parser (\<open>kite-x402-axum/src/kite.rs\<close>). \<open>parse_price\<close> is the
  integer string arithmetic of the source; \<open>None\<close> is the arithmetic panic the source reaches
  only for strings of four gigabytes (the length is cast to \<open>u32\<close> before it is compared).

  The lemmas show that the hand-written character loop accepts exactly the decimals
  \<open>digits [. digits]\<close>, and that a parsed price is the exact number of smallest units.
\<close>

datatype kite_error =
    UnknownNetwork str
  | InvalidPrice str
  | TooManyDecimals str u32 str
  | BelowOneUnit str str

record kite_chain =
  kc_network :: str
  kc_rpc_url :: str
  kc_asset_address :: str
  kc_asset_symbol :: str
  kc_asset_decimals :: u32
  kc_eip712_name :: str
  kc_eip712_version :: str

definition KITE_MAINNET :: kite_chain where
  "KITE_MAINNET = \<lparr>
     kc_network = ''eip155:2366'',
     kc_rpc_url = ''https://rpc.gokite.ai'',
     kc_asset_address = ''0x7aB6f3ed87C42eF0aDb67Ed95090f8bF5240149e'',
     kc_asset_symbol = ''USDC.e'',
     kc_asset_decimals = 6,
     kc_eip712_name = ''Bridged USDC (Kite AI)'',
     kc_eip712_version = ''2''\<rparr>"

definition KITE_TESTNET :: kite_chain where
  "KITE_TESTNET = \<lparr>
     kc_network = ''eip155:2368'',
     kc_rpc_url = ''https://rpc-testnet.gokite.ai'',
     kc_asset_address = ''0x38129cf4CE5E183eFF248F42A7D345Bb1B47621A'',
     kc_asset_symbol = ''pieUSD'',
     kc_asset_decimals = 18,
     kc_eip712_name = ''pieUSD'',
     kc_eip712_version = ''1''\<rparr>"

definition FACILITATOR_URL :: str where
  "FACILITATOR_URL = ''https://facilitator.pieverse.io/v2''"

definition kite_chain_by_name :: "str \<Rightarrow> kite_error + kite_chain" where
  "kite_chain_by_name name =
     (let t = trim name in
      if t = '''' \<or> t = ''mainnet'' then Inr KITE_MAINNET
      else if t = ''testnet'' then Inr KITE_TESTNET
      else Inl (UnknownNetwork t))"

record asset_amount =
  aa_asset :: str
  aa_amount :: str
  aa_extra :: json

text \<open>
  The character loop: \<open>None\<close> is its \<open>return false\<close>, otherwise the final value of \<open>has_digit\<close>.
\<close>

fun decimal_loop :: "nat \<Rightarrow> bool \<Rightarrow> bool \<Rightarrow> str \<Rightarrow> bool option" where
  "decimal_loop i seen_dot has_digit [] = Some has_digit"
| "decimal_loop i seen_dot has_digit (c # cs) =
     (if c = CHR ''.'' then
        (if seen_dot \<or> i = 0 then None else decimal_loop (Suc i) True has_digit cs)
      else if is_ascii_digit c then decimal_loop (Suc i) seen_dot True cs
      else None)"

definition is_plain_positive_decimal :: "str \<Rightarrow> bool" where
  "is_plain_positive_decimal s =
     (if s = [] then False
      else case decimal_loop 0 False False s of
             None \<Rightarrow> False
           | Some has_digit \<Rightarrow> has_digit \<and> \<not> ends_with s ''.'')"

definition price_text :: "str \<Rightarrow> str" where
  "price_text price_usd =
     (let trimmed = trim price_usd
      in case strip_prefix ''$'' trimmed of Some r \<Rightarrow> r | None \<Rightarrow> trimmed)"

definition price_parts :: "str \<Rightarrow> str \<times> str" where
  "price_parts text =
     (case split_once (CHR ''.'') text of Some (w, f) \<Rightarrow> (w, f) | None \<Rightarrow> (text, ''''))"

text \<open>Leading zeros dropped, the empty rest written as zero.\<close>

definition normalized_units :: "str \<Rightarrow> str" where
  "normalized_units ds =
     (let units = trim_start_matches CHR ''0'' ds in if units = [] then ''0'' else units)"

definition parse_price :: "kite_chain \<Rightarrow> str \<Rightarrow> (kite_error + asset_amount) option" where
  "parse_price chain price_usd =
     (let text = price_text price_usd
      in if \<not> is_plain_positive_decimal text then Some (Inl (InvalidPrice price_usd))
         else
           let (whole, frac) = price_parts text
           in if kc_asset_decimals chain < of_nat (length frac)
              then Some (Inl (TooManyDecimals text (kc_asset_decimals chain) (kc_asset_symbol chain)))
              else if unat (kc_asset_decimals chain) < length frac then None
              else
                let pad = unat (kc_asset_decimals chain) - length frac;
                    digits = whole @ frac @ replicate pad CHR ''0'';
                    units = normalized_units digits
                in if units = ''0''
                   then Some (Inl (BelowOneUnit price_usd (kc_asset_symbol chain)))
                   else Some (Inr \<lparr>aa_asset = kc_asset_address chain, aa_amount = units,
                        aa_extra = JObj [(''name'', JStr (kc_eip712_name chain)),
                                         (''version'', JStr (kc_eip712_version chain))]\<rparr>))"

subsection \<open>What the character loop accepts\<close>

abbreviation digits :: "str \<Rightarrow> bool" where
  "digits \<equiv> list_all is_ascii_digit"

text \<open>The grammar \<open>^\d+(\.\d+)?$\<close> of the comment above the loop.\<close>

definition plain_decimal :: "str \<Rightarrow> bool" where
  "plain_decimal s \<longleftrightarrow>
     (\<exists>w f. w \<noteq> [] \<and> digits w \<and> (s = w \<or> (f \<noteq> [] \<and> digits f \<and> s = w @ ''.'' @ f)))"

lemma dot_not_digit [simp]: "\<not> is_ascii_digit CHR ''.''"
  by (simp add: is_ascii_digit_def char_code_def)

lemma digits_no_dot: "digits s \<Longrightarrow> CHR ''.'' \<notin> set s"
  by (auto simp: list_all_iff)

lemma digits_last_not_dot: "digits s \<Longrightarrow> s \<noteq> [] \<Longrightarrow> last s \<noteq> CHR ''.''"
  by (metis digits_no_dot last_in_set)

lemma decimal_loop_after_dot:
  "decimal_loop i True h s = (if digits s then Some (h \<or> s \<noteq> []) else None)"
  by (induction s arbitrary: i h) auto

lemma decimal_loop_before_dot:
  "0 < i \<Longrightarrow> decimal_loop i False True s
     = (case split_once CHR ''.'' s of
          None \<Rightarrow> if digits s then Some True else None
        | Some (w, f) \<Rightarrow> if digits w \<and> digits f then Some True else None)"
  by (induction s arbitrary: i) (auto simp: decimal_loop_after_dot split: option.splits)

lemma plain_positive_parts:
  "is_plain_positive_decimal s
     = (case split_once CHR ''.'' s of
          None \<Rightarrow> s \<noteq> [] \<and> digits s
        | Some (w, f) \<Rightarrow> w \<noteq> [] \<and> digits w \<and> f \<noteq> [] \<and> digits f)"
proof (cases s)
  case (Cons c cs)
  show ?thesis
  proof (cases "split_once CHR ''.'' cs")
    case None
    then show ?thesis
      using Cons digits_no_dot
      by (auto simp: is_plain_positive_decimal_def decimal_loop_before_dot ends_with_singleton
          split: option.splits if_splits dest!: last_in_set)
  next
    case (Some wf)
    then show ?thesis
      using Cons
      by (cases wf)
        (auto simp: is_plain_positive_decimal_def decimal_loop_before_dot ends_with_singleton
          split_once_Some split: option.splits if_splits dest: digits_last_not_dot)
  qed
qed (simp add: is_plain_positive_decimal_def)

lemma plain_positive_iff_grammar: "is_plain_positive_decimal s \<longleftrightarrow> plain_decimal s"
proof
  assume s: "is_plain_positive_decimal s"
  show "plain_decimal s"
  proof (cases "split_once CHR ''.'' s")
    case None
    with s show ?thesis by (auto simp: plain_positive_parts plain_decimal_def)
  next
    case (Some wf)
    obtain w f where wf: "wf = (w, f)" by fastforce
    from Some wf have "s = w @ ''.'' @ f" by (simp add: split_once_Some)
    moreover from Some s wf have "w \<noteq> [] \<and> digits w \<and> f \<noteq> [] \<and> digits f"
      by (simp add: plain_positive_parts)
    ultimately have "w \<noteq> [] \<and> digits w \<and> f \<noteq> [] \<and> digits f \<and> s = w @ ''.'' @ f" by simp
    then show ?thesis unfolding plain_decimal_def by blast
  qed
next
  assume "plain_decimal s"
  then obtain w f where w: "w \<noteq> []" "digits w"
    and s: "s = w \<or> (f \<noteq> [] \<and> digits f \<and> s = w @ ''.'' @ f)"
    by (auto simp: plain_decimal_def)
  have "split_once CHR ''.'' w = None" "split_once CHR ''.'' (w @ ''.'' @ f) = Some (w, f)"
    using digits_no_dot [OF w(2)] by (simp_all add: split_once_None split_once_Some)
  then show "is_plain_positive_decimal s"
    using w s by (auto simp: plain_positive_parts)
qed

subsection \<open>What a price is worth\<close>

lemma price_parts_plain:
  assumes "is_plain_positive_decimal t" "price_parts t = (w, f)"
  shows "w \<noteq> []" "digits w" "digits f" "length f \<le> length t"
  using assms
  by (auto simp: plain_positive_parts price_parts_def split_once_Some split: option.splits)

lemma price_text_length: "length (price_text p) \<le> length p"
  using trim_length [of p]
  by (auto simp: price_text_def Let_def strip_prefix_Some split: option.splits)

lemma units_print:
  assumes "digits ds"
  shows "normalized_units ds = show_nat (digits_value 0 ds)"
proof -
  let ?u = "dropWhile (\<lambda>x. x = CHR ''0'') ds"
  have v: "digits_value 0 ?u = digits_value 0 ds" by (rule digits_value_drop_zeros)
  show ?thesis
  proof (cases "?u = []")
    case True
    with v have "digits_value 0 ds = 0" by (metis digits_value.simps(1))
    with True show ?thesis
      by (simp add: normalized_units_def trim_start_matches_def show_nat.simps [of 0] digit_char_0)
  next
    case False
    moreover have "digits ?u" using assms by (auto simp: list_all_iff dest: set_dropWhileD)
    moreover have "hd ?u \<noteq> CHR ''0''" using hd_dropWhile [OF False] by simp
    ultimately have "show_nat (digits_value 0 ?u) = ?u" by (intro show_nat_digits_value)
    with False v show ?thesis
      by (simp add: normalized_units_def trim_start_matches_def Let_def del: dropWhile_eq_Nil_conv)
  qed
qed

lemma show_nat_zero: "show_nat 0 = ''0''"
  by (simp add: show_nat.simps [of 0] digit_char_0)

lemma show_nat_eq_zero: "show_nat n = ''0'' \<longleftrightarrow> n = 0"
  using show_nat_inject [of n 0] by (simp add: show_nat_zero del: show_nat_inject)

definition price_units :: "kite_chain \<Rightarrow> str \<Rightarrow> str \<Rightarrow> nat" where
  "price_units chain w f = digits_value 0 (w @ f) * 10 ^ (unat (kc_asset_decimals chain) - length f)"

lemma parse_price_no_panic:
  assumes "length p < 2 ^ 32"
  shows "parse_price chain p \<noteq> None"
proof -
  obtain w f where wf: "price_parts (price_text p) = (w, f)" by fastforce
  show ?thesis
  proof (cases "is_plain_positive_decimal (price_text p)")
    case True
    have "length f < 2 ^ 32"
      using price_parts_plain(4) [OF True wf] price_text_length [of p] assms by linarith
    then show ?thesis
      by (simp add: parse_price_def wf Let_def word_less_nat_alt unat_of_nat)
  qed (simp add: parse_price_def)
qed

text \<open>
  C13: the price parser computes the exact amount. For every price string below four gigabytes the
  result is decided by the text after trimming and one optional dollar sign: rejected unless it is
  a plain decimal, rejected when it has more fractional digits than the asset, rejected when it is
  worth nothing, and otherwise the decimal print of \<open>whole.frac * 10 ^ decimals\<close>, with the chain's
  asset and EIP-712 domain; the parser never panics there.
\<close>
theorem parse_price_exact:
  assumes "length p < 2 ^ 32"
  shows "parse_price chain p = Some
    (let t = price_text p; (w, f) = price_parts t in
     if \<not> plain_decimal t then Inl (InvalidPrice p)
     else if unat (kc_asset_decimals chain) < length f
     then Inl (TooManyDecimals t (kc_asset_decimals chain) (kc_asset_symbol chain))
     else if digits_value 0 (w @ f) = 0 then Inl (BelowOneUnit p (kc_asset_symbol chain))
     else Inr \<lparr>aa_asset = kc_asset_address chain, aa_amount = show_nat (price_units chain w f),
            aa_extra = JObj [(''name'', JStr (kc_eip712_name chain)),
                             (''version'', JStr (kc_eip712_version chain))]\<rparr>)"
proof -
  obtain w f where wf: "price_parts (price_text p) = (w, f)" by fastforce
  show ?thesis
  proof (cases "is_plain_positive_decimal (price_text p)")
    case False
    then show ?thesis
      by (simp add: parse_price_def plain_positive_iff_grammar wf)
  next
    case True
    note parts = price_parts_plain [OF True wf]
    have len: "length f < 2 ^ 32"
      using parts(4) price_text_length [of p] assms by linarith
    have cmp: "kc_asset_decimals chain < of_nat (length f)
        \<longleftrightarrow> unat (kc_asset_decimals chain) < length f"
      using len by (simp add: word_less_nat_alt unat_of_nat)
    have dg: "digits (w @ f @ replicate (unat (kc_asset_decimals chain) - length f) CHR ''0'')"
      using parts by (auto simp: list_all_iff is_ascii_digit_def char_code_def)
    show ?thesis
      using True
      by (simp add: parse_price_def wf cmp Let_def units_print [OF dg] plain_positive_iff_grammar
          show_nat_eq_zero price_units_def digits_value_append digits_value_zeros)
  qed
qed

theorem parse_price_exact_witness:
  "parse_price KITE_MAINNET ''$0.05'' = Some (Inr \<lparr>aa_asset = kc_asset_address KITE_MAINNET,
     aa_amount = ''50000'', aa_extra = JObj [(''name'', JStr ''Bridged USDC (Kite AI)''), (''version'', JStr ''2'')]\<rparr>)"
proof -
  have len: "length ''$0.05'' < 2 ^ 32" by simp
  show ?thesis
    unfolding parse_price_exact [OF len] plain_positive_iff_grammar [symmetric]
    by (simp add: price_text_def trim_visible price_parts_def is_plain_positive_decimal_def
        price_units_def show_nat.simps KITE_MAINNET_def text_eval)
qed

end
