(* ===== verification/Expiration.thy ===== *)
theory Expiration
  imports Text_Lib
begin

text \<open>
  The validity-window guard (\<open>kite-x402-axum/src/expiration.rs\<close>): \<open>validate\<close> on 64-bit Unix
  seconds with the saturating additions of the source, and the error texts of its
  \<open>thiserror\<close> attributes.
\<close>

datatype expiration_error =
    Expired u64 u64
  | NotYetValid u64 u64
  | InvertedWindow u64 u64
  | InsufficientRemainingValidity u64 u64

record expiration_guard =
  max_drift_seconds :: u64
  min_remaining_validity_seconds :: u64

definition expiration_guard_new :: "u64 \<Rightarrow> u64 \<Rightarrow> expiration_guard" where
  "expiration_guard_new max_drift min_remaining =
     \<lparr>max_drift_seconds = max_drift, min_remaining_validity_seconds = min_remaining\<rparr>"

definition default_expiration_guard :: expiration_guard where
  "default_expiration_guard = \<lparr>max_drift_seconds = 30, min_remaining_validity_seconds = 5\<rparr>"

definition show_u64 :: "u64 \<Rightarrow> str" where
  "show_u64 w = show_nat (unat w)"

fun expiration_message :: "expiration_error \<Rightarrow> str" where
  "expiration_message (Expired valid_before now) =
     ''payment authorization has expired (validBefore: '' @ show_u64 valid_before
     @ '', now: '' @ show_u64 now @ '')''"
| "expiration_message (NotYetValid valid_after now) =
     ''payment authorization is not yet active (validAfter: '' @ show_u64 valid_after
     @ '', now: '' @ show_u64 now @ '')''"
| "expiration_message (InvertedWindow valid_after valid_before) =
     ''payment authorization validity window is inverted (validAfter: '' @ show_u64 valid_after
     @ '' > validBefore: '' @ show_u64 valid_before @ '')''"
| "expiration_message (InsufficientRemainingValidity remaining min_required) =
     ''payment authorization expires too soon for settlement (remaining: '' @ show_u64 remaining
     @ ''s < min: '' @ show_u64 min_required @ ''s)''"

definition validate :: "expiration_guard \<Rightarrow> u64 \<Rightarrow> u64 \<Rightarrow> u64 \<Rightarrow> expiration_error + unit" where
  "validate g valid_after valid_before now_secs =
     (if valid_after > valid_before then Inl (InvertedWindow valid_after valid_before)
      else if valid_after > sat_add now_secs (max_drift_seconds g)
      then Inl (NotYetValid valid_after now_secs)
      else if valid_before < sat_sub now_secs (max_drift_seconds g)
      then Inl (Expired valid_before now_secs)
      else if now_secs > valid_before then Inl (Expired valid_before now_secs)
      else
        let remaining = sat_sub valid_before now_secs
        in if remaining < min_remaining_validity_seconds g
           then Inl (InsufficientRemainingValidity remaining (min_remaining_validity_seconds g))
           else Inr ())"

text \<open>
  \<open>clock\<close> is the reading of \<open>SystemTime::now().duration_since(UNIX_EPOCH)\<close>; a clock before the
  epoch counts as zero.
\<close>

definition validate_now :: "expiration_guard \<Rightarrow> u64 option \<Rightarrow> u64 \<Rightarrow> u64 \<Rightarrow> expiration_error + unit" where
  "validate_now g clock valid_after valid_before =
     validate g valid_after valid_before (case clock of Some s \<Rightarrow> s | None \<Rightarrow> 0)"

subsection \<open>What is accepted\<close>

text \<open>
  An authorization passes the window guard exactly when, over the natural numbers and with no
  wrap-around, it has become active up to the clock drift, has not expired, and has the required
  validity left.
\<close>
theorem validate_accepts_iff:
  "validate g va vb now = Inr ()
     \<longleftrightarrow> unat va \<le> unat vb \<and> unat va \<le> unat now + unat (max_drift_seconds g)
       \<and> unat now + unat (min_remaining_validity_seconds g) \<le> unat vb"
  using unat_le_word_max [of va]
  by (auto simp: validate_def Let_def word_less_nat_alt word_le_nat_alt unat_sat_add unat_sat_sub
      min_def not_less split: if_splits)

text \<open>
  The clock-drift tolerance never extends the life of an authorization. The comparison of
  \<open>validBefore\<close> with the drift-adjusted clock is subsumed by the comparison that follows it: an
  authorization in order and active is rejected as expired exactly when the unadjusted clock has
  passed \<open>validBefore\<close>, whatever the drift.
\<close>
theorem drift_never_extends_expiry:
  "(\<exists>e n. validate g va vb now = Inl (Expired e n))
     \<longleftrightarrow> va \<le> vb \<and> va \<le> sat_add now (max_drift_seconds g) \<and> vb < now"
proof -
  have sub: "sat_sub now (max_drift_seconds g) \<le> now"
    by (simp add: word_le_nat_alt unat_sat_sub)
  then have "vb < sat_sub now (max_drift_seconds g) \<Longrightarrow> vb < now" by simp
  then show ?thesis by (auto simp: validate_def Let_def not_less not_le)
qed

end
