(* ===== verification/F64.thy ===== *)
theory F64
  imports Prelude Complex_Main
begin

text \<open>
  The double-precision arithmetic of the program. All its floating-point values are finite and
  non-negative, so an \<open>f64\<close> is the rational number it denotes, and each operation is the exact one
  followed by \<open>rnd\<close>, rounding to nearest with ties to even on 53 significant bits, with the
  subnormal exponent floor of IEEE 754. Results above the largest finite double are kept as
  numbers instead of becoming infinite; the comparisons the program makes treat both alike.

  What the components rely on is the locale \<open>rounding\<close>: monotone and exact on small integers. The
  concrete \<open>rnd\<close> interprets it.
\<close>

type_synonym f64 = rat

definition round_half_even :: "rat \<Rightarrow> int" where
  "round_half_even y =
     (let f = \<lfloor>y\<rfloor>; d = y - of_int f
      in if d < 1 / 2 then f else if 1 / 2 < d then f + 1 else if even f then f else f + 1)"

fun nat_log2 :: "nat \<Rightarrow> nat" where
  "nat_log2 n = (if n < 2 then 0 else Suc (nat_log2 (n div 2)))"

declare nat_log2.simps [simp del]

definition exponent :: "rat \<Rightarrow> int" where
  "exponent x =
     (if 1 \<le> x then int (nat_log2 (nat \<lfloor>x\<rfloor>))
      else - int (Suc (nat_log2 (nat (\<lceil>1 / x\<rceil> - 1)))))"

definition ulp :: "rat \<Rightarrow> rat" where
  "ulp x = 2 powi (max (exponent x) (- 1022) - 52)"

definition rnd :: "rat \<Rightarrow> f64" where
  "rnd x = (if x \<le> 0 then 0 else of_int (round_half_even (x / ulp x)) * ulp x)"

text \<open>\<open>u64 as f64\<close>, \<open>usize as f64\<close>; division and fused multiply-add; the saturating cast back.\<close>

definition f64_of_u64 :: "u64 \<Rightarrow> f64" where
  "f64_of_u64 w = rnd (of_nat (unat w))"

definition f64_div :: "f64 \<Rightarrow> f64 \<Rightarrow> f64" where
  "f64_div a b = rnd (a / b)"

definition f64_mul_add :: "f64 \<Rightarrow> f64 \<Rightarrow> f64 \<Rightarrow> f64" where
  "f64_mul_add a b c = rnd (a * b + c)"

definition f64_sub :: "f64 \<Rightarrow> f64 \<Rightarrow> f64" where
  "f64_sub a b = rnd (a - b)"

definition f64_add :: "f64 \<Rightarrow> f64 \<Rightarrow> f64" where
  "f64_add a b = rnd (a + b)"

definition f64_ceil :: "f64 \<Rightarrow> f64" where
  "f64_ceil a = of_int \<lceil>a\<rceil>"

definition f64_to_u64 :: "f64 \<Rightarrow> u64" where
  "f64_to_u64 a = (if a < 2 ^ 64 then of_int \<lfloor>a\<rfloor> else - 1)"

locale rounding =
  fixes r :: "rat \<Rightarrow> rat"
  assumes mono: "x \<le> y \<Longrightarrow> r x \<le> r y"
    and exact_nat: "n \<le> 2 ^ 53 \<Longrightarrow> r (of_nat n) = of_nat n"
begin

lemma zero: "r 0 = 0"
  using exact_nat [of 0] by simp

lemma one: "r 1 = 1"
  using exact_nat [of 1] by simp

lemma nonneg: "0 \<le> x \<Longrightarrow> 0 \<le> r x"
  using mono [of 0 x] by (simp add: zero)

lemma le_one: "x \<le> 1 \<Longrightarrow> r x \<le> 1"
  using mono [of x 1] by (simp add: one)

lemma ge_one: "1 \<le> x \<Longrightarrow> 1 \<le> r x"
  using mono [of 1 x] by (simp add: one)

text \<open>A rounded quotient of a part by a whole is a fraction.\<close>

lemma quotient_bounds:
  assumes "0 \<le> a" "a \<le> b"
  shows "0 \<le> r (a / b)" "r (a / b) \<le> 1"
  using assms by (auto intro!: nonneg le_one simp: divide_le_eq_1)

end

subsection \<open>Rounding to nearest is a rounding\<close>

lemma round_half_even_bounds: "\<lfloor>y\<rfloor> \<le> round_half_even y" "round_half_even y \<le> \<lfloor>y\<rfloor> + 1"
  by (simp_all add: round_half_even_def Let_def)

lemma round_half_even_int [simp]: "round_half_even (of_int n) = n"
  by (simp add: round_half_even_def)

lemma round_half_even_mono:
  assumes "x \<le> y"
  shows "round_half_even x \<le> round_half_even y"
proof (cases "\<lfloor>x\<rfloor> = \<lfloor>y\<rfloor>")
  case True
  then show ?thesis using assms by (auto simp: round_half_even_def Let_def)
next
  case False
  with floor_mono [OF assms] have "\<lfloor>x\<rfloor> + 1 \<le> \<lfloor>y\<rfloor>" by linarith
  then show ?thesis using round_half_even_bounds(2) [of x] round_half_even_bounds(1) [of y] by linarith
qed

lemma nat_log2_bounds: "0 < n \<Longrightarrow> 2 ^ nat_log2 n \<le> n \<and> n < 2 ^ Suc (nat_log2 n)"
proof (induction n rule: nat_log2.induct)
  case (1 n)
  show ?case
  proof (cases "n < 2")
    case True
    with 1 show ?thesis by (simp add: nat_log2.simps [of n])
  next
    case False
    then have "0 < n div 2" by (simp add: div_greater_zero_iff)
    with 1 False have "2 ^ nat_log2 (n div 2) \<le> n div 2 \<and> n div 2 < 2 ^ Suc (nat_log2 (n div 2))" by blast
    then show ?thesis using False by (simp add: nat_log2.simps [of n]) linarith
  qed
qed

lemma exponent_bounds:
  assumes "0 < x"
  shows "2 powi exponent x \<le> x" "x < 2 powi (exponent x + 1)"
proof -
  have "2 powi exponent x \<le> x \<and> x < 2 powi (exponent x + 1)"
  proof (cases "1 \<le> x")
    case True
    let ?n = "nat \<lfloor>x\<rfloor>"
    have "0 < ?n" using True by simp
    note b = nat_log2_bounds [OF this]
    have n: "(of_nat ?n :: rat) = of_int \<lfloor>x\<rfloor>" using True by simp
    have "of_nat (2 ^ nat_log2 ?n) \<le> (of_nat ?n :: rat)" using b by (intro of_nat_mono) simp
    moreover have "(of_nat ?n :: rat) \<le> x" by (simp add: n)
    moreover have "of_nat (Suc ?n) \<le> (of_nat (2 ^ Suc (nat_log2 ?n)) :: rat)"
      using b by (intro of_nat_mono) simp
    moreover have "x < (of_nat (Suc ?n) :: rat)" using n by simp linarith
    ultimately have "2 ^ nat_log2 ?n \<le> x" "x < 2 ^ Suc (nat_log2 ?n)"
      by (simp_all only: of_nat_power of_nat_numeral)
    then show ?thesis
      using True by (simp add: exponent_def power_int_add)
  next
    case False
    let ?m = "nat (\<lceil>1 / x\<rceil> - 1)"
    have y: "1 < 1 / x" using False assms by (simp add: less_divide_eq_1)
    then have c: "2 \<le> \<lceil>1 / x\<rceil>" by linarith
    then have "0 < ?m" by simp
    note b = nat_log2_bounds [OF this]
    let ?k = "nat_log2 ?m"
    have m: "(of_nat ?m :: rat) = of_int \<lceil>1 / x\<rceil> - 1"
    proof -
      have "(of_nat ?m :: rat) = of_int (\<lceil>1 / x\<rceil> - 1)" using c by (intro of_nat_nat) linarith
      then show ?thesis by (simp only: of_int_diff of_int_1)
    qed
    have "of_nat (2 ^ ?k) \<le> (of_nat ?m :: rat)" using b by (intro of_nat_mono) simp
    moreover have "(of_nat ?m :: rat) < 1 / x" unfolding m by linarith
    ultimately have lo: "2 ^ ?k < 1 / x" by (simp only: of_nat_power of_nat_numeral)
    have "of_nat (Suc ?m) \<le> (of_nat (2 ^ Suc ?k) :: rat)" using b by (intro of_nat_mono) simp
    moreover have "1 / x \<le> of_nat (Suc ?m)" using m by simp
    ultimately have hi: "1 / x \<le> 2 ^ Suc ?k" by simp
    have e: "exponent x = - int (Suc ?k)" using False by (simp add: exponent_def)
    have "2 powi exponent x = (1 :: rat) / 2 ^ Suc ?k"
      unfolding e power_int_minus by (simp only: power_int_of_nat inverse_eq_divide)
    moreover have "2 powi (exponent x + 1) = (1 :: rat) / 2 ^ ?k"
      unfolding e by (simp add: power_int_minus inverse_eq_divide)
    moreover have "x < 1 / 2 ^ ?k" using lo assms by (simp add: field_simps)
    moreover have "1 / 2 ^ Suc ?k \<le> x" using hi assms by (simp add: field_simps)
    ultimately show ?thesis by simp
  qed
  then show "2 powi exponent x \<le> x" "x < 2 powi (exponent x + 1)" by auto
qed

lemma two_powi_le: "(2 :: rat) powi a \<le> 2 powi b \<longleftrightarrow> a \<le> b"
  using power_int_increasing [of a b "2 :: rat"] power_int_strict_increasing [of b a "2 :: rat"]
  by (cases "a \<le> b") auto

lemma two_powi_split: "(2 :: rat) powi (int n + k) = 2 ^ n * 2 powi k"
  by (simp add: power_int_add)

lemma exponent_mono:
  assumes "0 < x" "x \<le> y"
  shows "exponent x \<le> exponent y"
proof -
  have "2 powi exponent x < (2 :: rat) powi (exponent y + 1)"
    using exponent_bounds(1) [OF assms(1)] exponent_bounds(2) [of y] assms by linarith
  then have "\<not> exponent y + 1 \<le> exponent x" by (simp flip: two_powi_le)
  then show ?thesis by simp
qed

lemma ulp_pos [simp]: "0 < ulp x"
  by (simp add: ulp_def)

lemma below_binade: "0 < x \<Longrightarrow> x \<le> 2 ^ 53 * ulp x"
proof -
  assume x: "0 < x"
  have "(2 :: rat) powi (exponent x + 1) \<le> 2 powi (53 + (max (exponent x) (- 1022) - 52))"
    unfolding two_powi_le by simp
  also have "\<dots> = 2 ^ 53 * ulp x"
    using two_powi_split [of 53 "max (exponent x) (- 1022) - 52"] by (simp add: ulp_def)
  finally show ?thesis using exponent_bounds(2) [OF x] by linarith
qed

lemma rnd_nonneg: "0 \<le> rnd x"
proof (cases "x \<le> 0")
  case False
  then have "round_half_even (of_int 0) \<le> round_half_even (x / ulp x)"
    by (intro round_half_even_mono) (simp add: less_imp_le)
  then show ?thesis unfolding round_half_even_int by (simp add: rnd_def less_imp_le)
qed (simp add: rnd_def)

text \<open>A rounded value stays between the powers of two around it.\<close>

lemma rnd_binade_top:
  assumes "0 < x"
  shows "rnd x \<le> 2 ^ 53 * ulp x"
proof -
  have "round_half_even (x / ulp x) \<le> round_half_even (of_int (2 ^ 53))"
    using below_binade [OF assms] by (intro round_half_even_mono) (simp add: field_simps)
  then have "of_int (round_half_even (x / ulp x)) \<le> (of_int (2 ^ 53) :: rat)"
    unfolding round_half_even_int by (simp only: of_int_le_iff)
  then show ?thesis using assms by (auto simp: rnd_def intro: mult_right_mono)
qed

lemma rnd_binade_bottom:
  assumes y: "0 < y" and normal: "exponent y = max (exponent y) (- 1022)"
  shows "2 ^ 52 * ulp y \<le> rnd y"
proof -
  have "2 ^ 52 * ulp y = (2 :: rat) powi (52 + (max (exponent y) (- 1022) - 52))"
    using two_powi_split [of 52 "max (exponent y) (- 1022) - 52"] by (simp add: ulp_def)
  also have "\<dots> \<le> y" using exponent_bounds(1) [OF y] normal by simp
  finally have "round_half_even (of_int (2 ^ 52)) \<le> round_half_even (y / ulp y)"
    by (intro round_half_even_mono) (simp add: field_simps)
  then have "(of_int (2 ^ 52) :: rat) \<le> of_int (round_half_even (y / ulp y))"
    unfolding round_half_even_int by (simp only: of_int_le_iff)
  then show ?thesis using y by (auto simp: rnd_def intro: mult_right_mono)
qed

lemma rnd_mono:
  assumes le: "x \<le> y"
  shows "rnd x \<le> rnd y"
proof (cases "x \<le> 0")
  case True
  then show ?thesis using rnd_nonneg [of y] by (simp add: rnd_def)
next
  case False
  then have x: "0 < x" and y: "0 < y" using le by auto
  let ?e = "\<lambda>z. max (exponent z) (- 1022)"
  have e: "?e x \<le> ?e y" using exponent_mono [OF x le] by simp
  show ?thesis
  proof (cases "?e x = ?e y")
    case True
    then have "ulp x = ulp y" by (simp add: ulp_def)
    then show ?thesis using x y le
      using round_half_even_mono [of "x / ulp y" "y / ulp y"]
      by (simp add: rnd_def divide_right_mono less_imp_le mult_right_mono)
  next
    case False
    with e have lt: "?e x + 1 \<le> ?e y" by simp
    then have normal: "exponent y = ?e y" by simp
    have "2 * ulp x = 2 powi (1 + (?e x - 52))" using two_powi_split [of 1 "?e x - 52"] by (simp add: ulp_def)
    also have "\<dots> \<le> ulp y" unfolding ulp_def two_powi_le using lt by simp
    finally have "2 * ulp x \<le> ulp y" .
    with rnd_binade_top [OF x] rnd_binade_bottom [OF y normal] show ?thesis by simp
  qed
qed

lemma rnd_of_multiple:
  assumes "0 < x" "x = of_int k * ulp x"
  shows "rnd x = x"
proof -
  have "x / ulp x = of_int k" using assms(2) less_imp_neq [OF ulp_pos [of x]] by (metis nonzero_mult_div_cancel_right)
  then have "round_half_even (x / ulp x) = k" by simp
  then show ?thesis using assms by (simp add: rnd_def)
qed

lemma rnd_exact:
  assumes "n \<le> 2 ^ 53"
  shows "rnd (of_nat n) = of_nat n"
proof (cases "n = 0")
  case True
  then show ?thesis by (simp add: rnd_def)
next
  case False
  let ?m = "of_nat n :: rat" and ?e = "exponent (of_nat n)"
  have m: "0 < ?m" "1 \<le> ?m" using False by auto
  have "(2 :: rat) powi ?e \<le> ?m" using exponent_bounds(1) m by blast
  also have top: "?m \<le> 2 ^ 53" using of_nat_mono [OF assms, where 'a = rat] by simp
  finally have "?e \<le> 53"
    using two_powi_le [of ?e 53] by simp
  moreover have lo: "0 \<le> ?e" using m by (simp add: exponent_def)
  ultimately consider "?e \<le> 52" | "?e = 53" by linarith
  then show ?thesis
  proof cases
    case 1
    have "2 ^ nat (52 - ?e) * ulp ?m = (2 :: rat) powi (int (nat (52 - ?e)) + (?e - 52))"
      unfolding two_powi_split using lo by (simp add: ulp_def)
    also have "\<dots> = 1" using 1 by simp
    finally have "?m = of_int (int n * 2 ^ nat (52 - ?e)) * ulp ?m" by (simp add: mult.assoc)
    then show ?thesis using m by (intro rnd_of_multiple)
  next
    case 2
    have "(2 :: rat) powi 53 \<le> ?m" using exponent_bounds(1) [OF m(1)] 2 by simp
    with top have "?m = 2 ^ 53" by simp
    moreover have "ulp ?m = 2" using 2 by (simp add: ulp_def)
    ultimately have "?m = of_int (2 ^ 52) * ulp ?m" by simp
    then show ?thesis using m by (intro rnd_of_multiple)
  qed
qed

interpretation fr: rounding rnd
  by unfold_locales (simp_all add: rnd_mono rnd_exact)

lemma f64_exact: "unat w \<le> 2 ^ 53 \<Longrightarrow> f64_of_u64 w = of_nat (unat w)"
  unfolding f64_of_u64_def by (rule rnd_exact)

lemma f64_of_u64_nonneg: "0 \<le> f64_of_u64 w"
  unfolding f64_of_u64_def by (rule fr.nonneg) (rule of_nat_0_le_iff)

lemma f64_of_u64_mono: "unat a \<le> unat b \<Longrightarrow> f64_of_u64 a \<le> f64_of_u64 b"
  unfolding f64_of_u64_def by (intro rnd_mono of_nat_mono)

lemma f64_ceil_ge: "a \<le> f64_ceil a"
  by (simp add: f64_ceil_def)

lemma round_half_even_error: "\<bar>of_int (round_half_even y) - y\<bar> \<le> 1 / 2"
proof -
  have "of_int \<lfloor>y\<rfloor> \<le> y" "y < of_int \<lfloor>y\<rfloor> + 1" by linarith+
  then show ?thesis by (simp add: round_half_even_def Let_def)
qed

lemma ulp_le: "0 < x \<Longrightarrow> ulp x \<le> x / 2 ^ 52 + 1 / 2 ^ 1074"
proof -
  assume x: "0 < x"
  consider "- 1022 \<le> exponent x" | "exponent x < - 1022" by linarith
  then show ?thesis
  proof cases
    case 1
    then have "2 ^ 52 * ulp x = 2 powi exponent x"
      using two_powi_split [of 52 "exponent x - 52"] by (simp add: ulp_def)
    then have "2 ^ 52 * ulp x \<le> x" using exponent_bounds(1) [OF x] by simp
    then have "ulp x \<le> x / 2 ^ 52" by (simp add: field_simps)
    then show ?thesis by (simp add: add_increasing2)
  next
    case 2
    then have "ulp x = 2 powi (- int 1074)" by (simp add: ulp_def)
    also have "\<dots> = 1 / 2 ^ 1074"
      unfolding power_int_minus power_int_of_nat inverse_eq_divide ..
    finally show ?thesis using x by (simp add: add_increasing)
  qed
qed

text \<open>The error of one rounding: half a unit in the last place, which is relative above the subnormals.\<close>

lemma rnd_error:
  assumes "0 \<le> x"
  shows "\<bar>rnd x - x\<bar> \<le> x / 2 ^ 53 + 1 / 2 ^ 1075"
proof (cases "x = 0")
  case False
  with assms have x: "0 < x" by simp
  have "rnd x - x = (of_int (round_half_even (x / ulp x)) - x / ulp x) * ulp x"
    using x less_imp_neq [OF ulp_pos [of x]] by (simp add: rnd_def left_diff_distrib)
  then have "\<bar>rnd x - x\<bar> = \<bar>of_int (round_half_even (x / ulp x)) - x / ulp x\<bar> * ulp x"
    by (simp add: abs_mult less_imp_le)
  also have "\<dots> \<le> 1 / 2 * ulp x"
    using round_half_even_error by (intro mult_right_mono) (auto simp: less_imp_le)
  also have "\<dots> \<le> 1 / 2 * (x / 2 ^ 52 + 1 / 2 ^ 1074)"
    using ulp_le [OF x] by (intro mult_left_mono) auto
  finally show ?thesis by (simp add: field_simps)
qed (simp add: rnd_def)

text \<open>The two constants of that error.\<close>

definition eps :: rat where
  "eps = 1 / 2 ^ 53"

definition eta :: rat where
  "eta = 1 / 2 ^ 1075"

lemma eps_bounds: "0 < eps" "eps \<le> 1 / 32"
  by (simp_all add: eps_def)

lemma eta_bounds: "0 < eta" "eta \<le> eps" "eta * 2 ^ 1024 = 4 * eps"
proof -
  show "0 < eta" by (simp add: eta_def)
  show "eta \<le> eps" unfolding eta_def eps_def
    by (intro divide_left_mono power_increasing) simp_all
  have "(2 :: rat) ^ 1075 = 2 ^ 1024 * 2 ^ 51" by (simp only: power_add [symmetric]) simp
  then show "eta * 2 ^ 1024 = 4 * eps" by (simp only: eta_def eps_def) (simp add: field_simps)
qed

lemma rnd_upper: "0 \<le> x \<Longrightarrow> rnd x \<le> x + eps * x + eta"
  using rnd_error [of x] by (simp add: eps_def eta_def abs_le_iff)

lemma rnd_lower: "0 \<le> x \<Longrightarrow> x - eps * x - eta \<le> rnd x"
  using rnd_error [of x] by (simp add: eps_def eta_def abs_le_iff)

subsection \<open>Durations in seconds\<close>

definition as_secs_f64 :: "duration \<Rightarrow> f64" where
  "as_secs_f64 d = f64_add (rnd (of_nat (d div nanos_per_sec)))
     (f64_div (rnd (of_nat (d mod nanos_per_sec))) (of_nat nanos_per_sec))"

definition try_from_secs_f64 :: "f64 \<Rightarrow> duration option" where
  "try_from_secs_f64 a =
     (if a < 0 \<or> 2 ^ 64 \<le> a then None else Some (nat (round_half_even (a * of_nat nanos_per_sec))))"

definition secs :: "duration \<Rightarrow> rat" where
  "secs d = of_nat d / of_nat nanos_per_sec"

lemma secs_nonneg: "0 \<le> secs d"
  by (simp add: secs_def)

lemma as_secs_f64_0 [simp]: "as_secs_f64 0 = 0"
  by (simp add: as_secs_f64_def f64_add_def f64_div_def fr.zero)

lemma as_secs_f64_nonneg: "0 \<le> as_secs_f64 d"
  unfolding as_secs_f64_def f64_add_def f64_div_def
  by (intro fr.nonneg add_nonneg_nonneg divide_nonneg_nonneg) simp_all

lemma as_secs_f64_upper: "as_secs_f64 d \<le> secs d + 3 * eps * secs d + 5 * eta"
proof -
  let ?s = "of_nat (d div nanos_per_sec) :: rat" and ?n = "of_nat (d mod nanos_per_sec) / of_nat nanos_per_sec :: rat"
  have split: "secs d = ?s + ?n"
  proof -
    have "(of_nat d :: rat) = of_nat (d div nanos_per_sec) * of_nat nanos_per_sec + of_nat (d mod nanos_per_sec)"
      by (simp only: of_nat_mult [symmetric] of_nat_add [symmetric] div_mult_mod_eq)
    then show ?thesis by (simp add: secs_def add_divide_distrib nanos_per_sec_def)
  qed
  have "d mod nanos_per_sec < nanos_per_sec" by (simp add: nanos_per_sec_def)
  then have n: "rnd (of_nat (d mod nanos_per_sec)) = of_nat (d mod nanos_per_sec)"
    by (intro rnd_exact) (simp add: nanos_per_sec_def)
  let ?x = "rnd ?s + rnd ?n"
  have x: "?x \<le> secs d + eps * secs d + 2 * eta"
    using rnd_upper [of ?s] rnd_upper [of ?n] unfolding split by (simp add: distrib_left)
  have "0 \<le> ?x" by (intro add_nonneg_nonneg fr.nonneg) simp_all
  then have "as_secs_f64 d \<le> ?x + eps * ?x + eta"
    unfolding as_secs_f64_def f64_add_def f64_div_def n by (rule rnd_upper)
  also have "\<dots> \<le> (secs d + eps * secs d + 2 * eta) + eps * (secs d + eps * secs d + 2 * eta) + eta"
    using x mult_left_mono [OF x, of eps] eps_bounds(1) by linarith
  also have "\<dots> \<le> secs d + 3 * eps * secs d + 5 * eta"
  proof -
    have "eps * (eps * secs d) \<le> 1 * (eps * secs d)" "eps * (2 * eta) \<le> 1 * (2 * eta)"
      using eps_bounds eta_bounds(1) secs_nonneg [of d] by (intro mult_right_mono; simp)+
    then show ?thesis by (simp add: distrib_left)
  qed
  finally show ?thesis .
qed

lemma try_from_secs_whole:
  assumes "try_from_secs_f64 (of_int n) = Some d"
  shows "secs d = of_int n"
proof -
  have n: "0 \<le> n" and d: "d = nat (round_half_even (of_int n * of_nat nanos_per_sec))"
    using assms by (auto simp: try_from_secs_f64_def split: if_splits)
  have "round_half_even (of_int n * of_nat nanos_per_sec) = n * int nanos_per_sec"
    using round_half_even_int [of "n * int nanos_per_sec"] by simp
  with n d show ?thesis by (simp add: secs_def nanos_per_sec_def)
qed

end
