(* ===== verification/PaymentMetrics.thy ===== *)
theory PaymentMetrics
  imports F64
begin

text \<open>
  The payment counters (\<open>kite-x402-axum/src/metrics.rs\<close>): seven relaxed 64-bit atomics, each
  update of which is one wrapping addition, and the snapshot with its two rates.
\<close>

record payment_metrics =
  pm_requests_total :: u64
  pm_challenges_total :: u64
  pm_verifications_success :: u64
  pm_verifications_failed :: u64
  pm_settlements_success :: u64
  pm_settlements_failed :: u64
  pm_total_settlement_latency_ms :: u64

record metrics_snapshot = payment_metrics +
  ms_avg_settlement_latency_ms :: f64
  ms_settlement_success_rate :: f64

definition new_metrics :: payment_metrics where
  "new_metrics = \<lparr>pm_requests_total = 0, pm_challenges_total = 0, pm_verifications_success = 0,
     pm_verifications_failed = 0, pm_settlements_success = 0, pm_settlements_failed = 0,
     pm_total_settlement_latency_ms = 0\<rparr>"

definition record_request :: "payment_metrics \<Rightarrow> payment_metrics" where
  "record_request m = m\<lparr>pm_requests_total := pm_requests_total m + 1\<rparr>"

definition record_challenge :: "payment_metrics \<Rightarrow> payment_metrics" where
  "record_challenge m = m\<lparr>pm_challenges_total := pm_challenges_total m + 1\<rparr>"

definition record_verification :: "bool \<Rightarrow> payment_metrics \<Rightarrow> payment_metrics" where
  "record_verification success m =
     (if success then m\<lparr>pm_verifications_success := pm_verifications_success m + 1\<rparr>
      else m\<lparr>pm_verifications_failed := pm_verifications_failed m + 1\<rparr>)"

definition record_settlement :: "bool \<Rightarrow> duration \<Rightarrow> payment_metrics \<Rightarrow> payment_metrics" where
  "record_settlement success latency m =
     (let m' = (if success then m\<lparr>pm_settlements_success := pm_settlements_success m + 1\<rparr>
                else m\<lparr>pm_settlements_failed := pm_settlements_failed m + 1\<rparr>)
      in m'\<lparr>pm_total_settlement_latency_ms :=
              pm_total_settlement_latency_ms m' + of_nat (as_millis latency)\<rparr>)"

definition snapshot :: "payment_metrics \<Rightarrow> metrics_snapshot" where
  "snapshot m =
     (let total_settlements = pm_settlements_success m + pm_settlements_failed m;
          avg = (if total_settlements > 0
                 then f64_div (f64_of_u64 (pm_total_settlement_latency_ms m)) (f64_of_u64 total_settlements)
                 else 0);
          rate = (if total_settlements > 0
                  then f64_div (f64_of_u64 (pm_settlements_success m)) (f64_of_u64 total_settlements)
                  else 1)
      in payment_metrics.extend m
           \<lparr>ms_avg_settlement_latency_ms = avg, ms_settlement_success_rate = rate\<rparr>)"

definition reset :: "payment_metrics \<Rightarrow> payment_metrics" where
  "reset m = m\<lparr>pm_requests_total := 0, pm_challenges_total := 0, pm_verifications_success := 0,
     pm_verifications_failed := 0, pm_settlements_success := 0, pm_settlements_failed := 0,
     pm_total_settlement_latency_ms := 0\<rparr>"

lemma reset_new: "reset m = new_metrics"
  by (cases m) (simp add: reset_def new_metrics_def)

lemmas metrics_defs =
  record_request_def record_challenge_def record_verification_def record_settlement_def

subsection \<open>Properties\<close>

text \<open>
  The reported success rate is a fraction and the mean latency is not negative. As long as the
  two settlement counters together fit in 64 bits, rounding included, the rate lies between 0 and
  1; it is 1 exactly when no settlement failed, up to the rounding of very large counters, and
  0 when all failed.
\<close>
theorem snapshot_rates:
  assumes "unat (pm_settlements_success m) + unat (pm_settlements_failed m) < 2 ^ 64"
  shows "0 \<le> ms_settlement_success_rate (snapshot m)
     \<and> ms_settlement_success_rate (snapshot m) \<le> 1
     \<and> 0 \<le> ms_avg_settlement_latency_ms (snapshot m)
     \<and> (pm_settlements_failed m = 0 \<longrightarrow> ms_settlement_success_rate (snapshot m) = 1)
     \<and> (pm_settlements_success m = 0 \<and> pm_settlements_failed m > 0 \<longrightarrow> ms_settlement_success_rate (snapshot m) = 0)"
proof -
  let ?s = "pm_settlements_success m" and ?f = "pm_settlements_failed m"
  have "unat (?s + ?f) = unat ?s + unat ?f" using assms by (simp add: unat_word_ariths)
  then have le: "f64_of_u64 ?s \<le> f64_of_u64 (?s + ?f)" by (intro f64_of_u64_mono) simp
  have pos: "0 < w \<Longrightarrow> 1 \<le> f64_of_u64 w" for w :: u64
  proof -
    assume "0 < w"
    then have "1 \<le> unat w" by (simp add: word_less_nat_alt)
    then have "of_nat 1 \<le> (of_nat (unat w) :: rat)" by (rule of_nat_mono)
    then show "1 \<le> f64_of_u64 w" unfolding f64_of_u64_def by (intro fr.ge_one) (simp only: of_nat_1)
  qed
  have zero: "f64_of_u64 0 = 0" by (simp add: f64_of_u64_def fr.zero)
  have self: "0 < w \<Longrightarrow> f64_div (f64_of_u64 w) (f64_of_u64 w) = 1" for w :: u64
    using pos [of w] by (simp add: f64_div_def fr.one)
  have div_zero: "f64_div 0 b = 0" for b by (simp add: f64_div_def fr.zero)
  have mean: "0 \<le> f64_div (f64_of_u64 a) (f64_of_u64 b)" for a b
    unfolding f64_div_def by (intro fr.nonneg divide_nonneg_nonneg f64_of_u64_nonneg)
  have rate: "0 \<le> f64_div (f64_of_u64 ?s) (f64_of_u64 (?s + ?f))" "f64_div (f64_of_u64 ?s) (f64_of_u64 (?s + ?f)) \<le> 1"
    using fr.quotient_bounds [OF f64_of_u64_nonneg le] by (simp_all add: f64_div_def)
  have r: "ms_settlement_success_rate (snapshot m)
      = (if ?s + ?f > 0 then f64_div (f64_of_u64 ?s) (f64_of_u64 (?s + ?f)) else 1)"
    and a: "ms_avg_settlement_latency_ms (snapshot m)
      = (if ?s + ?f > 0 then f64_div (f64_of_u64 (pm_total_settlement_latency_ms m)) (f64_of_u64 (?s + ?f)) else 0)"
    by (simp_all add: snapshot_def Let_def payment_metrics.defs)
  show ?thesis
    unfolding r a using rate mean by (simp add: self zero div_zero)
qed

text \<open>Every run of updates keeps the counters in step with the events, modulo \<open>2 ^ 64\<close>.\<close>

datatype metric_event =
    MRequest | MChallenge | MVerification bool | MSettlement bool duration

fun metric_step :: "payment_metrics \<Rightarrow> metric_event \<Rightarrow> payment_metrics" where
  "metric_step m MRequest = record_request m"
| "metric_step m MChallenge = record_challenge m"
| "metric_step m (MVerification b) = record_verification b m"
| "metric_step m (MSettlement b d) = record_settlement b d m"

definition metric_run :: "payment_metrics \<Rightarrow> metric_event list \<Rightarrow> payment_metrics" where
  "metric_run = foldl metric_step"

definition occurrences :: "('a \<Rightarrow> bool) \<Rightarrow> 'a list \<Rightarrow> nat" where
  "occurrences P xs = length (filter P xs)"

definition settled_millis :: "metric_event list \<Rightarrow> nat" where
  "settled_millis es = sum_list (map (\<lambda>e. case e of MSettlement _ d \<Rightarrow> as_millis d | _ \<Rightarrow> 0) es)"

lemma metric_run_adds:
  "pm_requests_total (metric_run m es) = pm_requests_total m + of_nat (occurrences (\<lambda>e. e = MRequest) es)
   \<and> pm_challenges_total (metric_run m es) = pm_challenges_total m + of_nat (occurrences (\<lambda>e. e = MChallenge) es)
   \<and> pm_verifications_success (metric_run m es)
       = pm_verifications_success m + of_nat (occurrences (\<lambda>e. e = MVerification True) es)
   \<and> pm_verifications_failed (metric_run m es)
       = pm_verifications_failed m + of_nat (occurrences (\<lambda>e. e = MVerification False) es)
   \<and> pm_settlements_success (metric_run m es)
       = pm_settlements_success m + of_nat (occurrences (\<lambda>e. \<exists>d. e = MSettlement True d) es)
   \<and> pm_settlements_failed (metric_run m es)
       = pm_settlements_failed m + of_nat (occurrences (\<lambda>e. \<exists>d. e = MSettlement False d) es)
   \<and> pm_total_settlement_latency_ms (metric_run m es)
       = pm_total_settlement_latency_ms m + of_nat (settled_millis es)"
proof (induction es arbitrary: m)
  case Nil
  then show ?case by (simp add: metric_run_def occurrences_def settled_millis_def)
next
  case (Cons e es)
  have run: "metric_run m (e # es) = metric_run (metric_step m e) es" by (simp add: metric_run_def)
  show ?case unfolding run
    by (cases e) (auto simp: Cons.IH metrics_defs occurrences_def settled_millis_def Let_def algebra_simps)
qed

text \<open>
  The counters count. After any sequence of updates on a fresh collector, in any order, each
  counter is the number of its events and the latency the sum of the whole milliseconds, modulo
  \<open>2 ^ 64\<close>.
\<close>
theorem counters_count:
  "let m = metric_run new_metrics es in
     unat (pm_requests_total m) = occurrences (\<lambda>e. e = MRequest) es mod 2 ^ 64
   \<and> unat (pm_challenges_total m) = occurrences (\<lambda>e. e = MChallenge) es mod 2 ^ 64
   \<and> unat (pm_verifications_success m) = occurrences (\<lambda>e. e = MVerification True) es mod 2 ^ 64
   \<and> unat (pm_verifications_failed m) = occurrences (\<lambda>e. e = MVerification False) es mod 2 ^ 64
   \<and> unat (pm_settlements_success m) = occurrences (\<lambda>e. \<exists>d. e = MSettlement True d) es mod 2 ^ 64
   \<and> unat (pm_settlements_failed m) = occurrences (\<lambda>e. \<exists>d. e = MSettlement False d) es mod 2 ^ 64
   \<and> unat (pm_total_settlement_latency_ms m) = settled_millis es mod 2 ^ 64"
  by (simp add: metric_run_adds Let_def new_metrics_def unat_of_nat)

theorem snapshot_rates_witness:
  "let m = metric_run new_metrics [MSettlement False 7000000] in
     ms_settlement_success_rate (snapshot m) = 0 \<and> 0 \<le> ms_avg_settlement_latency_ms (snapshot m)"
proof -
  let ?m = "metric_run new_metrics [MSettlement False 7000000]"
  have m: "pm_settlements_success ?m = 0" "pm_settlements_failed ?m = 1"
    by (simp_all add: metric_run_def new_metrics_def metrics_defs)
  then show ?thesis using snapshot_rates [of ?m] by (simp add: Let_def)
qed

end
