(* ===== verification/Expiry.thy ===== *)
theory Expiry
  imports Prelude "HOL-Library.Multiset"
begin

text \<open>
  The bounded expiry index shared by the replay guard (\<open>NonceStore::expire\<close> in
  \<open>kite-x402-axum/src/nonce_guard.rs\<close>) and the rate limiter (the first loop of
  \<open>TokenBucketRateLimiter::acquire\<close> in \<open>service/src/rate_limit.rs\<close>): a map from keys to
  entries and a \<open>BTreeSet\<close> of deadlines. The loop pops at most \<open>n\<close> due deadlines and removes
  their entries. The lemmas say that only due entries go, that the index stays consistent with
  the map, and that enough iterations reclaim everything that is due.
\<close>

fun expire_loop :: "nat \<Rightarrow> instant \<Rightarrow> ('k, 'v) fmap \<Rightarrow> (instant \<times> 'k) list
    \<Rightarrow> ('k, 'v) fmap \<times> (instant \<times> 'k) list" where
  "expire_loop 0 now es xs = (es, xs)"
| "expire_loop (Suc n) now es xs =
     (case xs of
        (deadline, key) # rest \<Rightarrow>
          if deadline \<le> now then expire_loop n now (fmdrop key es) rest else (es, xs)
      | [] \<Rightarrow> (es, xs))"

definition index_ok :: "('k::linorder, 'v) fmap \<Rightarrow> (instant \<times> 'k) list \<Rightarrow> bool" where
  "index_ok es xs \<longleftrightarrow> bt_wf xs \<and> distinct (map snd xs) \<and> snd ` set xs \<subseteq> fset (fmdom es)"

lemma index_ok_Nil [simp, intro]: "index_ok es []"
  by (simp add: index_ok_def)

lemma index_ok_tl:
  "index_ok es ((d, k) # xs) \<Longrightarrow> index_ok (fmdrop k es) xs"
  by (auto simp: index_ok_def bt_wf_def image_iff)

lemma expire_loop_index_ok:
  "index_ok es xs \<Longrightarrow> expire_loop n now es xs = (es', xs') \<Longrightarrow> index_ok es' xs'"
  by (induction n now es xs rule: expire_loop.induct)
    (auto split: list.splits prod.splits if_splits dest: index_ok_tl)

lemma expire_loop_subset:
  "expire_loop n now es xs = (es', xs') \<Longrightarrow> set xs' \<subseteq> set xs \<and> fmdom es' |\<subseteq>| fmdom es"
  by (induction n now es xs rule: expire_loop.induct)
    (force split: list.splits prod.splits if_splits)+

text \<open>An entry that is not due, or has no deadline, survives with its value.\<close>

lemma expire_loop_keeps:
  assumes "expire_loop n now es xs = (es', xs')"
    and "\<And>d. (d, k) \<in> set xs \<Longrightarrow> now < d"
  shows "fmlookup es' k = fmlookup es k"
  using assms
proof (induction n now es xs rule: expire_loop.induct)
  case (2 n now es xs)
  show ?case
  proof (cases xs)
    case (Cons p rest)
    obtain d key where p: "p = (d, key)" by fastforce
    show ?thesis
    proof (cases "d \<le> now")
      case True
      with 2 Cons p have "fmlookup es' k = fmlookup (fmdrop key es) k" by auto
      moreover have "key \<noteq> k" using 2(3) [of d] True Cons p by auto
      ultimately show ?thesis by simp
    next
      case False
      with 2 Cons p show ?thesis by simp
    qed
  qed (use 2 in simp)
qed simp

lemma expire_loop_lookup:
  "expire_loop n now es xs = (es', xs') \<Longrightarrow> fmlookup es' k = Some v \<Longrightarrow> fmlookup es k = Some v"
  by (induction n now es xs rule: expire_loop.induct)
    (fastforce split: list.splits prod.splits if_splits)+

text \<open>A deadline that is not due stays in the index.\<close>

lemma expire_loop_keeps_deadline:
  "expire_loop n now es xs = (es', xs') \<Longrightarrow> p \<in> set xs \<Longrightarrow> now < fst p \<Longrightarrow> p \<in> set xs'"
  by (induction n now es xs rule: expire_loop.induct)
    (auto split: list.splits prod.splits if_splits)

text \<open>Due entries are removed, as far as the bound on the work allows.\<close>

lemma expire_loop_all_due:
  "sorted xs \<Longrightarrow> length (filter (\<lambda>p. fst p \<le> now) xs) \<le> n \<Longrightarrow> expire_loop n now es xs = (es', xs')
   \<Longrightarrow> \<forall>p \<in> set xs'. now < fst p"
proof (induction n now es xs rule: expire_loop.induct)
  case (1 now es xs)
  then show ?case by (auto simp: filter_empty_conv)
next
  case (2 n now es xs)
  show ?case
  proof (cases xs)
    case (Cons p rest)
    obtain d key where p: "p = (d, key)" by fastforce
    show ?thesis
    proof (cases "d \<le> now")
      case True
      with 2 Cons p show ?thesis by auto
    next
      case False
      with 2 Cons p show ?thesis by (fastforce simp: less_eq_prod_def)
    qed
  qed (use 2 in simp)
qed

lemma expire_loop_work: "expire_loop n now es xs = (es', xs') \<Longrightarrow> length xs \<le> length xs' + n"
  by (induction n now es xs rule: expire_loop.induct)
    (auto split: list.splits prod.splits if_splits)

lemma map_len_mono: "fmdom a |\<subseteq>| fmdom b \<Longrightarrow> map_len a \<le> map_len b"
  by (simp add: map_len_def fcard_mono)

lemma index_length: "index_ok es xs \<Longrightarrow> length xs \<le> map_len es"
proof -
  assume ok: "index_ok es xs"
  then have "length xs = card (snd ` set xs)"
    by (metis index_ok_def length_map distinct_card set_map)
  also have "\<dots> \<le> card (fset (fmdom es))"
    using ok by (intro card_mono) (auto simp: index_ok_def)
  finally show ?thesis by (simp add: map_len_def fcard.rep_eq)
qed

lemma index_ok_insert:
  assumes "index_ok es xs" "k |\<in>| fmdom es" "k \<notin> snd ` set xs"
  shows "index_ok es (bt_insert (d, k) xs)"
proof -
  have "(d, k) \<notin> set xs" using assms(3) by force
  then have "mset (map snd (bt_insert (d, k) xs)) = mset (k # map snd xs)"
    by (simp add: bt_insert_def insort_insert_key_def mset_insort)
  then have "distinct (map snd (bt_insert (d, k) xs)) \<longleftrightarrow> distinct (k # map snd xs)"
    by (metis mset_eq_imp_distinct_iff)
  then show ?thesis using assms by (auto simp: index_ok_def)
qed

lemma index_ok_upd: "index_ok es xs \<Longrightarrow> index_ok (fmupd k v es) xs"
  by (auto simp: index_ok_def)

lemma index_ok_drop: "index_ok es xs \<Longrightarrow> k \<notin> snd ` set xs \<Longrightarrow> index_ok (fmdrop k es) xs"
  by (auto simp: index_ok_def)

end
