(* ===== verification/Http.thy ===== *)
theory Http
  imports Json
begin

text \<open>
  HTTP messages. A header block is the list of its fields in arrival order with lower-case
  names, the way \<open>http::HeaderMap\<close> normalises them. The contract the program relies on is the
  locale \<open>header_map\<close> (documented behaviour of that container: \<open>get\<close> returns the first value,
  \<open>insert\<close> replaces every value of the name, \<open>append\<close> keeps them); the field-list operations
  below interpret it, and the lemmas about middleware that edits headers come from it.
\<close>

type_synonym headers = "(str \<times> str) list"

datatype body = BytesBody str | JsonBody json

record request =
  req_method :: str
  req_uri :: str
  req_path_query :: "str option"
  req_headers :: headers
  req_body :: str

record response =
  resp_status :: nat
  resp_headers :: headers
  resp_body :: body

definition hget :: "str \<Rightarrow> headers \<Rightarrow> str option" where
  "hget n hs = map_of hs (ascii_lower n)"

definition hget_all :: "str \<Rightarrow> headers \<Rightarrow> str list" where
  "hget_all n hs = map snd (filter (\<lambda>(k, _). k = ascii_lower n) hs)"

definition hcontains :: "str \<Rightarrow> headers \<Rightarrow> bool" where
  "hcontains n hs \<longleftrightarrow> ascii_lower n \<in> fst ` set hs"

definition hinsert :: "str \<Rightarrow> str \<Rightarrow> headers \<Rightarrow> headers" where
  "hinsert n v hs = filter (\<lambda>(k, _). k \<noteq> ascii_lower n) hs @ [(ascii_lower n, v)]"

definition happend :: "str \<Rightarrow> str \<Rightarrow> headers \<Rightarrow> headers" where
  "happend n v hs = hs @ [(ascii_lower n, v)]"

locale header_map =
  fixes get :: "str \<Rightarrow> 'h \<Rightarrow> str option"
    and get_all :: "str \<Rightarrow> 'h \<Rightarrow> str list"
    and contains :: "str \<Rightarrow> 'h \<Rightarrow> bool"
    and insert_field :: "str \<Rightarrow> str \<Rightarrow> 'h \<Rightarrow> 'h"
    and append_field :: "str \<Rightarrow> str \<Rightarrow> 'h \<Rightarrow> 'h"
  assumes get_first: "get n h = (case get_all n h of [] \<Rightarrow> None | v # _ \<Rightarrow> Some v)"
    and contains_iff: "contains n h \<longleftrightarrow> get_all n h \<noteq> []"
    and get_all_insert: "get_all m (insert_field n v h) = (if ascii_lower m = ascii_lower n then [v] else get_all m h)"
    and get_all_append: "get_all m (append_field n v h) = get_all m h @ (if ascii_lower m = ascii_lower n then [v] else [])"
begin

lemma get_insert: "get m (insert_field n v h) = (if ascii_lower m = ascii_lower n then Some v else get m h)"
  by (simp add: get_first get_all_insert)

lemma get_append: "get m (append_field n v h)
    = (case get m h of Some w \<Rightarrow> Some w | None \<Rightarrow> if ascii_lower m = ascii_lower n then Some v else None)"
  by (simp add: get_first get_all_append split: list.splits)

lemma contains_get: "contains n h \<longleftrightarrow> get n h \<noteq> None"
  by (simp add: contains_iff get_first split: list.splits)

lemma contains_insert: "contains m (insert_field n v h) \<longleftrightarrow> ascii_lower m = ascii_lower n \<or> contains m h"
  by (simp add: contains_iff get_all_insert)

text \<open>Inserting a batch of fields: the last value of a name wins, other names keep theirs.\<close>

lemma get_insert_batch:
  "get m (fold (\<lambda>(n, v). insert_field n v) fs h)
     = (case map_of (rev (map (\<lambda>(n, v). (ascii_lower n, v)) fs)) (ascii_lower m) of
          Some v \<Rightarrow> Some v | None \<Rightarrow> get m h)"
  by (induction fs arbitrary: h) (auto simp: get_insert map_add_def split: option.splits)

end

lemma hget_all_head: "hget n hs = (case hget_all n hs of [] \<Rightarrow> None | v # _ \<Rightarrow> Some v)"
  unfolding hget_def hget_all_def by (induction hs) auto

interpretation hm: header_map hget hget_all hcontains hinsert happend
proof unfold_locales
  fix n m :: str and v :: str and h :: headers
  show "hget n h = (case hget_all n h of [] \<Rightarrow> None | v # _ \<Rightarrow> Some v)"
    by (rule hget_all_head)
  show "hcontains n h \<longleftrightarrow> hget_all n h \<noteq> []"
    by (force simp: hcontains_def hget_all_def filter_empty_conv)
  show "hget_all m (hinsert n v h) = (if ascii_lower m = ascii_lower n then [v] else hget_all m h)"
    by (auto simp: hget_all_def hinsert_def filter_empty_conv intro!: arg_cong [where f = "map snd"] filter_cong)
  show "hget_all m (happend n v h) = hget_all m h @ (if ascii_lower m = ascii_lower n then [v] else [])"
    by (simp add: hget_all_def happend_def)
qed

text \<open>The parts of an axum reply \<open>(StatusCode, Json(v))\<close>: the JSON content type and the document.\<close>

definition json_response :: "nat \<Rightarrow> json \<Rightarrow> response" where
  "json_response st v =
     \<lparr>resp_status = st, resp_headers = [(''content-type'', ''application/json'')], resp_body = JsonBody v\<rparr>"

definition set_header :: "str \<Rightarrow> str \<Rightarrow> response \<Rightarrow> response" where
  "set_header n v r = r\<lparr>resp_headers := hinsert n v (resp_headers r)\<rparr>"

definition get_header :: "str \<Rightarrow> response \<Rightarrow> str option" where
  "get_header n r = hget n (resp_headers r)"

lemma get_set_header:
  "get_header m (set_header n v r) = (if ascii_lower m = ascii_lower n then Some v else get_header m r)"
  by (simp add: get_header_def set_header_def hm.get_insert)

lemma set_header_fields [simp]:
  "resp_status (set_header n v r) = resp_status r" "resp_body (set_header n v r) = resp_body r"
  by (simp_all add: set_header_def)

lemma json_response_fields [simp]:
  "resp_status (json_response st v) = st" "resp_body (json_response st v) = JsonBody v"
  by (simp_all add: json_response_def)

end
