(* ===== verification/Externals.thy ===== *)
theory Externals
  imports Http
begin

text \<open>
  The packages the library calls but whose code is not part of the repository are parameters of
  the model, collected in one record: the base64 engine (package \<open>base64\<close>), the text form of
  JSON documents and the message of a failed decoding (package \<open>serde_json\<close>) the two validity tests of \<open>HeaderValue\<close> (package
  \<open>http\<close>) and the \<open>{:?}\<close> form of a string (its escapes follow the Unicode tables). The theorems state what they need of them as hypotheses.
\<close>

record externals =
  b64_encode :: "str \<Rightarrow> str"
  b64_decode :: "str \<Rightarrow> str option"
  json_print :: "json \<Rightarrow> str"
  json_parse :: "str \<Rightarrow> json option"
  json_error :: "str \<Rightarrow> str"
  header_text :: "str \<Rightarrow> bool"
  header_value_ok :: "str \<Rightarrow> bool"
  debug_str :: "str \<Rightarrow> str"

text \<open>\<open>HeaderValue::to_str(..).ok()\<close> and \<open>HeaderValue::from_str(..).unwrap_or(d)\<close>.\<close>

definition to_str_ok :: "externals \<Rightarrow> str \<Rightarrow> str option" where
  "to_str_ok x v = (if header_text x v then Some v else None)"

definition header_value_or :: "externals \<Rightarrow> str \<Rightarrow> str \<Rightarrow> str" where
  "header_value_or x d v = (if header_value_ok x v then v else d)"

end
