(* ===== verification/Wire.thy ===== *)
theory Wire
  imports Externals
begin

text \<open>
  The x402 wire types (\<open>kite-x402-axum/src/types.rs\<close>) with the serialisation their serde
  attributes derive, and the header codec (\<open>kite-x402-axum/src/wire.rs\<close>).

  A \<open>ser_\<dots>\<close> function is the derived \<open>Serialize\<close> (declaration order, wire names, absent
  options skipped), a \<open>de_\<dots>\<close> function the derived \<open>Deserialize\<close>. The round-trip lemmas say
  that what the server sends is read back as the same value.
\<close>

record resource_info =
  ri_url :: str
  ri_description :: "str option"
  ri_mime_type :: "str option"

record payment_requirements =
  pr_scheme :: str
  pr_network :: str
  pr_amount :: str
  pr_asset :: str
  pr_pay_to :: str
  pr_max_timeout_seconds :: u64
  pr_extra :: "json option"

record payment_required =
  pq_x402_version :: u32
  pq_error :: "str option"
  pq_resource :: resource_info
  pq_accepts :: "payment_requirements list"

record payment_payload =
  pp_x402_version :: u32
  pp_resource :: "resource_info option"
  pp_accepted :: payment_requirements
  pp_payload :: json
  pp_extensions :: "json option"

record verify_response =
  vr_is_valid :: bool
  vr_invalid_reason :: "str option"
  vr_invalid_message :: "str option"
  vr_payer :: "str option"

record settle_response =
  sr_success :: bool
  sr_error_reason :: "str option"
  sr_error_message :: "str option"
  sr_payer :: "str option"
  sr_transaction :: str
  sr_network :: str
  sr_amount :: "str option"

subsection \<open>Serialize\<close>

definition ser_resource_info :: "resource_info \<Rightarrow> json" where
  "ser_resource_info r = JObj
     ([(''url'', JStr (ri_url r))]
      @ opt_entry ''description'' JStr (ri_description r)
      @ opt_entry ''mimeType'' JStr (ri_mime_type r))"

definition ser_requirements :: "payment_requirements \<Rightarrow> json" where
  "ser_requirements r = JObj
     ([(''scheme'', JStr (pr_scheme r)),
       (''network'', JStr (pr_network r)),
       (''amount'', JStr (pr_amount r)),
       (''asset'', JStr (pr_asset r)),
       (''payTo'', JStr (pr_pay_to r)),
       (''maxTimeoutSeconds'', JNum (PosInt (pr_max_timeout_seconds r)))]
      @ opt_entry ''extra'' id (pr_extra r))"

definition ser_payment_required :: "payment_required \<Rightarrow> json" where
  "ser_payment_required q = JObj
     ([(''x402Version'', ser_u32 (pq_x402_version q))]
      @ opt_entry ''error'' JStr (pq_error q)
      @ [(''resource'', ser_resource_info (pq_resource q)),
         (''accepts'', JArr (map ser_requirements (pq_accepts q)))])"

definition ser_payload :: "payment_payload \<Rightarrow> json" where
  "ser_payload p = JObj
     ([(''x402Version'', ser_u32 (pp_x402_version p))]
      @ opt_entry ''resource'' ser_resource_info (pp_resource p)
      @ [(''accepted'', ser_requirements (pp_accepted p)),
         (''payload'', pp_payload p)]
      @ opt_entry ''extensions'' id (pp_extensions p))"

definition ser_settle_response :: "settle_response \<Rightarrow> json" where
  "ser_settle_response s = JObj
     ([(''success'', JBool (sr_success s))]
      @ opt_entry ''errorReason'' JStr (sr_error_reason s)
      @ opt_entry ''errorMessage'' JStr (sr_error_message s)
      @ opt_entry ''payer'' JStr (sr_payer s)
      @ [(''transaction'', JStr (sr_transaction s)),
         (''network'', JStr (sr_network s))]
      @ opt_entry ''amount'' JStr (sr_amount s))"

subsection \<open>Deserialize\<close>

definition de_resource_info :: "json \<Rightarrow> resource_info option" where
  "de_resource_info j =
     (case struct_fields [''url'', ''description'', ''mimeType''] j of
        None \<Rightarrow> None
      | Some m \<Rightarrow>
        (case (req_field m ''url'' de_string, opt_field m ''description'' de_string,
               opt_field m ''mimeType'' de_string) of
           (Some u, Some d, Some t) \<Rightarrow> Some \<lparr>ri_url = u, ri_description = d, ri_mime_type = t\<rparr>
         | _ \<Rightarrow> None))"

definition de_requirements :: "json \<Rightarrow> payment_requirements option" where
  "de_requirements j =
     (case struct_fields [''scheme'', ''network'', ''amount'', ''asset'', ''payTo'',
                          ''maxTimeoutSeconds'', ''extra''] j of
        None \<Rightarrow> None
      | Some m \<Rightarrow>
        (case (req_field m ''scheme'' de_string, req_field m ''network'' de_string,
               req_field m ''amount'' de_string, req_field m ''asset'' de_string,
               req_field m ''payTo'' de_string, req_field m ''maxTimeoutSeconds'' de_u64,
               opt_field m ''extra'' de_value) of
           (Some sc, Some nw, Some am, Some ad, Some pt, Some ts, Some ex) \<Rightarrow>
             Some \<lparr>pr_scheme = sc, pr_network = nw, pr_amount = am, pr_asset = ad,
                   pr_pay_to = pt, pr_max_timeout_seconds = ts, pr_extra = ex\<rparr>
         | _ \<Rightarrow> None))"

definition de_payment_required :: "json \<Rightarrow> payment_required option" where
  "de_payment_required j =
     (case struct_fields [''x402Version'', ''error'', ''resource'', ''accepts''] j of
        None \<Rightarrow> None
      | Some m \<Rightarrow>
        (case (req_field m ''x402Version'' de_u32, opt_field m ''error'' de_string,
               req_field m ''resource'' de_resource_info,
               req_field m ''accepts'' (de_vec de_requirements)) of
           (Some v, Some e, Some r, Some a) \<Rightarrow>
             Some \<lparr>pq_x402_version = v, pq_error = e, pq_resource = r, pq_accepts = a\<rparr>
         | _ \<Rightarrow> None))"

definition de_payload :: "json \<Rightarrow> payment_payload option" where
  "de_payload j =
     (case struct_fields [''x402Version'', ''resource'', ''accepted'', ''payload'', ''extensions''] j of
        None \<Rightarrow> None
      | Some m \<Rightarrow>
        (case (req_field m ''x402Version'' de_u32, opt_field m ''resource'' de_resource_info,
               req_field m ''accepted'' de_requirements, req_field m ''payload'' de_value,
               opt_field m ''extensions'' de_value) of
           (Some v, Some r, Some a, Some p, Some e) \<Rightarrow>
             Some \<lparr>pp_x402_version = v, pp_resource = r, pp_accepted = a, pp_payload = p,
                   pp_extensions = e\<rparr>
         | _ \<Rightarrow> None))"

definition de_verify_response :: "json \<Rightarrow> verify_response option" where
  "de_verify_response j =
     (case struct_fields [''isValid'', ''invalidReason'', ''invalidMessage'', ''payer''] j of
        None \<Rightarrow> None
      | Some m \<Rightarrow>
        (case (req_field m ''isValid'' de_bool, opt_field m ''invalidReason'' de_string,
               opt_field m ''invalidMessage'' de_string, opt_field m ''payer'' de_string) of
           (Some v, Some r, Some g, Some p) \<Rightarrow>
             Some \<lparr>vr_is_valid = v, vr_invalid_reason = r, vr_invalid_message = g, vr_payer = p\<rparr>
         | _ \<Rightarrow> None))"

definition de_settle_response :: "json \<Rightarrow> settle_response option" where
  "de_settle_response j =
     (case struct_fields [''success'', ''errorReason'', ''errorMessage'', ''payer'',
                          ''transaction'', ''network'', ''amount''] j of
        None \<Rightarrow> None
      | Some m \<Rightarrow>
        (case (req_field m ''success'' de_bool, opt_field m ''errorReason'' de_string,
               opt_field m ''errorMessage'' de_string, opt_field m ''payer'' de_string,
               req_field m ''transaction'' de_string, req_field m ''network'' de_string,
               opt_field m ''amount'' de_string) of
           (Some s, Some er, Some em, Some py, Some tx, Some nw, Some am) \<Rightarrow>
             Some \<lparr>sr_success = s, sr_error_reason = er, sr_error_message = em, sr_payer = py,
                   sr_transaction = tx, sr_network = nw, sr_amount = am\<rparr>
         | _ \<Rightarrow> None))"

subsection \<open>Round trips of the derived serialisation\<close>

lemma de_ser_resource_info [simp]: "de_resource_info (ser_resource_info r) = Some r"
  by (cases r; cases "ri_description r"; cases "ri_mime_type r")
    (simp_all add: de_resource_info_def ser_resource_info_def serde_defs)

lemma ser_resource_info_not_null [simp]: "ser_resource_info r \<noteq> JNull"
  by (simp add: ser_resource_info_def)

lemma de_ser_settle_response [simp]: "de_settle_response (ser_settle_response s) = Some s"
  by (cases s; cases "sr_error_reason s"; cases "sr_error_message s"; cases "sr_payer s";
      cases "sr_amount s")
    (simp_all add: de_settle_response_def ser_settle_response_def serde_defs)

text \<open>
  An optional \<open>Value\<close> survives when it is canonical, as every \<open>serde_json::Value\<close> is, and is not
  \<open>null\<close>: \<open>Some(Value::Null)\<close> is written as \<open>null\<close> and read back as \<open>None\<close>.
\<close>

definition storable :: "json option \<Rightarrow> bool" where
  "storable v \<longleftrightarrow> (case v of None \<Rightarrow> True | Some j \<Rightarrow> j \<noteq> JNull \<and> canon j = j)"

lemma de_ser_requirements:
  "storable (pr_extra r) \<Longrightarrow> de_requirements (ser_requirements r) = Some r"
  by (cases r; cases "pr_extra r")
    (simp_all add: de_requirements_def ser_requirements_def serde_defs storable_def)

lemma de_ser_payload:
  assumes "storable (pr_extra (pp_accepted p))" "storable (pp_extensions p)"
    and "canon (pp_payload p) = pp_payload p"
  shows "de_payload (ser_payload p) = Some p"
  using assms
  by (cases p; cases "pp_resource p"; cases "pp_extensions p")
    (simp_all add: de_payload_def ser_payload_def serde_defs storable_def de_ser_requirements)

lemma de_ser_payment_required:
  assumes "\<forall>r \<in> set (pq_accepts q). storable (pr_extra r)"
  shows "de_payment_required (ser_payment_required q) = Some q"
  using assms
  by (cases q; cases "pq_error q")
    (simp_all add: de_payment_required_def ser_payment_required_def serde_defs
      de_list_map de_ser_requirements)

subsection \<open>Header codec\<close>

definition encode_payment_required :: "externals \<Rightarrow> payment_required \<Rightarrow> str" where
  "encode_payment_required x q = b64_encode x (json_print x (ser_payment_required q))"

definition decode_payment_payload :: "externals \<Rightarrow> str \<Rightarrow> payment_payload option" where
  "decode_payment_payload x header_value =
     (case b64_decode x (trim header_value) of
        None \<Rightarrow> None
      | Some bytes \<Rightarrow>
        (case Option.bind (json_parse x bytes) de_payload of
           Some p \<Rightarrow> if pp_x402_version p = 2 then Some p else None
         | None \<Rightarrow> None))"

definition encode_settle_response :: "externals \<Rightarrow> settle_response \<Rightarrow> str" where
  "encode_settle_response x s = b64_encode x (json_print x (ser_settle_response s))"

text \<open>
  What the header codec needs of the packages at one document: decoding base64 inverts encoding,
  also after the trimming the server does, and parsing inverts printing.
\<close>

definition codec_inverts :: "externals \<Rightarrow> json \<Rightarrow> bool" where
  "codec_inverts x doc \<longleftrightarrow>
     (let text = json_print x doc; h = b64_encode x text
      in b64_decode x h = Some text \<and> trim h = h \<and> json_parse x text = Some doc)"

text \<open>
  C18: a client that encodes its payment the way the specification says is understood, and only
  version 2 is. Decoding the encoded header gives back the payment exactly when its version is 2,
  and fails otherwise; this includes payments with the optional resource and extensions.
\<close>
theorem payment_header_roundtrip:
  assumes "codec_inverts x (ser_payload p)"
    and "storable (pr_extra (pp_accepted p))" "storable (pp_extensions p)"
    and "canon (pp_payload p) = pp_payload p"
  shows "decode_payment_payload x (b64_encode x (json_print x (ser_payload p)))
     = (if pp_x402_version p = 2 then Some p else None)"
  using assms by (simp add: decode_payment_payload_def codec_inverts_def Let_def de_ser_payload)

text \<open>
  What the server writes into its two headers can be read back without loss. Decoding the
  \<open>PAYMENT-REQUIRED\<close> header gives the challenge, and decoding the \<open>PAYMENT-RESPONSE\<close> header the
  settlement result, field by field, absent options included.
\<close>
theorem server_headers_roundtrip:
  assumes "codec_inverts x (ser_payment_required q)" "codec_inverts x (ser_settle_response s)"
    and "\<forall>r \<in> set (pq_accepts q). storable (pr_extra r)"
  shows "Option.bind (Option.bind (b64_decode x (encode_payment_required x q)) (json_parse x)) de_payment_required = Some q
     \<and> Option.bind (Option.bind (b64_decode x (encode_settle_response x s)) (json_parse x)) de_settle_response = Some s"
  using assms
  by (simp add: codec_inverts_def Let_def encode_payment_required_def encode_settle_response_def
      de_ser_payment_required)

end
