(* ===== verification/Sample_Codec.thy ===== *)
theory Sample_Codec
  imports Externals
begin

text \<open>
  A concrete printer of JSON documents. The library prints documents with \<open>serde_json\<close>, whose code
  is not part of the repository; the theorems only need that different documents have different
  texts. This netstring-like printer has that property (\<open>inj_sample_print\<close>) and instantiates
  the parameter in witnesses.
\<close>

definition net_nat :: "nat \<Rightarrow> str" where
  "net_nat n = show_nat n @ '';''"

definition net_str :: "str \<Rightarrow> str" where
  "net_str s = net_nat (length s) @ s"

fun sample_number :: "number \<Rightarrow> str" where
  "sample_number (PosInt w) = ''p'' @ net_nat (unat w)"
| "sample_number (NegInt i) = (if i < 0 then ''m'' else ''q'') @ net_nat (nat \<bar>i\<bar>)"
| "sample_number (FloatBits w) = ''d'' @ net_nat (unat w)"

fun sample_print :: "json \<Rightarrow> str"
  and sample_list :: "json list \<Rightarrow> str"
  and sample_fields :: "(str \<times> json) list \<Rightarrow> str" where
  "sample_print JNull = ''n''"
| "sample_print (JBool b) = (if b then ''t'' else ''f'')"
| "sample_print (JNum n) = ''#'' @ sample_number n"
| "sample_print (JStr s) = ''s'' @ net_str s"
| "sample_print (JArr xs) = ''a'' @ sample_list xs"
| "sample_print (JObj fs) = ''o'' @ sample_fields fs"
| "sample_list [] = '']''"
| "sample_list (x # xs) = '','' @ sample_print x @ sample_list xs"
| "sample_fields [] = ''}''"
| "sample_fields ((k, v) # fs) = '','' @ net_str k @ sample_print v @ sample_fields fs"

lemma net_nat_prefix: "net_nat m @ r = net_nat n @ s \<Longrightarrow> m = n \<and> r = s"
proof -
  assume eq: "net_nat m @ r = net_nat n @ s"
  have take: "takeWhile is_ascii_digit (net_nat k @ t) = show_nat k" for k t
    using show_nat_digits [of k]
    by (auto simp: net_nat_def list_all_iff takeWhile_append2 is_ascii_digit_def char_code_def)
  have "show_nat m = show_nat n" using take [of m r] take [of n s] eq by simp
  with eq show ?thesis by (simp add: net_nat_def)
qed

lemma net_str_prefix: "net_str a @ r = net_str b @ s \<Longrightarrow> a = b \<and> r = s"
  using net_nat_prefix [of "length a" "a @ r" "length b" "b @ s"] by (auto simp: net_str_def)

lemma sample_number_prefix: "sample_number a @ r = sample_number b @ s \<Longrightarrow> a = b \<and> r = s"
  by (cases a; cases b) (auto split: if_splits simp: word_unat_eq_iff dest!: net_nat_prefix)

lemma sample_prefix:
  "sample_print a @ r = sample_print b @ s \<Longrightarrow> a = b \<and> r = s"
  "sample_list xs @ r = sample_list ys @ s \<Longrightarrow> xs = ys \<and> r = s"
  "sample_fields fs @ r = sample_fields gs @ s \<Longrightarrow> fs = gs \<and> r = s"
proof (induction a and xs and fs arbitrary: b r s and ys r s and gs r s
    rule: sample_print_sample_list_sample_fields.induct)
  case 1
  then show ?case by (cases b) (auto split: if_splits)
next
  case (2 c)
  then show ?case by (cases b) (auto split: if_splits)
next
  case (3 n)
  then show ?case by (cases b) (auto split: if_splits dest: sample_number_prefix)
next
  case (4 t)
  then show ?case by (cases b) (auto split: if_splits dest: net_str_prefix)
next
  case (5 xs)
  from "5.prems" show ?case by (cases b) (auto split: if_splits dest!: "5.IH")
next
  case (6 fs)
  from "6.prems" show ?case by (cases b) (auto split: if_splits dest!: "6.IH")
next
  case 7
  then show ?case by (cases ys) auto
next
  case (8 x xs)
  show ?case
  proof (cases ys)
    case Nil
    with "8.prems" show ?thesis by simp
  next
    case (Cons y ys')
    with "8.prems" have rest: "sample_print x @ sample_list xs @ r = sample_print y @ sample_list ys' @ s"
      by simp
    note 1 = "8.IH"(1) [OF rest]
    note 2 = "8.IH"(2) [OF 1 [THEN conjunct2]]
    show ?thesis using Cons 1 [THEN conjunct1] 2 by (simp only: simp_thms)
  qed
next
  case 9
  then show ?case by (cases gs rule: sample_fields.cases) auto
next
  case (10 k v fs)
  show ?case
  proof (cases gs)
    case Nil
    with "10.prems" show ?thesis by simp
  next
    case (Cons g gs')
    obtain k' v' where g: "g = (k', v')" by fastforce
    with "10.prems" Cons have "net_str k @ (sample_print v @ sample_fields fs @ r)
        = net_str k' @ (sample_print v' @ sample_fields gs' @ s)" by simp
    then have k: "k = k'" and
      rest: "sample_print v @ sample_fields fs @ r = sample_print v' @ sample_fields gs' @ s"
      by (auto dest: net_str_prefix)
    note v = "10.IH"(1) [OF rest]
    note fs = "10.IH"(2) [OF v [THEN conjunct2]]
    show ?thesis using Cons g k v [THEN conjunct1] fs by (simp only: simp_thms)
  qed
qed

lemma inj_sample_print: "inj sample_print"
proof (rule injI)
  fix a b assume "sample_print a = sample_print b"
  then show "a = b" using sample_prefix(1) [of a "[]" b "[]"] by simp
qed

text \<open>A complete set of parameters: the printer above, and headers that accept every text.\<close>

definition sample_externals :: externals where
  "sample_externals = \<lparr>b64_encode = id, b64_decode = Some, json_print = sample_print,
     json_parse = (\<lambda>_. None), json_error = id,
     header_text = (\<lambda>_. True), header_value_ok = (\<lambda>_. True),
     debug_str = id\<rparr>"

end
