(* ===== verification/NonceGuard.thy ===== *)
theory NonceGuard
  imports Expiry Wire Sample_Codec
begin

text \<open>
  The replay guard (\<open>kite-x402-axum/src/nonce_guard.rs\<close>). The store maps an authorization key
  to the generation of its reservation; the identity of the \<open>Arc\<close> allocated for a reservation is
  a number drawn from a counter, so that \<open>Arc::ptr_eq\<close> is equality. Every operation runs under
  the store's mutex and is therefore one atomic function; the clock readings it makes are
  arguments.

  The second half treats the guard with the reservations that are alive (owned by requests) as a
  state machine over arbitrary interleavings, and gives its contract as the locale
  \<open>replay_protection\<close>, which the payment gate relies on.
\<close>

datatype nonce_error = ReplayDetected str | CapacityExceeded

record nonce_store =
  ns_entries :: "(str, nat) fmap"
  ns_expirations :: "(instant \<times> str) list"

record nonce_guard =
  ng_max_capacity :: nat
  ng_ttl :: duration
  ng_store :: nonce_store
  ng_next_generation :: nat

record reservation =
  res_key :: str
  res_generation :: nat
  res_retain :: bool

definition new_guard :: "nat \<Rightarrow> u64 \<Rightarrow> nonce_guard" where
  "new_guard max_capacity ttl_seconds = \<lparr>
     ng_max_capacity = max max_capacity 1,
     ng_ttl = from_secs (max ttl_seconds 1),
     ng_store = \<lparr>ns_entries = fmempty, ns_expirations = []\<rparr>,
     ng_next_generation = 0\<rparr>"

definition default_guard :: nonce_guard where
  "default_guard = new_guard 10000 3600"

definition ns_expire :: "instant \<Rightarrow> nonce_store \<Rightarrow> nonce_store" where
  "ns_expire now s =
     (let (es, xs) = expire_loop 64 now (ns_entries s) (ns_expirations s)
      in s\<lparr>ns_entries := es, ns_expirations := xs\<rparr>)"

definition reserve_key :: "nonce_guard \<Rightarrow> str \<Rightarrow> instant \<Rightarrow> (nonce_error + reservation) \<times> nonce_guard" where
  "reserve_key g key now =
     (let s = ns_expire now (ng_store g)
      in if key |\<in>| fmdom (ns_entries s) then (Inl (ReplayDetected key), g\<lparr>ng_store := s\<rparr>)
         else if ng_max_capacity g \<le> map_len (ns_entries s) then (Inl CapacityExceeded, g\<lparr>ng_store := s\<rparr>)
         else
           let generation = ng_next_generation g
           in (Inr \<lparr>res_key = key, res_generation = generation, res_retain = False\<rparr>,
               g\<lparr>ng_store := s\<lparr>ns_entries := fmupd key generation (ns_entries s)\<rparr>,
                 ng_next_generation := Suc generation\<rparr>))"

definition retain_on_drop :: "reservation \<Rightarrow> reservation" where
  "retain_on_drop r = r\<lparr>res_retain := True\<rparr>"

definition drop_reservation :: "nonce_guard \<Rightarrow> reservation \<Rightarrow> instant \<Rightarrow> nonce_guard" where
  "drop_reservation g r now =
     (let s = ng_store g
      in if fmlookup (ns_entries s) (res_key r) \<noteq> Some (res_generation r) then g
         else if res_retain r then
           (case instant_checked_add now (ng_ttl g) of
              Some deadline \<Rightarrow>
                g\<lparr>ng_store := s\<lparr>ns_expirations := bt_insert (deadline, res_key r) (ns_expirations s)\<rparr>\<rparr>
            | None \<Rightarrow> g)
         else g\<lparr>ng_store := s\<lparr>ns_entries := fmdrop (res_key r) (ns_entries s)\<rparr>\<rparr>)"

definition release_reservation :: "nonce_guard \<Rightarrow> reservation \<Rightarrow> instant \<Rightarrow> nonce_guard" where
  "release_reservation g r now = drop_reservation g (r\<lparr>res_retain := False\<rparr>) now"

definition check_and_record :: "nonce_guard \<Rightarrow> str \<Rightarrow> instant \<Rightarrow> instant \<Rightarrow> (nonce_error + unit) \<times> nonce_guard" where
  "check_and_record g nonce now_reserve now_drop =
     (case reserve_key g nonce now_reserve of
        (Inl e, g') \<Rightarrow> (Inl e, g')
      | (Inr r, g') \<Rightarrow> (Inr (), drop_reservation g' (retain_on_drop r) now_drop))"

definition guard_len :: "nonce_guard \<Rightarrow> nat" where
  "guard_len g = map_len (ns_entries (ng_store g))"

definition guard_is_empty :: "nonce_guard \<Rightarrow> bool" where
  "guard_is_empty g \<longleftrightarrow> guard_len g = 0"

definition clear_guard :: "nonce_guard \<Rightarrow> nonce_guard" where
  "clear_guard g = g\<lparr>ng_store := \<lparr>ns_entries = fmempty, ns_expirations = []\<rparr>\<rparr>"

subsection \<open>The identity of an authorization\<close>

definition nonempty_str :: "json option \<Rightarrow> str option" where
  "nonempty_str v =
     (case Option.bind v as_str of Some s \<Rightarrow> if s = [] then None else Some s | None \<Rightarrow> None)"

definition opaque_identity :: "payment_payload \<Rightarrow> json" where
  "opaque_identity p = JArr [JStr ''opaque'', ser_u32 (pp_x402_version p),
     ser_requirements (pp_accepted p), pp_payload p]"

definition authorization_identity :: "payment_payload \<Rightarrow> json" where
  "authorization_identity p =
     (let r = pp_accepted p
      in if pr_scheme r = ''exact'' \<and> starts_with (pr_network r) ''eip155:'' then
           (case jget ''authorization'' (pp_payload p) of
              None \<Rightarrow> opaque_identity p
            | Some auth \<Rightarrow>
                (case (nonempty_str (jget ''from'' auth), nonempty_str (jget ''nonce'' auth)) of
                   (Some from, Some nonce) \<Rightarrow>
                     JArr [JStr ''eip3009'', ser_u32 (pp_x402_version p), JStr (pr_scheme r),
                           JStr (pr_network r), JStr (ascii_lower (pr_asset r)),
                           JStr (ascii_lower from), JStr (ascii_lower nonce)]
                 | _ \<Rightarrow> opaque_identity p))
         else opaque_identity p)"

definition authorization_key :: "externals \<Rightarrow> payment_payload \<Rightarrow> str" where
  "authorization_key x p = json_print x (authorization_identity p)"

definition reserve :: "externals \<Rightarrow> nonce_guard \<Rightarrow> payment_payload \<Rightarrow> instant
    \<Rightarrow> (nonce_error + reservation) \<times> nonce_guard" where
  "reserve x g p now =
     (case reserve_key g (authorization_key x p) now of
        (Inl (ReplayDetected _), g') \<Rightarrow> (Inl (ReplayDetected ''[redacted]''), g')
      | (Inl CapacityExceeded, g') \<Rightarrow> (Inl CapacityExceeded, g')
      | (Inr r, g') \<Rightarrow> (Inr r, g'))"

definition extract_nonce_key :: "externals \<Rightarrow> payment_payload \<Rightarrow> str" where
  "extract_nonce_key x p =
     (let text = (\<lambda>v. case as_str v of Some s \<Rightarrow> s | None \<Rightarrow> json_print x v);
          auth_nonce = Option.bind (jget ''authorization'' (pp_payload p)) (jget ''nonce'')
      in case auth_nonce of Some nonce \<Rightarrow> text nonce
         | None \<Rightarrow>
             (case jget ''nonce'' (pp_payload p) of Some nonce \<Rightarrow> text nonce
              | None \<Rightarrow>
                  (case Option.bind (jget ''signature'' (pp_payload p)) as_str of
                     Some s \<Rightarrow> s
                   | None \<Rightarrow> json_print x (pp_payload p))))"

fun nonce_error_message :: "nonce_error \<Rightarrow> str" where
  "nonce_error_message (ReplayDetected nonce) =
     ''payment signature/nonce has already been used: '' @ nonce"
| "nonce_error_message CapacityExceeded = ''payment replay protection cache is full''"

subsection \<open>The invariant of the guard and the reservations alive\<close>

definition current :: "nonce_guard \<Rightarrow> reservation \<Rightarrow> bool" where
  "current g r \<longleftrightarrow> fmlookup (ns_entries (ng_store g)) (res_key r) = Some (res_generation r)"

definition protected_key :: "nonce_guard \<Rightarrow> str \<Rightarrow> bool" where
  "protected_key g k \<longleftrightarrow> k |\<in>| fmdom (ns_entries (ng_store g))"

definition deadlines :: "nonce_guard \<Rightarrow> (instant \<times> str) list" where
  "deadlines g = ns_expirations (ng_store g)"

definition store_inv :: "nonce_guard \<Rightarrow> bool" where
  "store_inv g \<longleftrightarrow>
     index_ok (ns_entries (ng_store g)) (deadlines g)
     \<and> guard_len g \<le> ng_max_capacity g
     \<and> (\<forall>k n. fmlookup (ns_entries (ng_store g)) k = Some n \<longrightarrow> n < ng_next_generation g)"

text \<open>
  A reservation that is alive and current has no deadline: pending authorizations never expire.
  With \<open>strict\<close>, every reservation alive is current; that is what holds as long as nobody calls
  \<open>clear\<close>.
\<close>

definition guard_inv :: "bool \<Rightarrow> nonce_guard \<Rightarrow> reservation list \<Rightarrow> bool" where
  "guard_inv strict g live \<longleftrightarrow>
     store_inv g
     \<and> distinct (map res_generation live)
     \<and> (\<forall>r \<in> set live. res_generation r < ng_next_generation g
          \<and> (current g r \<longrightarrow> res_key r \<notin> snd ` set (deadlines g))
          \<and> (strict \<longrightarrow> current g r))"

lemmas guard_defs = store_inv_def guard_inv_def current_def protected_key_def deadlines_def guard_len_def

lemma guard_inv_new [inv_intros]: "guard_inv strict (new_guard c t) []"
  by (simp add: guard_defs new_guard_def)

lemma ns_expire_eq:
  "ns_expire now s = s\<lparr>ns_entries := fst (expire_loop 64 now (ns_entries s) (ns_expirations s)),
                       ns_expirations := snd (expire_loop 64 now (ns_entries s) (ns_expirations s))\<rparr>"
  by (simp add: ns_expire_def split: prod.splits)

definition expire_guard :: "instant \<Rightarrow> nonce_guard \<Rightarrow> nonce_guard" where
  "expire_guard now g = g\<lparr>ng_store := ns_expire now (ng_store g)\<rparr>"

lemma expire_guard_fields [simp]:
  "ng_max_capacity (expire_guard now g) = ng_max_capacity g"
  "ng_ttl (expire_guard now g) = ng_ttl g"
  "ng_next_generation (expire_guard now g) = ng_next_generation g"
  by (simp_all add: expire_guard_def)

lemma reserve_key_alt:
  "reserve_key g k now =
     (let e = expire_guard now g
      in if protected_key e k then (Inl (ReplayDetected k), e)
         else if ng_max_capacity e \<le> guard_len e then (Inl CapacityExceeded, e)
         else (Inr \<lparr>res_key = k, res_generation = ng_next_generation e, res_retain = False\<rparr>,
               e\<lparr>ng_store := (ng_store e)\<lparr>ns_entries := fmupd k (ng_next_generation e) (ns_entries (ng_store e))\<rparr>,
                 ng_next_generation := Suc (ng_next_generation e)\<rparr>))"
  by (simp add: reserve_key_def expire_guard_def protected_key_def guard_len_def Let_def)

lemma expire_guard_lookup:
  "fmlookup (ns_entries (ng_store (expire_guard now g))) k = Some n
     \<Longrightarrow> fmlookup (ns_entries (ng_store g)) k = Some n"
  using expire_loop_lookup [OF prod.collapse [symmetric]]
  by (simp add: expire_guard_def ns_expire_eq)

lemma expire_guard_deadlines: "set (deadlines (expire_guard now g)) \<subseteq> set (deadlines g)"
  by (simp add: expire_guard_def ns_expire_eq deadlines_def
      expire_loop_subset [OF prod.collapse [symmetric], THEN conjunct1])

lemma expire_guard_keeps:
  "(\<And>d. (d, k) \<in> set (deadlines g) \<Longrightarrow> now < d) \<Longrightarrow>
     fmlookup (ns_entries (ng_store (expire_guard now g))) k = fmlookup (ns_entries (ng_store g)) k"
  by (simp add: expire_guard_def ns_expire_eq deadlines_def
      expire_loop_keeps [OF prod.collapse [symmetric]])

lemma expire_guard_dom:
  "fmdom (ns_entries (ng_store (expire_guard now g))) |\<subseteq>| fmdom (ns_entries (ng_store g))"
  by (simp add: expire_guard_def ns_expire_eq expire_loop_subset [OF prod.collapse [symmetric], THEN conjunct2])

lemma expire_guard_len: "guard_len (expire_guard now g) \<le> guard_len g"
  by (simp add: expire_guard_def ns_expire_eq guard_len_def
      expire_loop_subset [OF prod.collapse [symmetric], THEN conjunct2] map_len_mono)

lemma expire_guard_store_inv: "store_inv g \<Longrightarrow> store_inv (expire_guard now g)"
proof -
  assume inv: "store_inv g"
  obtain es xs where l: "expire_loop 64 now (ns_entries (ng_store g)) (ns_expirations (ng_store g)) = (es, xs)"
    by fastforce
  have "map_len es \<le> map_len (ns_entries (ng_store g))"
    using expire_loop_subset [OF l] by (simp add: map_len_mono)
  moreover have "index_ok es xs"
    using inv l by (auto simp: guard_defs intro: expire_loop_index_ok)
  moreover have "\<And>k n. fmlookup es k = Some n \<Longrightarrow> n < ng_next_generation g"
    using inv expire_loop_lookup [OF l] by (auto simp: guard_defs)
  ultimately show ?thesis
    using inv by (auto simp: guard_defs expire_guard_def ns_expire_eq l)
qed

lemma expire_guard_inv [inv_intros]: "guard_inv strict g live \<Longrightarrow> guard_inv strict (expire_guard now g) live"
proof -
  assume inv: "guard_inv strict g live"
  have keep: "current (expire_guard now g) r \<longleftrightarrow> current g r" if "r \<in> set live" for r
  proof
    assume "current (expire_guard now g) r"
    then show "current g r" by (auto simp: current_def dest: expire_guard_lookup)
  next
    assume c: "current g r"
    with inv that have "res_key r \<notin> snd ` set (deadlines g)" by (auto simp: guard_inv_def)
    then have "\<And>d. (d, res_key r) \<in> set (deadlines g) \<Longrightarrow> now < d" by force
    with c show "current (expire_guard now g) r" by (simp add: current_def expire_guard_keeps)
  qed
  have "store_inv (expire_guard now g)" using inv by (simp add: guard_inv_def expire_guard_store_inv)
  then show ?thesis
    using inv keep expire_guard_deadlines [of now g]
    unfolding guard_inv_def expire_guard_fields by (metis image_mono subset_iff)
qed

lemma reserve_key_err_inv [inv_intros]:
  "guard_inv strict g live \<Longrightarrow> reserve_key g k now = (Inl e, g') \<Longrightarrow> guard_inv strict g' live"
  by (auto simp: reserve_key_alt Let_def intro: expire_guard_inv split: if_splits)

lemma reserve_key_ok_inv [inv_intros]:
  assumes inv: "guard_inv strict g live" and ok: "reserve_key g k now = (Inr r, g')"
  shows "guard_inv strict g' (r # live)" "res_key r = k" "\<not> res_retain r" "current g' r"
proof -
  let ?e = "expire_guard now g"
  have e: "guard_inv strict ?e live" using inv by (rule expire_guard_inv)
  have fresh: "k |\<notin>| fmdom (ns_entries (ng_store ?e))" and room: "guard_len ?e < ng_max_capacity ?e"
    and r: "r = \<lparr>res_key = k, res_generation = ng_next_generation ?e, res_retain = False\<rparr>"
    and g': "g' = ?e\<lparr>ng_store := (ng_store ?e)\<lparr>ns_entries := fmupd k (ng_next_generation ?e) (ns_entries (ng_store ?e))\<rparr>,
                 ng_next_generation := Suc (ng_next_generation ?e)\<rparr>"
    using ok by (auto simp: reserve_key_alt Let_def protected_key_def split: if_splits)
  show "res_key r = k" "\<not> res_retain r" "current g' r" using r g' by (auto simp: current_def)
  have idx: "k \<notin> snd ` set (deadlines ?e)"
    using e fresh by (auto simp: guard_defs index_ok_def)
  have st: "store_inv g'"
    using e fresh room
    by (auto simp: g' guard_defs map_len_upd index_ok_upd less_Suc_eq split: if_splits)
  have cur: "current g' s \<longleftrightarrow> current ?e s" if "s \<in> set live" for s
    using that e fresh by (auto simp: g' guard_defs)
  show "guard_inv strict g' (r # live)"
    using e st cur idx \<open>current g' r\<close> unfolding guard_inv_def by (auto simp: g' r deadlines_def)
qed

lemma reserve_key_refuses:
  assumes "guard_inv strict g live" "r \<in> set live" "current g r" "res_key r = k"
  shows "fst (reserve_key g k now) = Inl (ReplayDetected k)"
proof -
  have "guard_inv strict (expire_guard now g) live" using assms(1) by (rule expire_guard_inv)
  have "\<And>d. (d, k) \<in> set (deadlines g) \<Longrightarrow> now < d" using assms by (force simp: guard_inv_def)
  then have "protected_key (expire_guard now g) k"
    using assms by (auto simp: current_def protected_key_def expire_guard_keeps fmlookup_dom_iff)
  then show ?thesis by (simp add: reserve_key_alt Let_def)
qed

lemma drop_stale: "\<not> current g r \<Longrightarrow> drop_reservation g r now = g"
  by (simp add: drop_reservation_def current_def Let_def)

lemma drop_reservation_fields [simp]:
  "ng_max_capacity (drop_reservation g r now) = ng_max_capacity g"
  "ng_ttl (drop_reservation g r now) = ng_ttl g"
  "ng_next_generation (drop_reservation g r now) = ng_next_generation g"
  by (simp_all add: drop_reservation_def Let_def split: option.splits)

lemma drop_reservation_current:
  assumes "current g r"
  shows "drop_reservation g r now =
     (if res_retain r then
        (case instant_checked_add now (ng_ttl g) of
           Some d \<Rightarrow> g\<lparr>ng_store := (ng_store g)\<lparr>ns_expirations := bt_insert (d, res_key r) (deadlines g)\<rparr>\<rparr>
         | None \<Rightarrow> g)
      else g\<lparr>ng_store := (ng_store g)\<lparr>ns_entries := fmdrop (res_key r) (ns_entries (ng_store g))\<rparr>\<rparr>)"
  using assms by (auto simp: drop_reservation_def current_def deadlines_def Let_def split: option.split)

lemma drop_store_inv:
  assumes "store_inv g" "current g r \<Longrightarrow> res_key r \<notin> snd ` set (deadlines g)"
  shows "store_inv (drop_reservation g r now)"
proof (cases "current g r")
  case True
  then have dom: "res_key r |\<in>| fmdom (ns_entries (ng_store g))"
    by (auto simp: current_def fmlookup_dom_iff)
  have len: "map_len (fmdrop (res_key r) (ns_entries (ng_store g))) \<le> ng_max_capacity g"
    using assms(1) map_len_drop_le [of "res_key r" "ns_entries (ng_store g)"]
    by (simp add: store_inv_def guard_len_def)
  show ?thesis
    using assms True dom len
    by (auto simp: drop_reservation_current store_inv_def guard_len_def deadlines_def
        intro!: index_ok_insert index_ok_drop split: option.splits if_splits)
qed (use assms in \<open>simp add: drop_stale\<close>)

lemma drop_deadlines:
  "snd ` set (deadlines (drop_reservation g r now)) \<subseteq>
     snd ` set (deadlines g) \<union> (if current g r then {res_key r} else {})"
  by (auto simp: drop_reservation_def current_def deadlines_def Let_def split: option.splits)

lemma drop_current_other:
  "res_key s \<noteq> res_key r \<or> \<not> current g r \<Longrightarrow> current (drop_reservation g r now) s \<longleftrightarrow> current g s"
  by (auto simp: drop_reservation_def current_def Let_def split: option.splits)

lemma drop_current_mono: "current (drop_reservation g r now) s \<Longrightarrow> current g s"
  by (auto simp: drop_reservation_def current_def Let_def split: option.splits if_splits)

lemma current_same_key:
  "current g r \<Longrightarrow> current g s \<Longrightarrow> res_key r = res_key s \<Longrightarrow> res_generation r = res_generation s"
  by (simp add: current_def)

lemma distinct_map_other: "distinct (map f (xs @ r # ys)) \<Longrightarrow> s \<in> set (xs @ ys) \<Longrightarrow> f s \<noteq> f r"
  by (induction xs) (auto simp: image_iff)

lemma drop_inv [inv_intros]:
  assumes inv: "guard_inv strict g (xs @ r # ys)"
    and same: "res_key r' = res_key r" "res_generation r' = res_generation r"
  shows "guard_inv strict (drop_reservation g r' now) (xs @ ys)"
proof -
  have cur: "current g r' \<longleftrightarrow> current g r" using same by (simp add: current_def)
  have st: "store_inv (drop_reservation g r' now)"
    using inv cur same by (intro drop_store_inv) (auto simp: guard_inv_def)
  have other: "res_key s \<noteq> res_key r \<or> \<not> current g r" if "s \<in> set (xs @ ys)" "current g s" for s
  proof -
    have "distinct (map res_generation (xs @ r # ys))" using inv unfolding guard_inv_def by blast
    then have "res_generation s \<noteq> res_generation r" using that(1) by (rule distinct_map_other)
    with current_same_key [of g s r] that(2) show ?thesis by auto
  qed
  have "res_key s \<notin> snd ` set (deadlines (drop_reservation g r' now))"
    if s: "s \<in> set (xs @ ys)" and c: "current (drop_reservation g r' now) s" for s
  proof -
    have cs: "current g s" using c by (rule drop_current_mono)
    then have "res_key s \<notin> snd ` set (deadlines g)" using inv s by (auto simp: guard_inv_def)
    then show ?thesis
      using other [OF s cs] drop_deadlines [of g r' now] cur same by (auto split: if_splits)
  qed
  moreover have "current (drop_reservation g r' now) s" if "s \<in> set (xs @ ys)" strict for s
    using that inv other [of s] cur same drop_current_other [of s r' g now]
    by (auto simp: guard_inv_def)
  ultimately show ?thesis using inv st by (auto simp: guard_inv_def)
qed

lemma retain_inv [inv_intros]:
  "guard_inv strict g (xs @ r # ys) \<Longrightarrow> guard_inv strict g (xs @ retain_on_drop r # ys)"
  by (auto simp: guard_inv_def retain_on_drop_def current_def)

lemma clear_inv [inv_intros]:
  "guard_inv False g live \<Longrightarrow> guard_inv False (clear_guard g) live"
  by (auto simp: guard_inv_def store_inv_def clear_guard_def current_def guard_len_def deadlines_def)

subsection \<open>The guard as a state machine\<close>

text \<open>
  An event is one atomic section of some request: reserving a key, raising the retain flag of a
  reservation alive, dropping or releasing it, or the administrative \<open>clear\<close>. A reservation is
  addressed by its position in the list of those alive; each is dropped at most once, as Rust's
  ownership guarantees.
\<close>

datatype guard_event =
    EvReserve str instant
  | EvRetain nat
  | EvDrop nat instant
  | EvRelease nat instant
  | EvClear

fun guard_step :: "nonce_guard \<times> reservation list \<Rightarrow> guard_event \<Rightarrow> nonce_guard \<times> reservation list" where
  "guard_step (g, live) (EvReserve k now) =
     (case reserve_key g k now of
        (Inr r, g') \<Rightarrow> (g', r # live)
      | (Inl e, g') \<Rightarrow> (g', live))"
| "guard_step (g, live) (EvRetain i) =
     (if i < length live then (g, live[i := retain_on_drop (live ! i)]) else (g, live))"
| "guard_step (g, live) (EvDrop i now) =
     (if i < length live then (drop_reservation g (live ! i) now, take i live @ drop (Suc i) live)
      else (g, live))"
| "guard_step (g, live) (EvRelease i now) =
     (if i < length live then (release_reservation g (live ! i) now, take i live @ drop (Suc i) live)
      else (g, live))"
| "guard_step (g, live) EvClear = (clear_guard g, live)"

definition guard_run :: "nonce_guard \<times> reservation list \<Rightarrow> guard_event list \<Rightarrow> nonce_guard \<times> reservation list" where
  "guard_run = foldl guard_step"

lemma split_nth: "i < length xs \<Longrightarrow> take i xs @ xs ! i # drop (Suc i) xs = xs"
  by (rule id_take_nth_drop [symmetric])

lemma drop_inv_nth:
  assumes "guard_inv strict g live" "i < length live"
    and "res_key r' = res_key (live ! i)" "res_generation r' = res_generation (live ! i)"
  shows "guard_inv strict (drop_reservation g r' now) (take i live @ drop (Suc i) live)"
  using assms by (intro drop_inv [where r = "live ! i"]) (simp_all only: split_nth)

lemma retain_inv_nth:
  assumes "guard_inv strict g live" "i < length live"
  shows "guard_inv strict g (live[i := retain_on_drop (live ! i)])"
  unfolding upd_conv_take_nth_drop [OF assms(2)]
  using assms by (intro retain_inv) (simp only: split_nth)

lemma guard_step_inv:
  assumes "guard_inv strict g live" "strict \<longrightarrow> e \<noteq> EvClear" "guard_step (g, live) e = (g', live')"
  shows "guard_inv strict g' live'"
proof (cases e)
  case (EvReserve k now)
  obtain res g1 where r: "reserve_key g k now = (res, g1)" by fastforce
  show ?thesis
  proof (cases res)
    case (Inl err)
    with assms EvReserve r have "g' = g1" "live' = live" by auto
    with reserve_key_err_inv [OF assms(1)] r Inl show ?thesis by simp
  next
    case (Inr rv)
    with assms EvReserve r have "g' = g1" "live' = rv # live" by auto
    with reserve_key_ok_inv(1) [OF assms(1)] r Inr show ?thesis by simp
  qed
next
  case (EvRetain i)
  with assms show ?thesis by (auto split: if_splits intro: retain_inv_nth)
next
  case (EvDrop i now)
  with assms show ?thesis by (auto split: if_splits intro: drop_inv_nth)
next
  case (EvRelease i now)
  with assms show ?thesis by (auto simp: release_reservation_def split: if_splits intro!: drop_inv_nth)
next
  case EvClear
  with assms show ?thesis by (cases strict) (auto intro: clear_inv)
qed

lemma guard_run_inv:
  "guard_inv strict (fst s) (snd s) \<Longrightarrow> (strict \<longrightarrow> EvClear \<notin> set es) \<Longrightarrow>
     guard_inv strict (fst (guard_run s es)) (snd (guard_run s es))"
proof (induction es arbitrary: s)
  case (Cons e es)
  obtain g live g' live' where s: "s = (g, live)" "guard_step s e = (g', live')"
    by (metis surj_pair)
  have "strict \<longrightarrow> e \<noteq> EvClear" using Cons.prems(2) by auto
  then have "guard_inv strict g' live'"
    using guard_step_inv [of strict g live e g' live'] Cons.prems(1) s by simp
  then show ?case using Cons.IH [of "(g', live')"] Cons.prems s by (auto simp: guard_run_def)
qed (simp add: guard_run_def)

subsection \<open>The contract of replay protection\<close>

text \<open>
  What a client of the guard relies on: \<open>admit\<close> hands out a reservation or refuses, a
  reservation is given back once with \<open>finish\<close>, and as long as it is alive its key is refused.
\<close>

locale replay_protection =
  fixes admit :: "'g \<Rightarrow> 'k \<Rightarrow> instant \<Rightarrow> ('e + 'r) \<times> 'g"
    and finish :: "'g \<Rightarrow> 'r \<Rightarrow> instant \<Rightarrow> 'g"
    and key_of :: "'r \<Rightarrow> 'k"
    and same :: "'r \<Rightarrow> 'r \<Rightarrow> bool"
    and holds :: "'g \<Rightarrow> 'r list \<Rightarrow> bool"
  assumes admit_ok: "holds g live \<Longrightarrow> admit g k now = (Inr r, g') \<Longrightarrow> holds g' (r # live) \<and> key_of r = k"
    and admit_err: "holds g live \<Longrightarrow> admit g k now = (Inl e, g') \<Longrightarrow> holds g' live"
    and finish_ok: "holds g (xs @ r # ys) \<Longrightarrow> same r r' \<Longrightarrow> holds (finish g r' now) (xs @ ys)"
    and same_ok: "holds g (xs @ r # ys) \<Longrightarrow> same r r' \<Longrightarrow> holds g (xs @ r' # ys) \<and> key_of r' = key_of r"
    and admit_refuses: "holds g live \<Longrightarrow> r \<in> set live \<Longrightarrow> \<exists>e g'. admit g (key_of r) now = (Inl e, g')"
begin

lemma admit_fresh:
  assumes "holds g live" "admit g k now = (Inr r, g')"
  shows "k \<notin> key_of ` set live"
proof
  assume "k \<in> key_of ` set live"
  then obtain s where s: "s \<in> set live" "k = key_of s" by auto
  show False using admit_refuses [OF assms(1) s(1), of now] assms(2) s(2) by auto
qed

lemma admit_distinct:
  "holds g live \<Longrightarrow> distinct (map key_of live) \<Longrightarrow> admit g k now = (Inr r, g') \<Longrightarrow>
     distinct (map key_of (r # live))"
  using admit_fresh [of g live k now r g'] admit_ok [of g live k now r g'] by auto

end

lemma reserve_key_refuses_live:
  "guard_inv True g live \<Longrightarrow> r \<in> set live \<Longrightarrow> fst (reserve_key g (res_key r) now) = Inl (ReplayDetected (res_key r))"
  by (rule reserve_key_refuses) (auto simp: guard_inv_def)

interpretation ng: replay_protection reserve_key drop_reservation res_key
  "\<lambda>r r'. res_key r' = res_key r \<and> res_generation r' = res_generation r" "guard_inv True"
proof unfold_locales
  fix g g' live k now and r :: reservation
  assume "guard_inv True g live" "reserve_key g k now = (Inr r, g')"
  from reserve_key_ok_inv(1,2) [OF this] show "guard_inv True g' (r # live) \<and> res_key r = k" ..
next
  fix g g' live k now and e :: nonce_error
  assume "guard_inv True g live" "reserve_key g k now = (Inl e, g')"
  then show "guard_inv True g' live" by (rule reserve_key_err_inv)
next
  fix g xs ys now and r r' :: reservation
  assume "guard_inv True g (xs @ r # ys)" "res_key r' = res_key r \<and> res_generation r' = res_generation r"
  then show "guard_inv True (drop_reservation g r' now) (xs @ ys)" by (intro drop_inv [where r = r]) auto
next
  fix g xs ys and r r' :: reservation
  assume "guard_inv True g (xs @ r # ys)" "res_key r' = res_key r \<and> res_generation r' = res_generation r"
  then show "guard_inv True g (xs @ r' # ys) \<and> res_key r' = res_key r"
    by (auto simp: guard_inv_def current_def)
next
  fix g live now and r :: reservation
  assume "guard_inv True g live" "r \<in> set live"
  from reserve_key_refuses_live [OF this, of now]
  show "\<exists>e g'. reserve_key g (res_key r) now = (Inl e, g')" by (metis prod.collapse)
qed

subsection \<open>Properties of the guard\<close>

lemma expire_loop_Nil [simp]: "expire_loop n now es [] = (es, [])"
  by (cases n) auto

lemma expire_loop_Cons:
  "expire_loop n now es ((d, k) # xs)
     = (if n = 0 \<or> now < d then (es, (d, k) # xs) else expire_loop (n - 1) now (fmdrop k es) xs)"
  by (cases n) auto

lemmas guard_eval =
  new_guard_def guard_run_def reserve_key_def ns_expire_def expire_loop_Cons from_secs_def
  release_reservation_def drop_reservation_def retain_on_drop_def time_defs deadlines_def
  bt_insert_def insort_insert_key_def map_len_upd guard_len_def clear_guard_def

lemma guard_step_capacity:
  "ng_max_capacity (fst (guard_step s e)) = ng_max_capacity (fst s)"
  by (cases s; cases e)
    (auto simp: reserve_key_alt Let_def release_reservation_def clear_guard_def)

lemma guard_run_capacity: "ng_max_capacity (fst (guard_run s es)) = ng_max_capacity (fst s)"
  by (induction es arbitrary: s) (simp_all add: guard_run_def guard_step_capacity)

lemma guard_inv_distinct_keys: "guard_inv True g live \<Longrightarrow> distinct (map res_key live)"
proof -
  assume inv: "guard_inv True g live"
  then have "inj_on res_key (set live)"
    by (intro inj_onI) (metis (no_types, lifting) guard_inv_def current_same_key distinct_map inj_onD)
  moreover have "distinct live" using inv by (auto simp: guard_inv_def distinct_map)
  ultimately show ?thesis by (simp add: distinct_map)
qed

text \<open>
  C12: whatever the interleaving of reservations, retentions, drops and releases on a fresh guard
  (without an administrative clear), the authorizations in flight are pairwise different, a
  further attempt on any of them is refused at every time, and both the store and its expiry
  index stay within the configured capacity.
\<close>
theorem pending_authorizations_exclusive:
  assumes "guard_run (new_guard c t, []) es = (g, live)" and "EvClear \<notin> set es"
  shows "distinct (map res_key live)
     \<and> (\<forall>r now. r \<in> set live \<longrightarrow> fst (reserve_key g (res_key r) now) = Inl (ReplayDetected (res_key r)))
     \<and> length (deadlines g) \<le> guard_len g \<and> guard_len g \<le> max c 1"
proof -
  have inv: "guard_inv True g live"
    using guard_run_inv [of True "(new_guard c t, [])" es] assms by (simp add: guard_inv_new)
  have "ng_max_capacity g = max c 1"
    using guard_run_capacity [of "(new_guard c t, [])" es] assms(1) by (simp add: new_guard_def)
  then show ?thesis
    using inv guard_inv_distinct_keys [OF inv] reserve_key_refuses_live [OF inv]
    by (auto simp: guard_inv_def store_inv_def guard_len_def index_length)
qed

theorem pending_authorizations_exclusive_witness:
  "\<exists>g live. guard_run (new_guard 2 60, []) [EvReserve ''a'' 0, EvReserve ''b'' 5, EvReserve ''a'' 9] = (g, live)
     \<and> map res_key live = [''b'', ''a''] \<and> distinct (map res_key live)"
proof -
  obtain g live where run:
    "guard_run (new_guard 2 60, []) [EvReserve ''a'' 0, EvReserve ''b'' 5, EvReserve ''a'' 9] = (g, live)"
    by fastforce
  have "map res_key live = [''b'', ''a'']" using run by (auto simp: guard_eval)
  moreover have "distinct (map res_key live)"
    using pending_authorizations_exclusive [OF run] by simp
  ultimately show ?thesis using run by (intro exI conjI)
qed

text \<open>A deadline in the index stays there until the clock reaches it or somebody clears the guard.\<close>

definition before :: "instant \<Rightarrow> guard_event \<Rightarrow> bool" where
  "before d e \<longleftrightarrow> (case e of EvClear \<Rightarrow> False | EvReserve _ now \<Rightarrow> now < d | _ \<Rightarrow> True)"

lemma drop_keeps_deadline: "p \<in> set (deadlines g) \<Longrightarrow> p \<in> set (deadlines (drop_reservation g r now))"
  by (simp add: drop_reservation_def deadlines_def Let_def split: option.split)

lemma expire_guard_keeps_deadline:
  "p \<in> set (deadlines g) \<Longrightarrow> now < fst p \<Longrightarrow> p \<in> set (deadlines (expire_guard now g))"
  by (simp add: expire_guard_def ns_expire_eq deadlines_def
      expire_loop_keeps_deadline [OF prod.collapse [symmetric]])

lemma guard_step_keeps_deadline:
  assumes "(d, k) \<in> set (deadlines (fst s))" "before d e"
  shows "(d, k) \<in> set (deadlines (fst (guard_step s e)))"
proof -
  have "(d, k) \<in> set (deadlines (expire_guard now (fst s)))" if "e = EvReserve k' now" for k' now
    using assms that expire_guard_keeps_deadline by (simp add: before_def)
  then show ?thesis
    using assms drop_keeps_deadline
    by (cases s; cases e)
      (auto simp: before_def reserve_key_alt Let_def release_reservation_def deadlines_def)
qed

lemma guard_run_keeps_deadline:
  "(d, k) \<in> set (deadlines (fst s)) \<Longrightarrow> \<forall>e \<in> set es. before d e \<Longrightarrow>
     (d, k) \<in> set (deadlines (fst (guard_run s es)))"
  by (induction es arbitrary: s) (auto simp: guard_run_def guard_step_keeps_deadline)

lemma store_inv_deadline_blocks:
  assumes "store_inv g" "(d, k) \<in> set (deadlines g)" "now < d"
  shows "fst (reserve_key g k now) = Inl (ReplayDetected k)"
proof -
  have "store_inv (expire_guard now g)" using assms(1) by (rule expire_guard_store_inv)
  moreover have "(d, k) \<in> set (deadlines (expire_guard now g))"
    using assms(2,3) by (intro expire_guard_keeps_deadline) auto
  ultimately have "protected_key (expire_guard now g) k"
    by (force simp: store_inv_def index_ok_def protected_key_def)
  then show ?thesis by (simp add: reserve_key_alt Let_def)
qed

lemma guard_run_store_inv:
  "guard_run (new_guard c t, []) es = (g, live) \<Longrightarrow> guard_inv False g live"
  using guard_run_inv [of False "(new_guard c t, [])" es] by (simp add: guard_inv_new)

lemma guard_run_append: "guard_run s (xs @ ys) = guard_run (guard_run s xs) ys"
  by (simp add: guard_run_def)

lemma guard_run_Cons: "guard_run s (e # es) = guard_run (guard_step s e) es"
  by (simp add: guard_run_def)

lemma guard_run_Nil [simp]: "guard_run s [] = s"
  by (simp add: guard_run_def)

text \<open>
  Retention. Once a current reservation with its retain flag raised is dropped at time
  \<open>now\<close>, its authorization is refused until \<open>now + ttl\<close>, whatever else happens on the guard in
  between, short of a clear.
\<close>
theorem retained_authorization_blocks:
  assumes run: "guard_run (new_guard c t, []) es1 = (g, live)"
    and i: "i < length live" "current g (live ! i)" "res_retain (live ! i)"
    and d: "instant_checked_add now (ng_ttl g) = Some d"
    and run2: "guard_run (g, live) (EvDrop i now # es2) = (g', live')"
    and es2: "\<forall>e \<in> set es2. before d e" and later: "later < d"
  shows "fst (reserve_key g' (res_key (live ! i)) later) = Inl (ReplayDetected (res_key (live ! i)))"
proof (rule store_inv_deadline_blocks [OF _ _ later])
  have "guard_run (new_guard c t, []) (es1 @ EvDrop i now # es2) = (g', live')"
    using run run2 by (simp only: guard_run_append)
  from guard_run_store_inv [OF this] show "store_inv g'" by (simp add: guard_inv_def)
  have "(d, res_key (live ! i)) \<in> set (deadlines (drop_reservation g (live ! i) now))"
    using i d by (simp add: drop_reservation_current) (simp add: deadlines_def)
  then have "(d, res_key (live ! i)) \<in> set (deadlines (fst (guard_run (g, live) (EvDrop i now # es2))))"
    using i(1) es2 by (simp only: guard_run_Cons) (auto intro!: guard_run_keeps_deadline)
  then show "(d, res_key (live ! i)) \<in> set (deadlines g')" using run2 by simp
qed

theorem retained_authorization_blocks_witness:
  "\<exists>g live. guard_run (new_guard 2 60, [])
       [EvReserve ''a'' 0, EvRetain 0, EvDrop 0 10, EvReserve ''b'' 20] = (g, live)
     \<and> fst (reserve_key g ''a'' 59999999999) = Inl (ReplayDetected ''a'')"
proof -
  define g1 where "g1 = fst (guard_run (new_guard 2 60, []) [EvReserve ''a'' 0, EvRetain 0])"
  define live1 where "live1 = snd (guard_run (new_guard 2 60, []) [EvReserve ''a'' 0, EvRetain 0])"
  have run: "guard_run (new_guard 2 60, []) [EvReserve ''a'' 0, EvRetain 0] = (g1, live1)"
    by (simp add: g1_def live1_def)
  have l: "live1 = [\<lparr>res_key = ''a'', res_generation = 0, res_retain = True\<rparr>]"
    by (simp add: live1_def guard_eval)
  have i: "0 < length live1" "current g1 (live1 ! 0)" "res_retain (live1 ! 0)"
    by (simp_all add: l g1_def guard_eval current_def)
  have d: "instant_checked_add 10 (ng_ttl g1) = Some 60000000010"
    by (simp add: g1_def guard_eval)
  obtain g live where run2: "guard_run (g1, live1) [EvDrop 0 10, EvReserve ''b'' 20] = (g, live)"
    by fastforce
  have "\<forall>e \<in> set [EvReserve ''b'' 20]. before 60000000010 e" by (simp add: before_def)
  from retained_authorization_blocks [OF run i d run2 this, of 59999999999]
  have "fst (reserve_key g ''a'' 59999999999) = Inl (ReplayDetected ''a'')" by (simp add: l)
  moreover have "guard_run (new_guard 2 60, [])
      [EvReserve ''a'' 0, EvRetain 0, EvDrop 0 10, EvReserve ''b'' 20] = (g, live)"
    using run run2 by (simp add: guard_run_Cons)
  ultimately show ?thesis by blast
qed

text \<open>Generations handed out before a point in time never reappear in a store that was cleared.\<close>

definition generations_from :: "nat \<Rightarrow> nonce_guard \<Rightarrow> bool" where
  "generations_from n g \<longleftrightarrow> n \<le> ng_next_generation g
     \<and> (\<forall>k m. fmlookup (ns_entries (ng_store g)) k = Some m \<longrightarrow> n \<le> m)"

lemma guard_step_generations:
  assumes "generations_from n (fst s)"
  shows "generations_from n (fst (guard_step s e))"
proof -
  have drop: "generations_from n (drop_reservation g r now)" if "generations_from n g" for g r now
    using that by (auto simp: drop_reservation_def generations_from_def Let_def split: option.splits if_splits)
  have expire: "generations_from n (expire_guard now g)" if "generations_from n g" for g now
    using that unfolding generations_from_def by (metis expire_guard_lookup expire_guard_fields(3))
  have reserve: "generations_from n (snd (reserve_key g k now))" if "generations_from n g" for g k now
    using expire [OF that, of now] by (auto simp: reserve_key_alt Let_def generations_from_def)
  obtain g live where s: "s = (g, live)" by fastforce
  show ?thesis
  proof (cases e)
    case (EvReserve k now)
    with s assms reserve [of g k now] show ?thesis by (auto split: prod.splits sum.splits)
  next
    case EvClear
    with s assms show ?thesis by (auto simp: generations_from_def clear_guard_def)
  qed (use s assms drop in \<open>auto simp: release_reservation_def\<close>)
qed

lemma guard_run_generations:
  "generations_from n (fst s) \<Longrightarrow> generations_from n (fst (guard_run s es))"
  by (induction es arbitrary: s) (auto simp: guard_run_def guard_step_generations)

text \<open>
  A reservation handle that predates a clear cannot disturb the guard any more. Whatever is
  reserved and dropped afterwards, dropping or releasing the old handle leaves the guard exactly
  as it is, so it can neither free nor retain a replacement entry.
\<close>
theorem stale_handle_is_inert:
  assumes run: "guard_run (new_guard c t, []) es1 = (g, live)" and r: "r \<in> set live"
    and run2: "guard_run (clear_guard g, live) es2 = (g', live')"
  shows "drop_reservation g' r now = g' \<and> release_reservation g' r now = g'"
proof -
  have "generations_from (ng_next_generation g) (clear_guard g)"
    by (simp add: generations_from_def clear_guard_def)
  then have "generations_from (ng_next_generation g) g'"
    using guard_run_generations [of _ "(clear_guard g, live)" es2] run2 by simp
  moreover have "res_generation r < ng_next_generation g"
    using guard_run_store_inv [OF run] r by (auto simp: guard_inv_def)
  ultimately have "\<not> current g' r"
    unfolding generations_from_def current_def by (metis leD)
  then show ?thesis by (simp add: drop_stale release_reservation_def current_def)
qed

theorem stale_handle_is_inert_witness:
  "\<exists>g live g' live'. guard_run (new_guard 1 60, []) [EvReserve ''a'' 0] = (g, live)
     \<and> guard_run (clear_guard g, live) [EvReserve ''a'' 1] = (g', live')
     \<and> guard_len g' = 1 \<and> drop_reservation g' (live ! 0) 2 = g'"
proof -
  define s where "s = guard_run (new_guard 1 60, []) [EvReserve ''a'' 0]"
  define s' where "s' = guard_run (clear_guard (fst s), snd s) [EvReserve ''a'' 1]"
  have run: "guard_run (new_guard 1 60, []) [EvReserve ''a'' 0] = (fst s, snd s)" by (simp add: s_def)
  have run2: "guard_run (clear_guard (fst s), snd s) [EvReserve ''a'' 1] = (fst s', snd s')"
    by (simp add: s'_def)
  have "snd s ! 0 \<in> set (snd s)" by (simp add: s_def guard_eval)
  from stale_handle_is_inert [OF run this run2]
  have "drop_reservation (fst s') (snd s ! 0) 2 = fst s'" by blast
  moreover have "guard_len (fst s') = 1" by (simp add: s'_def s_def guard_eval)
  ultimately show ?thesis using run run2 by (intro exI conjI)
qed

text \<open>
  A failure known to be safe gives the authorization back. After the release of a current
  reservation the same key can be reserved again at any time, even on a guard that was full.
\<close>
theorem released_authorization_reusable:
  assumes run: "guard_run (new_guard c t, []) es = (g, live)"
    and r: "r \<in> set live" "current g r"
  shows "\<exists>r' g'. reserve_key (release_reservation g r now) (res_key r) later = (Inr r', g')"
proof -
  let ?g = "release_reservation g r now"
  have inv: "guard_inv False g live" by (rule guard_run_store_inv [OF run])
  have g: "?g = g\<lparr>ng_store := (ng_store g)\<lparr>ns_entries := fmdrop (res_key r) (ns_entries (ng_store g))\<rparr>\<rparr>"
    using r(2) by (simp add: release_reservation_def drop_reservation_def current_def Let_def)
  have "res_key r |\<in>| fmdom (ns_entries (ng_store g))" using r(2) by (auto simp: current_def fmlookup_dom_iff)
  moreover from this have "map_len (ns_entries (ng_store g)) \<noteq> 0"
    by (auto simp: map_len_def)
  ultimately have room: "guard_len ?g < ng_max_capacity ?g"
    using inv by (auto simp: g guard_len_def map_len_drop guard_inv_def store_inv_def)
  have gone: "\<not> protected_key (expire_guard later ?g) (res_key r)"
  proof
    assume "protected_key (expire_guard later ?g) (res_key r)"
    then obtain m where "fmlookup (ns_entries (ng_store (expire_guard later ?g))) (res_key r) = Some m"
      unfolding protected_key_def fmlookup_dom_iff by blast
    then have "fmlookup (ns_entries (ng_store ?g)) (res_key r) = Some m" by (rule expire_guard_lookup)
    then show False by (simp add: g)
  qed
  with room gone expire_guard_len [of later ?g] show ?thesis by (simp add: reserve_key_alt Let_def)
qed

theorem released_authorization_reusable_witness:
  "\<exists>g live r' g'. guard_run (new_guard 1 60, []) [EvReserve ''a'' 0] = (g, live)
     \<and> reserve_key (release_reservation g (live ! 0) 5) ''a'' 6 = (Inr r', g')"
proof -
  define s where "s = guard_run (new_guard 1 60, []) [EvReserve ''a'' 0]"
  have run: "guard_run (new_guard 1 60, []) [EvReserve ''a'' 0] = (fst s, snd s)" by (simp add: s_def)
  have "snd s ! 0 \<in> set (snd s)" "current (fst s) (snd s ! 0)" and k: "res_key (snd s ! 0) = ''a''"
    by (simp_all add: s_def guard_eval current_def)
  from released_authorization_reusable [OF run this(1,2), of 5 6]
  obtain r' g' where "reserve_key (release_reservation (fst s) (snd s ! 0) 5) ''a'' 6 = (Inr r', g')"
    by (auto simp: k)
  then show ?thesis using run by (intro exI conjI)
qed

text \<open>After the loop, a key whose deadline has left the index is gone from the map too.\<close>

lemma expire_loop_gone:
  "index_ok es xs \<Longrightarrow> expire_loop n now es xs = (es', xs') \<Longrightarrow> (d, k) \<in> set xs \<Longrightarrow> (d, k) \<notin> set xs'
     \<Longrightarrow> k |\<notin>| fmdom es'"
proof (induction n now es xs rule: expire_loop.induct)
  case (2 n now es xs)
  show ?case
  proof (cases xs)
    case (Cons p rest)
    obtain d' k' where p: "p = (d', k')" by fastforce
    show ?thesis
    proof (cases "d' \<le> now")
      case True
      have ok: "index_ok (fmdrop k' es) rest" using 2(2) Cons p by (auto dest: index_ok_tl)
      have run: "expire_loop n now (fmdrop k' es) rest = (es', xs')" using 2(3) Cons p True by simp
      show ?thesis
      proof (cases "(d, k) = (d', k')")
        case True
        with expire_loop_subset [OF run] show ?thesis by auto
      next
        case False
        then have "(d, k) \<in> set rest" using 2(4) Cons p by auto
        with 2(1) [OF Cons] p True ok run 2(5) show ?thesis by blast
      qed
    next
      case False
      with 2 Cons p show ?thesis by auto
    qed
  qed (use 2 in simp)
qed auto

lemma expired_key_gone:
  assumes "store_inv g" "(d, k) \<in> set (deadlines g)" "d \<le> now"
    and late: "\<forall>p \<in> set (deadlines (expire_guard now g)). now < fst p"
  shows "\<not> protected_key (expire_guard now g) k"
proof -
  have "(d, k) \<notin> set (deadlines (expire_guard now g))" using assms(3) late by force
  then show ?thesis
    using assms(1,2) expire_loop_gone [OF _ prod.collapse [symmetric], where d = d and k = k]
    by (auto simp: expire_guard_def ns_expire_eq deadlines_def protected_key_def store_inv_def)
qed

text \<open>
  Retention ends. When the retention of an authorization is over and no more than 64
  deadlines are due, the next attempt on it reclaims the expired entries and is admitted.
\<close>
theorem expired_authorization_readmitted:
  assumes run: "guard_run (new_guard c t, []) es = (g, live)"
    and due: "(d, k) \<in> set (deadlines g)" "d \<le> now"
    and few: "length (filter (\<lambda>p. fst p \<le> now) (deadlines g)) \<le> 64"
  shows "\<exists>r g'. reserve_key g k now = (Inr r, g')"
proof -
  let ?e = "expire_guard now g"
  have st: "store_inv g" using guard_run_store_inv [OF run] by (simp add: guard_inv_def)
  have ste: "store_inv ?e" using st by (rule expire_guard_store_inv)
  have "sorted (deadlines g)" using st by (simp add: store_inv_def index_ok_def bt_wf_def)
  then have late: "\<forall>p \<in> set (deadlines ?e). now < fst p"
    using few expire_loop_all_due [OF _ _ prod.collapse [symmetric]]
    by (simp add: expire_guard_def ns_expire_eq deadlines_def)
  have gone: "\<not> protected_key ?e k"
    using st due late by (rule expired_key_gone)
  have "k |\<in>| fmdom (ns_entries (ng_store g))" using st due(1) by (force simp: store_inv_def index_ok_def)
  then have "guard_len ?e < guard_len g"
    using gone expire_guard_dom [of now g]
    by (auto simp: guard_len_def map_len_def protected_key_def intro!: pfsubset_fcard_mono)
  then have "guard_len ?e < ng_max_capacity ?e" using st by (simp add: store_inv_def)
  with gone show ?thesis by (simp add: reserve_key_alt Let_def)
qed

theorem expired_authorization_readmitted_witness:
  "\<exists>g live r g'. guard_run (new_guard 1 60, []) [EvReserve ''a'' 0, EvRetain 0, EvDrop 0 10] = (g, live)
     \<and> reserve_key g ''a'' 60000000010 = (Inr r, g')"
proof -
  define s where "s = guard_run (new_guard 1 60, []) [EvReserve ''a'' 0, EvRetain 0, EvDrop 0 10]"
  have run: "guard_run (new_guard 1 60, []) [EvReserve ''a'' 0, EvRetain 0, EvDrop 0 10] = (fst s, snd s)"
    by (simp add: s_def)
  have d: "deadlines (fst s) = [(60000000010, ''a'')]" by (simp add: s_def guard_eval)
  have "(60000000010, ''a'') \<in> set (deadlines (fst s))" "(60000000010 :: instant) \<le> 60000000010"
    "length (filter (\<lambda>p. fst p \<le> 60000000010) (deadlines (fst s))) \<le> 64"
    by (simp_all add: d)
  from expired_authorization_readmitted [OF run this]
  obtain r g' where "reserve_key (fst s) ''a'' 60000000010 = (Inr r, g')" by blast
  then show ?thesis using run by (intro exI conjI)
qed

text \<open>
  The abstract identity of an authorization: for an EIP-3009 payload the version, network, and
  the asset, payer and nonce up to letter case; otherwise the version, the requirements and the
  whole payload.
\<close>

datatype auth_scope =
    Eip3009 u32 str str str str
  | Opaque u32 payment_requirements json

definition eip3009_parts :: "payment_payload \<Rightarrow> (str \<times> str) option" where
  "eip3009_parts p =
     (if pr_scheme (pp_accepted p) = ''exact'' \<and> starts_with (pr_network (pp_accepted p)) ''eip155:'' then
        Option.bind (jget ''authorization'' (pp_payload p)) (\<lambda>auth.
        Option.bind (nonempty_str (jget ''from'' auth)) (\<lambda>from.
        map_option (Pair from) (nonempty_str (jget ''nonce'' auth))))
      else None)"

definition auth_scope_of :: "payment_payload \<Rightarrow> auth_scope" where
  "auth_scope_of p =
     (case eip3009_parts p of
        Some (from, nonce) \<Rightarrow>
          Eip3009 (pp_x402_version p) (pr_network (pp_accepted p))
            (ascii_lower (pr_asset (pp_accepted p))) (ascii_lower from) (ascii_lower nonce)
      | None \<Rightarrow> Opaque (pp_x402_version p) (pp_accepted p) (pp_payload p))"

lemma ser_u32_inject [simp]: "ser_u32 a = ser_u32 b \<longleftrightarrow> a = b"
  by (metis de_u32_ser_u32 option.inject)

lemma ser_requirements_inject [simp]: "ser_requirements a = ser_requirements b \<longleftrightarrow> a = b"
  by (cases a; cases b) (auto simp: ser_requirements_def opt_entry_def split: option.splits)

fun scope_json :: "auth_scope \<Rightarrow> json" where
  "scope_json (Eip3009 v network asset from nonce) =
     JArr [JStr ''eip3009'', ser_u32 v, JStr ''exact'', JStr network, JStr asset, JStr from, JStr nonce]"
| "scope_json (Opaque v r payload) = JArr [JStr ''opaque'', ser_u32 v, ser_requirements r, payload]"

lemma scope_json_inject: "scope_json a = scope_json b \<longleftrightarrow> a = b"
  by (cases a; cases b) auto

lemma authorization_identity_scope: "authorization_identity p = scope_json (auth_scope_of p)"
  by (auto simp: authorization_identity_def auth_scope_of_def eip3009_parts_def opaque_identity_def
      Let_def split: option.splits)

text \<open>
  C24: two payments get the same replay key exactly when they are the same authorization: same
  protocol version and network, and the same asset, payer and nonce up to hexadecimal letter case
  (amounts, signatures, resources and extensions do not matter); payloads without that structure
  only when version, requirements and payload are all equal. This relies on the JSON printer
  giving different documents different texts.
\<close>
theorem authorization_key_identifies_scope:
  assumes "inj (json_print x)"
  shows "authorization_key x p = authorization_key x q \<longleftrightarrow> auth_scope_of p = auth_scope_of q"
  by (simp add: authorization_key_def authorization_identity_scope scope_json_inject inj_eq [OF assms])

definition sample_requirements :: payment_requirements where
  "sample_requirements = \<lparr>pr_scheme = ''exact'', pr_network = ''eip155:2368'', pr_amount = ''1000'',
     pr_asset = ''0xAbCd'', pr_pay_to = ''0x11'', pr_max_timeout_seconds = 60, pr_extra = None\<rparr>"

definition sample_payload :: "str \<Rightarrow> str \<Rightarrow> str \<Rightarrow> payment_payload" where
  "sample_payload from nonce sig = \<lparr>pp_x402_version = 2, pp_resource = None,
     pp_accepted = sample_requirements,
     pp_payload = JObj [(''authorization'', JObj [(''from'', JStr from), (''nonce'', JStr nonce)]),
                        (''signature'', JStr sig)],
     pp_extensions = None\<rparr>"

theorem authorization_key_identifies_scope_witness:
  "authorization_key sample_externals (sample_payload ''0xAbC1'' ''0xDeAd'' ''s1'')
     = authorization_key sample_externals (sample_payload ''0xabc1'' ''0xdead'' ''s2'')"
proof -
  have inj: "inj (json_print sample_externals)" by (simp add: sample_externals_def inj_sample_print)
  show ?thesis
    unfolding authorization_key_identifies_scope [OF inj]
    by (simp add: sample_payload_def sample_requirements_def auth_scope_of_def eip3009_parts_def
        nonempty_str_def text_eval)
qed

end
