(* ===== verification/Facilitator.thy ===== *)
theory Facilitator
  imports Wire Sample_Codec
begin

text \<open>
  The facilitator client (\<open>kite-x402-axum/src/facilitator.rs\<close>). The network is a parameter: a
  \<open>transport\<close> gives the outcome of the \<open>n\<close>-th request of a call. A call returns its result and
  the backoff delays it slept, so the number of requests sent is one more than the number of
  delays. The retry loop is bounded by the retry counter and terminates.

  The lemmas say that a settlement is sent exactly once, that a verification is repeated only
  after transient failures and at most as often as configured, and what the delays are.
\<close>

subsection \<open>Retry policy\<close>

record retry_config =
  rc_max_retries :: u32
  rc_initial_backoff :: duration
  rc_max_backoff :: duration

definition default_retry_config :: retry_config where
  "default_retry_config = \<lparr>rc_max_retries = 0, rc_initial_backoff = from_millis 100,
     rc_max_backoff = from_secs 2\<rparr>"

definition retry_config_new :: "u32 \<Rightarrow> duration \<Rightarrow> duration \<Rightarrow> retry_config" where
  "retry_config_new max_retries initial_backoff max_backoff = \<lparr>rc_max_retries = max_retries,
     rc_initial_backoff = initial_backoff, rc_max_backoff = max_backoff\<rparr>"

definition calculate_backoff :: "retry_config \<Rightarrow> u32 \<Rightarrow> duration" where
  "calculate_backoff c attempt =
     (let factor = sat_pow (2 :: u32) (unat attempt);
          backoff = duration_sat_mul (rc_initial_backoff c) factor
      in min backoff (rc_max_backoff c))"

subsection \<open>Client\<close>

text \<open>What the code observes of a \<open>reqwest::Error\<close>: its two predicates and its text.\<close>

record request_error =
  re_is_connect :: bool
  re_is_timeout :: bool
  re_text :: str

datatype facilitator_error =
    RequestFailed request_error
  | BadResponse str nat str

fun facilitator_error_message :: "facilitator_error \<Rightarrow> str" where
  "facilitator_error_message (RequestFailed e) = ''facilitator request failed: '' @ re_text e"
| "facilitator_error_message (BadResponse op status body) =
     ''facilitator '' @ op @ '' returned '' @ show_nat status @ '': '' @ body"

record facilitator_client =
  fc_base_url :: str
  fc_timeout :: duration
  fc_retry_config :: retry_config

definition client_with_timeout :: "str \<Rightarrow> duration \<Rightarrow> facilitator_client" where
  "client_with_timeout base_url timeout = \<lparr>fc_base_url = trim_end_matches CHR ''/'' base_url,
     fc_timeout = timeout, fc_retry_config = default_retry_config\<rparr>"

definition DEFAULT_TIMEOUT :: duration where
  "DEFAULT_TIMEOUT = from_secs 30"

definition client_new :: "str \<Rightarrow> facilitator_client" where
  "client_new base_url = client_with_timeout base_url DEFAULT_TIMEOUT"

definition with_retry_config :: "facilitator_client \<Rightarrow> retry_config \<Rightarrow> facilitator_client" where
  "with_retry_config c cfg = c\<lparr>fc_retry_config := cfg\<rparr>"

definition set_retry_config :: "facilitator_client \<Rightarrow> retry_config \<Rightarrow> facilitator_client" where
  "set_retry_config c cfg = c\<lparr>fc_retry_config := cfg\<rparr>"

definition client_base_url :: "facilitator_client \<Rightarrow> str" where
  "client_base_url c = fc_base_url c"

definition client_retry_config :: "facilitator_client \<Rightarrow> retry_config" where
  "client_retry_config c = fc_retry_config c"

definition client_with_retry :: "str \<Rightarrow> duration \<Rightarrow> retry_config \<Rightarrow> facilitator_client" where
  "client_with_retry base_url timeout cfg = with_retry_config (client_with_timeout base_url timeout) cfg"

text \<open>A request on the wire and its outcome; a body that cannot be read counts as empty.\<close>

record fac_request =
  fr_url :: str
  fr_body :: json

datatype http_outcome =
    SendFailed request_error
  | Replied nat "str option"

definition is_success :: "nat \<Rightarrow> bool" where
  "is_success status \<longleftrightarrow> 200 \<le> status \<and> status < 300"

definition ser_facilitator_request :: "payment_payload \<Rightarrow> payment_requirements \<Rightarrow> json" where
  "ser_facilitator_request payload requirements = JObj
     [(''x402Version'', ser_u32 (pp_x402_version payload)),
      (''paymentPayload'', ser_payload payload),
      (''paymentRequirements'', ser_requirements requirements)]"

definition send_single :: "externals \<Rightarrow> facilitator_client \<Rightarrow> str \<Rightarrow> (json \<Rightarrow> 'a option)
    \<Rightarrow> payment_payload \<Rightarrow> payment_requirements \<Rightarrow> (fac_request \<Rightarrow> http_outcome)
    \<Rightarrow> facilitator_error + 'a" where
  "send_single x c op decode payload requirements send =
     (case send \<lparr>fr_url = fc_base_url c @ ''/'' @ op,
                 fr_body = ser_facilitator_request payload requirements\<rparr> of
        SendFailed err \<Rightarrow> Inl (RequestFailed err)
      | Replied status body \<Rightarrow>
          (let text = (case body of Some t \<Rightarrow> t | None \<Rightarrow> '''')
           in if \<not> is_success status then Inl (BadResponse op status text)
              else case Option.bind (json_parse x text) decode of
                     Some v \<Rightarrow> Inr v
                   | None \<Rightarrow> Inl (BadResponse op status
                       (''could not parse facilitator '' @ op @ '' response: '' @ json_error x text))))"

fun is_transient :: "facilitator_error \<Rightarrow> bool" where
  "is_transient (RequestFailed e) \<longleftrightarrow> re_is_connect e \<or> re_is_timeout e"
| "is_transient (BadResponse _ status _) \<longleftrightarrow> 500 \<le> status \<and> status < 600"

text \<open>The retry loop, over the result \<open>attempts n\<close> of the \<open>n\<close>-th request.\<close>

function retry_loop :: "retry_config \<Rightarrow> nat \<Rightarrow> (nat \<Rightarrow> facilitator_error + 'a) \<Rightarrow> nat
    \<Rightarrow> (facilitator_error + 'a) \<times> duration list" where
  "retry_loop cfg max_retries attempts attempt =
     (case attempts attempt of
        Inr resp \<Rightarrow> (Inr resp, [])
      | Inl err \<Rightarrow>
          if attempt < max_retries \<and> is_transient err
          then let (res, sleeps) = retry_loop cfg max_retries attempts (Suc attempt)
               in (res, calculate_backoff cfg (of_nat attempt) # sleeps)
          else (Inl err, []))"
  by pat_completeness auto
termination
  by (relation "measure (\<lambda>(cfg, m, f, a). m - a)") auto

declare retry_loop.simps [simp del]

definition call :: "externals \<Rightarrow> facilitator_client \<Rightarrow> str \<Rightarrow> (json \<Rightarrow> 'a option)
    \<Rightarrow> payment_payload \<Rightarrow> payment_requirements \<Rightarrow> (nat \<Rightarrow> fac_request \<Rightarrow> http_outcome)
    \<Rightarrow> (facilitator_error + 'a) \<times> duration list" where
  "call x c op decode payload requirements transport =
     (let max_retries = (if op = ''verify'' then unat (rc_max_retries (fc_retry_config c)) else 0)
      in retry_loop (fc_retry_config c) max_retries
           (\<lambda>n. send_single x c op decode payload requirements (transport n)) 0)"

definition verify :: "externals \<Rightarrow> facilitator_client \<Rightarrow> payment_payload \<Rightarrow> payment_requirements
    \<Rightarrow> (nat \<Rightarrow> fac_request \<Rightarrow> http_outcome) \<Rightarrow> (facilitator_error + verify_response) \<times> duration list" where
  "verify x c payload requirements transport =
     call x c ''verify'' de_verify_response payload requirements transport"

definition settle :: "externals \<Rightarrow> facilitator_client \<Rightarrow> payment_payload \<Rightarrow> payment_requirements
    \<Rightarrow> (nat \<Rightarrow> fac_request \<Rightarrow> http_outcome) \<Rightarrow> (facilitator_error + settle_response) \<times> duration list" where
  "settle x c payload requirements transport =
     call x c ''settle'' de_settle_response payload requirements transport"

subsection \<open>Capability probe\<close>

record supported_kind =
  sk_version :: u32
  sk_scheme :: str
  sk_network :: str

definition de_kind :: "json \<Rightarrow> supported_kind option" where
  "de_kind j =
     (case struct_fields [''x402Version'', ''scheme'', ''network''] j of
        None \<Rightarrow> None
      | Some m \<Rightarrow>
        (case (req_field m ''x402Version'' de_u32, req_field m ''scheme'' de_string,
               req_field m ''network'' de_string) of
           (Some v, Some s, Some n) \<Rightarrow> Some \<lparr>sk_version = v, sk_scheme = s, sk_network = n\<rparr>
         | _ \<Rightarrow> None))"

definition de_supported :: "json \<Rightarrow> supported_kind list option" where
  "de_supported j =
     (case struct_fields [''kinds''] j of
        None \<Rightarrow> None
      | Some m \<Rightarrow> req_field m ''kinds'' (de_vec de_kind))"

definition offers :: "str option \<Rightarrow> supported_kind \<Rightarrow> bool" where
  "offers network k \<longleftrightarrow> sk_version k = 2 \<and> sk_scheme k = ''exact'' \<and> sk_network k \<noteq> ''''
     \<and> (case network of None \<Rightarrow> True | Some expected \<Rightarrow> expected = sk_network k)"

definition probe_capability :: "externals \<Rightarrow> facilitator_client \<Rightarrow> str option \<Rightarrow> (str \<Rightarrow> http_outcome)
    \<Rightarrow> facilitator_error + unit" where
  "probe_capability x c network get =
     (case get (fc_base_url c @ ''/supported'') of
        SendFailed err \<Rightarrow> Inl (RequestFailed err)
      | Replied status body \<Rightarrow>
          if \<not> is_success status
          then Inl (BadResponse ''probe'' status ''supported endpoint rejected readiness check'')
          else
            (case Option.bind (Option.bind body (json_parse x)) de_supported of
               None \<Rightarrow> Inl (RequestFailed \<lparr>re_is_connect = False, re_is_timeout = False,
                        re_text = json_error x (case body of Some t \<Rightarrow> t | None \<Rightarrow> '''')\<rparr>)
             | Some kinds \<Rightarrow>
                 if list_ex (offers network) kinds then Inr ()
                 else Inl (BadResponse ''probe'' status
                        ''configured x402 v2 exact capability is not offered'')))"

definition probe :: "externals \<Rightarrow> facilitator_client \<Rightarrow> (str \<Rightarrow> http_outcome) \<Rightarrow> facilitator_error + unit" where
  "probe x c get = probe_capability x c None get"

definition probe_network :: "externals \<Rightarrow> facilitator_client \<Rightarrow> str \<Rightarrow> (str \<Rightarrow> http_outcome)
    \<Rightarrow> facilitator_error + unit" where
  "probe_network x c network get = probe_capability x c (Some network) get"

subsection \<open>Properties\<close>

lemma retry_loop_zero: "retry_loop cfg 0 attempts n = (attempts n, [])"
  by (subst retry_loop.simps) (simp split: sum.split)

text \<open>
  The outcome of the loop: with \<open>k\<close> delays, the requests before the last failed transiently, the
  result is that of the last one, and the delays follow the backoff schedule.
\<close>

lemma retry_loop_result:
  assumes "n \<le> m" "retry_loop cfg m attempts n = (res, sleeps)"
  shows "n + length sleeps \<le> m \<and> res = attempts (n + length sleeps)
     \<and> (\<forall>i < length sleeps. \<exists>e. attempts (n + i) = Inl e \<and> is_transient e)
     \<and> (\<forall>i < length sleeps. sleeps ! i = calculate_backoff cfg (of_nat (n + i)))"
  using assms
proof (induction cfg m attempts n arbitrary: sleeps rule: retry_loop.induct)
  case (1 cfg m attempts n)
  show ?case
  proof (cases "attempts n")
    case (Inr v)
    with "1.prems" show ?thesis by (auto simp: retry_loop.simps [of cfg m attempts n])
  next
    case (Inl e)
    show ?thesis
    proof (cases "n < m \<and> is_transient e")
      case True
      obtain res' sl where r: "retry_loop cfg m attempts (Suc n) = (res', sl)" by fastforce
      with "1.prems" Inl True have eq: "res = res'" "sleeps = calculate_backoff cfg (of_nat n) # sl"
        by (simp_all add: retry_loop.simps [of cfg m attempts n])
      have IH: "Suc n + length sl \<le> m \<and> res = attempts (Suc n + length sl)
          \<and> (\<forall>i < length sl. \<exists>e. attempts (Suc n + i) = Inl e \<and> is_transient e)
          \<and> (\<forall>i < length sl. sl ! i = calculate_backoff cfg (of_nat (Suc n + i)))"
        using "1.IH" [OF Inl True] True r eq(1) by simp
      then show ?thesis using Inl True eq(2)
        by (auto simp: less_Suc_eq_0_disj nth_Cons' add.commute add.left_commute)
    next
      case False
      with "1.prems" Inl show ?thesis by (auto simp: retry_loop.simps [of cfg m attempts n])
    qed
  qed
qed

lemma retry_loop_exhausted:
  "n \<le> m \<Longrightarrow> retry_loop cfg m attempts n = (Inl e, sleeps) \<Longrightarrow> is_transient e \<Longrightarrow> n + length sleeps = m"
proof (induction cfg m attempts n arbitrary: sleeps rule: retry_loop.induct)
  case (1 cfg m attempts n)
  show ?case
  proof (cases "retry_loop cfg m attempts (Suc n)")
    case (Pair res sl)
    with 1 show ?thesis
      by (fastforce simp: retry_loop.simps [of cfg m attempts n] split: sum.splits if_splits)
  qed
qed

text \<open>
  C22: a settlement is never repeated. Whatever the retry configuration, the facilitator answers
  and the transport errors, \<open>settle\<close> sends exactly one request, sleeps no backoff, and returns what
  that request gave.
\<close>
theorem settle_sends_once:
  "settle x c payload requirements transport
     = (send_single x c ''settle'' de_settle_response payload requirements (transport 0), [])"
  by (simp add: settle_def call_def retry_loop_zero)

text \<open>
  C23: verification retries are bounded and justified. If \<open>verify\<close> slept \<open>sleeps\<close>, it sent
  \<open>length sleeps + 1\<close> requests, at most one more than \<open>max_retries\<close>; every request before the
  last failed with a transient error (connection, timeout, or a 5xx status); the result is that
  of the last request; a transient error is only reported once the retries are used up; and the
  \<open>i\<close>-th delay is the \<open>i\<close>-th backoff.
\<close>
theorem verify_retries_bounded:
  assumes "verify x c payload requirements transport = (res, sleeps)"
  shows "length sleeps \<le> unat (rc_max_retries (fc_retry_config c))
     \<and> res = send_single x c ''verify'' de_verify_response payload requirements (transport (length sleeps))
     \<and> (\<forall>i < length sleeps. \<exists>e.
          send_single x c ''verify'' de_verify_response payload requirements (transport i) = Inl e \<and> is_transient e)
     \<and> (\<forall>i < length sleeps. sleeps ! i = calculate_backoff (fc_retry_config c) (of_nat i))
     \<and> (\<forall>e. res = Inl e \<longrightarrow> is_transient e \<longrightarrow> length sleeps = unat (rc_max_retries (fc_retry_config c)))"
proof -
  let ?f = "\<lambda>n. send_single x c ''verify'' de_verify_response payload requirements (transport n)"
  let ?m = "unat (rc_max_retries (fc_retry_config c))"
  have run: "retry_loop (fc_retry_config c) ?m ?f 0 = (res, sleeps)"
    using assms by (simp add: verify_def call_def)
  have "\<forall>e. res = Inl e \<longrightarrow> is_transient e \<longrightarrow> length sleeps = ?m"
    using retry_loop_exhausted [OF le0, of "fc_retry_config c" ?m ?f] run by auto
  with retry_loop_result [OF le0 run] show ?thesis
    unfolding add_0 by (elim conjE) (intro conjI)
qed

definition sample_transport :: "nat \<Rightarrow> fac_request \<Rightarrow> http_outcome" where
  "sample_transport n req = (if n = 0 then Replied 503 None else Replied 404 (Some ''gone''))"

theorem verify_retries_bounded_witness:
  "\<forall>p r. \<exists>sleeps. verify sample_externals
       (client_with_retry ''https://f/v2/'' 1000 \<lparr>rc_max_retries = 3, rc_initial_backoff = 100, rc_max_backoff = 1000\<rparr>)
       p r sample_transport = (Inl (BadResponse ''verify'' 404 ''gone''), sleeps)
     \<and> length sleeps = 1 \<and> length sleeps \<le> 3"
proof (intro allI)
  fix p r
  let ?c = "client_with_retry ''https://f/v2/'' 1000 \<lparr>rc_max_retries = 3, rc_initial_backoff = 100, rc_max_backoff = 1000\<rparr>"
  have run: "verify sample_externals ?c p r sample_transport
      = (Inl (BadResponse ''verify'' 404 ''gone''), [calculate_backoff (fc_retry_config ?c) 0])"
    by (simp add: verify_def call_def retry_loop.simps send_single_def sample_transport_def is_success_def
        client_with_retry_def with_retry_config_def client_with_timeout_def)
  show "\<exists>sleeps. verify sample_externals ?c p r sample_transport
      = (Inl (BadResponse ''verify'' 404 ''gone''), sleeps) \<and> length sleeps = 1 \<and> length sleeps \<le> 3"
    using verify_retries_bounded [OF run] run
    by (simp add: client_with_retry_def with_retry_config_def)
qed

lemma unat_sat_pow2: "unat (sat_pow (2 :: u32) n) = min (2 ^ n) (2 ^ 32 - 1)"
  by (simp add: unat_sat_pow)

lemma calculate_backoff_mono:
  assumes "unat a \<le> unat b"
  shows "calculate_backoff c a \<le> calculate_backoff c b"
proof -
  have "unat (sat_pow (2 :: u32) (unat a)) \<le> unat (sat_pow (2 :: u32) (unat b))"
    unfolding unat_sat_pow2 using assms by (intro min.mono power_increasing) auto
  then have "rc_initial_backoff c * unat (sat_pow (2 :: u32) (unat a))
      \<le> rc_initial_backoff c * unat (sat_pow (2 :: u32) (unat b))"
    by (rule mult_le_mono2)
  then show ?thesis
    unfolding calculate_backoff_def duration_sat_mul_def Let_def
    by (intro min.mono order_refl)
qed

lemma calculate_backoff_exact:
  assumes "unat a < 32" and fit: "rc_initial_backoff c * 2 ^ unat a \<le> rc_max_backoff c"
    and m: "rc_max_backoff c \<le> duration_max"
  shows "calculate_backoff c a = rc_initial_backoff c * 2 ^ unat a"
proof -
  have "(2 :: nat) ^ unat a \<le> 2 ^ 31" using assms(1) by (intro power_increasing) auto
  then have "unat (sat_pow (2 :: u32) (unat a)) = 2 ^ unat a"
    unfolding unat_sat_pow2 by simp
  then show ?thesis
    using fit m by (simp add: calculate_backoff_def duration_sat_mul_def Let_def)
qed

text \<open>
  The backoff schedule doubles and saturates. The delays never exceed the configured maximum,
  never decrease from one attempt to the next, and equal \<open>initial * 2 ^ attempt\<close> as long as that
  fits under the maximum; no arithmetic step overflows.
\<close>
theorem backoff_schedule:
  "calculate_backoff c a \<le> rc_max_backoff c
     \<and> (a \<le> b \<longrightarrow> calculate_backoff c a \<le> calculate_backoff c b)
     \<and> (unat a < 32 \<and> rc_initial_backoff c * 2 ^ unat a \<le> rc_max_backoff c
          \<and> rc_max_backoff c \<le> duration_max
        \<longrightarrow> calculate_backoff c a = rc_initial_backoff c * 2 ^ unat a)"
proof (intro conjI)
  show "calculate_backoff c a \<le> rc_max_backoff c"
    by (simp add: calculate_backoff_def Let_def)
  show "a \<le> b \<longrightarrow> calculate_backoff c a \<le> calculate_backoff c b"
    by (simp add: word_le_nat_alt calculate_backoff_mono)
  show "unat a < 32 \<and> rc_initial_backoff c * 2 ^ unat a \<le> rc_max_backoff c
         \<and> rc_max_backoff c \<le> duration_max
       \<longrightarrow> calculate_backoff c a = rc_initial_backoff c * 2 ^ unat a"
    by (simp add: calculate_backoff_exact)
qed

theorem backoff_schedule_witness:
  "calculate_backoff \<lparr>rc_max_retries = 3, rc_initial_backoff = 100, rc_max_backoff = 1000\<rparr> 3 = 800
   \<and> calculate_backoff \<lparr>rc_max_retries = 3, rc_initial_backoff = 100, rc_max_backoff = 1000\<rparr> 3
      \<le> calculate_backoff \<lparr>rc_max_retries = 3, rc_initial_backoff = 100, rc_max_backoff = 1000\<rparr> 4"
  using backoff_schedule [of "\<lparr>rc_max_retries = 3, rc_initial_backoff = 100, rc_max_backoff = 1000\<rparr>" 3 4]
  by (simp add: duration_max_def)

text \<open>
  Readiness means the configured capability. The probe of a network succeeds exactly when the
  facilitator answers with a success status and a well-formed list of kinds that offers x402
  version 2, scheme \<open>exact\<close> and that very network, which is not empty.
\<close>
theorem probe_network_iff:
  "probe_network x c network get = Inr () \<longleftrightarrow>
     (\<exists>status text kinds k. get (fc_base_url c @ ''/supported'') = Replied status (Some text)
        \<and> 200 \<le> status \<and> status < 300
        \<and> Option.bind (json_parse x text) de_supported = Some kinds \<and> k \<in> set kinds
        \<and> sk_version k = 2 \<and> sk_scheme k = ''exact'' \<and> sk_network k = network \<and> network \<noteq> '''')"
  by (cases "get (fc_base_url c @ ''/supported'')")
    (auto simp: probe_network_def probe_capability_def is_success_def offers_def list_ex_iff
      split: option.splits bind_splits)

end
