(* ===== verification/Gate.thy ===== *)
theory Gate
  imports Kite Expiration NonceGuard Facilitator PaymentMetrics
begin

text \<open>
  The payment gate (\<open>kite-x402-axum/src/middleware.rs\<close>): \<open>PaymentConfig\<close>, the two 402 response
  builders and the middleware \<open>x402_payment\<close>.

  The configuration holds the contents of the two shared cells it points to, the replay guard and
  the counters, so a stage of the middleware takes the configuration and returns it updated. The
  middleware is split where it awaits: \<open>admit\<close> up to the verification call, \<open>after_verify\<close> up to
  the protected handler, \<open>after_handler\<close> up to the settlement call, \<open>after_settle\<close> to the end.
  Each stage either answers or goes on, and drops the reservation when it answers. The clock
  readings, the facilitator's transport and the protected handler are an \<open>environment\<close>.
\<close>

fun kite_error_message :: "externals \<Rightarrow> kite_error \<Rightarrow> str" where
  "kite_error_message x (UnknownNetwork n) =
     ''unknown KITE_NETWORK '' @ debug_str x n @ '' (want mainnet or testnet)''"
| "kite_error_message x (InvalidPrice p) = ''price must be a positive decimal, got '' @ debug_str x p"
| "kite_error_message x (TooManyDecimals p d s) =
     ''price '' @ p @ '' has more than '' @ show_nat (unat d) @ '' decimals ('' @ s @ '')''"
| "kite_error_message x (BelowOneUnit p s) = ''price '' @ p @ '' is below one unit of '' @ s"

record payment_config =
  pc_pay_to :: str
  pc_chain :: kite_chain
  pc_price_usd :: str
  pc_description :: str
  pc_facilitator :: facilitator_client
  pc_expiration_guard :: "expiration_guard option"
  pc_metrics :: "payment_metrics option"
  pc_nonce_guard :: "nonce_guard option"

definition config_new :: "str \<Rightarrow> kite_chain \<Rightarrow> str \<Rightarrow> str \<Rightarrow> facilitator_client \<Rightarrow> payment_config" where
  "config_new pay_to chain price_usd description facilitator = \<lparr>pc_pay_to = pay_to, pc_chain = chain,
     pc_price_usd = price_usd, pc_description = description, pc_facilitator = facilitator,
     pc_expiration_guard = None, pc_metrics = None, pc_nonce_guard = None\<rparr>"

definition with_expiration_guard :: "payment_config \<Rightarrow> expiration_guard \<Rightarrow> payment_config" where
  "with_expiration_guard c g = c\<lparr>pc_expiration_guard := Some g\<rparr>"

definition with_metrics :: "payment_config \<Rightarrow> payment_metrics \<Rightarrow> payment_config" where
  "with_metrics c m = c\<lparr>pc_metrics := Some m\<rparr>"

definition with_nonce_guard :: "payment_config \<Rightarrow> nonce_guard \<Rightarrow> payment_config" where
  "with_nonce_guard c g = c\<lparr>pc_nonce_guard := Some g\<rparr>"

definition requirements :: "externals \<Rightarrow> payment_config \<Rightarrow> (str + payment_requirements) option" where
  "requirements x c =
     (case parse_price (pc_chain c) (pc_price_usd c) of
        None \<Rightarrow> None
      | Some (Inl e) \<Rightarrow> Some (Inl (''invalid PRICE_USD configured on the server: '' @ kite_error_message x e))
      | Some (Inr asset) \<Rightarrow> Some (Inr \<lparr>pr_scheme = ''exact'', pr_network = kc_network (pc_chain c),
          pr_amount = aa_amount asset, pr_asset = aa_asset asset, pr_pay_to = pc_pay_to c,
          pr_max_timeout_seconds = 60, pr_extra = Some (aa_extra asset)\<rparr>))"

definition challenge_body :: "payment_requirements \<Rightarrow> str \<Rightarrow> str \<Rightarrow> str option \<Rightarrow> payment_required" where
  "challenge_body r resource_url description error = \<lparr>pq_x402_version = 2, pq_error = error,
     pq_resource = \<lparr>ri_url = resource_url, ri_description = Some description,
                    ri_mime_type = Some ''application/json''\<rparr>,
     pq_accepts = [r]\<rparr>"

definition payment_required_response :: "externals \<Rightarrow> payment_requirements \<Rightarrow> str \<Rightarrow> str \<Rightarrow> str option \<Rightarrow> response" where
  "payment_required_response x r resource_url description error =
     set_header ''cache-control'' ''no-store''
       (set_header ''PAYMENT-REQUIRED''
          (header_value_or x '''' (encode_payment_required x (challenge_body r resource_url description error)))
          (json_response 402 (JObj [])))"

definition settlement_failure_response :: "externals \<Rightarrow> settle_response \<Rightarrow> response" where
  "settlement_failure_response x s =
     set_header ''cache-control'' ''no-store''
       (set_header ''PAYMENT-RESPONSE'' (header_value_or x '''' (encode_settle_response x s))
          (json_response 402 (JObj [])))"

definition capacity_response :: response where
  "capacity_response =
     set_header ''retry-after'' ''1'' (set_header ''cache-control'' ''no-store''
       (json_response 503 (JObj [(''error'', JStr ''payment_replay_capacity_exceeded'')])))"

subsection \<open>The shared cells\<close>

definition on_metrics :: "(payment_metrics \<Rightarrow> payment_metrics) \<Rightarrow> payment_config \<Rightarrow> payment_config" where
  "on_metrics f c = c\<lparr>pc_metrics := map_option f (pc_metrics c)\<rparr>"

definition drop_held :: "reservation option \<Rightarrow> instant \<Rightarrow> payment_config \<Rightarrow> payment_config" where
  "drop_held r now c =
     (case r of None \<Rightarrow> c
      | Some r \<Rightarrow> c\<lparr>pc_nonce_guard := map_option (\<lambda>g. drop_reservation g r now) (pc_nonce_guard c)\<rparr>)"

definition release_held :: "reservation option \<Rightarrow> instant \<Rightarrow> payment_config \<Rightarrow> payment_config" where
  "release_held r now c =
     (case r of None \<Rightarrow> c
      | Some r \<Rightarrow> c\<lparr>pc_nonce_guard := map_option (\<lambda>g. release_reservation g r now) (pc_nonce_guard c)\<rparr>)"

subsection \<open>Up to the verification call\<close>

record admitted =
  ad_url :: str
  ad_requirements :: payment_requirements
  ad_payload :: payment_payload
  ad_reservation :: "reservation option"

datatype 'a stage = Answer response | Continue 'a | Panic

record gate_request =
  gr_request :: request
  gr_original_uri :: "str option"

definition resource_url :: "gate_request \<Rightarrow> str" where
  "resource_url q = (case gr_original_uri q of Some u \<Rightarrow> u | None \<Rightarrow> req_uri (gr_request q))"

definition payment_header :: "externals \<Rightarrow> headers \<Rightarrow> str option" where
  "payment_header x hs =
     Option.bind (case hget ''PAYMENT-SIGNATURE'' hs of Some v \<Rightarrow> Some v | None \<Rightarrow> hget ''X-PAYMENT'' hs)
       (to_str_ok x)"

text \<open>A validity bound is a decimal string or a number.\<close>

definition validity_bound :: "json \<Rightarrow> u64 option" where
  "validity_bound v =
     (case Option.bind (as_str v) parse_u64 of Some n \<Rightarrow> Some n | None \<Rightarrow> as_u64 v)"

definition window_error :: "expiration_guard option \<Rightarrow> u64 option \<Rightarrow> payment_payload \<Rightarrow> expiration_error option" where
  "window_error guard clock p =
     (case guard of None \<Rightarrow> None
      | Some g \<Rightarrow>
        (case jget ''authorization'' (pp_payload p) of None \<Rightarrow> None
         | Some auth \<Rightarrow>
           (case (Option.bind (jget ''validAfter'' auth) validity_bound,
                  Option.bind (jget ''validBefore'' auth) validity_bound) of
              (Some va, Some vb) \<Rightarrow>
                (case validate_now g clock va vb of Inl e \<Rightarrow> Some e | Inr _ \<Rightarrow> None)
            | _ \<Rightarrow> None)))"

definition take_reservation :: "externals \<Rightarrow> payment_payload \<Rightarrow> instant \<Rightarrow> payment_config
    \<Rightarrow> payment_config \<times> (nonce_error + reservation option)" where
  "take_reservation x p now c =
     (case pc_nonce_guard c of
        None \<Rightarrow> (c, Inr None)
      | Some g \<Rightarrow>
          (case reserve x g p now of
             (Inr r, g') \<Rightarrow> (c\<lparr>pc_nonce_guard := Some g'\<rparr>, Inr (Some r))
           | (Inl e, g') \<Rightarrow> (c\<lparr>pc_nonce_guard := Some g'\<rparr>, Inl e)))"

definition admit :: "externals \<Rightarrow> u64 option \<Rightarrow> instant \<Rightarrow> payment_config \<Rightarrow> gate_request
    \<Rightarrow> payment_config \<times> admitted stage" where
  "admit x clock now c q =
     (let url = resource_url q;
          c = on_metrics record_request c
      in case requirements x c of
           None \<Rightarrow> (c, Panic)
         | Some (Inl msg) \<Rightarrow> (c, Answer (json_response 500 (JObj [(''error'', JStr msg)])))
         | Some (Inr r) \<Rightarrow>
             let challenge = payment_required_response x r url (pc_description c)
             in case payment_header x (req_headers (gr_request q)) of
                  None \<Rightarrow> (on_metrics record_challenge c, Answer (challenge None))
                | Some hv \<Rightarrow>
                  case decode_payment_payload x hv of
                    None \<Rightarrow> (on_metrics record_challenge c, Answer (challenge (Some ''Invalid payment signature'')))
                  | Some p \<Rightarrow>
                    if pp_accepted p \<noteq> r
                    then (on_metrics record_challenge c, Answer (challenge (Some ''No matching payment requirements'')))
                    else
                      case window_error (pc_expiration_guard c) clock p of
                        Some e \<Rightarrow> (c, Answer (challenge (Some (expiration_message e))))
                      | None \<Rightarrow>
                        (case take_reservation x p now c of
                           (c', Inr res) \<Rightarrow>
                             (c', Continue \<lparr>ad_url = url, ad_requirements = r, ad_payload = p, ad_reservation = res\<rparr>)
                         | (c', Inl CapacityExceeded) \<Rightarrow> (c', Answer capacity_response)
                         | (c', Inl (ReplayDetected k)) \<Rightarrow>
                             (on_metrics record_challenge c',
                              Answer (challenge (Some (nonce_error_message (ReplayDetected k)))))))"

subsection \<open>After the verification call\<close>

definition after_verify :: "externals \<Rightarrow> instant \<Rightarrow> payment_config \<Rightarrow> admitted
    \<Rightarrow> (facilitator_error + verify_response) \<Rightarrow> payment_config \<times> admitted stage" where
  "after_verify x now c a outcome =
     (let refuse = (\<lambda>reason. (drop_held (ad_reservation a) now
                                (on_metrics (record_challenge \<circ> record_verification False) c),
                              Answer (payment_required_response x (ad_requirements a) (ad_url a)
                                        (pc_description c) (Some reason))))
      in case outcome of
           Inl e \<Rightarrow> refuse (''facilitator verify unavailable: '' @ facilitator_error_message e)
         | Inr v \<Rightarrow>
             if \<not> vr_is_valid v
             then refuse (case vr_invalid_reason v of Some r \<Rightarrow> r | None \<Rightarrow> ''Payment invalid'')
             else (on_metrics (record_verification True) c,
                   Continue (a\<lparr>ad_reservation := map_option retain_on_drop (ad_reservation a)\<rparr>)))"

subsection \<open>After the protected handler\<close>

definition after_handler :: "instant \<Rightarrow> payment_config \<Rightarrow> admitted \<Rightarrow> response
    \<Rightarrow> payment_config \<times> response stage" where
  "after_handler now c a resp =
     (if 400 \<le> resp_status resp
      then (release_held (ad_reservation a) now c, Answer resp)
      else (c, Continue resp))"

subsection \<open>After the settlement call\<close>

definition settled_response :: "externals \<Rightarrow> settle_response \<Rightarrow> response \<Rightarrow> response" where
  "settled_response x s resp =
     (let resp = set_header ''PAYMENT-RESPONSE'' (header_value_or x '''' (encode_settle_response x s)) resp;
          cache_control =
            (case Option.bind (get_header ''cache-control'' resp) (to_str_ok x) of
               Some existing \<Rightarrow> if existing \<noteq> '''' then existing @ '', private'' else ''private''
             | None \<Rightarrow> ''private'')
      in set_header ''cache-control'' (header_value_or x ''private'' cache_control) resp)"

definition settle_unavailable :: "payment_config \<Rightarrow> facilitator_error \<Rightarrow> settle_response" where
  "settle_unavailable c e = \<lparr>sr_success = False,
     sr_error_reason = Some (''facilitator settle unavailable: '' @ facilitator_error_message e),
     sr_error_message = None, sr_payer = None, sr_transaction = '''',
     sr_network = kc_network (pc_chain c), sr_amount = None\<rparr>"

definition after_settle :: "externals \<Rightarrow> duration \<Rightarrow> instant \<Rightarrow> payment_config \<Rightarrow> admitted \<Rightarrow> response
    \<Rightarrow> (facilitator_error + settle_response) \<Rightarrow> payment_config \<times> response" where
  "after_settle x elapsed now c a resp outcome =
     (case outcome of
        Inl e \<Rightarrow>
          (drop_held (ad_reservation a) now (on_metrics (record_settlement False elapsed) c),
           settlement_failure_response x (settle_unavailable c e))
      | Inr s \<Rightarrow>
          (drop_held (ad_reservation a) now (on_metrics (record_settlement (sr_success s) elapsed) c),
           if \<not> sr_success s then settlement_failure_response x s
           else settled_response x s resp))"

subsection \<open>The middleware\<close>

record environment =
  env_x :: externals
  env_unix_clock :: "u64 option"
  env_reserve_at :: instant
  env_settle_elapsed :: duration
  env_finish_at :: instant
  env_verify :: "nat \<Rightarrow> fac_request \<Rightarrow> http_outcome"
  env_handler :: "request \<Rightarrow> response"
  env_settle :: "nat \<Rightarrow> fac_request \<Rightarrow> http_outcome"

text \<open>What the middleware does to the outside, in order.\<close>

datatype effect =
    CallVerify payment_payload payment_requirements
  | RunHandler request
  | CallSettle payment_payload payment_requirements

text \<open>A connection that goes away drops the future of the middleware at one of its three awaits.\<close>

datatype await_point = AwaitVerify | AwaitHandler | AwaitSettle

datatype gate_result = Responded response | Cancelled | Panicked

definition run_settle :: "environment \<Rightarrow> await_point option \<Rightarrow> payment_config \<Rightarrow> admitted \<Rightarrow> response
    \<Rightarrow> payment_config \<times> gate_result \<times> effect list" where
  "run_settle e cancel c a resp =
     (let call = CallSettle (ad_payload a) (ad_requirements a)
      in if cancel = Some AwaitSettle
         then (drop_held (ad_reservation a) (env_finish_at e) c, Cancelled, [call])
         else
           let outcome = fst (settle (env_x e) (pc_facilitator c) (ad_payload a) (ad_requirements a) (env_settle e));
               (c', out) = after_settle (env_x e) (env_settle_elapsed e) (env_finish_at e) c a resp outcome
           in (c', Responded out, [call]))"

definition run_handler :: "environment \<Rightarrow> await_point option \<Rightarrow> payment_config \<Rightarrow> admitted \<Rightarrow> request
    \<Rightarrow> payment_config \<times> gate_result \<times> effect list" where
  "run_handler e cancel c a req =
     (if cancel = Some AwaitHandler
      then (drop_held (ad_reservation a) (env_finish_at e) c, Cancelled, [RunHandler req])
      else
        case after_handler (env_finish_at e) c a (env_handler e req) of
          (c', Continue resp) \<Rightarrow>
            (let (c'', r, effects) = run_settle e cancel c' a resp in (c'', r, RunHandler req # effects))
        | (c', Answer resp) \<Rightarrow> (c', Responded resp, [RunHandler req])
        | (c', Panic) \<Rightarrow> (c', Panicked, [RunHandler req]))"

definition run_verify :: "environment \<Rightarrow> await_point option \<Rightarrow> payment_config \<Rightarrow> admitted \<Rightarrow> request
    \<Rightarrow> payment_config \<times> gate_result \<times> effect list" where
  "run_verify e cancel c a req =
     (let call = CallVerify (ad_payload a) (ad_requirements a)
      in if cancel = Some AwaitVerify
         then (drop_held (ad_reservation a) (env_finish_at e) c, Cancelled, [call])
         else
           let outcome = fst (verify (env_x e) (pc_facilitator c) (ad_payload a) (ad_requirements a) (env_verify e))
           in case after_verify (env_x e) (env_finish_at e) c a outcome of
                (c', Continue a') \<Rightarrow>
                  (let (c'', r, effects) = run_handler e cancel c' a' req in (c'', r, call # effects))
              | (c', Answer resp) \<Rightarrow> (c', Responded resp, [call])
              | (c', Panic) \<Rightarrow> (c', Panicked, [call]))"

definition x402_payment :: "environment \<Rightarrow> await_point option \<Rightarrow> payment_config \<Rightarrow> gate_request
    \<Rightarrow> payment_config \<times> gate_result \<times> effect list" where
  "x402_payment e cancel c q =
     (case admit (env_x e) (env_unix_clock e) (env_reserve_at e) c q of
        (c', Continue a) \<Rightarrow> run_verify e cancel c' a (gr_request q)
      | (c', Answer resp) \<Rightarrow> (c', Responded resp, [])
      | (c', Panic) \<Rightarrow> (c', Panicked, []))"

lemmas gate_stages =
  admit_def after_verify_def after_handler_def after_settle_def run_settle_def run_handler_def
  run_verify_def x402_payment_def

subsection \<open>What each stage guarantees\<close>

lemma on_metrics_fields [simp]:
  "pc_pay_to (on_metrics f c) = pc_pay_to c" "pc_chain (on_metrics f c) = pc_chain c"
  "pc_price_usd (on_metrics f c) = pc_price_usd c" "pc_description (on_metrics f c) = pc_description c"
  "pc_facilitator (on_metrics f c) = pc_facilitator c"
  "pc_expiration_guard (on_metrics f c) = pc_expiration_guard c"
  "pc_nonce_guard (on_metrics f c) = pc_nonce_guard c"
  "pc_metrics (on_metrics f c) = map_option f (pc_metrics c)"
  by (simp_all add: on_metrics_def)

lemma requirements_on_metrics [simp]: "requirements x (on_metrics f c) = requirements x c"
  by (simp add: requirements_def cong: option.case_cong sum.case_cong)

text \<open>Everything but the two cells is constant; that is what later stages read.\<close>

definition same_settings :: "payment_config \<Rightarrow> payment_config \<Rightarrow> bool" where
  "same_settings c c' \<longleftrightarrow> c' = c\<lparr>pc_metrics := pc_metrics c', pc_nonce_guard := pc_nonce_guard c'\<rparr>"

lemma same_settings_refl [simp, intro]: "same_settings c c"
  by (simp add: same_settings_def)

lemma same_settings_trans [trans]: "same_settings a b \<Longrightarrow> same_settings b c \<Longrightarrow> same_settings a c"
  unfolding same_settings_def by (cases a; cases b; cases c) simp

lemma same_settings_simps [simp]:
  "same_settings c (on_metrics f c') = same_settings c c'"
  "same_settings c (drop_held r now c') = same_settings c c'"
  "same_settings c (release_held r now c') = same_settings c c'"
  "same_settings c (c'\<lparr>pc_nonce_guard := g\<rparr>) = same_settings c c'"
  "same_settings (on_metrics f c) c' = same_settings c c'"
  by (cases c; cases c'; auto simp: same_settings_def on_metrics_def drop_held_def release_held_def
      split: option.split)+

lemma same_settings_obtain:
  assumes "same_settings c c'"
  obtains m g where "c' = c\<lparr>pc_metrics := m, pc_nonce_guard := g\<rparr>"
  using assms unfolding same_settings_def by blast

lemma same_settings_fields:
  assumes "same_settings c c'"
  shows "pc_facilitator c' = pc_facilitator c" "pc_description c' = pc_description c"
    "pc_chain c' = pc_chain c" "pc_expiration_guard c' = pc_expiration_guard c"
    "requirements x c' = requirements x c"
  by (rule same_settings_obtain [OF assms],
      simp add: requirements_def cong: option.case_cong sum.case_cong)+

lemma take_reservation_settings:
  "take_reservation x p now c = (c', r) \<Longrightarrow> same_settings c c'"
  by (auto simp: take_reservation_def split: option.splits prod.splits sum.splits)

lemma admit_Continue:
  assumes "admit x clock now c q = (c', Continue a)"
  shows "requirements x c = Some (Inr (ad_requirements a))"
    and "\<exists>hv. payment_header x (req_headers (gr_request q)) = Some hv
           \<and> decode_payment_payload x hv = Some (ad_payload a)"
    and "pp_accepted (ad_payload a) = ad_requirements a"
    and "window_error (pc_expiration_guard c) clock (ad_payload a) = None"
    and "take_reservation x (ad_payload a) now (on_metrics record_request c) = (c', Inr (ad_reservation a))"
    and "ad_url a = resource_url q"
  using assms
  by (auto simp: admit_def Let_def split: option.splits sum.splits if_splits prod.splits nonce_error.splits)

definition is_challenge :: "externals \<Rightarrow> payment_config \<Rightarrow> payment_requirements \<Rightarrow> str \<Rightarrow> response \<Rightarrow> bool" where
  "is_challenge x c r url resp \<longleftrightarrow>
     (\<exists>error. resp = payment_required_response x r url (pc_description c) error)"

lemma admit_Answer:
  assumes "admit x clock now c q = (c', Answer resp)"
  shows "(\<exists>msg. requirements x c = Some (Inl msg) \<and> resp = json_response 500 (JObj [(''error'', JStr msg)]))
     \<or> (\<exists>r. requirements x c = Some (Inr r) \<and> (is_challenge x c r (resource_url q) resp \<or> resp = capacity_response))"
  using assms
  by (auto simp: admit_def Let_def is_challenge_def
      split: option.splits sum.splits if_splits prod.splits nonce_error.splits)

lemma admit_settings: "admit x clock now c q = (c', s) \<Longrightarrow> same_settings c c'"
  by (auto simp: admit_def Let_def dest!: take_reservation_settings
      split: option.splits sum.splits if_splits prod.splits nonce_error.splits)

lemma after_verify_settings: "after_verify x now c a outcome = (c', s) \<Longrightarrow> same_settings c c'"
  by (auto simp: after_verify_def Let_def split: sum.splits if_splits)

lemma after_verify_Continue:
  assumes "after_verify x now c a outcome = (c', Continue a')"
  shows "\<exists>v. outcome = Inr v \<and> vr_is_valid v"
    and "c' = on_metrics (record_verification True) c"
    and "a' = a\<lparr>ad_reservation := map_option retain_on_drop (ad_reservation a)\<rparr>"
  using assms by (auto simp: after_verify_def Let_def split: sum.splits if_splits)

lemma after_verify_no_panic: "after_verify x now c a outcome \<noteq> (c', Panic)"
  by (auto simp: after_verify_def Let_def split: sum.splits if_splits)

lemma after_handler_cases:
  "after_handler now c a resp =
     (if 400 \<le> resp_status resp then (release_held (ad_reservation a) now c, Answer resp) else (c, Continue resp))"
  by (simp add: after_handler_def)

subsection \<open>Properties\<close>

text \<open>The effects of the second half of the middleware, given how its calls end.\<close>

abbreviation verify_outcome :: "environment \<Rightarrow> payment_config \<Rightarrow> payment_payload \<Rightarrow> payment_requirements
    \<Rightarrow> facilitator_error + verify_response" where
  "verify_outcome e c p r \<equiv> fst (verify (env_x e) (pc_facilitator c) p r (env_verify e))"

abbreviation settle_outcome :: "environment \<Rightarrow> payment_config \<Rightarrow> payment_payload \<Rightarrow> payment_requirements
    \<Rightarrow> facilitator_error + settle_response" where
  "settle_outcome e c p r \<equiv> fst (settle (env_x e) (pc_facilitator c) p r (env_settle e))"

definition verified :: "(facilitator_error + verify_response) \<Rightarrow> bool" where
  "verified outcome \<longleftrightarrow> (\<exists>v. outcome = Inr v \<and> vr_is_valid v)"

text \<open>The trace of an admitted payment.\<close>

definition gate_trace :: "environment \<Rightarrow> await_point option \<Rightarrow> payment_config \<Rightarrow> payment_payload
    \<Rightarrow> payment_requirements \<Rightarrow> request \<Rightarrow> effect list" where
  "gate_trace e k c p r req =
     CallVerify p r #
     (if k \<noteq> Some AwaitVerify \<and> verified (verify_outcome e c p r)
      then RunHandler req #
        (if k \<noteq> Some AwaitHandler \<and> resp_status (env_handler e req) < 400 then [CallSettle p r] else [])
      else [])"

lemma run_settle_effects: "snd (snd (run_settle e k c a resp)) = [CallSettle (ad_payload a) (ad_requirements a)]"
  by (simp add: run_settle_def Let_def split: prod.splits)

lemma run_handler_effects:
  "snd (snd (run_handler e k c a req)) =
     (if k \<noteq> Some AwaitHandler \<and> resp_status (env_handler e req) < 400
      then [RunHandler req, CallSettle (ad_payload a) (ad_requirements a)] else [RunHandler req])"
  using run_settle_effects [of e k c a "env_handler e req"]
  by (auto simp: run_handler_def after_handler_cases split: prod.splits)

lemma run_verify_effects:
  "snd (snd (run_verify e k c a req)) =
     gate_trace e k c (ad_payload a) (ad_requirements a) req"
proof (cases "k = Some AwaitVerify")
  case False
  let ?o = "verify_outcome e c (ad_payload a) (ad_requirements a)"
  obtain c' s where av: "after_verify (env_x e) (env_finish_at e) c a ?o = (c', s)" by fastforce
  show ?thesis
  proof (cases s)
    case (Continue a')
    with av have "after_verify (env_x e) (env_finish_at e) c a ?o = (c', Continue a')" by simp
    note ok = after_verify_Continue [OF this]
    obtain c'' r eff where rh: "run_handler e k c' a' req = (c'', r, eff)" by (metis prod_cases3)
    with run_handler_effects [of e k c' a' req]
    have "eff = (if k \<noteq> Some AwaitHandler \<and> resp_status (env_handler e req) < 400
      then [RunHandler req, CallSettle (ad_payload a) (ad_requirements a)] else [RunHandler req])"
      by (simp add: ok(3))
    then show ?thesis using False av Continue rh ok(1) by (simp add: run_verify_def Let_def verified_def gate_trace_def)
  next
    case (Answer resp)
    with av have "\<not> verified ?o"
      by (auto simp: after_verify_def Let_def verified_def split: sum.splits if_splits)
    then show ?thesis using False av Answer by (simp add: run_verify_def Let_def gate_trace_def)
  next
    case Panic
    with av show ?thesis by (simp add: after_verify_no_panic)
  qed
qed (simp add: run_verify_def Let_def gate_trace_def)

text \<open>What the middleware does is one of four traces.\<close>

lemma x402_effects:
  assumes "x402_payment e k c q = (c', result, effects)" "effects \<noteq> []"
  obtains c1 a where
    "admit (env_x e) (env_unix_clock e) (env_reserve_at e) c q = (c1, Continue a)"
    "run_verify e k c1 a (gr_request q) = (c', result, effects)"
    "effects = gate_trace e k c (ad_payload a) (ad_requirements a) (gr_request q)"
proof -
  obtain c1 s where ad: "admit (env_x e) (env_unix_clock e) (env_reserve_at e) c q = (c1, s)" by fastforce
  show thesis
  proof (cases s)
    case (Continue a)
    with ad assms(1) have rv: "run_verify e k c1 a (gr_request q) = (c', result, effects)"
      by (simp add: x402_payment_def)
    have "pc_facilitator c1 = pc_facilitator c"
      using admit_settings [OF ad] by (rule same_settings_fields(1))
    then have "effects = gate_trace e k c (ad_payload a) (ad_requirements a) (gr_request q)"
      using run_verify_effects [of e k c1 a "gr_request q"] by (simp add: rv gate_trace_def)
    with that [OF _ rv] ad Continue show thesis by simp
  qed (use ad assms in \<open>auto simp: x402_payment_def\<close>)
qed


text \<open>
  C2: nothing is settled before the protected handler has answered below 400, and nothing is
  settled twice. A settlement call occurs at most once, last, after the verification and the
  handler, for the very payment that was verified.
\<close>
theorem settle_only_after_success:
  assumes "x402_payment e cancel c q = (c', result, effects)" "CallSettle p r \<in> set effects"
  shows "effects = [CallVerify p r, RunHandler (gr_request q), CallSettle p r]
     \<and> resp_status (env_handler e (gr_request q)) < 400
     \<and> verified (verify_outcome e c p r)"
proof -
  from assms(2) have "effects \<noteq> []" by auto
  with assms(1) obtain c1 a where
    ad: "admit (env_x e) (env_unix_clock e) (env_reserve_at e) c q = (c1, Continue a)"
    and eff: "effects = gate_trace e cancel c (ad_payload a) (ad_requirements a) (gr_request q)"
    by (rule x402_effects)
  then show ?thesis using assms(2) by (auto simp: gate_trace_def split: if_splits)
qed


text \<open>
  Delivering a paid response changes nothing but two headers. Status and body are the
  handler's; the receipt header carries the settlement result; the cache directive keeps the one
  the handler set and adds \<open>private\<close>; every other header keeps its value.
\<close>
theorem settled_response_adds_receipt:
  assumes "header_value_ok x (encode_settle_response x s)"
    and "\<forall>v. get_header ''cache-control'' h = Some v \<longrightarrow> header_text x v"
    and "\<forall>v. header_text x v \<longrightarrow> header_value_ok x (v @ '', private'')"
    and "header_value_ok x ''private''"
  shows "resp_status (settled_response x s h) = resp_status h
     \<and> resp_body (settled_response x s h) = resp_body h
     \<and> get_header ''PAYMENT-RESPONSE'' (settled_response x s h) = Some (encode_settle_response x s)
     \<and> get_header ''cache-control'' (settled_response x s h) = Some
         (case get_header ''cache-control'' h of
            Some v \<Rightarrow> if v = '''' then ''private'' else v @ '', private'' | None \<Rightarrow> ''private'')
     \<and> (ascii_lower n \<noteq> ''payment-response'' \<and> ascii_lower n \<noteq> ''cache-control''
         \<longrightarrow> get_header n (settled_response x s h) = get_header n h)"
  using assms
  by (auto simp: settled_response_def Let_def get_set_header to_str_ok_def header_value_or_def text_eval
      split: option.splits bind_splits)

subsection \<open>What happens to the authorization\<close>

lemma reserve_ok_iff:
  "reserve x g p now = (Inr r, g') \<longleftrightarrow> reserve_key g (authorization_key x p) now = (Inr r, g')"
  by (auto simp: reserve_def split: prod.splits sum.splits nonce_error.splits)

lemma guard_inv_alone: "guard_inv False g [] = store_inv g"
  by (simp add: guard_inv_def)

lemma reserve_key_ok_alone:
  assumes "store_inv g" "reserve_key g k now = (Inr r, g')"
  shows "guard_inv False g' [r]" "res_key r = k" "\<not> res_retain r" "current g' r"
  using reserve_key_ok_inv [of False g "[]" k now r g'] assms by (simp_all add: guard_inv_alone)

text \<open>A reservation taken and dropped again leaves a store in which its key is fresh.\<close>

lemma drop_fresh_reusable:
  assumes "store_inv g" "reserve_key g k now = (Inr r, g1)"
  shows "\<exists>r' g'. reserve_key (drop_reservation g1 (r\<lparr>res_retain := False\<rparr>) t) k later = (Inr r', g')"
proof -
  note ok = reserve_key_ok_alone [OF assms]
  let ?r = "r\<lparr>res_retain := False\<rparr>"
  let ?g = "drop_reservation g1 ?r t"
  have g: "?g = g1\<lparr>ng_store := (ng_store g1)\<lparr>ns_entries := fmdrop k (ns_entries (ng_store g1))\<rparr>\<rparr>"
    using ok(2,4) by (simp add: drop_reservation_def current_def Let_def)
  have "k |\<in>| fmdom (ns_entries (ng_store g1))" using ok(2,4) by (auto simp: current_def fmlookup_dom_iff)
  moreover from this have "map_len (ns_entries (ng_store g1)) \<noteq> 0" by (auto simp: map_len_def)
  ultimately have room: "guard_len ?g < ng_max_capacity ?g"
    using ok(1) by (auto simp: g guard_len_def map_len_drop guard_inv_def store_inv_def)
  have "\<not> protected_key (expire_guard later ?g) k"
  proof
    assume "protected_key (expire_guard later ?g) k"
    then obtain n where "fmlookup (ns_entries (ng_store (expire_guard later ?g))) k = Some n"
      unfolding protected_key_def fmlookup_dom_iff by blast
    then have "fmlookup (ns_entries (ng_store ?g)) k = Some n" by (rule expire_guard_lookup)
    then show False by (simp add: g)
  qed
  with room expire_guard_len [of later ?g] show ?thesis by (simp add: reserve_key_alt Let_def)
qed

lemma drop_retained_blocks:
  assumes "store_inv g" "reserve_key g k now = (Inr r, g1)"
    and "instant_checked_add t (ng_ttl g1) = Some d" "later < d"
  shows "fst (reserve_key (drop_reservation g1 (retain_on_drop r) t) k later) = Inl (ReplayDetected k)"
proof (rule store_inv_deadline_blocks [OF _ _ assms(4)])
  note ok = reserve_key_ok_alone [OF assms(1,2)]
  have cur: "current g1 (retain_on_drop r)" using ok(4) by (simp add: current_def retain_on_drop_def)
  have "res_key r \<notin> snd ` set (deadlines g1)" using ok(1,4) by (simp add: guard_inv_def)
  then show "store_inv (drop_reservation g1 (retain_on_drop r) t)"
    using ok(1) by (intro drop_store_inv) (auto simp: guard_inv_def retain_on_drop_def)
  show "(d, k) \<in> set (deadlines (drop_reservation g1 (retain_on_drop r) t))"
    using cur ok(2) assms(3)
    by (simp add: drop_reservation_current) (simp add: deadlines_def retain_on_drop_def)
qed

text \<open>
  The replay key of a request: the one of the payment its header carries, when the request gets as
  far as the guard.
\<close>

definition held :: "payment_config \<Rightarrow> nonce_guard \<Rightarrow> bool" where
  "held c g \<longleftrightarrow> pc_nonce_guard c = Some g \<and> store_inv g"

lemma admit_takes:
  assumes "admit x clock now c q = (c1, Continue a)" "pc_nonce_guard c = Some g"
  shows "\<exists>r g1. ad_reservation a = Some r \<and> pc_nonce_guard c1 = Some g1
     \<and> reserve_key g (authorization_key x (ad_payload a)) now = (Inr r, g1)"
  using admit_Continue(5) [OF assms(1)] assms(2)
  by (auto simp: take_reservation_def reserve_ok_iff split: prod.splits sum.splits)

lemma run_settle_guard:
  assumes "pc_nonce_guard c = Some g" "ad_reservation a = Some r"
  shows "pc_nonce_guard (fst (run_settle e k c a resp)) = Some (drop_reservation g r (env_finish_at e))"
  using assms
  by (auto simp: run_settle_def after_settle_def drop_held_def Let_def split: prod.splits sum.splits)

lemma run_handler_guard:
  assumes "pc_nonce_guard c = Some g" "ad_reservation a = Some r"
  shows "pc_nonce_guard (fst (run_handler e k c a req)) = Some
     (if k \<noteq> Some AwaitHandler \<and> 400 \<le> resp_status (env_handler e req)
      then release_reservation g r (env_finish_at e) else drop_reservation g r (env_finish_at e))"
  using run_settle_guard [OF assms, of e k "env_handler e req"] assms
  by (auto simp: run_handler_def after_handler_cases drop_held_def release_held_def Let_def split: prod.splits)

lemma run_verify_guard:
  assumes g: "pc_nonce_guard c = Some g" and r: "ad_reservation a = Some r"
  shows "pc_nonce_guard (fst (run_verify e k c a req)) = Some
     (if k = Some AwaitVerify \<or> \<not> verified (verify_outcome e c (ad_payload a) (ad_requirements a))
      then drop_reservation g r (env_finish_at e)
      else if k \<noteq> Some AwaitHandler \<and> 400 \<le> resp_status (env_handler e req)
      then release_reservation g (retain_on_drop r) (env_finish_at e)
      else drop_reservation g (retain_on_drop r) (env_finish_at e))"
proof -
  let ?o = "verify_outcome e c (ad_payload a) (ad_requirements a)"
  obtain c' s where av: "after_verify (env_x e) (env_finish_at e) c a ?o = (c', s)" by fastforce
  show ?thesis
  proof (cases s)
    case (Continue a')
    with av have ok: "after_verify (env_x e) (env_finish_at e) c a ?o = (c', Continue a')" by simp
    note parts = after_verify_Continue [OF ok]
    have "pc_nonce_guard c' = Some g" "ad_reservation a' = Some (retain_on_drop r)"
      using parts(2,3) g r by simp_all
    from run_handler_guard [OF this, of e k req] parts(1) g r show ?thesis
      by (auto simp: run_verify_def ok Let_def verified_def drop_held_def split: prod.splits)
  next
    case (Answer resp)
    with av g r show ?thesis
      by (auto simp: run_verify_def after_verify_def Let_def verified_def drop_held_def
          split: sum.splits if_splits)
  next
    case Panic
    with av show ?thesis by (simp add: after_verify_no_panic)
  qed
qed

lemma admit_refused:
  assumes "pc_nonce_guard c = Some g"
    and "\<And>p. fst (reserve_key g (authorization_key x p) now) = Inl (ReplayDetected (authorization_key x p))
            \<or> \<not> P p"
    and "\<And>hv p. payment_header x (req_headers (gr_request q)) = Some hv \<Longrightarrow>
            decode_payment_payload x hv = Some p \<Longrightarrow> P p"
  shows "admit x clock now c q \<noteq> (c', Continue a)"
proof
  assume ad: "admit x clock now c q = (c', Continue a)"
  from admit_takes [OF this assms(1)] obtain r g1 where
    "reserve_key g (authorization_key x (ad_payload a)) now = (Inr r, g1)" by blast
  moreover have "P (ad_payload a)" using admit_Continue(2) [OF ad] assms(3) by blast
  ultimately show False using assms(2) [of "ad_payload a"] by simp
qed


text \<open>
  C16: a payment that certainly was not charged can be tried again. If the verification failed or
  was cut off, or the handler answered with an error, the same authorization is admitted by the
  guard at any later time, even when the guard was full.
\<close>
theorem uncharged_authorization_reusable:
  assumes run: "x402_payment e cancel c q = (c', result, effects)"
    and guard: "held c g" and admitted: "CallVerify p r \<in> set effects"
    and uncharged: "RunHandler (gr_request q) \<notin> set effects
      \<or> (cancel \<noteq> Some AwaitHandler \<and> 400 \<le> resp_status (env_handler e (gr_request q)))"
  shows "\<exists>g' r' g''. pc_nonce_guard c' = Some g'
     \<and> reserve_key g' (authorization_key (env_x e) p) later = (Inr r', g'')"
proof -
  from admitted have "effects \<noteq> []" by auto
  with run obtain c1 a where
    ad: "admit (env_x e) (env_unix_clock e) (env_reserve_at e) c q = (c1, Continue a)"
    and rv: "run_verify e cancel c1 a (gr_request q) = (c', result, effects)"
    and tr: "effects = gate_trace e cancel c (ad_payload a) (ad_requirements a) (gr_request q)"
    by (rule x402_effects)
  have p: "ad_payload a = p" using admitted tr by (auto simp: gate_trace_def split: if_splits)
  have set: "same_settings c c1" using ad by (rule admit_settings)
  have g: "pc_nonce_guard c = Some g" "store_inv g" using guard by (auto simp: held_def)
  from admit_takes [OF ad g(1)] obtain res g1 where
    r: "ad_reservation a = Some res" and g1: "pc_nonce_guard c1 = Some g1"
    and res: "reserve_key g (authorization_key (env_x e) p) (env_reserve_at e) = (Inr res, g1)"
    unfolding p by blast
  have "\<not> res_retain res" using reserve_key_ok_alone(3) [OF g(2) res] .
  then have plain: "res\<lparr>res_retain := False\<rparr> = res" "(retain_on_drop res)\<lparr>res_retain := False\<rparr> = res"
    by (simp_all add: retain_on_drop_def)
  have "pc_nonce_guard c' = Some (drop_reservation g1 (res\<lparr>res_retain := False\<rparr>) (env_finish_at e))"
    using run_verify_guard [OF g1 r, of e cancel "gr_request q"] uncharged rv tr
    by (auto simp: plain release_reservation_def gate_trace_def same_settings_fields [OF set] split: if_splits)
  then show ?thesis using drop_fresh_reusable [OF g(2) res] by blast
qed


text \<open>
  The challenge counter counts the 402 challenges, with one exception. When a request is turned
  away before verification on an account that can compute its terms, the challenge counter grows
  by one unless the store was full or the authorization failed the validity window: those
  rejections, though answered with a 402 challenge, are not counted. Every request is counted once.
\<close>
theorem challenge_counter:
  assumes "admit x clock now c q = (c1, Answer resp)" "requirements x c = Some (Inr r)"
    and "pc_metrics c = Some m"
  shows "\<exists>m1. pc_metrics c1 = Some m1 \<and> pm_requests_total m1 = pm_requests_total m + 1
     \<and> pm_challenges_total m1 = pm_challenges_total m +
       (if resp = capacity_response
           \<or> (\<exists>hv p. payment_header x (req_headers (gr_request q)) = Some hv
                \<and> decode_payment_payload x hv = Some p \<and> pp_accepted p = r
                \<and> window_error (pc_expiration_guard c) clock p \<noteq> None)
        then 0 else 1)"
proof -
  let ?w = "\<exists>hv p. payment_header x (req_headers (gr_request q)) = Some hv
                \<and> decode_payment_payload x hv = Some p \<and> pp_accepted p = r
                \<and> window_error (pc_expiration_guard c) clock p \<noteq> None"
  have status: "payment_required_response x r u d er \<noteq> capacity_response" for u d er
    by (rule notI, drule arg_cong [where f = resp_status])
      (simp add: capacity_response_def payment_required_response_def)
  have taken: "pc_metrics c' = pc_metrics c0" if "take_reservation x p now c0 = (c', s)" for c' c0 p s
    using that by (auto simp: take_reservation_def split: option.splits prod.splits sum.splits)
  note counts = Let_def record_request_def record_challenge_def
  show ?thesis
  proof (cases "payment_header x (req_headers (gr_request q))")
    case None
    with assms status show ?thesis by (auto simp: admit_def counts)
  next
    case hv: (Some hv)
    show ?thesis
    proof (cases "decode_payment_payload x hv")
      case None
      with hv assms status show ?thesis by (auto simp: admit_def counts)
    next
      case p: (Some p)
      show ?thesis
      proof (cases "pp_accepted p = r \<and> window_error (pc_expiration_guard c) clock p = None")
        case False
        with hv p assms status show ?thesis
          by (cases "window_error (pc_expiration_guard c) clock p") (auto simp: admit_def counts split: if_splits)
      next
        case True
        then have now: "\<not> ?w" using hv p by simp
        obtain c' s where tk: "take_reservation x p now (on_metrics record_request c) = (c', s)" by fastforce
        from hv p True tk taken [OF tk] assms status [of "resource_url q" "pc_description c"]
        show ?thesis unfolding if_not_P [OF now]
          by (auto simp: admit_def counts split: sum.splits nonce_error.splits)
      qed
    qed
  qed
qed

end
