(* ===== verification/Gate_Samples.thy ===== *)
theory Gate_Samples
  imports Gate
begin

text \<open>
  A concrete gate on which the properties of the payment gate are evaluated: one unit per call on
  the test network, a replay guard with two places, counters, and a facilitator that accepts and
  settles. The documents the facilitator and the client send are given by name.
\<close>

definition sample_terms :: payment_requirements where
  "sample_terms = \<lparr>pr_scheme = ''exact'', pr_network = ''eip155:2368'', pr_amount = ''1000000000000000000'',
     pr_asset = ''0x38129cf4CE5E183eFF248F42A7D345Bb1B47621A'', pr_pay_to = ''0x11'',
     pr_max_timeout_seconds = 60,
     pr_extra = Some (JObj [(''name'', JStr ''pieUSD''), (''version'', JStr ''1'')])\<rparr>"

definition sample_payment :: payment_payload where
  "sample_payment = \<lparr>pp_x402_version = 2, pp_resource = None, pp_accepted = sample_terms,
     pp_payload = JObj [(''authorization'', JObj [(''from'', JStr ''0xab''), (''nonce'', JStr ''0x01'')])],
     pp_extensions = None\<rparr>"

definition sample_receipt :: settle_response where
  "sample_receipt = \<lparr>sr_success = True, sr_error_reason = None, sr_error_message = None,
     sr_payer = None, sr_transaction = ''0xfe'', sr_network = ''eip155:2368'', sr_amount = None\<rparr>"

definition sample_x :: externals where
  "sample_x = sample_externals\<lparr>json_parse := (\<lambda>s.
     if s = ''pay'' then Some (ser_payload sample_payment)
     else if s = ''valid'' then Some (JObj [(''isValid'', JBool True)])
     else if s = ''settled'' then Some (ser_settle_response sample_receipt)
     else None)\<rparr>"

definition sample_config :: payment_config where
  "sample_config = with_nonce_guard (with_metrics
     (config_new ''0x11'' KITE_TESTNET ''1'' ''forecast'' (client_new ''https://f/v2''))
     new_metrics) (new_guard 2 60)"

definition sample_request :: gate_request where
  "sample_request = \<lparr>gr_request = \<lparr>req_method = ''GET'', req_uri = ''/forecast'', req_path_query = Some ''/forecast'',
     req_headers = [(''payment-signature'', ''pay'')], req_body = ''''\<rparr>, gr_original_uri = Some ''/v1/forecast''\<rparr>"

definition sample_response :: "nat \<Rightarrow> response" where
  "sample_response status = \<lparr>resp_status = status, resp_headers = [(''cache-control'', ''max-age=1'')],
     resp_body = BytesBody ''sunny''\<rparr>"

definition sample_env :: "instant \<Rightarrow> nat \<Rightarrow> environment" where
  "sample_env start status = \<lparr>env_x = sample_x, env_unix_clock = Some 0, env_reserve_at = start,
     env_settle_elapsed = 3000000, env_finish_at = start + 10,
     env_verify = (\<lambda>_ _. Replied 200 (Some ''valid'')),
     env_handler = (\<lambda>_. sample_response status),
     env_settle = (\<lambda>_ _. Replied 200 (Some ''settled''))\<rparr>"

lemma eighteen_zeros: "replicate 18 CHR ''0'' = ''000000000000000000''"
  by (simp add: numeral_eq_Suc)

lemma sample_requirements: "requirements sample_x sample_config = Some (Inr sample_terms)"
proof -
  have len: "length ''1'' < 2 ^ 32" by simp
  have "parse_price KITE_TESTNET ''1'' = Some (Inr \<lparr>aa_asset = kc_asset_address KITE_TESTNET,
     aa_amount = ''1000000000000000000'', aa_extra = JObj [(''name'', JStr ''pieUSD''), (''version'', JStr ''1'')]\<rparr>)"
    unfolding parse_price_def
    by (simp add: price_text_def trim_visible price_parts_def is_plain_positive_decimal_def
        normalized_units_def trim_start_matches_def KITE_TESTNET_def text_eval eighteen_zeros)
  then show ?thesis
    by (simp add: requirements_def sample_config_def with_nonce_guard_def with_metrics_def config_new_def
        sample_terms_def KITE_TESTNET_def)
qed

lemma sample_trim: "trim ''pay'' = ''pay''"
  by (rule trim_visible) (simp_all add: visible_def char_code_def)

lemma sample_x_fields [simp]:
  "b64_decode sample_x = Some" "header_text sample_x v" "header_value_ok sample_x v"
  "json_print sample_x = sample_print"
  by (simp_all add: sample_x_def sample_externals_def)

lemma sample_decode: "decode_payment_payload sample_x ''pay'' = Some sample_payment"
proof -
  have "de_payload (ser_payload sample_payment) = Some sample_payment"
    by (rule de_ser_payload)
      (simp_all add: sample_payment_def sample_terms_def storable_def less_char_def)
  then show ?thesis
    by (simp add: decode_payment_payload_def sample_trim) (simp add: sample_x_def sample_payment_def)
qed

lemma sample_header: "payment_header sample_x (req_headers (gr_request sample_request)) = Some ''pay''"
  by (simp add: payment_header_def sample_request_def hget_def to_str_ok_def text_eval)

text \<open>The sample request is admitted, and its run settles when the handler succeeds.\<close>

definition sample_key :: str where
  "sample_key = authorization_key sample_x sample_payment"

definition sample_reservation :: reservation where
  "sample_reservation = \<lparr>res_key = sample_key, res_generation = 0, res_retain = False\<rparr>"

definition sample_admitted :: admitted where
  "sample_admitted = \<lparr>ad_url = ''/v1/forecast'', ad_requirements = sample_terms, ad_payload = sample_payment,
     ad_reservation = Some sample_reservation\<rparr>"

lemma sample_url: "resource_url sample_request = ''/v1/forecast''"
  by (simp add: resource_url_def sample_request_def)

lemma sample_env_fields [simp]:
  "env_x (sample_env s n) = sample_x" "env_reserve_at (sample_env s n) = s"
  "env_finish_at (sample_env s n) = s + 10" "env_unix_clock (sample_env s n) = Some 0"
  "env_handler (sample_env s n) req = sample_response n"
  "resp_status (sample_response n) = n"
  by (simp_all add: sample_env_def sample_response_def)

lemma sample_config_fields [simp]:
  "pc_nonce_guard sample_config = Some (new_guard 2 60)" "pc_expiration_guard sample_config = None"
  "pc_metrics sample_config = Some new_metrics" "pc_price_usd sample_config = ''1''"
  by (simp_all add: sample_config_def with_nonce_guard_def with_metrics_def config_new_def)

lemma sample_guard: "held sample_config (new_guard 2 60)"
  using guard_inv_new [of False 2 60] by (simp add: held_def guard_inv_alone)

lemma sample_reserve:
  "\<exists>g. reserve_key (new_guard 2 60) k t = (Inr \<lparr>res_key = k, res_generation = 0, res_retain = False\<rparr>, g)"
  by (simp add: guard_eval)

lemma sample_admit:
  "\<exists>c1. admit sample_x (Some 0) t sample_config sample_request = (c1, Continue sample_admitted)"
  using sample_reserve [of "authorization_key sample_x sample_payment" t]
  by (auto simp: admit_def Let_def sample_requirements sample_header sample_decode window_error_def
      take_reservation_def reserve_ok_iff [THEN iffD2] sample_admitted_def sample_reservation_def sample_key_def
      sample_url sample_payment_def sample_terms_def
      split: prod.splits)

lemma sample_verify: "verified (verify_outcome (sample_env t n) sample_config p r)"
proof -
  have "pc_facilitator sample_config = client_new ''https://f/v2''"
    by (simp add: sample_config_def with_nonce_guard_def with_metrics_def config_new_def)
  then show ?thesis
    by (simp add: verified_def verify_def call_def client_new_def client_with_timeout_def default_retry_config_def
        retry_loop_zero send_single_def sample_env_def is_success_def)
      (simp add: sample_x_def de_verify_response_def serde_defs)
qed

lemma sample_effects:
  "snd (snd (x402_payment (sample_env t n) None sample_config sample_request)) =
     CallVerify sample_payment sample_terms # RunHandler (gr_request sample_request) #
     (if n < 400 then [CallSettle sample_payment sample_terms] else [])"
proof -
  obtain c1 where ad: "admit sample_x (Some 0) t sample_config sample_request = (c1, Continue sample_admitted)"
    using sample_admit by blast
  have "pc_facilitator c1 = pc_facilitator sample_config"
    using admit_settings [OF ad] by (rule same_settings_fields(1))
  then have "verified (verify_outcome (sample_env t n) c1 sample_payment sample_terms)"
    using sample_verify by simp
  then show ?thesis
    using run_verify_effects [of "sample_env t n" None c1 sample_admitted "gr_request sample_request"]
    by (simp add: x402_payment_def ad gate_trace_def sample_admitted_def)
qed

subsection \<open>The properties at the sample\<close>


theorem settle_only_after_success_witness:
  "\<exists>c' result effects. x402_payment (sample_env 0 200) None sample_config sample_request = (c', result, effects)
     \<and> effects = [CallVerify sample_payment sample_terms, RunHandler (gr_request sample_request),
                  CallSettle sample_payment sample_terms]
     \<and> resp_status (env_handler (sample_env 0 200) (gr_request sample_request)) < 400"
proof -
  obtain c' result effects where
    run: "x402_payment (sample_env 0 200) None sample_config sample_request = (c', result, effects)"
    by (metis prod_cases3)
  then have "CallSettle sample_payment sample_terms \<in> set effects"
    using sample_effects [of 0 200] by simp
  from settle_only_after_success [OF run this] run show ?thesis by blast
qed

lemma sample_facilitator: "pc_facilitator sample_config = client_new ''https://f/v2''"
  by (simp add: sample_config_def with_nonce_guard_def with_metrics_def config_new_def)

lemmas sample_call =
  call_def client_new_def client_with_timeout_def default_retry_config_def retry_loop_zero send_single_def
  is_success_def

lemma sample_settle: "settle_outcome (sample_env t n) sample_config p r = Inr sample_receipt"
proof -
  have "json_parse sample_x ''settled'' = Some (ser_settle_response sample_receipt)"
    by (simp add: sample_x_def)
  then show ?thesis
    by (simp add: settle_def sample_call sample_facilitator) (simp add: sample_env_def is_success_def)
qed

lemma sample_verify_value: "\<exists>v. verify_outcome (sample_env t n) sample_config p r = Inr v \<and> vr_is_valid v"
  using sample_verify by (simp add: verified_def)


theorem settled_response_adds_receipt_witness:
  "resp_status (settled_response sample_x sample_receipt (sample_response 200)) = 200
   \<and> get_header ''cache-control'' (settled_response sample_x sample_receipt (sample_response 200))
       = Some ''max-age=1, private''"
proof -
  have "get_header ''cache-control'' (sample_response 200) = Some ''max-age=1''"
    by (simp add: sample_response_def get_header_def hget_def text_eval)
  then show ?thesis
    using settled_response_adds_receipt [of sample_x sample_receipt "sample_response 200" "''x''"] by simp
qed


theorem uncharged_authorization_reusable_witness:
  "\<exists>g' r' g''. pc_nonce_guard (fst (x402_payment (sample_env 0 500) None sample_config sample_request)) = Some g'
     \<and> reserve_key g' sample_key 20 = (Inr r', g'')"
proof -
  obtain c' result effects where
    run: "x402_payment (sample_env 0 500) None sample_config sample_request = (c', result, effects)"
    by (metis prod_cases3)
  then have called: "CallVerify sample_payment sample_terms \<in> set effects"
    using sample_effects [of 0 500] by simp
  from uncharged_authorization_reusable [OF run sample_guard called, of 20] run show ?thesis
    by (simp add: sample_key_def)
qed

definition unpaid_request :: gate_request where
  "unpaid_request = \<lparr>gr_request = \<lparr>req_method = ''GET'', req_uri = ''/forecast'', req_path_query = None,
     req_headers = [], req_body = ''''\<rparr>, gr_original_uri = None\<rparr>"

lemma unpaid_admit: "admit sample_x clock t sample_config unpaid_request =
    (on_metrics record_challenge (on_metrics record_request sample_config),
     Answer (payment_required_response sample_x sample_terms ''/forecast'' (pc_description sample_config) None))"
  by (simp add: admit_def sample_requirements payment_header_def unpaid_request_def hget_def resource_url_def Let_def)


theorem challenge_counter_witness:
  "\<exists>c1 resp m1. admit sample_x (Some 0) 0 sample_config unpaid_request = (c1, Answer resp)
     \<and> pc_metrics c1 = Some m1 \<and> pm_challenges_total m1 = 1"
proof -
  have absent: "payment_header sample_x (req_headers (gr_request unpaid_request)) = None"
    by (simp add: payment_header_def unpaid_request_def hget_def)
  have differ: "payment_required_response sample_x r u d er \<noteq> capacity_response" for r u d er
    by (rule notI, drule arg_cong [where f = resp_status])
      (simp add: capacity_response_def payment_required_response_def)
  have metrics: "pc_metrics sample_config = Some new_metrics" by simp
  from challenge_counter [OF unpaid_admit [of "Some 0" 0] sample_requirements metrics]
  show ?thesis using unpaid_admit [of "Some 0" 0] by (auto simp: absent differ new_metrics_def)
qed

text \<open>The header codec at the sample payment, and at the sample challenge and receipt.\<close>

theorem payment_header_roundtrip_witness:
  "decode_payment_payload (sample_externals\<lparr>b64_encode := \<lambda>_. ''pay'',
       b64_decode := \<lambda>_. Some (sample_print (ser_payload sample_payment)),
       json_parse := \<lambda>_. Some (ser_payload sample_payment)\<rparr>) ''pay'' = Some sample_payment"
proof -
  let ?x = "sample_externals\<lparr>b64_encode := \<lambda>_. ''pay'',
       b64_decode := \<lambda>_. Some (sample_print (ser_payload sample_payment)),
       json_parse := \<lambda>_. Some (ser_payload sample_payment)\<rparr>"
  have "codec_inverts ?x (ser_payload sample_payment)"
    by (simp add: codec_inverts_def sample_externals_def sample_trim Let_def)
  moreover have "storable (pr_extra (pp_accepted sample_payment))" "storable (pp_extensions sample_payment)"
    "canon (pp_payload sample_payment) = pp_payload sample_payment"
    by (simp_all add: sample_payment_def sample_terms_def storable_def less_char_def)
  ultimately show ?thesis
    using payment_header_roundtrip [of ?x sample_payment] by (simp add: sample_payment_def)
qed

definition sample_challenge :: payment_required where
  "sample_challenge = challenge_body sample_terms ''/v1/forecast'' ''forecast'' None"

definition sample_server_x :: externals where
  "sample_server_x = sample_externals\<lparr>b64_encode := \<lambda>s. CHR ''h'' # s @ ''h'',
     b64_decode := (\<lambda>s. Some (butlast (tl s))),
     json_parse := (\<lambda>s. if s = sample_print (ser_settle_response sample_receipt)
                     then Some (ser_settle_response sample_receipt)
                     else Some (ser_payment_required sample_challenge))\<rparr>"

theorem server_headers_roundtrip_witness:
  "Option.bind (Option.bind (b64_decode sample_server_x (encode_payment_required sample_server_x sample_challenge))
     (json_parse sample_server_x)) de_payment_required = Some sample_challenge"
proof -
  have "ser_payment_required sample_challenge \<noteq> ser_settle_response sample_receipt"
    by (simp add: ser_payment_required_def ser_settle_response_def sample_challenge_def challenge_body_def)
  then have ne: "sample_print (ser_payment_required sample_challenge) \<noteq> sample_print (ser_settle_response sample_receipt)"
    using inj_sample_print by (simp add: inj_eq)
  have tr: "trim (CHR ''h'' # s @ ''h'') = CHR ''h'' # s @ ''h''" for s
    by (rule trim_visible) (simp_all add: visible_def char_code_def)
  have "codec_inverts sample_server_x (ser_payment_required sample_challenge)"
    "codec_inverts sample_server_x (ser_settle_response sample_receipt)"
    using ne tr by (simp_all add: codec_inverts_def sample_server_x_def sample_externals_def Let_def)
  moreover have "\<forall>r \<in> set (pq_accepts sample_challenge). storable (pr_extra r)"
    by (simp add: sample_challenge_def challenge_body_def sample_terms_def storable_def less_char_def)
  ultimately show ?thesis
    using server_headers_roundtrip [of sample_server_x sample_challenge sample_receipt] by blast
qed

end
