(* ===== verification/GateConcurrency.thy ===== *)
theory GateConcurrency
  imports Gate_Samples
begin

text \<open>
  Many requests at once. The middleware is one task per request and the tasks share the replay
  guard and the counters; between two awaits a task runs one of the stages of \<open>Gate\<close>. The step
  relation \<open>gate_step\<close> interleaves the stages of any number of requests in any order, lets the
  clock advance, the facilitator and the handler answer anything, and connections go away at any
  await. A reservation reads the clock before it takes the lock, so its reading may be older than
  the clock; a drop reads it under the lock.

  The log records the settlement calls. The invariant ties the tasks in flight to the reservations
  alive in the guard; it rests on the contract of the guard, the interpretation \<open>ng\<close> of the locale
  \<open>replay_protection\<close>.
\<close>

datatype phase = Verifying | Handling | Settling

record task =
  t_phase :: phase
  t_admitted :: admitted

record world =
  w_conf :: payment_config
  w_now :: instant
  w_tasks :: "task list"
  w_settle_calls :: "(str \<times> instant) list"

definition task_reservation :: "task \<Rightarrow> reservation" where
  "task_reservation t = the (ad_reservation (t_admitted t))"

definition task_key :: "task \<Rightarrow> str" where
  "task_key t = res_key (task_reservation t)"

definition start_world :: "payment_config \<Rightarrow> nat \<Rightarrow> u64 \<Rightarrow> instant \<Rightarrow> world" where
  "start_world c capacity ttl_seconds now = \<lparr>w_conf = with_nonce_guard c (new_guard capacity ttl_seconds),
     w_now = now, w_tasks = [], w_settle_calls = []\<rparr>"

inductive gate_step :: "externals \<Rightarrow> world \<Rightarrow> world \<Rightarrow> bool" for x where
  tick: "w_now w \<le> now \<Longrightarrow> gate_step x w (w\<lparr>w_now := now\<rparr>)"
| arrive: "admit x clock reading (w_conf w) q = (c', Continue a) \<Longrightarrow> reading \<le> w_now w \<Longrightarrow>
    gate_step x w (w\<lparr>w_conf := c', w_tasks := \<lparr>t_phase = Verifying, t_admitted = a\<rparr> # w_tasks w\<rparr>)"
| turned_away: "admit x clock reading (w_conf w) q = (c', Answer resp) \<Longrightarrow> reading \<le> w_now w \<Longrightarrow>
    gate_step x w (w\<lparr>w_conf := c'\<rparr>)"
| verify_ok: "w_tasks w = xs @ t # ys \<Longrightarrow> t_phase t = Verifying \<Longrightarrow>
    after_verify x (w_now w) (w_conf w) (t_admitted t) outcome = (c', Continue a') \<Longrightarrow>
    gate_step x w (w\<lparr>w_conf := c', w_tasks := xs @ \<lparr>t_phase = Handling, t_admitted = a'\<rparr> # ys\<rparr>)"
| verify_failed: "w_tasks w = xs @ t # ys \<Longrightarrow> t_phase t = Verifying \<Longrightarrow>
    after_verify x (w_now w) (w_conf w) (t_admitted t) outcome = (c', Answer resp) \<Longrightarrow>
    gate_step x w (w\<lparr>w_conf := c', w_tasks := xs @ ys\<rparr>)"
| handler_ok: "w_tasks w = xs @ t # ys \<Longrightarrow> t_phase t = Handling \<Longrightarrow>
    after_handler (w_now w) (w_conf w) (t_admitted t) resp = (c', Continue resp') \<Longrightarrow>
    gate_step x w (w\<lparr>w_conf := c', w_tasks := xs @ t\<lparr>t_phase := Settling\<rparr> # ys,
      w_settle_calls := w_settle_calls w @ [(task_key t, w_now w)]\<rparr>)"
| handler_failed: "w_tasks w = xs @ t # ys \<Longrightarrow> t_phase t = Handling \<Longrightarrow>
    after_handler (w_now w) (w_conf w) (t_admitted t) resp = (c', Answer resp') \<Longrightarrow>
    gate_step x w (w\<lparr>w_conf := c', w_tasks := xs @ ys\<rparr>)"
| settled: "w_tasks w = xs @ t # ys \<Longrightarrow> t_phase t = Settling \<Longrightarrow>
    after_settle x elapsed (w_now w) (w_conf w) (t_admitted t) resp outcome = (c', resp') \<Longrightarrow>
    gate_step x w (w\<lparr>w_conf := c', w_tasks := xs @ ys\<rparr>)"
| cancelled: "w_tasks w = xs @ t # ys \<Longrightarrow>
    gate_step x w (w\<lparr>w_conf := drop_held (ad_reservation (t_admitted t)) (w_now w) (w_conf w),
                     w_tasks := xs @ ys\<rparr>)"

inductive_cases gate_stepE: "gate_step x w w'"

abbreviation reachable :: "externals \<Rightarrow> world \<Rightarrow> world \<Rightarrow> bool" where
  "reachable x \<equiv> (gate_step x)\<^sup>*\<^sup>*"

subsection \<open>A key that was charged stays protected\<close>

definition shielded :: "nonce_guard \<Rightarrow> reservation list \<Rightarrow> instant \<Rightarrow> str \<Rightarrow> instant \<Rightarrow> bool" where
  "shielded g live now k s \<longleftrightarrow>
     s + int (ng_ttl g) \<le> now
     \<or> (protected_key g k \<and> k \<notin> res_key ` set live
        \<and> (\<forall>d. (d, k) \<in> set (deadlines g) \<longrightarrow> s + int (ng_ttl g) \<le> d))"

lemma shielded_later: "shielded g live now k s \<Longrightarrow> now \<le> now' \<Longrightarrow> shielded g live now' k s"
  by (auto simp: shielded_def)

lemma shielded_expire:
  assumes "shielded g live now k s" "reading \<le> now"
  shows "shielded (expire_guard reading g) live now k s"
proof (cases "s + int (ng_ttl g) \<le> now")
  case False
  then have p: "protected_key g k" "k \<notin> res_key ` set live"
    and d: "\<And>d. (d, k) \<in> set (deadlines g) \<Longrightarrow> s + int (ng_ttl g) \<le> d"
    using assms(1) by (auto simp: shielded_def)
  have "\<And>d. (d, k) \<in> set (deadlines g) \<Longrightarrow> reading < d" using d False assms(2) by force
  then have "protected_key (expire_guard reading g) k"
    using p(1) by (simp add: protected_key_def fmlookup_dom_iff expire_guard_keeps)
  then show ?thesis
    using p d expire_guard_deadlines [of reading g] by (auto simp: shielded_def)
qed (simp add: shielded_def)

lemma shielded_reserve:
  assumes "shielded g live now k s" "reading \<le> now" "reserve_key g k' reading = (Inr r, g')"
  shows "shielded g' (r # live) now k s" "k' = k \<Longrightarrow> s + int (ng_ttl g) \<le> now"
proof -
  let ?e = "expire_guard reading g"
  have e: "shielded ?e live now k s" using assms(1,2) by (rule shielded_expire)
  have np: "\<not> protected_key ?e k'" and r: "res_key r = k'"
    and g': "g' = ?e\<lparr>ng_store := (ng_store ?e)\<lparr>ns_entries := fmupd k' (ng_next_generation ?e) (ns_entries (ng_store ?e))\<rparr>,
                 ng_next_generation := Suc (ng_next_generation ?e)\<rparr>"
    using assms(3) by (auto simp: reserve_key_alt Let_def split: if_splits)
  show "k' = k \<Longrightarrow> s + int (ng_ttl g) \<le> now" using e np by (auto simp: shielded_def)
  show "shielded g' (r # live) now k s"
    using e np r by (auto simp: shielded_def g' protected_key_def deadlines_def)
qed

lemma shielded_drop_other:
  assumes "shielded g (xs @ r # ys) now k s" "res_key r' = res_key r"
  shows "shielded (drop_reservation g r' t) (xs @ ys) now k s"
  using assms
  by (auto simp: shielded_def drop_reservation_def protected_key_def deadlines_def bt_insert_def Let_def
      set_insort_insert split: option.splits)

lemma shielded_drop_retained:
  assumes "guard_inv True g (xs @ r # ys)" "res_retain r" "s \<le> t"
  shows "shielded (drop_reservation g r t) (xs @ ys) t (res_key r) s"
proof -
  have cur: "current g r" and nod: "res_key r \<notin> snd ` set (deadlines g)"
    using assms(1) by (auto simp: guard_inv_def)
  have "distinct (map res_key (xs @ r # ys))" using assms(1) by (rule guard_inv_distinct_keys)
  then have alone: "res_key r \<notin> res_key ` set (xs @ ys)" by auto
  have prot: "protected_key g (res_key r)" using cur by (auto simp: current_def protected_key_def fmlookup_dom_iff)
  show ?thesis
    using alone nod prot assms(2,3)
    by (force simp: shielded_def drop_reservation_current [OF cur] protected_key_def deadlines_def
        instant_checked_add_def bt_insert_def set_insort_insert split: option.splits if_splits)
qed

subsection \<open>The invariant\<close>

definition spaced :: "duration \<Rightarrow> (str \<times> instant) list \<Rightarrow> bool" where
  "spaced ttl calls \<longleftrightarrow> (\<forall>i j. i < j \<longrightarrow> j < length calls \<longrightarrow> fst (calls ! i) = fst (calls ! j)
     \<longrightarrow> snd (calls ! i) + int ttl \<le> snd (calls ! j))"

definition task_ok :: "task \<Rightarrow> bool" where
  "task_ok t \<longleftrightarrow> ad_reservation (t_admitted t) \<noteq> None
     \<and> (res_retain (task_reservation t) \<longleftrightarrow> t_phase t \<noteq> Verifying)"

text \<open>
  A past settlement call of a key is old enough, or its task is still settling, or the key is
  shielded; and a task that may still come to settle has no recent call of its key.
\<close>

definition calls_ok :: "nonce_guard \<Rightarrow> task list \<Rightarrow> instant \<Rightarrow> (str \<times> instant) list \<Rightarrow> bool" where
  "calls_ok g tasks now calls \<longleftrightarrow>
     (\<forall>k s. (k, s) \<in> set calls \<longrightarrow> s \<le> now
        \<and> ((\<exists>t \<in> set tasks. t_phase t = Settling \<and> task_key t = k)
           \<or> shielded g (map task_reservation tasks) now k s))
     \<and> (\<forall>t \<in> set tasks. t_phase t \<noteq> Settling \<longrightarrow>
          (\<forall>s. (task_key t, s) \<in> set calls \<longrightarrow> s + int (ng_ttl g) \<le> now))"

definition world_inv :: "duration \<Rightarrow> nat \<Rightarrow> world \<Rightarrow> bool" where
  "world_inv ttl cap w \<longleftrightarrow> (\<exists>g. pc_nonce_guard (w_conf w) = Some g \<and> ng_ttl g = ttl \<and> ng_max_capacity g = cap
     \<and> guard_inv True g (map task_reservation (w_tasks w))
     \<and> (\<forall>t \<in> set (w_tasks w). task_ok t)
     \<and> calls_ok g (w_tasks w) (w_now w) (w_settle_calls w)
     \<and> spaced ttl (w_settle_calls w))"

lemma spaced_snoc:
  assumes "spaced ttl calls" "\<And>s. (k, s) \<in> set calls \<Longrightarrow> s + int ttl \<le> t"
  shows "spaced ttl (calls @ [(k, t)])"
  unfolding spaced_def
proof (intro allI impI)
  fix i j
  assume ij: "i < j" "j < length (calls @ [(k, t)])" "fst ((calls @ [(k, t)]) ! i) = fst ((calls @ [(k, t)]) ! j)"
  show "snd ((calls @ [(k, t)]) ! i) + int ttl \<le> snd ((calls @ [(k, t)]) ! j)"
  proof (cases "j < length calls")
    case True
    with assms(1) ij show ?thesis by (simp add: spaced_def nth_append)
  next
    case False
    with ij have j: "j = length calls" and i: "i < length calls" by auto
    with ij(3) have "(k, snd (calls ! i)) \<in> set calls"
      using nth_mem [OF i] by (metis fst_conv nth_append nth_append_length prod.collapse)
    from assms(2) [OF this] show ?thesis using i j by (simp add: nth_append)
  qed
qed

lemma calls_ok_later: "calls_ok g ts now calls \<Longrightarrow> now \<le> now' \<Longrightarrow> calls_ok g ts now' calls"
  by (auto simp: calls_ok_def intro: shielded_later) (meson order_trans shielded_later)+

lemma calls_ok_expire: "calls_ok g ts now calls \<Longrightarrow> reading \<le> now \<Longrightarrow> calls_ok (expire_guard reading g) ts now calls"
  unfolding calls_ok_def expire_guard_fields by (meson shielded_expire)

text \<open>Most steps carry the clauses over task by task.\<close>

lemma calls_ok_transfer:
  assumes ok: "calls_ok g ts now calls" and ttl: "ng_ttl g' = ng_ttl g"
    and sh: "\<And>k s. shielded g (map task_reservation ts) now k s \<Longrightarrow> shielded g' (map task_reservation ts') now k s"
    and settling: "\<And>t s. t \<in> set ts \<Longrightarrow> t_phase t = Settling \<Longrightarrow> s \<le> now \<Longrightarrow>
      (\<exists>u \<in> set ts'. t_phase u = Settling \<and> task_key u = task_key t)
      \<or> shielded g' (map task_reservation ts') now (task_key t) s"
    and idle: "\<And>u s. u \<in> set ts' \<Longrightarrow> t_phase u \<noteq> Settling \<Longrightarrow> (task_key u, s) \<in> set calls \<Longrightarrow>
      (\<exists>t \<in> set ts. t_phase t \<noteq> Settling \<and> task_key t = task_key u) \<or> s + int (ng_ttl g) \<le> now"
  shows "calls_ok g' ts' now calls"
  unfolding calls_ok_def ttl
proof (intro conjI allI impI ballI)
  fix k s assume c: "(k, s) \<in> set calls"
  show "s \<le> now" using ok c by (auto simp: calls_ok_def)
  from ok c have "(\<exists>t \<in> set ts. t_phase t = Settling \<and> task_key t = k) \<or> shielded g (map task_reservation ts) now k s"
    by (simp add: calls_ok_def)
  then show "(\<exists>t \<in> set ts'. t_phase t = Settling \<and> task_key t = k) \<or> shielded g' (map task_reservation ts') now k s"
    using settling \<open>s \<le> now\<close> sh by blast
next
  fix u s assume u: "u \<in> set ts'" "t_phase u \<noteq> Settling" "(task_key u, s) \<in> set calls"
  from idle [OF this] show "s + int (ng_ttl g) \<le> now"
    using ok u(3) unfolding calls_ok_def by metis
qed

lemma calls_ok_reserve:
  assumes "calls_ok g ts now calls" "guard_inv True g (map task_reservation ts)"
    and "reserve_key g k reading = (Inr r, g')" "reading \<le> now"
    and "task_reservation t = r" "t_phase t = Verifying"
  shows "calls_ok g' (t # ts) now calls"
proof -
  have fresh: "k \<notin> res_key ` set (map task_reservation ts)" and key: "res_key r = k"
    using ng.admit_fresh [OF assms(2,3)] ng.admit_ok [OF assms(2,3)] by auto
  have ttl: "ng_ttl g' = ng_ttl g"
    using assms(3) by (auto simp: reserve_key_alt Let_def split: if_splits)
  have old: "s + int (ng_ttl g) \<le> now" if "(k, s) \<in> set calls" for s
  proof -
    have "\<not> (\<exists>u \<in> set ts. task_key u = k)" using fresh by (auto simp: task_key_def)
    with assms(1) that have "shielded g (map task_reservation ts) now k s" by (auto simp: calls_ok_def)
    from shielded_reserve(2) [OF this assms(4,3) refl] show ?thesis .
  qed
  show ?thesis
    using shielded_reserve(1) [OF _ assms(4,3)] old assms(5,6) key
    by (intro calls_ok_transfer [OF assms(1) ttl]) (auto simp: task_key_def)
qed

lemma calls_ok_drop_idle:
  assumes "calls_ok g (xs @ t # ys) now calls" "t_phase t \<noteq> Settling"
    and "res_key r = res_key (task_reservation t)"
  shows "calls_ok (drop_reservation g r now) (xs @ ys) now calls"
  using assms(2,3) shielded_drop_other [of g "map task_reservation xs" "task_reservation t" "map task_reservation ys" now _ _ r now]
  by (intro calls_ok_transfer [OF assms(1)]) auto

lemma calls_ok_drop_settling:
  assumes "calls_ok g (xs @ t # ys) now calls" "guard_inv True g (map task_reservation (xs @ t # ys))"
    and "res_retain (task_reservation t)"
  shows "calls_ok (drop_reservation g (task_reservation t) now) (xs @ ys) now calls"
proof -
  let ?r = "task_reservation t" and ?live = "map task_reservation (xs @ ys)"
  have other: "shielded (drop_reservation g ?r now) ?live now k s"
    if "shielded g (map task_reservation (xs @ t # ys)) now k s" for k s
    using shielded_drop_other [of g "map task_reservation xs" ?r "map task_reservation ys" now k s ?r now] that by simp
  have own: "shielded (drop_reservation g ?r now) ?live now (task_key t) s" if "s \<le> now" for s
    using shielded_drop_retained [of g "map task_reservation xs" ?r "map task_reservation ys" s now] assms(2,3) that
    by (simp add: task_key_def)
  show ?thesis
    using other own by (intro calls_ok_transfer [OF assms(1)]) auto
qed

lemma calls_ok_same_keys:
  assumes "calls_ok g (xs @ t # ys) now calls"
    and "task_key u = task_key t" "t_phase t \<noteq> Settling" "t_phase u \<noteq> Settling"
  shows "calls_ok g (xs @ u # ys) now calls"
  using assms(2-4) by (intro calls_ok_transfer [OF assms(1)]) (auto simp: shielded_def task_key_def)

lemma calls_ok_settle:
  assumes "calls_ok g (xs @ t # ys) now calls" "guard_inv True g (map task_reservation (xs @ t # ys))"
    and "u = t\<lparr>t_phase := Settling\<rparr>"
  shows "calls_ok g (xs @ u # ys) now (calls @ [(task_key t, now)])"
proof -
  have "distinct (map res_key (map task_reservation (xs @ t # ys)))"
    using assms(2) by (rule guard_inv_distinct_keys)
  then have alone: "\<forall>v \<in> set (xs @ ys). task_key v \<noteq> task_key t"
    by (auto simp: task_key_def image_iff)
  have key: "task_key u = task_key t" "task_reservation u = task_reservation t"
    by (simp_all add: assms(3) task_key_def task_reservation_def)
  show ?thesis
    using assms(1,3) alone key unfolding calls_ok_def by auto
qed

lemma world_invI:
  assumes "pc_nonce_guard (w_conf w) = Some g" "ng_ttl g = ttl"
    and "guard_inv True g (map task_reservation (w_tasks w))"
    and "\<And>t. t \<in> set (w_tasks w) \<Longrightarrow> task_ok t"
    and "calls_ok g (w_tasks w) (w_now w) (w_settle_calls w)" "spaced ttl (w_settle_calls w)"
    and "ng_max_capacity g = cap"
  shows "world_inv ttl cap w"
  using assms by (auto simp: world_inv_def)

lemma reserve_err: "reserve x g p now = (Inl e, g') \<Longrightarrow> g' = expire_guard now g"
  by (auto simp: reserve_def reserve_key_alt Let_def split: prod.splits sum.splits nonce_error.splits if_splits)

lemma admit_answer_guard:
  assumes "admit x clock reading c q = (c', Answer resp)" "pc_nonce_guard c = Some g"
  shows "\<exists>g'. pc_nonce_guard c' = Some g' \<and> (g' = g \<or> g' = expire_guard reading g)"
  using assms
  by (auto simp: admit_def Let_def take_reservation_def dest: reserve_err
      split: option.splits sum.splits if_splits prod.splits nonce_error.splits)

lemma tasks_other: "set (xs @ ys) \<subseteq> set (xs @ t # ys)"
  by auto

text \<open>A task that leaves gives its reservation back.\<close>

lemma world_inv_leave:
  assumes inv: "world_inv ttl cap w" and tasks: "w_tasks w = xs @ t # ys"
    and r: "res_key r = task_key t" "res_generation r = res_generation (task_reservation t)"
    and g: "pc_nonce_guard (w_conf w) = Some g"
      "pc_nonce_guard c' = Some (drop_reservation g r (w_now w))"
    and settle: "t_phase t = Settling \<Longrightarrow> r = task_reservation t"
  shows "world_inv ttl cap (w\<lparr>w_conf := c', w_tasks := xs @ ys\<rparr>)"
proof -
  from inv g(1) tasks have i: "ng_ttl g = ttl" "guard_inv True g (map task_reservation (xs @ t # ys))"
      "\<forall>t \<in> set (xs @ t # ys). task_ok t" "calls_ok g (xs @ t # ys) (w_now w) (w_settle_calls w)"
      "spaced ttl (w_settle_calls w)" "ng_max_capacity g = cap"
    by (auto simp: world_inv_def)
  have "guard_inv True (drop_reservation g r (w_now w)) (map task_reservation xs @ map task_reservation ys)"
    using i(2) r by (intro ng.finish_ok [where r = "task_reservation t"]) (auto simp: task_key_def)
  moreover have "calls_ok (drop_reservation g r (w_now w)) (xs @ ys) (w_now w) (w_settle_calls w)"
  proof (cases "t_phase t = Settling")
    case True
    with i(3) have "res_retain (task_reservation t)" by (auto simp: task_ok_def)
    with calls_ok_drop_settling [OF i(4,2)] settle [OF True] show ?thesis by simp
  next
    case False
    with i(4) r(1) show ?thesis by (intro calls_ok_drop_idle) (auto simp: task_key_def)
  qed
  ultimately show ?thesis
    using i g(2) by (intro world_invI [where g = "drop_reservation g r (w_now w)"]) auto
qed

lemma world_invE:
  assumes "world_inv ttl cap w" "w_tasks w = ts"
  obtains g where "pc_nonce_guard (w_conf w) = Some g" "ng_ttl g = ttl"
    "guard_inv True g (map task_reservation ts)" "\<forall>t \<in> set ts. task_ok t"
    "calls_ok g ts (w_now w) (w_settle_calls w)" "spaced ttl (w_settle_calls w)"
    "ng_max_capacity g = cap"
  using assms by (auto simp: world_inv_def)

lemma world_inv_task:
  assumes "world_inv ttl cap w" "w_tasks w = xs @ t # ys"
  obtains g r where "pc_nonce_guard (w_conf w) = Some g" "ad_reservation (t_admitted t) = Some r"
    "task_reservation t = r" "task_key t = res_key r"
  using assms by (auto simp: world_inv_def task_ok_def task_reservation_def task_key_def)

lemma world_inv_arrive:
  assumes inv: "world_inv ttl cap w" and adm: "admit x clock reading (w_conf w) q = (c', Continue a)"
    and reading: "reading \<le> w_now w"
  shows "world_inv ttl cap (w\<lparr>w_conf := c', w_tasks := \<lparr>t_phase = Verifying, t_admitted = a\<rparr> # w_tasks w\<rparr>)"
proof -
  obtain g where i: "pc_nonce_guard (w_conf w) = Some g" "ng_ttl g = ttl"
    "guard_inv True g (map task_reservation (w_tasks w))" "\<forall>t \<in> set (w_tasks w). task_ok t"
    "calls_ok g (w_tasks w) (w_now w) (w_settle_calls w)" "spaced ttl (w_settle_calls w)"
    "ng_max_capacity g = cap"
    using inv refl by (rule world_invE)
  from admit_takes [OF adm i(1)] obtain r g1 where r: "ad_reservation a = Some r"
    and g1: "pc_nonce_guard c' = Some g1"
    and res: "reserve_key g (authorization_key x (ad_payload a)) reading = (Inr r, g1)" by blast
  let ?t = "\<lparr>t_phase = Verifying, t_admitted = a\<rparr>"
  have tr: "task_reservation ?t = r" by (simp add: task_reservation_def r)
  have "\<not> res_retain r" "ng_ttl g1 = ng_ttl g" "ng_max_capacity g1 = ng_max_capacity g"
    using res by (auto simp: reserve_key_alt Let_def split: if_splits)
  moreover have "guard_inv True g1 (map task_reservation (?t # w_tasks w))"
    using ng.admit_ok [OF i(3) res] by (simp add: tr)
  moreover have "calls_ok g1 (?t # w_tasks w) (w_now w) (w_settle_calls w)"
    using calls_ok_reserve [OF i(5,3) res reading tr] by simp
  ultimately show ?thesis
    using i g1 by (intro world_invI [where g = g1]) (auto simp: task_ok_def r tr)
qed

lemma world_inv_turned_away:
  assumes inv: "world_inv ttl cap w" and adm: "admit x clock reading (w_conf w) q = (c', Answer resp)"
    and reading: "reading \<le> w_now w"
  shows "world_inv ttl cap (w\<lparr>w_conf := c'\<rparr>)"
proof -
  obtain g where i: "pc_nonce_guard (w_conf w) = Some g" "ng_ttl g = ttl"
    "guard_inv True g (map task_reservation (w_tasks w))" "\<forall>t \<in> set (w_tasks w). task_ok t"
    "calls_ok g (w_tasks w) (w_now w) (w_settle_calls w)" "spaced ttl (w_settle_calls w)"
    "ng_max_capacity g = cap"
    using inv refl by (rule world_invE)
  from admit_answer_guard [OF adm i(1)] obtain g'
    where g': "pc_nonce_guard c' = Some g'" "g' = g \<or> g' = expire_guard reading g" by blast
  have "guard_inv True g' (map task_reservation (w_tasks w))" "ng_ttl g' = ng_ttl g"
    "ng_max_capacity g' = ng_max_capacity g"
    using g'(2) i(3) expire_guard_inv by auto
  moreover have "calls_ok g' (w_tasks w) (w_now w) (w_settle_calls w)"
    using g'(2) i(5) calls_ok_expire [OF _ reading] by auto
  ultimately show ?thesis using i g'(1) by (intro world_invI [where g = g']) auto
qed

lemma world_inv_verified:
  assumes inv: "world_inv ttl cap w" and tasks: "w_tasks w = xs @ t # ys" and verifying: "t_phase t = Verifying"
    and ver: "after_verify x (w_now w) (w_conf w) (t_admitted t) outcome = (c', Continue a')"
  shows "world_inv ttl cap (w\<lparr>w_conf := c', w_tasks := xs @ \<lparr>t_phase = Handling, t_admitted = a'\<rparr> # ys\<rparr>)"
proof -
  obtain g where i: "pc_nonce_guard (w_conf w) = Some g" "ng_ttl g = ttl"
    "guard_inv True g (map task_reservation (xs @ t # ys))" "\<forall>t \<in> set (xs @ t # ys). task_ok t"
    "calls_ok g (xs @ t # ys) (w_now w) (w_settle_calls w)" "spaced ttl (w_settle_calls w)"
    "ng_max_capacity g = cap"
    using inv tasks by (rule world_invE)
  note parts = after_verify_Continue [OF ver]
  let ?u = "\<lparr>t_phase = Handling, t_admitted = a'\<rparr>"
  from i(4) obtain r where r: "ad_reservation (t_admitted t) = Some r" by (auto simp: task_ok_def)
  have u: "task_reservation ?u = retain_on_drop (task_reservation t)"
    by (simp add: task_reservation_def parts(3) r)
  have "guard_inv True g (map task_reservation xs @ retain_on_drop (task_reservation t) # map task_reservation ys)"
    using i(3) ng.same_ok [of g "map task_reservation xs" "task_reservation t" "map task_reservation ys"
        "retain_on_drop (task_reservation t)"] by (simp add: retain_on_drop_def)
  moreover have "calls_ok g (xs @ ?u # ys) (w_now w) (w_settle_calls w)"
    by (rule calls_ok_same_keys [OF i(5)]) (simp_all add: verifying task_key_def u, simp add: retain_on_drop_def)
  moreover have "task_ok ?u"
    using u by (simp add: task_ok_def parts(3) r retain_on_drop_def)
  ultimately show ?thesis
    using i parts(2) u by (intro world_invI [where g = g]) auto
qed

lemma world_inv_settling:
  assumes inv: "world_inv ttl cap w" and tasks: "w_tasks w = xs @ t # ys" and handling: "t_phase t = Handling"
    and han: "after_handler (w_now w) (w_conf w) (t_admitted t) resp = (c', Continue resp')"
  shows "world_inv ttl cap (w\<lparr>w_conf := c', w_tasks := xs @ t\<lparr>t_phase := Settling\<rparr> # ys,
    w_settle_calls := w_settle_calls w @ [(task_key t, w_now w)]\<rparr>)"
proof -
  obtain g where i: "pc_nonce_guard (w_conf w) = Some g" "ng_ttl g = ttl"
    "guard_inv True g (map task_reservation (xs @ t # ys))" "\<forall>t \<in> set (xs @ t # ys). task_ok t"
    "calls_ok g (xs @ t # ys) (w_now w) (w_settle_calls w)" "spaced ttl (w_settle_calls w)"
    "ng_max_capacity g = cap"
    using inv tasks by (rule world_invE)
  let ?u = "t\<lparr>t_phase := Settling\<rparr>"
  have "c' = w_conf w" using han by (auto simp: after_handler_def split: if_splits)
  moreover have "task_reservation ?u = task_reservation t" by (simp add: task_reservation_def)
  moreover have "task_ok ?u" using i(4) handling by (auto simp: task_ok_def task_reservation_def)
  moreover have "spaced ttl (w_settle_calls w @ [(task_key t, w_now w)])"
    using i(2,5) handling by (intro spaced_snoc [OF i(6)]) (auto simp: calls_ok_def)
  ultimately show ?thesis
    using i calls_ok_settle [OF i(5,3) refl] by (intro world_invI [where g = g]) auto
qed

lemma world_inv_step:
  assumes "world_inv ttl cap w" "gate_step x w w'"
  shows "world_inv ttl cap w'"
  using assms(2,1)
proof (induction rule: gate_step.induct)
  case (tick w now)
  then show ?case by (auto simp: world_inv_def intro: calls_ok_later)
next
  case (verify_failed w xs t ys outcome c' resp)
  from verify_failed(4,1) obtain g r where g: "pc_nonce_guard (w_conf w) = Some g"
    and r: "ad_reservation (t_admitted t) = Some r" "task_reservation t = r" "task_key t = res_key r"
    by (rule world_inv_task)
  with verify_failed show ?case
    by (intro world_inv_leave [where r = r and t = t])
      (auto simp: after_verify_def Let_def drop_held_def split: sum.splits if_splits)
next
  case (handler_failed w xs t ys resp c' resp')
  from handler_failed(4,1) obtain g r where g: "pc_nonce_guard (w_conf w) = Some g"
    and r: "ad_reservation (t_admitted t) = Some r" "task_reservation t = r" "task_key t = res_key r"
    by (rule world_inv_task)
  with handler_failed show ?case
    by (intro world_inv_leave [where r = "r\<lparr>res_retain := False\<rparr>" and t = t])
      (auto simp: after_handler_def release_held_def release_reservation_def split: if_splits)
next
  case (settled w xs t ys elapsed resp outcome c' resp')
  from settled(4,1) obtain g r where g: "pc_nonce_guard (w_conf w) = Some g"
    and r: "ad_reservation (t_admitted t) = Some r" "task_reservation t = r" "task_key t = res_key r"
    by (rule world_inv_task)
  with settled show ?case
    by (intro world_inv_leave [where r = r and t = t])
      (auto simp: after_settle_def drop_held_def split: sum.splits)
next
  case (cancelled w xs t ys)
  from cancelled(2,1) obtain g r where "pc_nonce_guard (w_conf w) = Some g"
    "ad_reservation (t_admitted t) = Some r" "task_reservation t = r" "task_key t = res_key r"
    by (rule world_inv_task)
  with cancelled show ?case
    by (intro world_inv_leave [where r = r and t = t]) (auto simp: drop_held_def)
qed (auto intro: world_inv_arrive world_inv_turned_away world_inv_verified world_inv_settling)

lemma world_inv_start: "world_inv (from_secs (max t 1)) (max cap 1) (start_world c cap t now)"
  using guard_inv_new [of True cap t]
  by (simp add: world_inv_def start_world_def with_nonce_guard_def calls_ok_def spaced_def new_guard_def)

lemma world_inv_reachable: "reachable x w w' \<Longrightarrow> world_inv ttl cap w \<Longrightarrow> world_inv ttl cap w'"
  by (induction rule: rtranclp_induct) (auto intro: world_inv_step)

subsection \<open>Properties\<close>

text \<open>
  At any moment, whatever the interleaving, no two requests in flight carry the same
  authorization: not two in verification, nor one in the handler and one in settlement. The
  number of requests in flight is bounded by the capacity of the replay guard.
\<close>
theorem in_flight_authorizations_distinct:
  assumes "reachable x (start_world c cap t now) w"
  shows "distinct (map task_key (w_tasks w)) \<and> length (w_tasks w) \<le> max cap 1"
proof -
  from world_inv_reachable [OF assms world_inv_start] obtain g
    where g: "guard_inv True g (map task_reservation (w_tasks w))" "ng_max_capacity g = max cap 1"
    by (auto simp: world_inv_def)
  have keys: "distinct (map task_key (w_tasks w))"
    using guard_inv_distinct_keys [OF g(1)] unfolding map_map comp_def task_key_def .
  have "set (map task_key (w_tasks w)) \<subseteq> fset (fmdom (ns_entries (ng_store g)))"
    using g(1) by (auto simp: guard_inv_def current_def task_key_def fmlookup_dom_iff)
  then have "card (set (map task_key (w_tasks w))) \<le> guard_len g"
    unfolding guard_len_def map_len_def fcard.rep_eq by (intro card_mono) auto
  then have "length (w_tasks w) \<le> guard_len g"
    using distinct_card [OF keys] by simp
  also have "\<dots> \<le> max cap 1" using g by (simp add: guard_inv_def store_inv_def)
  finally show ?thesis using keys by blast
qed

text \<open>
  C5: settlement calls for one authorization are at least the guard's lifetime apart. Whatever the
  interleaving of requests, the answers of the facilitator and the handler, and the connections
  that go away, two settlement calls for the same authorization are made at times at least the
  configured lifetime apart; within one lifetime an authorization is settled at most once.
\<close>
theorem settlement_calls_spaced:
  assumes "reachable x (start_world c cap t now) w"
    and "w_settle_calls w = xs @ (k, s) # ys @ (k, s') # zs"
  shows "s + int (from_secs (max t 1)) \<le> s'"
proof -
  have "spaced (from_secs (max t 1)) (w_settle_calls w)"
    using world_inv_reachable [OF assms(1) world_inv_start] by (auto simp: world_inv_def)
  moreover have "w_settle_calls w ! length xs = (k, s)"
    "w_settle_calls w ! (length xs + Suc (length ys)) = (k, s')"
    "length xs + Suc (length ys) < length (w_settle_calls w)"
    unfolding assms(2) by (simp_all add: nth_append)
  ultimately show ?thesis
    unfolding spaced_def by (metis fst_conv less_add_Suc1 add_Suc_right snd_conv)
qed

lemma sample_start: "start_world (with_metrics (config_new ''0x11'' KITE_TESTNET ''1'' ''forecast''
    (client_new ''https://f/v2'')) new_metrics) 2 60 0
  = \<lparr>w_conf = sample_config, w_now = 0, w_tasks = [], w_settle_calls = []\<rparr>"
  by (simp add: start_world_def sample_config_def with_nonce_guard_def)

abbreviation sample_world :: world where
  "sample_world \<equiv> start_world (with_metrics (config_new ''0x11'' KITE_TESTNET ''1'' ''forecast''
    (client_new ''https://f/v2'')) new_metrics) 2 60 0"

theorem in_flight_authorizations_distinct_witness:
  "\<exists>w. reachable sample_x sample_world w \<and> map task_key (w_tasks w) = [sample_key]
     \<and> length (w_tasks w) \<le> 2"
proof -
  obtain c1 where ad: "admit sample_x (Some 0) 0 sample_config sample_request = (c1, Continue sample_admitted)"
    using sample_admit by blast
  let ?t = "\<lparr>t_phase = Verifying, t_admitted = sample_admitted\<rparr>"
  let ?w = "\<lparr>w_conf = c1, w_now = 0, w_tasks = [?t], w_settle_calls = []\<rparr>"
  have "gate_step sample_x sample_world ?w"
    unfolding sample_start
    using arrive [of sample_x "Some 0" 0 "\<lparr>w_conf = sample_config, w_now = 0, w_tasks = [], w_settle_calls = []\<rparr>"
        sample_request c1 sample_admitted] ad by simp
  then have r: "reachable sample_x sample_world ?w" by simp
  have "map task_key (w_tasks ?w) = [sample_key]"
    by (simp add: task_key_def task_reservation_def sample_admitted_def sample_reservation_def)
  with r in_flight_authorizations_distinct [OF r] show ?thesis by (intro exI [of _ ?w]) simp
qed

text \<open>One paid request from arrival to the end of its settlement.\<close>

lemma sample_admit_at:
  assumes c: "same_settings sample_config c" "pc_nonce_guard c = Some g"
    and r: "reserve_key g sample_key t = (Inr r, g')"
  shows "\<exists>c1. admit sample_x (Some 0) t c sample_request = (c1, Continue (sample_admitted\<lparr>ad_reservation := Some r\<rparr>))
     \<and> pc_nonce_guard c1 = Some g' \<and> same_settings sample_config c1"
proof -
  let ?c = "on_metrics record_request c"
  have "reserve sample_x g sample_payment t = (Inr r, g')"
    using r by (simp add: reserve_ok_iff sample_key_def)
  then have tk: "take_reservation sample_x sample_payment t ?c = (?c\<lparr>pc_nonce_guard := Some g'\<rparr>, Inr (Some r))"
    using c(2) by (simp add: take_reservation_def)
  have win: "window_error (pc_expiration_guard ?c) (Some 0) sample_payment = None"
    using same_settings_fields(4) [OF c(1)] by (simp add: window_error_def)
  have req: "requirements sample_x ?c = Some (Inr sample_terms)"
    using same_settings_fields(5) [OF c(1)] sample_requirements by simp
  have "pp_accepted sample_payment = sample_terms" by (simp add: sample_payment_def)
  then have "admit sample_x (Some 0) t c sample_request
      = (?c\<lparr>pc_nonce_guard := Some g'\<rparr>, Continue (sample_admitted\<lparr>ad_reservation := Some r\<rparr>))"
    using tk win req
    by (simp add: admit_def Let_def sample_header sample_decode sample_url sample_admitted_def)
  then show ?thesis using c(1) by (intro exI [of _ "?c\<lparr>pc_nonce_guard := Some g'\<rparr>"]) simp
qed

lemma sample_round:
  assumes w: "w_tasks w = []" "same_settings sample_config (w_conf w)" "pc_nonce_guard (w_conf w) = Some g"
    and r: "reserve_key g sample_key (w_now w) = (Inr r, g')"
  shows "\<exists>w'. reachable sample_x w w' \<and> w_tasks w' = [] \<and> same_settings sample_config (w_conf w')
     \<and> pc_nonce_guard (w_conf w') = Some (drop_reservation g' (retain_on_drop r) (w_now w))
     \<and> w_now w' = w_now w \<and> w_settle_calls w' = w_settle_calls w @ [(sample_key, w_now w)]"
proof -
  let ?a = "sample_admitted\<lparr>ad_reservation := Some r\<rparr>"
  let ?a' = "sample_admitted\<lparr>ad_reservation := Some (retain_on_drop r)\<rparr>"
  obtain c1 where c1: "admit sample_x (Some 0) (w_now w) (w_conf w) sample_request = (c1, Continue ?a)"
    "pc_nonce_guard c1 = Some g'" "same_settings sample_config c1"
    using sample_admit_at [OF w(2,3) r] by blast
  have key: "res_key (retain_on_drop r) = sample_key"
    using r by (auto simp: reserve_key_alt Let_def retain_on_drop_def split: if_splits)
  let ?c2 = "on_metrics (record_verification True) c1"
  define w1 where "w1 = w\<lparr>w_conf := c1, w_tasks := [\<lparr>t_phase = Verifying, t_admitted = ?a\<rparr>]\<rparr>"
  define w2 where "w2 = w1\<lparr>w_conf := ?c2, w_tasks := [\<lparr>t_phase = Handling, t_admitted = ?a'\<rparr>]\<rparr>"
  define w3 where "w3 = w2\<lparr>w_tasks := [\<lparr>t_phase = Settling, t_admitted = ?a'\<rparr>],
    w_settle_calls := w_settle_calls w @ [(sample_key, w_now w)]\<rparr>"
  define w4 where "w4 = w3\<lparr>w_conf := drop_held (Some (retain_on_drop r)) (w_now w) ?c2, w_tasks := []\<rparr>"
  let ?valid = "\<lparr>vr_is_valid = True, vr_invalid_reason = None, vr_invalid_message = None, vr_payer = None\<rparr>"
  have "gate_step sample_x w w1"
    using arrive [of sample_x "Some 0" "w_now w" w sample_request c1 ?a] c1(1) w(1) by (simp add: w1_def)
  moreover have "gate_step sample_x w1 w2"
    using verify_ok [of w1 "[]" _ "[]" sample_x "Inr ?valid" ?c2 ?a']
    by (simp add: w1_def w2_def after_verify_def)
  moreover have "gate_step sample_x w2 w3"
    using handler_ok [of w2 "[]" _ "[]" "sample_response 200" ?c2 "sample_response 200" sample_x] key
    by (simp add: w1_def w2_def w3_def after_handler_def task_key_def task_reservation_def)
  moreover have "gate_step sample_x w3 w4"
    using cancelled [of w3 "[]" _ "[]" sample_x] by (simp add: w1_def w2_def w3_def w4_def)
  ultimately have "reachable sample_x w w4" by (meson converse_rtranclp_into_rtranclp rtranclp.rtrancl_refl)
  then show ?thesis
    using c1 by (intro exI [of _ w4]) (simp add: w1_def w2_def w3_def w4_def drop_held_def)
qed

theorem settlement_calls_spaced_witness:
  "\<exists>w s s'. reachable sample_x sample_world w \<and> w_settle_calls w = [(sample_key, s), (sample_key, s')]
     \<and> s + 60000000000 \<le> s'"
proof -
  let ?g = "new_guard 2 60" and ?r = "\<lparr>res_key = sample_key, res_generation = 0, res_retain = False\<rparr>"
  obtain g1 where g1: "reserve_key ?g sample_key 0 = (Inr ?r, g1)" using sample_reserve by blast
  let ?g2 = "drop_reservation g1 (retain_on_drop ?r) 0"
  have w0: "w_tasks sample_world = []" "same_settings sample_config (w_conf sample_world)"
    "pc_nonce_guard (w_conf sample_world) = Some ?g" "w_now sample_world = 0" "w_settle_calls sample_world = []"
    unfolding sample_start by simp_all
  obtain w1 where w1: "reachable sample_x sample_world w1" "w_tasks w1 = []" "same_settings sample_config (w_conf w1)"
    "pc_nonce_guard (w_conf w1) = Some ?g2" "w_now w1 = 0" "w_settle_calls w1 = [(sample_key, 0)]"
    using sample_round [OF w0(1,2,3)] g1 unfolding w0 by auto
  let ?w2 = "w1\<lparr>w_now := 60000000000\<rparr>"
  have "gate_step sample_x w1 ?w2" by (rule tick) (simp add: w1)
  with w1(1) have r2: "reachable sample_x sample_world ?w2" by (rule rtranclp.rtrancl_into_rtrancl)
  have g1_value: "g1 = \<lparr>ng_max_capacity = 2, ng_ttl = 60000000000,
      ng_store = \<lparr>ns_entries = fmupd sample_key 0 fmempty, ns_expirations = []\<rparr>, ng_next_generation = 1\<rparr>"
    using g1 by (auto simp: guard_eval Let_def)
  have "\<exists>r2 g3. reserve_key ?g2 sample_key 60000000000 = (Inr r2, g3)"
    unfolding g1_value by (simp add: guard_eval Let_def map_len_drop)
  then obtain r2 g3 where "reserve_key ?g2 sample_key 60000000000 = (Inr r2, g3)" by blast
  then obtain w3 where w3: "reachable sample_x ?w2 w3"
    "w_settle_calls w3 = [(sample_key, 0), (sample_key, 60000000000)]"
    using sample_round [of ?w2 ?g2 r2 g3] w1 by auto
  have r3: "reachable sample_x sample_world w3" using r2 w3(1) by (rule rtranclp_trans)
  have "w_settle_calls w3 = [] @ (sample_key, 0) # [] @ (sample_key, 60000000000) # []" using w3(2) by simp
  from settlement_calls_spaced [OF r3 this]
  have "0 + (60000000000 :: instant) \<le> 60000000000" by (simp add: from_secs_def std_simps)
  with r3 w3(2) show ?thesis by (intro exI conjI) auto
qed

end
