(* ===== verification/Proxy.thy ===== *)
theory Proxy
  imports Text_Lib Http
begin

text \<open>
  The reverse proxy (\<open>kite-x402-axum/src/proxy.rs\<close>): path rewriting, header filtering and
  credential injection, bounded buffering of both bodies, and the redirect policy of the client
  that calls the upstream. The upstream itself is a parameter that maps the request sent to a
  connection error or to a status, headers and a stream of body chunks. The validity tests of
  package \<open>http\<close> for names, values and methods are parameters, and of a \<open>reqwest::Url\<close> the model
  keeps the three components the policy reads.
\<close>

definition HOP_BY_HOP :: "str list" where
  "HOP_BY_HOP = [''connection'', ''proxy-authenticate'', ''proxy-authorization'', ''keep-alive'',
     ''transfer-encoding'', ''te'', ''trailer'', ''upgrade'', ''host'', ''content-length'']"

definition PAYMENT_HEADERS :: "str list" where
  "PAYMENT_HEADERS = [''payment-signature'', ''x-payment'']"

definition MAX_REDIRECTS :: nat where
  "MAX_REDIRECTS = 10"

definition MAX_REQUEST_BODY_BYTES :: nat where
  "MAX_REQUEST_BODY_BYTES = 16 * 1024 * 1024"

definition MAX_RESPONSE_BODY_BYTES :: nat where
  "MAX_RESPONSE_BODY_BYTES = 16 * 1024 * 1024"

definition connection_options :: "str list \<Rightarrow> str list" where
  "connection_options values =
     filter (\<lambda>opt. opt \<noteq> []) (map (\<lambda>opt. ascii_lower (trim opt)) (concat (map (split_on CHR '','') values)))"

record upstream_config =
  uc_base_url :: str
  uc_auth_header :: str
  uc_auth_value :: str

subsection \<open>Redirects\<close>

record url =
  url_scheme :: str
  url_host :: "str option"
  url_port :: "u16 option"

definition is_same_origin_hop :: "url \<Rightarrow> url \<Rightarrow> bool" where
  "is_same_origin_hop from to \<longleftrightarrow>
     (if url_host from \<noteq> url_host to then False
      else
        let upgrade = url_scheme from = ''http'' \<and> url_scheme to = ''https'';
            same_origin = url_scheme from = url_scheme to \<and> url_port from = url_port to
        in same_origin \<or> upgrade)"

datatype redirect_action = Follow | Stop | TooManyRedirects

definition same_origin_redirect_policy :: "url list \<Rightarrow> url \<Rightarrow> redirect_action" where
  "same_origin_redirect_policy previous to =
     (if MAX_REDIRECTS \<le> length previous then TooManyRedirects
      else if previous \<noteq> [] \<and> is_same_origin_hop (last previous) to then Follow
      else Stop)"

text \<open>
  The client keeps the URLs it has requested so far, the first one included, and asks the policy
  about each redirect the upstream answers with. \<open>visit\<close> is the list of URLs it requests.
\<close>

fun visit :: "url list \<Rightarrow> url list \<Rightarrow> url list" where
  "visit previous [] = previous"
| "visit previous (to # redirects) =
     (case same_origin_redirect_policy previous to of
        Follow \<Rightarrow> visit (previous @ [to]) redirects
      | _ \<Rightarrow> previous)"

subsection \<open>Paths\<close>

definition strip_v1_prefix :: "str \<Rightarrow> str" where
  "strip_v1_prefix path_and_query =
     (case strip_prefix ''/v1'' path_and_query of
        Some rest \<Rightarrow>
          if rest = [] \<or> hd rest = CHR ''/'' \<or> hd rest = CHR ''?'' then rest else path_and_query
      | None \<Rightarrow> path_and_query)"

text \<open>\<open>str::replace\<close>: every non-overlapping occurrence, from the left.\<close>

function replace_all :: "str \<Rightarrow> str \<Rightarrow> str \<Rightarrow> str" where
  "replace_all pat rep [] = []"
| "replace_all pat rep (c # cs) =
     (case strip_prefix pat (c # cs) of
        Some rest \<Rightarrow> if pat = [] then c # cs else rep @ replace_all pat rep rest
      | None \<Rightarrow> c # replace_all pat rep cs)"
  by pat_completeness auto
termination
  by (relation "measure (\<lambda>(p, r, s). length s)") (auto dest: strip_prefix_length)

definition is_path_separator :: "char \<Rightarrow> bool" where
  "is_path_separator c \<longleftrightarrow> c = CHR ''/'' \<or> c = CHR 0x5C"

definition path_of :: "str \<Rightarrow> str" where
  "path_of path_and_query = hd (split_on CHR ''?'' path_and_query)"

definition has_dot_segment :: "str \<Rightarrow> bool" where
  "has_dot_segment path_and_query =
     list_ex (\<lambda>segment.
        let decoded = replace_all ''%2E'' ''.'' (replace_all ''%2e'' ''.'' segment)
        in decoded = ''.'' \<or> decoded = ''..'')
       (split_by is_path_separator (path_of path_and_query))"

subsection \<open>The handler\<close>

record header_checks =
  hc_name :: "str \<Rightarrow> bool"
  hc_text :: "str \<Rightarrow> bool"
  hc_value :: "str \<Rightarrow> bool"
  hc_to_str :: "str \<Rightarrow> bool"
  hc_method :: "str \<Rightarrow> bool"

record proxy_request =
  px_method :: str
  px_path_query :: "str option"
  px_nested :: bool
  px_headers :: headers
  px_body :: "str option"

record upstream_request =
  ur_method :: str
  ur_url :: str
  ur_headers :: headers
  ur_body :: str

datatype chunk = Chunk str | ChunkFailed

datatype upstream_reply =
    Unreachable str
  | UpstreamReplied nat headers "chunk list"

definition error_response :: "nat \<Rightarrow> str \<Rightarrow> response" where
  "error_response status msg = json_response status (JObj [(''error'', JStr msg)])"

text \<open>The path part of the upstream URL, and its guards.\<close>

definition forwarded_path :: "bool \<Rightarrow> str \<Rightarrow> str" where
  "forwarded_path already_stripped path_and_query =
     (let forwarded = (if already_stripped then path_and_query else strip_v1_prefix path_and_query)
      in if forwarded \<noteq> [] \<and> hd forwarded = CHR ''/'' then forwarded else CHR ''/'' # forwarded)"

text \<open>The two filter loops, \<open>drops\<close> being the names to leave out.\<close>

fun copy_headers :: "header_checks \<Rightarrow> (str \<Rightarrow> bool) \<Rightarrow> headers \<Rightarrow> headers \<Rightarrow> headers" where
  "copy_headers k drops [] out = out"
| "copy_headers k drops ((name, v) # hs) out =
     (if drops (ascii_lower name) then copy_headers k drops hs out
      else if hc_name k name \<and> hc_value k v then copy_headers k drops hs (happend name v out)
      else copy_headers k drops hs out)"

definition options_of :: "header_checks \<Rightarrow> headers \<Rightarrow> str list" where
  "options_of k hs = connection_options (filter (hc_to_str k) (hget_all ''connection'' hs))"

definition request_headers :: "header_checks \<Rightarrow> upstream_config \<Rightarrow> headers \<Rightarrow> headers" where
  "request_headers k cfg hs =
     (let request_options = options_of k hs;
          out = copy_headers k (\<lambda>lower. lower \<in> set HOP_BY_HOP \<or> lower \<in> set PAYMENT_HEADERS
                                   \<or> lower \<in> set request_options) hs []
      in if uc_auth_value cfg \<noteq> '''' \<and> hc_name k (uc_auth_header cfg) \<and> hc_text k (uc_auth_value cfg)
         then hinsert (uc_auth_header cfg) (uc_auth_value cfg) out
         else out)"

definition response_headers :: "header_checks \<Rightarrow> headers \<Rightarrow> headers" where
  "response_headers k hs =
     (let response_options = options_of k hs
      in copy_headers k (\<lambda>lower. lower \<in> set HOP_BY_HOP \<or> lower \<in> set response_options) hs [])"

datatype body_read = Complete str | TooLarge | Incomplete

fun read_chunks :: "str \<Rightarrow> chunk list \<Rightarrow> body_read" where
  "read_chunks acc [] = Complete acc"
| "read_chunks acc (Chunk c # cs) =
     (if length c \<le> MAX_RESPONSE_BODY_BYTES - length acc then read_chunks (acc @ c) cs else TooLarge)"
| "read_chunks acc (ChunkFailed # cs) = Incomplete"

definition build_request :: "header_checks \<Rightarrow> upstream_config \<Rightarrow> proxy_request \<Rightarrow> response + upstream_request" where
  "build_request k cfg req =
     (let path_and_query = (case px_path_query req of Some pq \<Rightarrow> pq | None \<Rightarrow> ''/'')
      in if has_dot_segment path_and_query then Inl (error_response 400 ''invalid request path'')
         else
           let url = uc_base_url cfg @ forwarded_path (px_nested req) path_and_query
           in case px_body req of
                Some bytes \<Rightarrow>
                  if length bytes \<le> MAX_REQUEST_BODY_BYTES
                  then Inr \<lparr>ur_method = (if hc_method k (px_method req) then px_method req else ''GET''),
                            ur_url = url, ur_headers = request_headers k cfg (px_headers req), ur_body = bytes\<rparr>
                  else Inl (error_response 413 ''request body too large to proxy'')
              | None \<Rightarrow> Inl (error_response 413 ''request body too large to proxy''))"

definition relay_reply :: "header_checks \<Rightarrow> upstream_reply \<Rightarrow> response" where
  "relay_reply k reply =
     (case reply of
        Unreachable detail \<Rightarrow>
          json_response 502 (JObj [(''detail'', JStr detail), (''error'', JStr ''upstream unreachable'')])
      | UpstreamReplied status hs chunks \<Rightarrow>
          (let status = (if 100 \<le> status \<and> status < 1000 then status else 502)
           in case read_chunks [] chunks of
                Complete bytes \<Rightarrow>
                  \<lparr>resp_status = status, resp_headers = response_headers k hs, resp_body = BytesBody bytes\<rparr>
              | TooLarge \<Rightarrow> error_response 502 ''upstream response too large''
              | Incomplete \<Rightarrow> error_response 502 ''upstream response incomplete''))"

definition proxy :: "header_checks \<Rightarrow> upstream_config \<Rightarrow> (upstream_request \<Rightarrow> upstream_reply)
    \<Rightarrow> proxy_request \<Rightarrow> response" where
  "proxy k cfg upstream req =
     (case build_request k cfg req of
        Inl resp \<Rightarrow> resp
      | Inr out \<Rightarrow> relay_reply k (upstream out))"

subsection \<open>Properties\<close>

text \<open>The two replacement passes decode every encoded dot, in either letter case.\<close>

fun decode_dots :: "str \<Rightarrow> str" where
  "decode_dots (c # d # e # r) =
     (if c = CHR ''%'' \<and> d = CHR ''2'' \<and> (e = CHR ''e'' \<or> e = CHR ''E'') then CHR ''.'' # decode_dots r
      else c # decode_dots (d # e # r))"
| "decode_dots s = s"

abbreviation decode_pass :: "char \<Rightarrow> str \<Rightarrow> str" where
  "decode_pass x \<equiv> replace_all [CHR ''%'', CHR ''2'', x] ''.''"

declare replace_all.simps [simp del]

lemma decode_pass_Nil: "decode_pass x [] = []"
  by (simp add: replace_all.simps)

lemma decode_pass_skip: "strip_prefix [CHR ''%'', CHR ''2'', x] (c # cs) = None \<Longrightarrow> decode_pass x (c # cs) = c # decode_pass x cs"
  by (subst replace_all.simps) simp

lemma decode_pass_hit: "decode_pass x (CHR ''%'' # CHR ''2'' # x # cs) = CHR ''.'' # decode_pass x cs"
  by (subst replace_all.simps) simp

lemma decode_pass_simps:
  "decode_pass x [] = []" "decode_pass x [c] = [c]" "decode_pass x [c, d] = [c, d]"
  "c \<noteq> CHR ''%'' \<Longrightarrow> decode_pass x (c # cs) = c # decode_pass x cs"
  "d \<noteq> CHR ''2'' \<Longrightarrow> decode_pass x (c # d # cs) = c # decode_pass x (d # cs)"
  "e \<noteq> x \<Longrightarrow> decode_pass x (c # d # e # cs) = c # decode_pass x (d # e # cs)"
  "decode_pass x (CHR ''%'' # CHR ''2'' # x # cs) = CHR ''.'' # decode_pass x cs"
  by (simp_all add: decode_pass_Nil decode_pass_skip decode_pass_hit)

lemma decode_pass_dot_or_same:
  "\<exists>d' r'. decode_pass x (d # r) = d' # r' \<and> (d' = d \<or> d' = CHR ''.'')"
  by (subst replace_all.simps) (auto split: option.splits)

lemma two_passes_decode: "decode_pass CHR ''E'' (decode_pass CHR ''e'' s) = decode_dots s"
proof (induction s rule: decode_dots.induct)
  case (1 c d e r)
  show ?case
  proof (cases "c = CHR ''%'' \<and> d = CHR ''2''")
    case True
    consider "e = CHR ''e''" | "e = CHR ''E''" | "e \<noteq> CHR ''e''" "e \<noteq> CHR ''E''" by blast
    then show ?thesis
    proof cases
      case 1
      with True \<open>_ \<Longrightarrow> decode_pass CHR ''E'' (decode_pass CHR ''e'' r) = decode_dots r\<close> show ?thesis
        by (simp add: decode_pass_simps)
    next
      case 2
      with True \<open>_ \<Longrightarrow> decode_pass CHR ''E'' (decode_pass CHR ''e'' r) = decode_dots r\<close> show ?thesis
        by (simp add: decode_pass_simps)
    next
      case 3
      obtain e' r' where er: "decode_pass CHR ''e'' (e # r) = e' # r'" "e' = e \<or> e' = CHR ''.''"
        using decode_pass_dot_or_same by blast
      have "e' \<noteq> CHR ''E''" using er(2) 3 by auto
      with 3 True \<open>_ \<Longrightarrow> decode_pass CHR ''E'' (decode_pass CHR ''e'' (d # e # r)) = decode_dots (d # e # r)\<close>
      show ?thesis by (simp add: decode_pass_simps er)
    qed
  next
    case False
    obtain d' r' where dr: "decode_pass CHR ''e'' (d # e # r) = d' # r'" "d' = d \<or> d' = CHR ''.''"
      using decode_pass_dot_or_same by blast
    have "decode_pass CHR ''e'' (c # d # e # r) = c # d' # r'"
      using False dr(1) by (cases "c = CHR ''%''") (simp_all add: decode_pass_simps)
    moreover have "decode_pass CHR ''E'' (c # d' # r') = c # decode_pass CHR ''E'' (d' # r')"
      using False dr(2) by (cases "c = CHR ''%''") (auto simp: decode_pass_simps)
    ultimately show ?thesis using False 1(2) dr(1) by auto
  qed
qed (simp_all add: decode_pass_simps)

text \<open>
  The dot-segment guard sees through encoding. A path is refused exactly when, after decoding
  \<open>%2e\<close> and \<open>%2E\<close> in its part before the query, some segment between slashes or backslashes is
  \<open>.\<close> or \<open>..\<close>.
\<close>
theorem has_dot_segment_iff:
  "has_dot_segment path_and_query \<longleftrightarrow>
     (\<exists>segment \<in> set (split_by is_path_separator (path_of path_and_query)).
        decode_dots segment \<in> {''.'', ''..''})"
  by (auto simp: has_dot_segment_def list_ex_iff Let_def two_passes_decode)

text \<open>
  C25: what is sent to the upstream stays under its base. When a request is forwarded at all, its
  URL is the configured base followed by a path that starts with a slash; the incoming path has no
  dot segment; the path is the incoming one, without one leading \<open>/v1\<close> segment unless the router
  has already removed it; and the body is the client's, within the limit.
\<close>
theorem forwarded_request:
  assumes "build_request k cfg req = Inr out"
  shows "\<exists>pq rest. pq = (case px_path_query req of Some p \<Rightarrow> p | None \<Rightarrow> ''/'')
     \<and> \<not> has_dot_segment pq
     \<and> ur_url out = uc_base_url cfg @ CHR ''/'' # rest
     \<and> (px_nested req \<longrightarrow> CHR ''/'' # rest = pq \<or> rest = pq)
     \<and> (\<not> px_nested req \<and> (pq = ''/v1'' \<or> starts_with pq ''/v1/'' \<or> starts_with pq ''/v1?'') \<longrightarrow>
          pq = ''/v1'' @ rest \<or> pq = ''/v1'' @ CHR ''/'' # rest)
     \<and> (\<not> px_nested req \<and> \<not> (pq = ''/v1'' \<or> starts_with pq ''/v1/'' \<or> starts_with pq ''/v1?'') \<longrightarrow>
          pq = CHR ''/'' # rest \<or> pq = rest)
     \<and> px_body req = Some (ur_body out) \<and> length (ur_body out) \<le> MAX_REQUEST_BODY_BYTES"
proof -
  define pq where "pq = (case px_path_query req of Some p \<Rightarrow> p | None \<Rightarrow> ''/'')"
  have sent: "\<not> has_dot_segment pq" "px_body req = Some (ur_body out)"
      "length (ur_body out) \<le> MAX_REQUEST_BODY_BYTES"
      "ur_url out = uc_base_url cfg @ forwarded_path (px_nested req) pq"
    using assms by (auto simp: build_request_def pq_def Let_def split: if_splits option.splits)
  obtain rest where rest: "forwarded_path (px_nested req) pq = CHR ''/'' # rest"
    unfolding forwarded_path_def Let_def by (metis list.collapse)
  let ?v1 = "pq = ''/v1'' \<or> starts_with pq ''/v1/'' \<or> starts_with pq ''/v1?''"
  have strip: "strip_v1_prefix pq = (if ?v1 then drop 3 pq else pq)"
    by (auto simp: strip_v1_prefix_def starts_with_iff split: option.splits)
      (auto simp: strip_prefix_Some neq_Nil_conv)
  have "px_nested req \<longrightarrow> CHR ''/'' # rest = pq \<or> rest = pq"
    using rest by (auto simp: forwarded_path_def Let_def split: if_splits)
  moreover have "\<not> px_nested req \<and> \<not> ?v1 \<longrightarrow> pq = CHR ''/'' # rest \<or> pq = rest"
    using rest by (auto simp: forwarded_path_def Let_def strip split: if_splits)
  moreover have "\<not> px_nested req \<and> ?v1 \<longrightarrow> pq = ''/v1'' @ rest \<or> pq = ''/v1'' @ CHR ''/'' # rest"
    using rest by (auto simp: forwarded_path_def Let_def strip starts_with_iff split: if_splits)
  ultimately show ?thesis using sent rest unfolding pq_def by (intro exI [of _ pq] exI [of _ rest]) (simp add: pq_def)
qed

lemma hget_all_copy:
  "hget_all n (copy_headers k drops hs out) = hget_all n out @
     (if drops (ascii_lower n) then []
      else map snd (filter (\<lambda>(m, v). ascii_lower m = ascii_lower n \<and> hc_name k m \<and> hc_value k v) hs))"
  by (induction k drops hs out rule: copy_headers.induct) (auto simp: hm.get_all_append)

text \<open>A header block as package \<open>http\<close> delivers it: valid lower-case names, valid values.\<close>

definition delivered :: "header_checks \<Rightarrow> headers \<Rightarrow> bool" where
  "delivered k hs \<longleftrightarrow> (\<forall>(m, v) \<in> set hs. hc_name k m \<and> hc_value k v \<and> ascii_lower m = m)"

lemma hget_all_copy_delivered:
  assumes "delivered k hs"
  shows "hget_all n (copy_headers k drops hs []) = (if drops (ascii_lower n) then [] else hget_all n hs)"
proof -
  have eq: "filter (\<lambda>(m, v). ascii_lower m = ascii_lower n \<and> hc_name k m \<and> hc_value k v) hs
      = filter (\<lambda>(m, v). m = ascii_lower n) hs"
    using assms by (intro filter_cong) (auto simp: delivered_def)
  show ?thesis unfolding hget_all_copy eq by (simp add: hget_all_def)
qed

text \<open>
  C20: which headers reach the upstream. The injected credential replaces whatever the client sent
  under that name; no payment header, no hop-by-hop header and no header the client's
  \<open>Connection\<close> fields name is forwarded; every other header is forwarded with all its values in
  order.
\<close>
theorem upstream_request_headers:
  assumes "delivered k hs"
  shows "hget_all n (request_headers k cfg hs) =
     (if uc_auth_value cfg \<noteq> '''' \<and> hc_name k (uc_auth_header cfg) \<and> hc_text k (uc_auth_value cfg)
         \<and> ascii_lower n = ascii_lower (uc_auth_header cfg)
      then [uc_auth_value cfg]
      else if ascii_lower n \<in> set HOP_BY_HOP \<union> set PAYMENT_HEADERS \<union> set (options_of k hs) then []
      else hget_all n hs)"
  using hget_all_copy_delivered [OF assms, of n]
  by (simp add: request_headers_def Let_def hm.get_all_insert)

theorem upstream_request_headers_witness:
  "let k = \<lparr>hc_name = \<lambda>_. True, hc_text = \<lambda>_. True, hc_value = \<lambda>_. True, hc_to_str = \<lambda>_. True, hc_method = \<lambda>_. True\<rparr>;
       out = request_headers k \<lparr>uc_base_url = ''https://u'', uc_auth_header = ''x-key'', uc_auth_value = ''s''\<rparr>
               [(''x-key'', ''mine''), (''payment-signature'', ''p''), (''accept'', ''a''), (''accept'', ''b'')]
   in hget_all ''x-key'' out = [''s''] \<and> hget_all ''payment-signature'' out = [] \<and> hget_all ''accept'' out = [''a'', ''b'']"
proof -
  let ?k = "\<lparr>hc_name = \<lambda>_. True, hc_text = \<lambda>_. True, hc_value = \<lambda>_. True, hc_to_str = \<lambda>_. True, hc_method = \<lambda>_. True\<rparr>"
  let ?hs = "[(''x-key'', ''mine''), (''payment-signature'', ''p''), (''accept'', ''a''), (''accept'', ''b'')]"
  have "delivered ?k ?hs" by (simp add: delivered_def text_eval)
  note eq = upstream_request_headers [OF this]
  show ?thesis
    unfolding Let_def eq by (simp add: text_eval HOP_BY_HOP_def PAYMENT_HEADERS_def options_of_def connection_options_def hget_all_def)
qed

text \<open>
  C26: a redirect never takes the injected credential elsewhere. Whatever redirects the upstream
  answers with, the URLs requested form a prefix of that chain; all have the host of the first;
  each keeps its scheme and port or is \<open>https\<close> where the first was \<open>http\<close>; and at most ten URLs
  are requested, so at most nine redirects are followed.
\<close>
theorem redirects_stay_home:
  "\<exists>n. visit [u] redirects = u # take n redirects \<and> length (visit [u] redirects) \<le> 10
     \<and> (\<forall>v \<in> set (visit [u] redirects). url_host v = url_host u
          \<and> ((url_scheme v = url_scheme u \<and> url_port v = url_port u)
             \<or> (url_scheme u = ''http'' \<and> url_scheme v = ''https'')))"
proof -
  let ?home = "\<lambda>v. url_host v = url_host u
     \<and> ((url_scheme v = url_scheme u \<and> url_port v = url_port u) \<or> (url_scheme u = ''http'' \<and> url_scheme v = ''https''))"
  have "previous \<noteq> [] \<Longrightarrow> length previous \<le> 10 \<Longrightarrow> \<forall>v \<in> set previous. ?home v \<Longrightarrow>
      (\<exists>n. visit previous rs = previous @ take n rs) \<and> length (visit previous rs) \<le> 10
      \<and> (\<forall>v \<in> set (visit previous rs). ?home v)" for previous rs
  proof (induction previous rs rule: visit.induct)
    case (2 previous to rs)
    show ?case
    proof (cases "same_origin_redirect_policy previous to")
      case Follow
      then have hop: "length previous < 10" "is_same_origin_hop (last previous) to"
        by (auto simp: same_origin_redirect_policy_def MAX_REDIRECTS_def split: if_splits)
      have "?home (last previous)" using 2 by simp
      with hop(2) have "?home to" by (auto simp: is_same_origin_hop_def Let_def split: if_splits)
      with 2 Follow hop(1) have IH: "(\<exists>n. visit (previous @ [to]) rs = (previous @ [to]) @ take n rs)
          \<and> length (visit (previous @ [to]) rs) \<le> 10 \<and> (\<forall>v \<in> set (visit (previous @ [to]) rs). ?home v)"
        by simp
      then obtain n where "visit (previous @ [to]) rs = previous @ take (Suc n) (to # rs)" by auto
      with IH Follow show ?thesis by (simp del: take_Suc_Cons) blast
    qed (use 2 in \<open>auto intro: exI [of _ 0]\<close>)
  qed auto
  from this [of "[u]" redirects] show ?thesis by auto
qed

lemma proxy_success:
  assumes "resp_status (proxy k cfg upstream req) < 400"
  shows "\<exists>out hs cs. build_request k cfg req = Inr out
     \<and> upstream out = UpstreamReplied (resp_status (proxy k cfg upstream req)) hs (map Chunk cs)
     \<and> resp_body (proxy k cfg upstream req) = BytesBody (concat cs)
     \<and> length (concat cs) \<le> MAX_RESPONSE_BODY_BYTES
     \<and> resp_headers (proxy k cfg upstream req) = response_headers k hs"
proof -
  have chunks: "length acc \<le> MAX_RESPONSE_BODY_BYTES \<Longrightarrow> read_chunks acc cs = Complete b \<Longrightarrow>
      \<exists>bs. cs = map Chunk bs \<and> b = acc @ concat bs \<and> length b \<le> MAX_RESPONSE_BODY_BYTES" for acc cs b
  proof (induction acc cs rule: read_chunks.induct)
    case (2 acc c cs)
    then have "length (acc @ c) \<le> MAX_RESPONSE_BODY_BYTES" by (simp split: if_splits)
    with 2 obtain bs where "cs = map Chunk bs" "b = (acc @ c) @ concat bs" "length b \<le> MAX_RESPONSE_BODY_BYTES"
      by (auto split: if_splits)
    then show ?case by (intro exI [of _ "c # bs"]) simp
  qed auto
  have refused: "400 \<le> resp_status resp" if "build_request k cfg req = Inl resp" for resp
    using that by (auto simp: build_request_def Let_def error_response_def split: if_splits option.splits)
  from assms obtain out where out: "build_request k cfg req = Inr out"
    using refused by (cases "build_request k cfg req") (force simp: proxy_def)+
  with assms have low: "resp_status (relay_reply k (upstream out)) < 400" by (simp add: proxy_def)
  obtain status hs cs where reply: "upstream out = UpstreamReplied status hs cs"
    using low by (cases "upstream out") (auto simp: relay_reply_def)
  with low obtain b where b: "read_chunks [] cs = Complete b"
    by (cases "read_chunks [] cs") (auto simp: relay_reply_def error_response_def Let_def)
  from chunks [OF _ b] obtain bs where "cs = map Chunk bs" "b = concat bs" "length b \<le> MAX_RESPONSE_BODY_BYTES"
    by auto
  moreover have "proxy k cfg upstream req
      = \<lparr>resp_status = status, resp_headers = response_headers k hs, resp_body = BytesBody b\<rparr>"
    using low by (auto simp: proxy_def out reply relay_reply_def b Let_def split: if_splits)
  ultimately show ?thesis
    using reply out by (intro exI [of _ out] exI [of _ hs] exI [of _ bs]) simp
qed

text \<open>
  The buyer only pays for a complete response. If the proxy answers below 400, the request was
  forwarded, the upstream answered with that very status and every chunk of its body arrived; the
  body is their concatenation, within the limit, and the headers are the upstream's without the
  hop-by-hop ones. Any interruption or excess becomes a 502.
\<close>
theorem proxied_success_is_complete:
  assumes "resp_status (proxy k cfg upstream req) < 400"
  shows "\<exists>out hs cs. build_request k cfg req = Inr out
     \<and> upstream out = UpstreamReplied (resp_status (proxy k cfg upstream req)) hs (map Chunk cs)
     \<and> resp_body (proxy k cfg upstream req) = BytesBody (concat cs)
     \<and> length (concat cs) \<le> MAX_RESPONSE_BODY_BYTES
     \<and> resp_headers (proxy k cfg upstream req) = response_headers k hs"
  using assms by (rule proxy_success)

definition sample_checks :: header_checks where
  "sample_checks = \<lparr>hc_name = \<lambda>_. True, hc_text = \<lambda>_. True, hc_value = \<lambda>_. True, hc_to_str = \<lambda>_. True,
     hc_method = \<lambda>_. True\<rparr>"

definition sample_upstream :: upstream_config where
  "sample_upstream = \<lparr>uc_base_url = ''https://u'', uc_auth_header = ''x-key'', uc_auth_value = ''s''\<rparr>"

definition sample_call :: proxy_request where
  "sample_call = \<lparr>px_method = ''GET'', px_path_query = Some ''/v1/a?b'', px_nested = False, px_headers = [],
     px_body = Some ''''\<rparr>"

lemmas sample_build =
  build_request_def sample_call_def sample_upstream_def sample_checks_def has_dot_segment_def path_of_def
  split_on_def replace_all.simps forwarded_path_def strip_v1_prefix_def is_path_separator_def MAX_REQUEST_BODY_BYTES_def

theorem forwarded_request_witness:
  "\<exists>out. build_request sample_checks sample_upstream sample_call = Inr out
     \<and> \<not> has_dot_segment ''/v1/a?b'' \<and> ur_url out = ''https://u/a?b''"
proof -
  obtain out where out: "build_request sample_checks sample_upstream sample_call = Inr out"
    and u: "ur_url out = ''https://u/a?b''"
    by (simp add: sample_build)
  from forwarded_request [OF out] have "\<not> has_dot_segment ''/v1/a?b''" by (auto simp: sample_call_def)
  with out u show ?thesis by blast
qed

theorem proxied_success_is_complete_witness:
  "let r = proxy sample_checks sample_upstream (\<lambda>_. UpstreamReplied 200 [] [Chunk ''ab'', Chunk ''c'']) sample_call
   in resp_status r = 200 \<and> resp_body r = BytesBody ''abc''"
proof -
  let ?up = "\<lambda>_. UpstreamReplied 200 [] [Chunk ''ab'', Chunk ''c'']"
  let ?r = "proxy sample_checks sample_upstream ?up sample_call"
  have "resp_status ?r = 200"
    by (simp add: proxy_def sample_build relay_reply_def Let_def MAX_RESPONSE_BODY_BYTES_def)
  moreover from this have "resp_status ?r < 400" by simp
  from proxied_success_is_complete [OF this]
  have "resp_body ?r = BytesBody ''abc''" by auto
  ultimately show ?thesis by (simp add: Let_def)
qed

theorem redirects_stay_home_witness:
  "let u = \<lparr>url_scheme = ''http'', url_host = Some ''u'', url_port = Some 80\<rparr>;
       v = \<lparr>url_scheme = ''https'', url_host = Some ''u'', url_port = Some 443\<rparr>
   in visit [u] [v, v\<lparr>url_host := Some ''evil''\<rparr>] = [u, v] \<and> url_host v = url_host u"
proof -
  let ?u = "\<lparr>url_scheme = ''http'', url_host = Some ''u'', url_port = Some 80\<rparr>"
  let ?v = "\<lparr>url_scheme = ''https'', url_host = Some ''u'', url_port = Some 443\<rparr>"
  have run: "visit [?u] [?v, ?v\<lparr>url_host := Some ''evil''\<rparr>] = [?u, ?v]"
    by (simp add: same_origin_redirect_policy_def is_same_origin_hop_def MAX_REDIRECTS_def)
  from redirects_stay_home [of ?u "[?v, ?v\<lparr>url_host := Some ''evil''\<rparr>]"]
  have "\<forall>v \<in> set [?u, ?v]. url_host v = url_host ?u" unfolding run by blast
  then have "url_host ?v = url_host ?u" by (rule bspec) simp
  with run show ?thesis unfolding Let_def by (rule conjI)
qed

end
