(* ===== verification/CircuitBreaker.thy ===== *)
theory CircuitBreaker
  imports Text_Lib
begin

text \<open>
  The circuit breaker (\<open>kite-x402-axum/src/circuit_breaker.rs\<close>). Every operation holds the mutex,
  so it is one function of the state; the clock readings it makes are arguments (\<open>state\<close> reads
  the clock twice). The counters keep their widths and wrap as in a release build.

  The lemmas show the transition diagram, that an open breaker rejects everything until its
  timeout, and what trips and closes it.
\<close>

datatype circuit_state = Closed | Open | HalfOpen

record breaker_config =
  cb_failure_threshold :: u32
  cb_recovery_timeout :: duration
  cb_half_open_success_threshold :: u32

definition default_breaker_config :: breaker_config where
  "default_breaker_config = \<lparr>cb_failure_threshold = 5, cb_recovery_timeout = from_secs 30,
     cb_half_open_success_threshold = 2\<rparr>"

record breaker =
  br_config :: breaker_config
  br_state :: circuit_state
  br_consecutive_failures :: u32
  br_consecutive_successes :: u32
  br_last_state_change :: instant
  br_total_rejected :: u64
  br_total_trips :: u64

record breaker_snapshot =
  bs_state :: circuit_state
  bs_consecutive_failures :: u32
  bs_consecutive_successes :: u32
  bs_total_rejected :: u64
  bs_total_trips :: u64

datatype breaker_error = CircuitOpen u64

fun breaker_error_message :: "breaker_error \<Rightarrow> str" where
  "breaker_error_message (CircuitOpen retry_after_secs) =
     ''facilitator circuit breaker is open (cooling down for '' @ show_nat (unat retry_after_secs) @ ''s)''"

definition breaker_with_config :: "breaker_config \<Rightarrow> instant \<Rightarrow> breaker" where
  "breaker_with_config cfg now = \<lparr>br_config = cfg, br_state = Closed, br_consecutive_failures = 0,
     br_consecutive_successes = 0, br_last_state_change = now, br_total_rejected = 0, br_total_trips = 0\<rparr>"

definition breaker_new :: "instant \<Rightarrow> breaker" where
  "breaker_new now = breaker_with_config default_breaker_config now"

definition to_half_open :: "instant \<Rightarrow> breaker \<Rightarrow> breaker" where
  "to_half_open now b = b\<lparr>br_state := HalfOpen, br_consecutive_successes := 0, br_last_state_change := now\<rparr>"

definition can_execute :: "instant \<Rightarrow> breaker \<Rightarrow> (breaker_error + unit) \<times> breaker" where
  "can_execute now b =
     (case br_state b of
        Open \<Rightarrow>
          (let elapsed = duration_since now (br_last_state_change b)
           in if cb_recovery_timeout (br_config b) \<le> elapsed then (Inr (), to_half_open now b)
              else
                let remaining = cb_recovery_timeout (br_config b) - elapsed
                in (Inl (CircuitOpen (max (as_secs remaining) 1)),
                    b\<lparr>br_total_rejected := br_total_rejected b + 1\<rparr>))
      | _ \<Rightarrow> (Inr (), b))"

definition record_success :: "instant \<Rightarrow> breaker \<Rightarrow> breaker" where
  "record_success now b =
     (let b = b\<lparr>br_consecutive_failures := 0\<rparr>
      in if br_state b = HalfOpen then
           let b = b\<lparr>br_consecutive_successes := br_consecutive_successes b + 1\<rparr>
           in if cb_half_open_success_threshold (br_config b) \<le> br_consecutive_successes b
              then b\<lparr>br_state := Closed, br_consecutive_successes := 0, br_last_state_change := now\<rparr>
              else b
         else b)"

definition record_failure :: "instant \<Rightarrow> breaker \<Rightarrow> breaker" where
  "record_failure now b =
     (let b = b\<lparr>br_consecutive_failures := br_consecutive_failures b + 1, br_consecutive_successes := 0\<rparr>;
          trip = b\<lparr>br_state := Open, br_total_trips := br_total_trips b + 1, br_last_state_change := now\<rparr>
      in case br_state b of
           Closed \<Rightarrow> if cb_failure_threshold (br_config b) \<le> br_consecutive_failures b then trip else b
         | HalfOpen \<Rightarrow> trip
         | Open \<Rightarrow> b)"

definition current_state :: "instant \<Rightarrow> instant \<Rightarrow> breaker \<Rightarrow> circuit_state \<times> breaker" where
  "current_state now now' b =
     (let b = (if br_state b = Open
                  \<and> cb_recovery_timeout (br_config b) \<le> duration_since now (br_last_state_change b)
               then to_half_open now' b else b)
      in (br_state b, b))"

definition breaker_snapshot_of :: "breaker \<Rightarrow> breaker_snapshot" where
  "breaker_snapshot_of b = \<lparr>bs_state = br_state b, bs_consecutive_failures = br_consecutive_failures b,
     bs_consecutive_successes = br_consecutive_successes b, bs_total_rejected = br_total_rejected b,
     bs_total_trips = br_total_trips b\<rparr>"

subsection \<open>The breaker as a state machine\<close>

datatype breaker_event = EvCan instant | EvSuccess instant | EvFailure instant | EvState instant instant

inductive breaker_step :: "breaker \<Rightarrow> breaker_event \<Rightarrow> breaker \<Rightarrow> bool" where
  can: "can_execute now b = (r, b') \<Longrightarrow> breaker_step b (EvCan now) b'"
| success: "breaker_step b (EvSuccess now) (record_success now b)"
| failure: "breaker_step b (EvFailure now) (record_failure now b)"
| observe: "current_state now now' b = (s, b') \<Longrightarrow> breaker_step b (EvState now now') b'"

inductive_cases breaker_stepE: "breaker_step b e b'"

inductive breaker_steps :: "breaker \<Rightarrow> breaker_event list \<Rightarrow> breaker \<Rightarrow> bool" where
  stop: "breaker_steps b [] b"
| step: "breaker_step b e b' \<Longrightarrow> breaker_steps b' es b'' \<Longrightarrow> breaker_steps b (e # es) b''"

inductive_simps breaker_steps_Nil [simp]: "breaker_steps b [] b'"
inductive_simps breaker_steps_Cons: "breaker_steps b (e # es) b'"

lemmas breaker_defs =
  can_execute_def record_success_def record_failure_def current_state_def to_half_open_def Let_def

lemma step_config: "breaker_step b e b' \<Longrightarrow> br_config b' = br_config b"
  by (erule breaker_stepE) (auto simp: breaker_defs split: circuit_state.splits if_splits)

text \<open>
  The transition diagram. A step changes the state of the breaker in four ways only: a failure
  trips it from closed when the consecutive failures reach the threshold; a check or a look at it
  moves it from open to half-open once the recovery timeout has passed; a failure trips it again
  from half-open; and a success closes it from half-open when the consecutive successes reach
  their threshold. Trips are counted, one each.
\<close>
theorem breaker_transitions:
  assumes "breaker_step b e b'"
  shows "br_state b' = br_state b \<and> br_total_trips b' = br_total_trips b
   \<or> (br_state b = Closed \<and> br_state b' = Open \<and> (\<exists>now. e = EvFailure now)
        \<and> cb_failure_threshold (br_config b) \<le> br_consecutive_failures b + 1
        \<and> br_total_trips b' = br_total_trips b + 1)
   \<or> (br_state b = Open \<and> br_state b' = HalfOpen
        \<and> (\<exists>now. (e = EvCan now \<or> (\<exists>now'. e = EvState now now'))
             \<and> cb_recovery_timeout (br_config b) \<le> duration_since now (br_last_state_change b))
        \<and> br_consecutive_successes b' = 0 \<and> br_total_trips b' = br_total_trips b)
   \<or> (br_state b = HalfOpen \<and> br_state b' = Open \<and> (\<exists>now. e = EvFailure now)
        \<and> br_total_trips b' = br_total_trips b + 1)
   \<or> (br_state b = HalfOpen \<and> br_state b' = Closed \<and> (\<exists>now. e = EvSuccess now)
        \<and> cb_half_open_success_threshold (br_config b) \<le> br_consecutive_successes b + 1
        \<and> br_consecutive_failures b' = 0 \<and> br_total_trips b' = br_total_trips b)"
  using assms
  by cases (auto simp: breaker_defs split: circuit_state.splits if_splits)

fun reads_before :: "instant \<Rightarrow> breaker_event \<Rightarrow> bool" where
  "reads_before t (EvCan now) \<longleftrightarrow> now < t"
| "reads_before t (EvState now _) \<longleftrightarrow> now < t"
| "reads_before t _ \<longleftrightarrow> True"

lemma open_step:
  assumes "breaker_step b e b'" "br_state b = Open"
    and "reads_before (br_last_state_change b + int (cb_recovery_timeout (br_config b))) e"
    and "0 < cb_recovery_timeout (br_config b)"
  shows "br_state b' = Open" "br_last_state_change b' = br_last_state_change b"
  using assms
  by (induction rule: breaker_step.induct)
    (auto simp: breaker_defs duration_since_def split: circuit_state.splits if_splits)

lemma open_steps:
  "breaker_steps b es b' \<Longrightarrow> br_state b = Open \<Longrightarrow> 0 < cb_recovery_timeout (br_config b) \<Longrightarrow>
   \<forall>e \<in> set es. reads_before (br_last_state_change b + int (cb_recovery_timeout (br_config b))) e \<Longrightarrow>
   br_state b' = Open \<and> br_last_state_change b' = br_last_state_change b \<and> br_config b' = br_config b"
proof (induction rule: breaker_steps.induct)
  case (step b e b' es b'')
  from open_step [OF step.hyps(1)] step.prems step_config [OF step.hyps(1)] step.IH
  show ?case by simp
qed simp

text \<open>
  An open breaker fails fast. From the moment it trips and until its recovery timeout has
  passed on every clock reading made, whatever is recorded meanwhile, it stays open and every
  check is rejected, telling the caller to wait at least a second and no longer than the timeout
  rounded down to seconds (or one second).
\<close>
theorem open_breaker_rejects:
  assumes "br_state b = Open" "0 < cb_recovery_timeout (br_config b)"
    and "breaker_steps b es b'"
    and "\<forall>e \<in> set es. reads_before (br_last_state_change b + int (cb_recovery_timeout (br_config b))) e"
    and "now < br_last_state_change b + int (cb_recovery_timeout (br_config b))"
  shows "br_state b' = Open \<and> (\<exists>r. fst (can_execute now b') = Inl (CircuitOpen r) \<and> 1 \<le> r
     \<and> r = max 1 (as_secs (cb_recovery_timeout (br_config b) - duration_since now (br_last_state_change b))))"
proof -
  from open_steps [OF assms(3,1,2,4)] have s: "br_state b' = Open"
    "br_last_state_change b' = br_last_state_change b" "br_config b' = br_config b" by auto
  have "\<not> cb_recovery_timeout (br_config b) \<le> duration_since now (br_last_state_change b)"
    using assms(2,5) by (auto simp: duration_since_def)
  then show ?thesis using s by (simp add: can_execute_def Let_def max.commute)
qed

text \<open>A row of failures and a row of successes, at any times.\<close>

fun failures :: "instant list \<Rightarrow> breaker \<Rightarrow> breaker" where
  "failures [] b = b"
| "failures (t # ts) b = failures ts (record_failure t b)"

fun successes :: "instant list \<Rightarrow> breaker \<Rightarrow> breaker" where
  "successes [] b = b"
| "successes (t # ts) b = successes ts (record_success t b)"

lemma failures_open: "br_state b = Open \<Longrightarrow> br_state (failures ts b) = Open"
  by (induction ts b rule: failures.induct) (auto simp: breaker_defs)

lemma failures_closed:
  "br_state b = Closed \<Longrightarrow> unat (br_consecutive_failures b) < max 1 (unat (cb_failure_threshold (br_config b))) \<Longrightarrow>
   br_state (failures ts b) =
     (if max 1 (unat (cb_failure_threshold (br_config b))) \<le> unat (br_consecutive_failures b) + length ts
      then Open else Closed)"
proof (induction ts b rule: failures.induct)
  case (2 t ts b)
  let ?n = "unat (br_consecutive_failures b)" and ?m = "unat (cb_failure_threshold (br_config b))"
  have "?n < 2 ^ 32 - 1" using 2(3) unat_le_word_max [of "cb_failure_threshold (br_config b)"] by simp
  then have inc: "unat (br_consecutive_failures b + 1) = Suc ?n"
    by (simp add: unat_word_ariths)
  show ?case
  proof (cases "?m \<le> Suc ?n")
    case True
    then have "br_state (record_failure t b) = Open"
      using 2(2) inc by (simp add: record_failure_def Let_def word_le_nat_alt)
    with True 2(3) show ?thesis by (simp add: failures_open)
  next
    case False
    then have "br_state (record_failure t b) = Closed"
        "unat (br_consecutive_failures (record_failure t b)) = Suc ?n"
        "br_config (record_failure t b) = br_config b"
      using 2(2) inc by (simp_all add: record_failure_def Let_def word_le_nat_alt)
    with False 2(1) show ?thesis by simp
  qed
qed (auto simp: max_def split: if_splits)

lemma successes_closed: "br_state b = Closed \<Longrightarrow> br_state (successes ts b) = Closed"
  by (induction ts b rule: successes.induct) (auto simp: breaker_defs)

lemma successes_half_open:
  "br_state b = HalfOpen \<Longrightarrow>
   unat (br_consecutive_successes b) < max 1 (unat (cb_half_open_success_threshold (br_config b))) \<Longrightarrow>
   br_state (successes ts b) =
     (if max 1 (unat (cb_half_open_success_threshold (br_config b))) \<le> unat (br_consecutive_successes b) + length ts
      then Closed else HalfOpen)"
proof (induction ts b rule: successes.induct)
  case (2 t ts b)
  let ?n = "unat (br_consecutive_successes b)" and ?m = "unat (cb_half_open_success_threshold (br_config b))"
  have "?n < 2 ^ 32 - 1"
    using 2(3) unat_le_word_max [of "cb_half_open_success_threshold (br_config b)"] by simp
  then have inc: "unat (br_consecutive_successes b + 1) = Suc ?n"
    by (simp add: unat_word_ariths)
  show ?case
  proof (cases "?m \<le> Suc ?n")
    case True
    then have "br_state (record_success t b) = Closed"
      using 2(2) inc by (simp add: record_success_def Let_def word_le_nat_alt)
    with True 2(3) show ?thesis by (simp add: successes_closed)
  next
    case False
    then have "br_state (record_success t b) = HalfOpen"
        "unat (br_consecutive_successes (record_success t b)) = Suc ?n"
        "br_config (record_success t b) = br_config b"
      using 2(2) inc by (simp_all add: record_success_def Let_def word_le_nat_alt)
    with False 2(1) show ?thesis by simp
  qed
qed (auto simp: max_def split: if_splits)

text \<open>
  What trips and what heals the breaker. From a fresh breaker, a row of failures leaves it
  closed below the threshold and open from the threshold on (from the first failure on, if the
  threshold is zero). Once the recovery timeout has passed, a check moves it to half-open, and from
  there a row of successes closes it when it reaches its own threshold.
\<close>
theorem breaker_trips_and_heals:
  "br_state (failures ts (breaker_with_config cfg t0)) =
     (if max 1 (unat (cb_failure_threshold cfg)) \<le> length ts then Open else Closed)
   \<and> br_state (successes us (to_half_open t1 b)) =
     (if max 1 (unat (cb_half_open_success_threshold (br_config b))) \<le> length us then Closed else HalfOpen)"
proof
  show "br_state (failures ts (breaker_with_config cfg t0)) =
     (if max 1 (unat (cb_failure_threshold cfg)) \<le> length ts then Open else Closed)"
    using failures_closed [of "breaker_with_config cfg t0" ts] by (simp add: breaker_with_config_def)
  show "br_state (successes us (to_half_open t1 b)) =
     (if max 1 (unat (cb_half_open_success_threshold (br_config b))) \<le> length us then Closed else HalfOpen)"
    using successes_half_open [of "to_half_open t1 b" us] by (simp add: to_half_open_def)
qed

subsection \<open>The breaker as an abstract machine\<close>

text \<open>
  What the breaker promises: it is healthy with a number of failures in a row, tripped since an
  instant, or probing with a number of successes in a row. There is no counter that could wrap and no field
  without a meaning in a state; the thresholds count from one.
\<close>

datatype machine = Healthy nat | Tripped instant | Probing nat

definition probe_after :: "breaker_config \<Rightarrow> instant \<Rightarrow> machine \<Rightarrow> machine" where
  "probe_after cfg now m =
     (case m of Tripped t \<Rightarrow> if cb_recovery_timeout cfg \<le> duration_since now t then Probing 0 else m | _ \<Rightarrow> m)"

fun machine_step :: "breaker_config \<Rightarrow> machine \<Rightarrow> breaker_event \<Rightarrow> machine" where
  "machine_step cfg m (EvCan now) = probe_after cfg now m"
| "machine_step cfg m (EvState now _) = probe_after cfg now m"
| "machine_step cfg m (EvSuccess _) =
     (case m of
        Healthy _ \<Rightarrow> Healthy 0
      | Tripped t \<Rightarrow> Tripped t
      | Probing n \<Rightarrow> if unat (cb_half_open_success_threshold cfg) \<le> Suc n then Healthy 0 else Probing (Suc n))"
| "machine_step cfg m (EvFailure now) =
     (case m of
        Healthy n \<Rightarrow> if unat (cb_failure_threshold cfg) \<le> Suc n then Tripped now else Healthy (Suc n)
      | Tripped t \<Rightarrow> Tripped t
      | Probing _ \<Rightarrow> Tripped now)"

definition is_tripped :: "machine \<Rightarrow> bool" where
  "is_tripped m \<longleftrightarrow> (case m of Tripped _ \<Rightarrow> True | _ \<Rightarrow> False)"

fun trips :: "breaker_config \<Rightarrow> machine \<Rightarrow> breaker_event list \<Rightarrow> nat" where
  "trips cfg m [] = 0"
| "trips cfg m (e # es) =
     (if \<not> is_tripped m \<and> is_tripped (machine_step cfg m e) then 1 else 0) + trips cfg (machine_step cfg m e) es"

definition machine_of :: "breaker \<Rightarrow> machine" where
  "machine_of b =
     (case br_state b of
        Closed \<Rightarrow> Healthy (unat (br_consecutive_failures b))
      | Open \<Rightarrow> Tripped (br_last_state_change b)
      | HalfOpen \<Rightarrow> Probing (unat (br_consecutive_successes b)))"

definition counters_below :: "breaker \<Rightarrow> bool" where
  "counters_below b \<longleftrightarrow>
     (br_state b = Closed \<longrightarrow> unat (br_consecutive_failures b) < max 1 (unat (cb_failure_threshold (br_config b)))) \<and>
     (br_state b = HalfOpen \<longrightarrow>
        unat (br_consecutive_successes b) < max 1 (unat (cb_half_open_success_threshold (br_config b))))"

fun breaker_do :: "breaker \<Rightarrow> breaker_event \<Rightarrow> breaker" where
  "breaker_do b (EvCan now) = snd (can_execute now b)"
| "breaker_do b (EvSuccess now) = record_success now b"
| "breaker_do b (EvFailure now) = record_failure now b"
| "breaker_do b (EvState now now') = snd (current_state now now' b)"

lemma unat_below_Suc: "unat (n :: u32) < max 1 (unat (m :: u32)) \<Longrightarrow> unat (n + 1) = Suc (unat n)"
  using unat_le_word_max [of m] by (auto simp: unat_word_ariths max_def split: if_splits)

text \<open>
  Moving to half-open takes a second reading of the clock (\<open>now'\<close> of \<open>EvState\<close>), which the abstract machine does
  not see: a probing breaker has no deadline.
\<close>

lemma breaker_do_machine:
  assumes "counters_below b"
  shows "machine_of (breaker_do b e) = machine_step (br_config b) (machine_of b) e
    \<and> counters_below (breaker_do b e) \<and> br_config (breaker_do b e) = br_config b
    \<and> br_total_trips (breaker_do b e) = br_total_trips b
        + (if \<not> is_tripped (machine_of b) \<and> is_tripped (machine_of (breaker_do b e)) then 1 else 0)"
  using assms
  by (cases e; cases "br_state b")
    (auto simp: breaker_defs probe_after_def machine_of_def is_tripped_def counters_below_def unat_below_Suc word_le_nat_alt)

lemma breaker_run_machine:
  "counters_below b \<Longrightarrow>
     machine_of (foldl breaker_do b es) = foldl (machine_step (br_config b)) (machine_of b) es
     \<and> counters_below (foldl breaker_do b es) \<and> br_config (foldl breaker_do b es) = br_config b
     \<and> br_total_trips (foldl breaker_do b es) = br_total_trips b + of_nat (trips (br_config b) (machine_of b) es)"
proof (induction es arbitrary: b)
  case (Cons e es)
  from breaker_do_machine [OF Cons.prems, of e] Cons.IH [of "breaker_do b e"] show ?case by simp
qed simp

text \<open>
  C35: the breaker is that machine. After any sequence of checks, results and looks, at any times, it is
  in the machine's state: it has tripped exactly when a threshold of failures came in a row with no
  success between, whatever the counters of other states were left at; a check is rejected exactly while
  the machine is tripped, with the seconds that remain, at least one; a look shows the machine's
  state; and the trips counted are the machine's.
\<close>
theorem breaker_refines_machine:
  fixes cfg :: breaker_config and t0 :: instant and es :: "breaker_event list"
  defines "b \<equiv> foldl breaker_do (breaker_with_config cfg t0) es"
    and "m \<equiv> foldl (machine_step cfg) (Healthy 0) es"
  shows "machine_of b = m
    \<and> fst (can_execute now b) =
        (case probe_after cfg now m of
           Tripped t \<Rightarrow> Inl (CircuitOpen (max (as_secs (cb_recovery_timeout cfg - duration_since now t)) 1))
         | _ \<Rightarrow> Inr ())
    \<and> fst (current_state now now' b) =
        (case probe_after cfg now m of Healthy _ \<Rightarrow> Closed | Tripped _ \<Rightarrow> Open | Probing _ \<Rightarrow> HalfOpen)
    \<and> br_total_trips b = of_nat (trips cfg (Healthy 0) es)"
proof -
  have start: "counters_below (breaker_with_config cfg t0)" "machine_of (breaker_with_config cfg t0) = Healthy 0"
    "br_config (breaker_with_config cfg t0) = cfg" "br_total_trips (breaker_with_config cfg t0) = 0"
    by (simp_all add: counters_below_def machine_of_def breaker_with_config_def)
  from breaker_run_machine [OF start(1), of es]
  have run: "machine_of b = m" "br_config b = cfg" "br_total_trips b = of_nat (trips cfg (Healthy 0) es)"
    by (simp_all add: start(2-4) b_def m_def)
  show ?thesis
    using run(3)
    by (cases "br_state b")
      (auto simp: run(1) [symmetric] run(2) machine_of_def probe_after_def breaker_defs)
qed

definition sample_breaker :: breaker where
  "sample_breaker = \<lparr>br_config = default_breaker_config, br_state = Open, br_consecutive_failures = 5,
     br_consecutive_successes = 0, br_last_state_change = 0, br_total_rejected = 0, br_total_trips = 1\<rparr>"

lemma sample_breaker_open: "br_state sample_breaker = Open" "br_config sample_breaker = default_breaker_config"
  "br_last_state_change sample_breaker = 0"
  by (simp_all add: sample_breaker_def)

theorem breaker_transitions_witness:
  "\<exists>b'. breaker_step sample_breaker (EvCan 30000000000) b' \<and> br_state b' = HalfOpen
     \<and> br_total_trips b' = br_total_trips sample_breaker"
proof -
  have st: "breaker_step sample_breaker (EvCan 30000000000) (to_half_open 30000000000 sample_breaker)"
    by (rule can [where r = "Inr ()"])
      (simp add: can_execute_def sample_breaker_open default_breaker_config_def from_secs_def std_simps)
  from breaker_transitions [OF this]
  have "br_total_trips (to_half_open 30000000000 sample_breaker) = br_total_trips sample_breaker"
    by (auto simp: to_half_open_def sample_breaker_open)
  with st show ?thesis by (intro exI [of _ "to_half_open 30000000000 sample_breaker"]) (simp add: to_half_open_def)
qed

theorem open_breaker_rejects_witness:
  "\<exists>r. fst (can_execute 29000000000 (record_success 5 sample_breaker)) = Inl (CircuitOpen r) \<and> 1 \<le> r"
proof -
  have t: "cb_recovery_timeout (br_config sample_breaker) = 30000000000"
    by (simp add: sample_breaker_open default_breaker_config_def from_secs_def nanos_per_sec_def)
  have "breaker_steps sample_breaker [EvSuccess 5] (record_success 5 sample_breaker)"
    by (simp add: breaker_steps_Cons success)
  from open_breaker_rejects [OF sample_breaker_open(1) _ this, of 29000000000] t show ?thesis
    unfolding sample_breaker_open by auto
qed

end
