(* ===== verification/TtlCache.thy ===== *)
theory TtlCache
  imports Prelude
begin

text \<open>
  The contract of a cache whose entries expire, as a locale: what is stored under a key is answered
  for that key on every clock reading before its deadline, and neither look-ups nor stores under
  other keys disturb it. The verification cache and the idempotency cache interpret it.
\<close>

datatype 'a cache_op = Put str 'a instant | Probe str instant

fun harmless :: "str \<Rightarrow> instant \<Rightarrow> 'a cache_op \<Rightarrow> bool" where
  "harmless k d (Put k' a t) \<longleftrightarrow> k' \<noteq> k \<and> t < d"
| "harmless k d (Probe k' now) \<longleftrightarrow> now < d"

locale ttl_cache =
  fixes put :: "str \<Rightarrow> 'a \<Rightarrow> instant \<Rightarrow> 's \<Rightarrow> 's"
    and probe :: "str \<Rightarrow> instant \<Rightarrow> 's \<Rightarrow> 'v option \<times> 's"
    and live :: "'s \<Rightarrow> str \<Rightarrow> 'v \<Rightarrow> instant \<Rightarrow> bool"
    and entry_of :: "'s \<Rightarrow> 'a \<Rightarrow> instant \<Rightarrow> 'v"
    and lifetime :: "'s \<Rightarrow> 'a \<Rightarrow> duration"
  assumes put_live: "0 < lifetime s a \<Longrightarrow> live (put k a t s) k (entry_of s a t) (t + int (lifetime s a))"
    and probe_live: "live s k v d \<Longrightarrow> now < d \<Longrightarrow> fst (probe k now s) = Some v"
    and put_keeps: "live s k v d \<Longrightarrow> k' \<noteq> k \<Longrightarrow> t < d \<Longrightarrow> live (put k' b t s) k v d"
    and probe_keeps: "live s k v d \<Longrightarrow> now < d \<Longrightarrow> live (snd (probe k' now s)) k v d"
begin

fun run :: "'a cache_op list \<Rightarrow> 's \<Rightarrow> 's" where
  "run [] s = s"
| "run (Put k a t # ops) s = run ops (put k a t s)"
| "run (Probe k now # ops) s = run ops (snd (probe k now s))"

lemma run_keeps: "live s k v d \<Longrightarrow> \<forall>op \<in> set ops. harmless k d op \<Longrightarrow> live (run ops s) k v d"
  by (induction ops s rule: run.induct) (auto simp: put_keeps probe_keeps)

lemma replay:
  assumes "0 < lifetime s a" "\<forall>op \<in> set ops. harmless k (t + int (lifetime s a)) op"
    and "now < t + int (lifetime s a)"
  shows "fst (probe k now (run ops (put k a t s))) = Some (entry_of s a t)"
  using run_keeps [OF put_live [OF assms(1)] assms(2)] assms(3) by (rule probe_live)

end

lemma duration_since_less:
  "0 < ttl \<Longrightarrow> duration_since now t < ttl \<longleftrightarrow> now < t + int ttl"
  by (auto simp: duration_since_def)

end
