(* ===== verification/CacheStore.thy ===== *)
theory CacheStore
  imports TtlCache
begin

text \<open>
  The verification cache (\<open>kite-x402-axum/src/cache_store.rs\<close>): a map from a signature hash to a
  verification result with its own lifetime. \<open>insert\<close> reads the clock after it takes the lock, \<open>get\<close>
  removes an expired entry.
\<close>

record cached_verification =
  cv_is_valid :: bool
  cv_payer :: str
  cv_amount :: str
  cv_cached_at :: instant
  cv_ttl :: duration

record verification_cache =
  vc_default_ttl :: duration
  vc_entries :: "(str, cached_verification) fmap"

definition cache_new :: "duration \<Rightarrow> verification_cache" where
  "cache_new default_ttl = \<lparr>vc_default_ttl = default_ttl, vc_entries = fmempty\<rparr>"

definition cache_get :: "str \<Rightarrow> instant \<Rightarrow> verification_cache \<Rightarrow> cached_verification option \<times> verification_cache" where
  "cache_get signature_hash now c =
     (case fmlookup (vc_entries c) signature_hash of
        Some entry \<Rightarrow>
          if duration_since now (cv_cached_at entry) < cv_ttl entry then (Some entry, c)
          else (None, c\<lparr>vc_entries := fmdrop signature_hash (vc_entries c)\<rparr>)
      | None \<Rightarrow> (None, c))"

definition cache_insert :: "str \<Rightarrow> bool \<Rightarrow> str \<Rightarrow> str \<Rightarrow> duration option \<Rightarrow> instant \<Rightarrow> verification_cache
    \<Rightarrow> verification_cache" where
  "cache_insert signature_hash is_valid payer amount custom_ttl now c =
     (let ttl = (case custom_ttl of Some t \<Rightarrow> t | None \<Rightarrow> vc_default_ttl c)
      in c\<lparr>vc_entries := fmupd signature_hash
             \<lparr>cv_is_valid = is_valid, cv_payer = payer, cv_amount = amount, cv_cached_at = now, cv_ttl = ttl\<rparr>
             (vc_entries c)\<rparr>)"

definition cache_clear :: "verification_cache \<Rightarrow> verification_cache" where
  "cache_clear c = c\<lparr>vc_entries := fmempty\<rparr>"

subsection \<open>The cache keeps its contract\<close>

text \<open>For the contract, what is stored is the result with the lifetime asked for.\<close>

type_synonym verdict = "bool \<times> str \<times> str \<times> duration option"

definition verdict_ttl :: "verification_cache \<Rightarrow> verdict \<Rightarrow> duration" where
  "verdict_ttl c a = (case a of (_, _, _, custom) \<Rightarrow> (case custom of Some t \<Rightarrow> t | None \<Rightarrow> vc_default_ttl c))"

definition verdict_entry :: "verification_cache \<Rightarrow> verdict \<Rightarrow> instant \<Rightarrow> cached_verification" where
  "verdict_entry c a now = (case a of (ok, payer, amount, _) \<Rightarrow>
     \<lparr>cv_is_valid = ok, cv_payer = payer, cv_amount = amount, cv_cached_at = now, cv_ttl = verdict_ttl c a\<rparr>)"

definition verdict_put :: "str \<Rightarrow> verdict \<Rightarrow> instant \<Rightarrow> verification_cache \<Rightarrow> verification_cache" where
  "verdict_put k a now c = (case a of (ok, payer, amount, custom) \<Rightarrow> cache_insert k ok payer amount custom now c)"

definition verdict_live :: "verification_cache \<Rightarrow> str \<Rightarrow> cached_verification \<Rightarrow> instant \<Rightarrow> bool" where
  "verdict_live c k v d \<longleftrightarrow> fmlookup (vc_entries c) k = Some v \<and> 0 < cv_ttl v
     \<and> d = cv_cached_at v + int (cv_ttl v)"

interpretation vc: ttl_cache verdict_put cache_get verdict_live verdict_entry verdict_ttl
  by unfold_locales
    (auto simp: verdict_put_def verdict_live_def verdict_entry_def verdict_ttl_def cache_get_def cache_insert_def
      Let_def duration_since_less split: option.splits prod.splits)

text \<open>
  A cached verification is answered, unchanged, as long as it is valid and never after. Between
  storing a result with a positive lifetime and looking it up before that lifetime is over, any
  number of look-ups and of stores under other hashes may happen; from the deadline on, a look-up of
  the stored entry answers nothing and removes it.
\<close>
theorem verification_cached_until_deadline:
  assumes "0 < verdict_ttl c a" "\<forall>op \<in> set ops. harmless k (t + int (verdict_ttl c a)) op"
  shows "(now < t + int (verdict_ttl c a) \<longrightarrow>
       fst (cache_get k now (vc.run ops (verdict_put k a t c))) = Some (verdict_entry c a t))
     \<and> (t + int (verdict_ttl c a) \<le> now \<longrightarrow>
       fst (cache_get k now (vc.run ops (verdict_put k a t c))) = None
       \<and> k |\<notin>| fmdom (vc_entries (snd (cache_get k now (vc.run ops (verdict_put k a t c))))))"
proof -
  have live: "verdict_live (vc.run ops (verdict_put k a t c)) k (verdict_entry c a t) (t + int (verdict_ttl c a))"
    using vc.run_keeps [OF vc.put_live [OF assms(1)] assms(2)] .
  then have "fst (cache_get k now (vc.run ops (verdict_put k a t c))) = None
       \<and> k |\<notin>| fmdom (vc_entries (snd (cache_get k now (vc.run ops (verdict_put k a t c)))))"
    if "t + int (verdict_ttl c a) \<le> now"
    using that by (auto simp: verdict_live_def cache_get_def duration_since_less)
  then show ?thesis using vc.replay [OF assms] by blast
qed

theorem verification_cached_until_deadline_witness:
  "let c = vc.run [Probe ''h'' 3, Put ''i'' (False, '''', '''', None) 4]
             (verdict_put ''h'' (True, ''0xa'', ''5'', Some 10) 0 (cache_new 100))
   in fst (cache_get ''h'' 9 c) = Some \<lparr>cv_is_valid = True, cv_payer = ''0xa'', cv_amount = ''5'',
                                       cv_cached_at = 0, cv_ttl = 10\<rparr>
      \<and> fst (cache_get ''h'' 10 c) = None"
proof -
  let ?a = "(True, ''0xa'', ''5'', Some 10)"
  have t: "verdict_ttl (cache_new 100) ?a = 10" by (simp add: verdict_ttl_def)
  have e: "verdict_entry (cache_new 100) ?a 0 = \<lparr>cv_is_valid = True, cv_payer = ''0xa'', cv_amount = ''5'',
      cv_cached_at = 0, cv_ttl = 10\<rparr>" by (simp add: verdict_entry_def t)
  have "0 < verdict_ttl (cache_new 100) ?a"
    "\<forall>op \<in> set [Probe ''h'' 3, Put ''i'' (False, '''', '''', None) 4].
       harmless ''h'' (0 + int (verdict_ttl (cache_new 100) ?a)) op"
    by (simp_all add: t)
  note cached = verification_cached_until_deadline [OF this]
  from cached [of 9] cached [of 10] show ?thesis unfolding t e Let_def by simp
qed

end
