(* ===== verification/Idempotency.thy ===== *)
theory Idempotency
  imports TtlCache
begin

text \<open>
  The idempotency cache (\<open>kite-x402-axum/src/idempotency.rs\<close>): a key is either leased to a running
  request or holds the response of a finished one. Every operation holds the mutex and reads the
  clock under it.
\<close>

record idempotency_config =
  ic_ttl :: duration
  ic_max_entries :: nat
  ic_in_progress_timeout :: duration

definition default_idempotency_config :: idempotency_config where
  "default_idempotency_config = \<lparr>ic_ttl = from_secs 300, ic_max_entries = 5000,
     ic_in_progress_timeout = from_secs 60\<rparr>"

record cached_response =
  cr_status :: u16
  cr_headers :: "(str \<times> str) list"
  cr_body :: str

datatype entry =
    InProgressEntry instant
  | CompletedEntry cached_response instant

datatype acquire_result = Acquired | InProgress | Cached cached_response

record idempotency_cache =
  ic_config :: idempotency_config
  ic_entries :: "(str, entry) fmap"

definition idempotency_with_config :: "idempotency_config \<Rightarrow> idempotency_cache" where
  "idempotency_with_config cfg = \<lparr>ic_config = cfg, ic_entries = fmempty\<rparr>"

definition idempotency_new :: idempotency_cache where
  "idempotency_new = idempotency_with_config default_idempotency_config"

definition unexpired :: "idempotency_config \<Rightarrow> instant \<Rightarrow> entry \<Rightarrow> bool" where
  "unexpired cfg now e =
     (case e of
        InProgressEntry started_at \<Rightarrow> duration_since now started_at < ic_in_progress_timeout cfg
      | CompletedEntry _ cached_at \<Rightarrow> duration_since now cached_at < ic_ttl cfg)"

text \<open>\<open>HashMap::retain\<close>.\<close>

definition retain_unexpired :: "idempotency_config \<Rightarrow> instant \<Rightarrow> (str, entry) fmap \<Rightarrow> (str, entry) fmap" where
  "retain_unexpired cfg now es =
     fmfilter (\<lambda>k. case fmlookup es k of Some e \<Rightarrow> unexpired cfg now e | None \<Rightarrow> False) es"

definition acquire :: "str \<Rightarrow> instant \<Rightarrow> idempotency_cache \<Rightarrow> acquire_result \<times> idempotency_cache" where
  "acquire key now c =
     (let lease =
        (let es = (if ic_max_entries (ic_config c) \<le> map_len (ic_entries c)
                   then retain_unexpired (ic_config c) now (ic_entries c) else ic_entries c)
         in (Acquired, c\<lparr>ic_entries := fmupd key (InProgressEntry now) es\<rparr>))
      in case fmlookup (ic_entries c) key of
           Some (InProgressEntry started_at) \<Rightarrow>
             if duration_since now started_at < ic_in_progress_timeout (ic_config c) then (InProgress, c) else lease
         | Some (CompletedEntry response cached_at) \<Rightarrow>
             if duration_since now cached_at < ic_ttl (ic_config c) then (Cached response, c) else lease
         | None \<Rightarrow> lease)"

definition complete :: "str \<Rightarrow> u16 \<Rightarrow> (str \<times> str) list \<Rightarrow> str \<Rightarrow> instant \<Rightarrow> idempotency_cache \<Rightarrow> idempotency_cache" where
  "complete key status hs body now c = c\<lparr>ic_entries := fmupd key
     (CompletedEntry \<lparr>cr_status = status, cr_headers = hs, cr_body = body\<rparr> now) (ic_entries c)\<rparr>"

definition release :: "str \<Rightarrow> idempotency_cache \<Rightarrow> idempotency_cache" where
  "release key c =
     (case fmlookup (ic_entries c) key of
        Some (InProgressEntry _) \<Rightarrow> c\<lparr>ic_entries := fmdrop key (ic_entries c)\<rparr>
      | _ \<Rightarrow> c)"

definition idempotency_len :: "idempotency_cache \<Rightarrow> nat" where
  "idempotency_len c = map_len (ic_entries c)"

definition idempotency_is_empty :: "idempotency_cache \<Rightarrow> bool" where
  "idempotency_is_empty c \<longleftrightarrow> idempotency_len c = 0"

subsection \<open>Finished responses\<close>

lemma retain_lookup:
  "fmlookup (retain_unexpired cfg now es) k =
     (case fmlookup es k of Some e \<Rightarrow> if unexpired cfg now e then Some e else None | None \<Rightarrow> None)"
  by (simp add: retain_unexpired_def split: option.split)

lemma acquire_config [simp]: "ic_config (snd (acquire k now c)) = ic_config c"
  by (simp add: acquire_def Let_def split: option.split entry.split)

text \<open>An acquisition leaves an unexpired entry alone, whatever its key.\<close>

lemma acquire_keeps:
  assumes "fmlookup (ic_entries c) k = Some e" "unexpired (ic_config c) now e"
  shows "fmlookup (ic_entries (snd (acquire k' now c))) k = Some e"
  using assms
  by (cases "k' = k")
    (auto simp: acquire_def Let_def retain_lookup unexpired_def split: option.splits entry.splits)

definition answer :: "str \<Rightarrow> instant \<Rightarrow> idempotency_cache \<Rightarrow> cached_response option \<times> idempotency_cache" where
  "answer k now c = (case acquire k now c of
     (Cached r, c') \<Rightarrow> (Some r, c') | (_, c') \<Rightarrow> (None, c'))"

lemma answer_snd [simp]: "snd (answer k now c) = snd (acquire k now c)"
  by (simp add: answer_def split: prod.split acquire_result.split)

definition finish :: "str \<Rightarrow> cached_response \<Rightarrow> instant \<Rightarrow> idempotency_cache \<Rightarrow> idempotency_cache" where
  "finish k r now c = complete k (cr_status r) (cr_headers r) (cr_body r) now c"

definition response_live :: "idempotency_cache \<Rightarrow> str \<Rightarrow> cached_response \<Rightarrow> instant \<Rightarrow> bool" where
  "response_live c k r d \<longleftrightarrow> 0 < ic_ttl (ic_config c)
     \<and> (\<exists>t. fmlookup (ic_entries c) k = Some (CompletedEntry r t) \<and> d = t + int (ic_ttl (ic_config c)))"

interpretation ic: ttl_cache finish answer response_live "\<lambda>c r t. r" "\<lambda>c r. ic_ttl (ic_config c)"
proof unfold_locales
  fix c :: idempotency_cache and k k' and r b :: cached_response and t now d :: instant
  show "0 < ic_ttl (ic_config c) \<Longrightarrow> response_live (finish k r t c) k r (t + int (ic_ttl (ic_config c)))"
    by (simp add: response_live_def finish_def complete_def)
  show "response_live c k r d \<Longrightarrow> now < d \<Longrightarrow> fst (answer k now c) = Some r"
    by (auto simp: response_live_def answer_def acquire_def duration_since_less)
  show "response_live c k r d \<Longrightarrow> k' \<noteq> k \<Longrightarrow> t < d \<Longrightarrow> response_live (finish k' b t c) k r d"
    by (auto simp: response_live_def finish_def complete_def)
  show "response_live c k r d \<Longrightarrow> now < d \<Longrightarrow> response_live (snd (answer k' now c)) k r d"
    unfolding response_live_def answer_snd acquire_config
    by (metis acquire_keeps duration_since_less entry.simps(6) unexpired_def)
qed

text \<open>
  A finished response is replayed. After a key is completed, every acquisition of it within the
  lifetime answers exactly the recorded status, headers and body, and leaves the cache as it is,
  whatever other keys are acquired or completed in between, even when the cache is over capacity
  and purges its expired entries.
\<close>
theorem completed_response_replayed:
  assumes "0 < ic_ttl (ic_config c)"
    and "\<forall>op \<in> set ops. harmless k (t + int (ic_ttl (ic_config c))) op"
    and "now < t + int (ic_ttl (ic_config c))"
  shows "acquire k now (ic.run ops (complete k status hs body t c))
     = (Cached \<lparr>cr_status = status, cr_headers = hs, cr_body = body\<rparr>, ic.run ops (complete k status hs body t c))"
proof -
  let ?r = "\<lparr>cr_status = status, cr_headers = hs, cr_body = body\<rparr>"
  have f: "complete k status hs body t c = finish k ?r t c" by (simp add: finish_def)
  have "fst (answer k now (ic.run ops (finish k ?r t c))) = Some ?r"
    by (rule ic.replay [OF assms])
  then show ?thesis
    unfolding f
    by (auto simp: answer_def acquire_def Let_def split: option.splits entry.splits if_splits)
qed

subsection \<open>Leases\<close>

datatype idem_event = EvAcquire str instant | EvComplete str u16 "(str \<times> str) list" str instant | EvRelease str

fun idem_step :: "idempotency_cache \<Rightarrow> idem_event \<Rightarrow> idempotency_cache" where
  "idem_step c (EvAcquire k now) = snd (acquire k now c)"
| "idem_step c (EvComplete k st hs b now) = complete k st hs b now c"
| "idem_step c (EvRelease k) = release k c"

fun leaves_lease :: "str \<Rightarrow> instant \<Rightarrow> idem_event \<Rightarrow> bool" where
  "leaves_lease k d (EvAcquire _ now) \<longleftrightarrow> now < d"
| "leaves_lease k d (EvComplete k' _ _ _ _) \<longleftrightarrow> k' \<noteq> k"
| "leaves_lease k d (EvRelease k') \<longleftrightarrow> k' \<noteq> k"

definition leased :: "str \<Rightarrow> instant \<Rightarrow> idempotency_cache \<Rightarrow> bool" where
  "leased k t c \<longleftrightarrow> fmlookup (ic_entries c) k = Some (InProgressEntry t)"

lemma idem_step_config [simp]: "ic_config (idem_step c e) = ic_config c"
  by (cases e) (simp_all add: complete_def release_def split: option.split entry.split)

lemma idem_step_leased:
  assumes "leased k t c" "leaves_lease k (t + int (ic_in_progress_timeout (ic_config c))) e"
    and "0 < ic_in_progress_timeout (ic_config c)"
  shows "leased k t (idem_step c e)"
proof (cases e)
  case (EvAcquire k' now)
  have "fmlookup (ic_entries (snd (acquire k' now c))) k = Some (InProgressEntry t)"
    using assms EvAcquire by (intro acquire_keeps) (auto simp: leased_def unexpired_def duration_since_less)
  then show ?thesis by (simp add: EvAcquire leased_def)
qed (use assms in \<open>auto simp: leased_def complete_def release_def split: option.split entry.split\<close>)

lemma idem_steps_leased:
  "leased k t c \<Longrightarrow> 0 < ic_in_progress_timeout (ic_config c) \<Longrightarrow>
   \<forall>e \<in> set es. leaves_lease k (t + int (ic_in_progress_timeout (ic_config c))) e \<Longrightarrow>
   leased k t (foldl idem_step c es) \<and> ic_config (foldl idem_step c es) = ic_config c"
  by (induction es arbitrary: c) (auto simp: idem_step_leased)

text \<open>
  A lease excludes duplicates. Once a key has been acquired, every other acquisition of it
  before the in-progress timeout is told that the request is already running, whatever is acquired,
  completed or released under other keys in between, and however full the cache is.
\<close>
theorem lease_excludes_duplicates:
  assumes "acquire k t c = (Acquired, c')" "0 < ic_in_progress_timeout (ic_config c)"
    and "\<forall>e \<in> set es. leaves_lease k (t + int (ic_in_progress_timeout (ic_config c))) e"
    and "now < t + int (ic_in_progress_timeout (ic_config c))"
  shows "fst (acquire k now (foldl idem_step c' es)) = InProgress"
proof -
  have "leased k t c'"
    using assms(1) by (auto simp: acquire_def leased_def Let_def split: option.splits entry.splits if_splits)
  moreover have cfg: "ic_config c' = ic_config c" using acquire_config [of k t c] assms(1) by simp
  ultimately show ?thesis
    using idem_steps_leased [of k t c' es] assms(2-4)
    by (auto simp: leased_def acquire_def duration_since_less)
qed

text \<open>
  The capacity is not a bound. However small \<open>max_entries\<close> is, acquiring \<open>n\<close> different keys
  within the in-progress timeout leaves \<open>n\<close> entries: the purge at capacity only drops expired
  entries, and the insertion goes ahead all the same.
\<close>
theorem capacity_not_enforced:
  assumes "distinct ks" "0 < ic_in_progress_timeout cfg"
  shows "idempotency_len (foldl (\<lambda>c k. snd (acquire k now c)) (idempotency_with_config cfg) ks) = length ks"
proof -
  let ?run = "foldl (\<lambda>c k. snd (acquire k now c)) (idempotency_with_config cfg)"
  have keep: "retain_unexpired cfg now es = es" if "\<forall>k e. fmlookup es k = Some e \<longrightarrow> e = InProgressEntry now" for es
  proof (rule fmap_ext)
    fix x
    have "unexpired cfg now (InProgressEntry now)" using assms(2) by (simp add: unexpired_def duration_since_def)
    then show "fmlookup (retain_unexpired cfg now es) x = fmlookup es x"
      using that by (auto simp: retain_lookup split: option.split)
  qed
  have "(\<forall>k. fmlookup (ic_entries (?run ks)) k = (if k \<in> set ks then Some (InProgressEntry now) else None))
     \<and> ic_config (?run ks) = cfg \<and> map_len (ic_entries (?run ks)) = length ks"
    using assms(1)
  proof (induction ks rule: rev_induct)
    case Nil
    then show ?case by (simp add: idempotency_with_config_def)
  next
    case (snoc k ks)
    then have IH: "\<forall>k. fmlookup (ic_entries (?run ks)) k = (if k \<in> set ks then Some (InProgressEntry now) else None)"
      "ic_config (?run ks) = cfg" "map_len (ic_entries (?run ks)) = length ks" "k \<notin> set ks" by auto
    have "retain_unexpired cfg now (ic_entries (?run ks)) = ic_entries (?run ks)"
      using IH(1) by (intro keep) (auto split: if_splits)
    then have "snd (acquire k now (?run ks)) = (?run ks)\<lparr>ic_entries := fmupd k (InProgressEntry now) (ic_entries (?run ks))\<rparr>"
      using IH by (simp add: acquire_def Let_def)
    moreover have "k |\<notin>| fmdom (ic_entries (?run ks))" using IH(1,4) by (simp add: fmlookup_dom_iff)
    ultimately show ?case using IH by (auto simp: map_len_upd)
  qed
  then show ?thesis by (simp add: idempotency_len_def)
qed

text \<open>
  A lease has no owner. Suppose a first request's lease on a key timed out and a second request
  acquired the key. As long as the second lease is in force a third request is told to wait; but if
  the first request then releases the key, which it has no reason not to do, the third request
  acquires it although the second is still running.
\<close>
theorem late_release_breaks_lease:
  assumes "acquire k t1 c = (Acquired, c1)" "acquire k t2 c1 = (Acquired, c2)"
    and "0 < ic_in_progress_timeout (ic_config c)" "t3 < t2 + int (ic_in_progress_timeout (ic_config c))"
  shows "fst (acquire k t3 c2) = InProgress \<and> fst (acquire k t3 (release k c2)) = Acquired"
proof -
  have "leased k t2 c2"
    using assms(2) by (auto simp: acquire_def leased_def Let_def split: option.splits entry.splits if_splits)
  moreover have "ic_config c2 = ic_config c"
    using acquire_config [of k t1 c] acquire_config [of k t2 c1] assms(1,2) by simp
  ultimately show ?thesis
    using assms(3,4) by (simp add: leased_def release_def acquire_def duration_since_less)
qed

subsection \<open>One key at a time\<close>

text \<open>
  What the cache promises about one key, as a machine of its own: no map, no capacity, no other key.
  A run of the cache is a list of events whose clock readings do not go back; \<open>about\<close> selects those of a key.
\<close>

datatype slot = Free | Running instant | Finished cached_response instant

definition slot_acquire :: "idempotency_config \<Rightarrow> instant \<Rightarrow> slot \<Rightarrow> acquire_result \<times> slot" where
  "slot_acquire cfg now s =
     (case s of
        Running t \<Rightarrow> if duration_since now t < ic_in_progress_timeout cfg then (InProgress, s) else (Acquired, Running now)
      | Finished r t \<Rightarrow> if duration_since now t < ic_ttl cfg then (Cached r, s) else (Acquired, Running now)
      | Free \<Rightarrow> (Acquired, Running now))"

fun slot_step :: "idempotency_config \<Rightarrow> slot \<Rightarrow> idem_event \<Rightarrow> slot" where
  "slot_step cfg s (EvAcquire _ now) = snd (slot_acquire cfg now s)"
| "slot_step cfg s (EvComplete _ status hs body now) =
     Finished \<lparr>cr_status = status, cr_headers = hs, cr_body = body\<rparr> now"
| "slot_step cfg s (EvRelease _) = (case s of Running _ \<Rightarrow> Free | _ \<Rightarrow> s)"

fun about :: "str \<Rightarrow> idem_event \<Rightarrow> bool" where
  "about k (EvAcquire k' _) \<longleftrightarrow> k' = k"
| "about k (EvComplete k' _ _ _ _) \<longleftrightarrow> k' = k"
| "about k (EvRelease k') \<longleftrightarrow> k' = k"

fun read_at :: "idem_event \<Rightarrow> instant option" where
  "read_at (EvAcquire _ now) = Some now"
| "read_at (EvComplete _ _ _ _ now) = Some now"
| "read_at (EvRelease _) = None"

definition clock_forward :: "idem_event list \<Rightarrow> bool" where
  "clock_forward es \<longleftrightarrow> sorted (List.map_filter read_at es)"

fun slot_entry :: "entry \<Rightarrow> slot" where
  "slot_entry (InProgressEntry t) = Running t"
| "slot_entry (CompletedEntry r t) = Finished r t"

text \<open>The map may already have lost an entry that expired; the machine need not know.\<close>

definition expired_slot :: "idempotency_config \<Rightarrow> instant \<Rightarrow> slot \<Rightarrow> bool" where
  "expired_slot cfg now s \<longleftrightarrow> fst (slot_acquire cfg now s) = Acquired"

definition holds_slot :: "idempotency_cache \<Rightarrow> str \<Rightarrow> instant \<Rightarrow> slot \<Rightarrow> bool" where
  "holds_slot c k now s \<longleftrightarrow>
     (case fmlookup (ic_entries c) k of Some e \<Rightarrow> s = slot_entry e | None \<Rightarrow> expired_slot (ic_config c) now s)"

lemma expired_slot_later: "expired_slot cfg now s \<Longrightarrow> now \<le> later \<Longrightarrow> expired_slot cfg later s"
  by (auto simp: expired_slot_def slot_acquire_def duration_since_def split: slot.splits if_splits)

lemma holds_slot_later: "holds_slot c k now s \<Longrightarrow> now \<le> later \<Longrightarrow> holds_slot c k later s"
  using expired_slot_later by (auto simp: holds_slot_def split: option.splits)

lemma unexpired_slot: "unexpired cfg now e \<longleftrightarrow> \<not> expired_slot cfg now (slot_entry e)"
  by (cases e) (simp_all add: unexpired_def expired_slot_def slot_acquire_def)

text \<open>An acquisition, seen at its own key and at another.\<close>

lemma acquire_slot:
  assumes "holds_slot c k now s"
  shows "fst (acquire k now c) = fst (slot_acquire (ic_config c) now s)"
    and "holds_slot (snd (acquire k now c)) k now (snd (slot_acquire (ic_config c) now s))"
  using assms
  by (auto simp: holds_slot_def acquire_def slot_acquire_def expired_slot_def Let_def
      split: option.splits entry.splits slot.splits if_splits)

lemma acquire_other:
  assumes "holds_slot c k now s" "k' \<noteq> k"
  shows "holds_slot (snd (acquire k' now c)) k now s"
  using assms
  by (auto simp: holds_slot_def acquire_def Let_def retain_lookup unexpired_slot
      split: option.splits entry.splits if_splits)

lemma idem_step_slot:
  assumes "holds_slot c k now s" "pred_option (\<lambda>t. now \<le> t) (read_at e)"
  shows "holds_slot (idem_step c e) k (case read_at e of Some t \<Rightarrow> t | None \<Rightarrow> now)
    (if about k e then slot_step (ic_config c) s e else s)"
proof (cases e)
  case (EvAcquire k' t)
  with assms holds_slot_later have "holds_slot c k t s" by simp
  then show ?thesis using EvAcquire acquire_slot(2) acquire_other by simp
next
  case (EvComplete k' status hs body t)
  with assms holds_slot_later have "holds_slot c k t s" by simp
  then show ?thesis by (simp add: EvComplete complete_def holds_slot_def split: option.splits)
next
  case (EvRelease k')
  with assms show ?thesis
    by (auto simp: holds_slot_def release_def expired_slot_def slot_acquire_def split: option.splits entry.splits slot.splits)
qed

lemma idem_steps_slot:
  "holds_slot c k now s \<Longrightarrow> sorted (now # List.map_filter read_at es @ [later]) \<Longrightarrow>
   holds_slot (foldl idem_step c es) k later (foldl (slot_step (ic_config c)) s (filter (about k) es))"
proof (induction es arbitrary: c now s)
  case Nil
  then show ?case using holds_slot_later by (simp add: List.map_filter_simps)
next
  case (Cons e es)
  have "pred_option (\<lambda>t. now \<le> t) (read_at e)"
    using Cons.prems(2) by (cases "read_at e") (simp_all add: List.map_filter_simps)
  from idem_step_slot [OF Cons.prems(1) this] Cons.prems(2)
  show ?case
    using Cons.IH [of "idem_step c e" "case read_at e of Some t \<Rightarrow> t | None \<Rightarrow> now"
        "if about k e then slot_step (ic_config c) s e else s"]
    by (cases "read_at e") (auto simp: List.map_filter_simps split: if_splits)
qed

text \<open>
  C36: the cache serves each key as if it were alone. Whatever was acquired, completed and released, under
  this key and under others, and however full the map is, an acquisition is answered as by a machine
  that saw the events of its own key only: the purge at capacity never changes an answer. The machine
  leases a key to one request at a time until the timeout, replays a finished response for its
  lifetime, and gives the key up on release only while a request runs; but it does not know by whom
  it is released.
\<close>
theorem idempotency_per_key:
  assumes "clock_forward (es @ [EvAcquire k now])"
  shows "fst (acquire k now (foldl idem_step (idempotency_with_config cfg) es))
    = fst (slot_acquire cfg now (foldl (slot_step cfg) Free (filter (about k) es)))"
proof -
  let ?c = "idempotency_with_config cfg"
  obtain start where "sorted (start # List.map_filter read_at es @ [now])"
  proof
    let ?ts = "List.map_filter read_at es @ [now]"
    have "sorted ?ts" using assms by (simp add: clock_forward_def List.map_filter_def)
    then show "sorted (hd ?ts # ?ts)" by (cases ?ts) auto
  qed
  moreover have "holds_slot ?c k t Free" for t
    by (simp add: holds_slot_def idempotency_with_config_def expired_slot_def slot_acquire_def)
  ultimately have "holds_slot (foldl idem_step ?c es) k now (foldl (slot_step (ic_config ?c)) Free (filter (about k) es))"
    by (intro idem_steps_slot)
  from acquire_slot(1) [OF this] have "fst (acquire k now (foldl idem_step ?c es))
      = fst (slot_acquire (ic_config (foldl idem_step ?c es)) now (foldl (slot_step (ic_config ?c)) Free (filter (about k) es)))" .
  moreover have "ic_config (foldl idem_step c es) = ic_config c" for c
    by (induction es arbitrary: c) simp_all
  ultimately show ?thesis by (simp add: idempotency_with_config_def)
qed

definition sample_cache :: idempotency_cache where
  "sample_cache = idempotency_with_config \<lparr>ic_ttl = 100, ic_max_entries = 1, ic_in_progress_timeout = 10\<rparr>"

lemmas idempotency_eval =
  sample_cache_def idempotency_with_config_def acquire_def complete_def release_def Let_def duration_since_def

theorem completed_response_replayed_witness:
  "acquire ''k'' 99 (ic.run [Probe ''j'' 50] (complete ''k'' 200 [] ''ok'' 0 sample_cache))
     = (Cached \<lparr>cr_status = 200, cr_headers = [], cr_body = ''ok''\<rparr>,
        ic.run [Probe ''j'' 50] (complete ''k'' 200 [] ''ok'' 0 sample_cache))"
  by (rule completed_response_replayed) (simp_all add: sample_cache_def idempotency_with_config_def)

theorem lease_excludes_duplicates_witness:
  "\<exists>c'. acquire ''k'' 0 sample_cache = (Acquired, c')
     \<and> fst (acquire ''k'' 9 (foldl idem_step c' [EvAcquire ''j'' 1, EvRelease ''j''])) = InProgress"
proof -
  obtain c' where acq: "acquire ''k'' 0 sample_cache = (Acquired, c')" by (simp add: idempotency_eval)
  from lease_excludes_duplicates [OF acq, of "[EvAcquire ''j'' 1, EvRelease ''j'']" 9] acq
  show ?thesis by (simp add: sample_cache_def idempotency_with_config_def)
qed

theorem capacity_not_enforced_witness:
  "idempotency_len (foldl (\<lambda>c k. snd (acquire k 0 c)) sample_cache [''a'', ''b'', ''c'']) = 3"
  unfolding sample_cache_def by (subst capacity_not_enforced) simp_all

theorem late_release_breaks_lease_witness:
  "\<exists>c1 c2. acquire ''k'' 0 sample_cache = (Acquired, c1) \<and> acquire ''k'' 10 c1 = (Acquired, c2)
     \<and> fst (acquire ''k'' 11 (release ''k'' c2)) = Acquired"
proof -
  obtain c1 where c1: "acquire ''k'' 0 sample_cache = (Acquired, c1)" by (simp add: idempotency_eval)
  obtain c2 where c2: "acquire ''k'' 10 c1 = (Acquired, c2)" using c1 by (auto simp: idempotency_eval)
  from late_release_breaks_lease [OF c1 c2, of 11] c1 c2 show ?thesis
    by (auto simp: sample_cache_def idempotency_with_config_def)
qed

text \<open>
  A map with room for one entry: the purge that the second key causes drops the timed-out lease of the
  first, and the answers are those of the machine.
\<close>
theorem idempotency_per_key_witness:
  "fst (acquire ''k'' 30 (foldl idem_step sample_cache
      [EvAcquire ''k'' 0, EvAcquire ''j'' 20, EvComplete ''k'' 200 [] ''ok'' 25])) = Cached \<lparr>cr_status = 200, cr_headers = [], cr_body = ''ok''\<rparr>"
  unfolding sample_cache_def
  by (subst idempotency_per_key) (simp_all add: clock_forward_def List.map_filter_simps slot_acquire_def duration_since_def)

end
