(* ===== verification/Ledger.thy ===== *)
theory Ledger
  imports Text_Lib
begin

text \<open>
  The settlement ledger (\<open>kite-x402-axum/src/settlement_ledger.rs\<close>): the retained records in
  arrival order with two indexes, by transaction and by payer. \<open>str::to_lowercase\<close>, which follows
  the Unicode tables, is the parameter \<open>lower\<close>; the code indexes payers with it but removes them
  with the ASCII version.

  The specification is the list of records alone. The lemmas show that the indexed ledger refines
  it as long as \<open>lower\<close> and the ASCII version agree on the payers, which they do on every address,
  and what goes wrong when they do not.
\<close>

record settlement_record =
  sl_tx_hash :: str
  sl_payer :: str
  sl_pay_to :: str
  sl_amount :: u64
  sl_network :: str
  sl_timestamp_secs :: u64
  sl_success :: bool
  sl_error_reason :: "str option"

record ledger_summary =
  ls_total_settled_volume :: u64
  ls_successful_count :: u64
  ls_failed_count :: u64

record ledger =
  lg_records :: "settlement_record list"
  lg_by_tx :: "(str \<times> str, settlement_record) fmap"
  lg_by_payer :: "(str, settlement_record list) fmap"
  lg_max_records :: nat

definition transaction_key :: "settlement_record \<Rightarrow> (str \<times> str) option" where
  "transaction_key r =
     (let tx = ascii_lower (trim (sl_tx_hash r)) in if tx \<noteq> [] then Some (sl_network r, tx) else None)"

definition remove_indexes :: "settlement_record \<Rightarrow> ledger \<Rightarrow> ledger" where
  "remove_indexes r l =
     (let l = (case transaction_key r of
                 Some key \<Rightarrow> l\<lparr>lg_by_tx := fmdrop key (lg_by_tx l)\<rparr> | None \<Rightarrow> l);
          payer = ascii_lower (sl_payer r)
      in case fmlookup (lg_by_payer l) payer of
           Some records \<Rightarrow>
             let records = remove1 r records
             in if records = [] then l\<lparr>lg_by_payer := fmdrop payer (lg_by_payer l)\<rparr>
                else l\<lparr>lg_by_payer := fmupd payer records (lg_by_payer l)\<rparr>
         | None \<Rightarrow> l)"

definition ledger_new :: "nat \<Rightarrow> ledger" where
  "ledger_new max_records = \<lparr>lg_records = [], lg_by_tx = fmempty, lg_by_payer = fmempty,
     lg_max_records = max max_records 100\<rparr>"

definition default_ledger :: ledger where
  "default_ledger = ledger_new 5000"

text \<open>A failed record with the same transaction makes room for the new one.\<close>

definition drop_previous :: "settlement_record \<Rightarrow> ledger \<Rightarrow> ledger" where
  "drop_previous previous l = remove_indexes previous (l\<lparr>lg_records := remove1 previous (lg_records l)\<rparr>)"

definition evict_oldest :: "ledger \<Rightarrow> ledger" where
  "evict_oldest l =
     (if lg_max_records l \<le> length (lg_records l) then
        (case lg_records l of
           evicted # rest \<Rightarrow> remove_indexes evicted (l\<lparr>lg_records := rest\<rparr>)
         | [] \<Rightarrow> l)
      else l)"

definition append_record :: "(str \<Rightarrow> str) \<Rightarrow> settlement_record \<Rightarrow> ledger \<Rightarrow> ledger" where
  "append_record lower r l =
     (let payer_key = lower (sl_payer r);
          l = (case transaction_key r of
                 Some key \<Rightarrow> l\<lparr>lg_by_tx := fmupd key r (lg_by_tx l)\<rparr> | None \<Rightarrow> l);
          held = (case fmlookup (lg_by_payer l) payer_key of Some rs \<Rightarrow> rs | None \<Rightarrow> [])
      in l\<lparr>lg_by_payer := fmupd payer_key (held @ [r]) (lg_by_payer l), lg_records := lg_records l @ [r]\<rparr>)"

definition record_settlement_in :: "(str \<Rightarrow> str) \<Rightarrow> settlement_record \<Rightarrow> ledger \<Rightarrow> ledger" where
  "record_settlement_in lower r l =
     (case Option.bind (transaction_key r) (fmlookup (lg_by_tx l)) of
        Some previous \<Rightarrow>
          if sl_success previous then l
          else append_record lower r (evict_oldest (drop_previous previous l))
      | None \<Rightarrow> append_record lower r (evict_oldest l))"

text \<open>The iteration order of the map does not matter: a second match already refuses the answer.\<close>

definition get_by_tx :: "str \<Rightarrow> ledger \<Rightarrow> settlement_record option" where
  "get_by_tx tx_hash l =
     (let tx = ascii_lower (trim tx_hash);
          matches = filter (\<lambda>(_, hash). hash = tx) (sorted_list_of_fset (fmdom (lg_by_tx l)))
      in case matches of [key] \<Rightarrow> fmlookup (lg_by_tx l) key | _ \<Rightarrow> None)"

definition get_by_network_tx :: "str \<Rightarrow> str \<Rightarrow> ledger \<Rightarrow> settlement_record option" where
  "get_by_network_tx network tx_hash l = fmlookup (lg_by_tx l) (network, ascii_lower (trim tx_hash))"

definition find_by_payer :: "(str \<Rightarrow> str) \<Rightarrow> str \<Rightarrow> ledger \<Rightarrow> settlement_record list" where
  "find_by_payer lower payer l = (case fmlookup (lg_by_payer l) (lower payer) of Some rs \<Rightarrow> rs | None \<Rightarrow> [])"

definition add_to_summary :: "ledger_summary \<Rightarrow> settlement_record \<Rightarrow> ledger_summary" where
  "add_to_summary s r =
     (if sl_success r
      then s\<lparr>ls_successful_count := ls_successful_count s + 1,
             ls_total_settled_volume := sat_add (ls_total_settled_volume s) (sl_amount r)\<rparr>
      else s\<lparr>ls_failed_count := ls_failed_count s + 1\<rparr>)"

definition ledger_summary_of :: "ledger \<Rightarrow> ledger_summary" where
  "ledger_summary_of l = foldl add_to_summary
     \<lparr>ls_total_settled_volume = 0, ls_successful_count = 0, ls_failed_count = 0\<rparr> (lg_records l)"

definition ledger_len :: "ledger \<Rightarrow> nat" where
  "ledger_len l = length (lg_records l)"

definition ledger_is_empty :: "ledger \<Rightarrow> bool" where
  "ledger_is_empty l \<longleftrightarrow> ledger_len l = 0"

subsection \<open>The specification: a list of records\<close>

definition with_key :: "(str \<times> str) \<Rightarrow> settlement_record list \<Rightarrow> settlement_record option" where
  "with_key key rs = find (\<lambda>r. transaction_key r = Some key) rs"

definition spec_evict :: "nat \<Rightarrow> settlement_record list \<Rightarrow> settlement_record list" where
  "spec_evict n rs = (if n \<le> length rs then tl rs else rs)"

definition spec_record :: "nat \<Rightarrow> settlement_record \<Rightarrow> settlement_record list \<Rightarrow> settlement_record list" where
  "spec_record n r rs =
     (case Option.bind (transaction_key r) (\<lambda>key. with_key key rs) of
        Some previous \<Rightarrow> if sl_success previous then rs else spec_evict n (remove1 previous rs) @ [r]
      | None \<Rightarrow> spec_evict n rs @ [r])"

text \<open>The indexes are those of the list.\<close>

fun keys_distinct :: "settlement_record list \<Rightarrow> bool" where
  "keys_distinct [] \<longleftrightarrow> True"
| "keys_distinct (r # rs) \<longleftrightarrow> keys_distinct rs \<and> (transaction_key r = None \<or> transaction_key r \<notin> transaction_key ` set rs)"

definition indexed :: "settlement_record list \<Rightarrow> ledger \<Rightarrow> bool" where
  "indexed rs l \<longleftrightarrow>
     (\<forall>key. fmlookup (lg_by_tx l) key = with_key key rs)
     \<and> (\<forall>p. fmlookup (lg_by_payer l) p =
          (let own = filter (\<lambda>r. ascii_lower (sl_payer r) = p) rs in if own = [] then None else Some own))"

definition ledger_inv :: "ledger \<Rightarrow> bool" where
  "ledger_inv l \<longleftrightarrow> indexed (lg_records l) l \<and> keys_distinct (lg_records l)
     \<and> 1 \<le> lg_max_records l \<and> length (lg_records l) \<le> lg_max_records l"

lemma ledger_inv_new: "ledger_inv (ledger_new n)"
  by (simp add: ledger_inv_def indexed_def ledger_new_def with_key_def)

lemma with_key_Some: "with_key key rs = Some r \<Longrightarrow> r \<in> set rs \<and> transaction_key r = Some key"
  by (auto simp: with_key_def find_Some_iff)

lemma with_key_simps [simp]:
  "with_key key [] = None"
  "with_key key (r # rs) = (if transaction_key r = Some key then Some r else with_key key rs)"
  by (simp_all add: with_key_def)

lemma with_key_None: "with_key key rs = None \<longleftrightarrow> Some key \<notin> transaction_key ` set rs"
  by (induction rs) auto

lemma keys_distinct_remove1: "keys_distinct rs \<Longrightarrow> keys_distinct (remove1 r rs)"
proof (induction rs)
  case (Cons a rs)
  have "transaction_key ` set (remove1 r rs) \<subseteq> transaction_key ` set rs"
    using set_remove1_subset by (rule image_mono)
  with Cons show ?case by auto
qed simp

lemma with_key_remove1:
  "keys_distinct rs \<Longrightarrow> r \<in> set rs \<Longrightarrow>
   with_key key (remove1 r rs) = (if transaction_key r = Some key then None else with_key key rs)"
proof (induction rs)
  case (Cons a rs)
  show ?case
  proof (cases "a = r")
    case True
    with Cons.prems show ?thesis by (auto simp: with_key_None)
  next
    case False
    with Cons show ?thesis by (auto simp: with_key_None) (metis imageI)
  qed
qed simp

lemma keys_distinct_snoc:
  "keys_distinct (rs @ [r]) \<longleftrightarrow> keys_distinct rs \<and> (transaction_key r = None \<or> transaction_key r \<notin> transaction_key ` set rs)"
  by (induction rs) auto

lemma with_key_snoc:
  "with_key key (rs @ [r]) = (case with_key key rs of Some s \<Rightarrow> Some s
     | None \<Rightarrow> if transaction_key r = Some key then Some r else None)"
  by (induction rs) auto

lemma filter_remove1: "filter P (remove1 x xs) = (if P x then remove1 x (filter P xs) else filter P xs)"
  by (induction xs) (auto simp: remove1_idem)

subsection \<open>Each step keeps the indexes\<close>

lemma remove_indexes_fields [simp]:
  "lg_records (remove_indexes r l) = lg_records l" "lg_max_records (remove_indexes r l) = lg_max_records l"
  by (simp_all add: remove_indexes_def Let_def split: option.split)

lemma remove_indexes_by_tx:
  "fmlookup (lg_by_tx (remove_indexes r l)) key = (if transaction_key r = Some key then None else fmlookup (lg_by_tx l) key)"
  by (auto simp: remove_indexes_def Let_def split: option.split)

lemma remove_indexes_by_payer:
  "fmlookup (lg_by_payer (remove_indexes r l)) p =
     (if ascii_lower (sl_payer r) = p
      then (case fmlookup (lg_by_payer l) p of
              Some rs \<Rightarrow> if remove1 r rs = [] then None else Some (remove1 r rs) | None \<Rightarrow> None)
      else fmlookup (lg_by_payer l) p)"
  by (auto simp: remove_indexes_def Let_def split: option.split)

lemma indexed_remove:
  assumes "indexed rs l" "keys_distinct rs" "r \<in> set rs"
  shows "indexed (remove1 r rs) (remove_indexes r (l\<lparr>lg_records := x\<rparr>))"
  using assms with_key_remove1 [OF assms(2,3)]
  by (auto simp: indexed_def remove_indexes_by_tx remove_indexes_by_payer filter_remove1 Let_def
      split: option.split)

lemma indexed_append:
  assumes "indexed rs l" "lower (sl_payer r) = ascii_lower (sl_payer r)"
    and "\<And>key. transaction_key r = Some key \<Longrightarrow> with_key key rs = None"
  shows "indexed (rs @ [r]) (append_record lower r l)"
  using assms
  by (auto simp: indexed_def append_record_def Let_def with_key_snoc split: option.splits)

lemma keys_distinct_tl: "keys_distinct rs \<Longrightarrow> keys_distinct (tl rs)"
  by (cases rs) auto

lemma keys_distinct_absent_remove1:
  "keys_distinct rs \<Longrightarrow> r \<in> set rs \<Longrightarrow> transaction_key r = Some key \<Longrightarrow> with_key key (remove1 r rs) = None"
  by (simp add: with_key_remove1)

lemma with_key_tl: "with_key key rs = None \<Longrightarrow> with_key key (tl rs) = None"
  by (cases rs) (auto split: if_splits)

lemma evict_oldest_inv:
  assumes "indexed (lg_records l) l" "keys_distinct (lg_records l)"
  shows "lg_records (evict_oldest l) = spec_evict (lg_max_records l) (lg_records l)"
    "indexed (spec_evict (lg_max_records l) (lg_records l)) (evict_oldest l)"
    "lg_max_records (evict_oldest l) = lg_max_records l"
proof -
  show "lg_records (evict_oldest l) = spec_evict (lg_max_records l) (lg_records l)"
    "lg_max_records (evict_oldest l) = lg_max_records l"
    by (simp_all add: evict_oldest_def spec_evict_def split: list.split)
  show "indexed (spec_evict (lg_max_records l) (lg_records l)) (evict_oldest l)"
  proof (cases "lg_records l")
    case (Cons r rs)
    have "indexed (remove1 r (lg_records l)) (remove_indexes r (l\<lparr>lg_records := rs\<rparr>))"
      using assms by (rule indexed_remove) (simp add: Cons)
    with Cons assms show ?thesis by (simp add: evict_oldest_def spec_evict_def)
  qed (use assms in \<open>simp add: evict_oldest_def spec_evict_def\<close>)
qed

lemma append_record_fields [simp]:
  "lg_records (append_record lower r l) = lg_records l @ [r]"
  "lg_max_records (append_record lower r l) = lg_max_records l"
  by (simp_all add: append_record_def Let_def split: option.split)

lemma append_evict_refines:
  assumes "indexed (lg_records l) l" "keys_distinct (lg_records l)"
    and "1 \<le> lg_max_records l" "length (lg_records l) \<le> lg_max_records l"
    and "lower (sl_payer r) = ascii_lower (sl_payer r)"
    and fresh: "\<And>key. transaction_key r = Some key \<Longrightarrow> with_key key (lg_records l) = None"
  shows "lg_records (append_record lower r (evict_oldest l)) = spec_evict (lg_max_records l) (lg_records l) @ [r]
     \<and> ledger_inv (append_record lower r (evict_oldest l))"
proof -
  note ev = evict_oldest_inv [OF assms(1,2)]
  let ?rs = "spec_evict (lg_max_records l) (lg_records l)"
  have fresh': "with_key key ?rs = None" if "transaction_key r = Some key" for key
    using fresh [OF that] by (auto simp: spec_evict_def with_key_tl)
  have "indexed (?rs @ [r]) (append_record lower r (evict_oldest l))"
    by (rule indexed_append) (use ev(2) assms(5) fresh' in auto)
  moreover have "keys_distinct (?rs @ [r])"
    using keys_distinct_tl [OF assms(2)] assms(2) fresh'
    by (cases "transaction_key r") (auto simp: keys_distinct_snoc spec_evict_def with_key_None)
  moreover have "length (?rs @ [r]) \<le> lg_max_records l"
    using assms(3,4) by (auto simp: spec_evict_def)
  ultimately show ?thesis using ev assms(3) by (simp add: ledger_inv_def)
qed

lemma record_refines:
  assumes inv: "ledger_inv l" and low: "lower (sl_payer r) = ascii_lower (sl_payer r)"
  shows "lg_records (record_settlement_in lower r l) = spec_record (lg_max_records l) r (lg_records l)
     \<and> ledger_inv (record_settlement_in lower r l)
     \<and> lg_max_records (record_settlement_in lower r l) = lg_max_records l"
proof -
  have i: "indexed (lg_records l) l" "keys_distinct (lg_records l)" "1 \<le> lg_max_records l"
    "length (lg_records l) \<le> lg_max_records l" using inv by (auto simp: ledger_inv_def)
  have look: "fmlookup (lg_by_tx l) = (\<lambda>key. with_key key (lg_records l))"
    using i(1) by (intro ext) (auto simp: indexed_def)
  show ?thesis
  proof (cases "Option.bind (transaction_key r) (\<lambda>key. with_key key (lg_records l))")
    case None
    then have "\<And>key. transaction_key r = Some key \<Longrightarrow> with_key key (lg_records l) = None" by auto
    from append_evict_refines [where lower = lower and r = r, OF i low this] None evict_oldest_inv(3) [OF i(1,2)] show ?thesis
      by (simp add: record_settlement_in_def spec_record_def look)
  next
    case (Some previous)
    then obtain key where key: "transaction_key r = Some key" "with_key key (lg_records l) = Some previous"
      by (auto simp: bind_eq_Some_conv)
    show ?thesis
    proof (cases "sl_success previous")
      case True
      with Some inv show ?thesis by (simp add: record_settlement_in_def spec_record_def look)
    next
      case False
      note pk = with_key_Some [OF key(2)]
      let ?l = "drop_previous previous l"
      have recs: "lg_records ?l = remove1 previous (lg_records l)" "lg_max_records ?l = lg_max_records l"
        by (simp_all add: drop_previous_def)
      have "indexed (lg_records ?l) ?l"
        unfolding recs unfolding drop_previous_def using indexed_remove [OF i(1,2)] pk by blast
      moreover have "keys_distinct (lg_records ?l)" unfolding recs using i(2) by (rule keys_distinct_remove1)
      moreover have "length (lg_records ?l) \<le> lg_max_records ?l" using i(4) by (auto simp: recs length_remove1)
      moreover have "\<And>k. transaction_key r = Some k \<Longrightarrow> with_key k (lg_records ?l) = None"
        unfolding recs using keys_distinct_absent_remove1 [OF i(2)] pk key(1) by simp
      ultimately have "lg_records (append_record lower r (evict_oldest ?l)) = spec_evict (lg_max_records ?l) (lg_records ?l) @ [r]
         \<and> ledger_inv (append_record lower r (evict_oldest ?l))" "lg_max_records (evict_oldest ?l) = lg_max_records ?l"
        using append_evict_refines [of ?l lower r] evict_oldest_inv(3) i(3) low recs by auto
      with False Some show ?thesis by (simp add: record_settlement_in_def spec_record_def look recs)
    qed
  qed
qed

text \<open>The ledger after a sequence of records, and its specification.\<close>

definition ledger_run :: "(str \<Rightarrow> str) \<Rightarrow> nat \<Rightarrow> settlement_record list \<Rightarrow> ledger" where
  "ledger_run lower n rs = foldl (\<lambda>l r. record_settlement_in lower r l) (ledger_new n) rs"

definition spec_run :: "nat \<Rightarrow> settlement_record list \<Rightarrow> settlement_record list" where
  "spec_run n rs = foldl (\<lambda>acc r. spec_record (max n 100) r acc) [] rs"

definition ascii_payers :: "(str \<Rightarrow> str) \<Rightarrow> settlement_record list \<Rightarrow> bool" where
  "ascii_payers lower rs \<longleftrightarrow> (\<forall>r \<in> set rs. lower (sl_payer r) = ascii_lower (sl_payer r))"

lemma ledger_run_inv:
  "ascii_payers lower rs \<Longrightarrow> ledger_inv (ledger_run lower n rs) \<and> lg_records (ledger_run lower n rs) = spec_run n rs
     \<and> lg_max_records (ledger_run lower n rs) = max n 100"
proof (induction rs rule: rev_induct)
  case Nil
  show ?case using ledger_inv_new [of n] by (simp add: ledger_run_def spec_run_def) (simp add: ledger_new_def)
next
  case (snoc r rs)
  then have "ledger_inv (ledger_run lower n rs)" "lg_records (ledger_run lower n rs) = spec_run n rs"
    "lg_max_records (ledger_run lower n rs) = max n 100" "lower (sl_payer r) = ascii_lower (sl_payer r)"
    by (auto simp: ascii_payers_def)
  with record_refines [of "ledger_run lower n rs" lower r] show ?case
    by (simp add: ledger_run_def spec_run_def)
qed

lemma find_by_payer_indexed:
  assumes "indexed rs l" "lower p = ascii_lower p"
  shows "find_by_payer lower p l = filter (\<lambda>r. ascii_lower (sl_payer r) = ascii_lower p) rs"
  using assms by (simp add: indexed_def find_by_payer_def Let_def)


text \<open>
  A confirmation is immutable. As long as the confirmed record of a transaction is retained,
  recording anything with the same network and transaction hash, up to letter case and surrounding
  white space, changes nothing at all in the ledger, whatever its payers are.
\<close>
theorem confirmation_immutable:
  assumes "get_by_network_tx network tx l = Some confirmed" "sl_success confirmed"
    and "sl_network r = network" "ascii_lower (trim (sl_tx_hash r)) = ascii_lower (trim tx)"
    and "ascii_lower (trim tx) \<noteq> ''''"
  shows "record_settlement_in lower r l = l"
  using assms by (simp add: record_settlement_in_def transaction_key_def get_by_network_tx_def Let_def)

lemma summary_fold:
  "unat (ls_total_settled_volume (foldl add_to_summary s rs))
     = min (unat (ls_total_settled_volume s) + sum_list (map (unat \<circ> sl_amount) (filter sl_success rs))) (2 ^ 64 - 1)
   \<and> ls_successful_count (foldl add_to_summary s rs) = ls_successful_count s + of_nat (length (filter sl_success rs))
   \<and> ls_failed_count (foldl add_to_summary s rs) = ls_failed_count s + of_nat (length (filter (\<lambda>r. \<not> sl_success r) rs))"
proof (induction rs arbitrary: s)
  case Nil
  show ?case using unat_le_word_max [of "ls_total_settled_volume s"] by simp
next
  case (Cons r rs)
  show ?case
  proof (cases "sl_success r")
    case True
    then have "unat (ls_total_settled_volume (add_to_summary s r))
        = min (unat (ls_total_settled_volume s) + unat (sl_amount r)) (2 ^ 64 - 1)"
      by (simp add: add_to_summary_def unat_sat_add)
    with True Cons.IH [of "add_to_summary s r"] show ?thesis
      by (simp add: add_to_summary_def algebra_simps)
  next
    case False
    with Cons.IH [of "add_to_summary s r"] show ?thesis
      by (simp add: add_to_summary_def algebra_simps)
  qed
qed

text \<open>
  The summary is that of the retained records: the counts of confirmed and failed records
  (modulo \<open>2 ^ 64\<close>), and the sum of the confirmed amounts, which saturates instead of wrapping.
\<close>
theorem ledger_summary_correct:
  "unat (ls_total_settled_volume (ledger_summary_of l))
     = min (sum_list (map (unat \<circ> sl_amount) (filter sl_success (lg_records l)))) (2 ^ 64 - 1)
   \<and> unat (ls_successful_count (ledger_summary_of l)) = length (filter sl_success (lg_records l)) mod 2 ^ 64
   \<and> unat (ls_failed_count (ledger_summary_of l)) = length (filter (\<lambda>r. \<not> sl_success r) (lg_records l)) mod 2 ^ 64"
  unfolding ledger_summary_of_def
  by (simp add: summary_fold [of "\<lparr>ls_total_settled_volume = 0, ls_successful_count = 0, ls_failed_count = 0\<rparr>"] unat_of_nat)

text \<open>
  A payer whose two lower-case forms differ leaves a stale index entry. If a failed record with
  such a payer is replaced by the confirmation of its transaction, the ledger retains the
  confirmation alone, but the look-up by that payer still answers the failed record before it.
\<close>
theorem stale_payer_index:
  assumes "transaction_key r = Some key" "transaction_key r' = Some key"
    and "\<not> sl_success r" "sl_payer r' = sl_payer r"
    and "lower (sl_payer r) \<noteq> ascii_lower (sl_payer r)"
  shows "lg_records (ledger_run lower n [r, r']) = [r']
     \<and> find_by_payer lower (sl_payer r) (ledger_run lower n [r, r']) = [r, r']"
  using assms
  by (simp add: ledger_run_def ledger_new_def record_settlement_in_def append_record_def evict_oldest_def
      drop_previous_def remove_indexes_def find_by_payer_def Let_def)

text \<open>
  A look-up by hash alone answers only when it is unambiguous. It gives a record exactly when
  one network retains that transaction hash, and then the record of that network.
\<close>
theorem get_by_tx_unambiguous:
  "get_by_tx tx l = Some r \<longleftrightarrow>
     (\<exists>network. fmlookup (lg_by_tx l) (network, ascii_lower (trim tx)) = Some r
        \<and> (\<forall>other. (other, ascii_lower (trim tx)) |\<in>| fmdom (lg_by_tx l) \<longrightarrow> other = network))"
proof -
  let ?t = "ascii_lower (trim tx)"
  let ?ks = "filter (\<lambda>(_, hash). hash = ?t) (sorted_list_of_fset (fmdom (lg_by_tx l)))"
  have mem: "set ?ks = {(n, h). h = ?t \<and> (n, h) |\<in>| fmdom (lg_by_tx l)}" by auto
  have dist: "distinct ?ks" by (simp add: sorted_list_of_fset.rep_eq)
  have single: "?ks = [key] \<longleftrightarrow> set ?ks = {key}" for key
  proof
    assume s: "set ?ks = {key}"
    then have "length ?ks = 1" using distinct_card [OF dist] by simp
    with s show "?ks = [key]" by (cases ?ks) auto
  qed simp
  have "get_by_tx tx l = Some r \<longleftrightarrow> (\<exists>key. ?ks = [key] \<and> fmlookup (lg_by_tx l) key = Some r)"
    by (auto simp: get_by_tx_def Let_def split: list.splits)
  also have "\<dots> \<longleftrightarrow> (\<exists>key. set ?ks = {key} \<and> fmlookup (lg_by_tx l) key = Some r)"
    by (simp only: single)
  also have "\<dots> \<longleftrightarrow> (\<exists>network. fmlookup (lg_by_tx l) (network, ?t) = Some r
        \<and> (\<forall>other. (other, ?t) |\<in>| fmdom (lg_by_tx l) \<longrightarrow> other = network))"
  proof
    assume "\<exists>key. set ?ks = {key} \<and> fmlookup (lg_by_tx l) key = Some r"
    then obtain n h where s: "set ?ks = {(n, h)}" and r: "fmlookup (lg_by_tx l) (n, h) = Some r" by auto
    have "(n, h) \<in> set ?ks" using s by simp
    then have h: "h = ?t" unfolding mem by simp
    have "other = n" if "(other, ?t) |\<in>| fmdom (lg_by_tx l)" for other
    proof -
      have "(other, ?t) \<in> set ?ks" unfolding mem using that by simp
      then have "(other, ?t) \<in> {(n, h)}" unfolding s .
      then show ?thesis by simp
    qed
    with r h show "\<exists>network. fmlookup (lg_by_tx l) (network, ?t) = Some r
        \<and> (\<forall>other. (other, ?t) |\<in>| fmdom (lg_by_tx l) \<longrightarrow> other = network)" by blast
  next
    assume "\<exists>network. fmlookup (lg_by_tx l) (network, ?t) = Some r
        \<and> (\<forall>other. (other, ?t) |\<in>| fmdom (lg_by_tx l) \<longrightarrow> other = network)"
    then obtain n where r: "fmlookup (lg_by_tx l) (n, ?t) = Some r"
      and only: "\<And>other. (other, ?t) |\<in>| fmdom (lg_by_tx l) \<Longrightarrow> other = n" by blast
    have "set ?ks = {(n, ?t)}"
    proof (rule set_eqI)
      fix x :: "str \<times> str"
      obtain a b where x: "x = (a, b)" by fastforce
      have "a = n" if "b = ?t" "(a, b) |\<in>| fmdom (lg_by_tx l)"
        using only [of a] that by simp
      then show "x \<in> set ?ks \<longleftrightarrow> x \<in> {(n, ?t)}"
        unfolding mem x using fmdomI [OF r] by (cases "b = ?t") (simp_all, metis)
    qed
    with r show "\<exists>key. set ?ks = {key} \<and> fmlookup (lg_by_tx l) key = Some r" by blast
  qed
  finally show ?thesis .
qed

definition sample_settlement :: "str \<Rightarrow> str \<Rightarrow> bool \<Rightarrow> settlement_record" where
  "sample_settlement tx payer ok = \<lparr>sl_tx_hash = tx, sl_payer = payer, sl_pay_to = ''0x11'', sl_amount = 5,
     sl_network = ''eip155:2368'', sl_timestamp_secs = 0, sl_success = ok, sl_error_reason = None\<rparr>"

lemma sample_tx [simp]: "trim ''0xA'' = ''0xA''" "trim ''0xa'' = ''0xa''"
  by (rule trim_visible; simp add: visible_def char_code_def)+

lemmas ledger_eval =
  sample_settlement_def transaction_key_def spec_run_def spec_record_def spec_evict_def text_eval


theorem confirmation_immutable_witness:
  "record_settlement_in ascii_lower (sample_settlement ''0xA'' ''0xc'' False)
       (ledger_run ascii_lower 1 [sample_settlement ''0xa'' ''0xb'' True])
     = ledger_run ascii_lower 1 [sample_settlement ''0xa'' ''0xb'' True]"
proof -
  let ?l = "ledger_run ascii_lower 1 [sample_settlement ''0xa'' ''0xb'' True]"
  have "get_by_network_tx ''eip155:2368'' ''0xa'' ?l = Some (sample_settlement ''0xa'' ''0xb'' True)"
    by (simp add: ledger_run_def ledger_new_def record_settlement_in_def evict_oldest_def append_record_def
        get_by_network_tx_def ledger_eval Let_def)
  then show ?thesis
    by (rule confirmation_immutable) (simp_all add: sample_settlement_def text_eval)
qed

theorem stale_payer_index_witness:
  "find_by_payer (\<lambda>_. ''a'') ''B'' (ledger_run (\<lambda>_. ''a'') 1
      [sample_settlement ''0xa'' ''B'' False, sample_settlement ''0xa'' ''B'' True])
     = [sample_settlement ''0xa'' ''B'' False, sample_settlement ''0xa'' ''B'' True]"
proof -
  have "transaction_key (sample_settlement ''0xa'' ''B'' ok) = Some (''eip155:2368'', ''0xa'')" for ok
    by (simp add: ledger_eval)
  from stale_payer_index [OF this this, of False True "\<lambda>_. ''a''" 1]
  have "find_by_payer (\<lambda>_. ''a'') (sl_payer (sample_settlement ''0xa'' ''B'' False)) (ledger_run (\<lambda>_. ''a'') 1
      [sample_settlement ''0xa'' ''B'' False, sample_settlement ''0xa'' ''B'' True])
     = [sample_settlement ''0xa'' ''B'' False, sample_settlement ''0xa'' ''B'' True]"
    by (simp add: sample_settlement_def text_eval)
  then show ?thesis by (simp add: sample_settlement_def)
qed

end
