(* ===== verification/IpAddr.thy ===== *)
theory IpAddr
  imports Text_Lib
begin

unbundle bit_operations_syntax

text \<open>
  IP addresses (\<open>std::net::IpAddr\<close>): the two families with their ordering, the parser of the
  standard library, IPv4-mapped addresses, and prefix comparison of networks as the service's rate
  limiter (\<open>service/src/rate_limit.rs\<close>) and the library's firewall (\<open>kite-x402-axum/src/firewall.rs\<close>)
  use them. The lemmas say what a shifted comparison compares and what the parser accepts.
\<close>

datatype ip_addr = V4 u32 | V6 "128 word"

fun ip_key :: "ip_addr \<Rightarrow> nat \<times> nat" where
  "ip_key (V4 w) = (0, unat w)"
| "ip_key (V6 w) = (1, unat w)"

lemma ip_key_inject: "ip_key a = ip_key b \<longleftrightarrow> a = b"
  by (cases a; cases b) (auto simp: word_unat_eq_iff)

instantiation ip_addr :: linorder
begin

definition less_eq_ip_addr :: "ip_addr \<Rightarrow> ip_addr \<Rightarrow> bool" where
  "less_eq_ip_addr a b \<longleftrightarrow> ip_key a \<le> ip_key b"

definition less_ip_addr :: "ip_addr \<Rightarrow> ip_addr \<Rightarrow> bool" where
  "less_ip_addr a b \<longleftrightarrow> ip_key a < ip_key b"

instance
proof
  fix a b c :: ip_addr
  show "a < b \<longleftrightarrow> a \<le> b \<and> \<not> b \<le> a" by (auto simp: less_eq_ip_addr_def less_ip_addr_def)
  show "a \<le> a" by (simp add: less_eq_ip_addr_def)
  show "a \<le> b \<Longrightarrow> b \<le> c \<Longrightarrow> a \<le> c" by (simp add: less_eq_ip_addr_def)
  show "a \<le> b \<Longrightarrow> b \<le> a \<Longrightarrow> a = b"
    unfolding less_eq_ip_addr_def by (metis antisym ip_key_inject)
  show "a \<le> b \<or> b \<le> a" unfolding less_eq_ip_addr_def by (rule linear)
qed

end

subsection \<open>IPv4-mapped addresses\<close>

definition to_ipv4_mapped :: "128 word \<Rightarrow> u32 option" where
  "to_ipv4_mapped w = (if drop_bit 32 w = 0xFFFF then Some (ucast w) else None)"

definition map_to_ipv6 :: "u32 \<Rightarrow> 128 word" where
  "map_to_ipv6 w = 0xFFFF00000000 + ucast w"

subsection \<open>Parsing\<close>

text \<open>\<open>char::to_digit\<close>.\<close>

definition to_digit :: "nat \<Rightarrow> char \<Rightarrow> nat option" where
  "to_digit radix c =
     (let n = char_code c;
          d = (if 48 \<le> n \<and> n \<le> 57 then n - 48
               else if 97 \<le> n \<and> n \<le> 122 then n - 87
               else if 65 \<le> n \<and> n \<le> 90 then n - 55 else radix)
      in if d < radix then Some d else None)"

text \<open>Digits as long as there are any; too many of them or too large a value is a failure.\<close>

fun digit_run :: "nat \<Rightarrow> nat \<Rightarrow> nat \<Rightarrow> nat \<Rightarrow> nat \<Rightarrow> str \<Rightarrow> (nat \<times> nat \<times> str) option" where
  "digit_run radix max_digits limit n acc [] = Some (acc, n, [])"
| "digit_run radix max_digits limit n acc (c # cs) =
     (case to_digit radix c of
        None \<Rightarrow> Some (acc, n, c # cs)
      | Some d \<Rightarrow>
          if limit < acc * radix + d \<or> max_digits \<le> n then None
          else digit_run radix max_digits limit (Suc n) (acc * radix + d) cs)"

definition read_number :: "nat \<Rightarrow> nat \<Rightarrow> bool \<Rightarrow> nat \<Rightarrow> str \<Rightarrow> (nat \<times> str) option" where
  "read_number radix max_digits allow_zero_prefix limit s =
     (case digit_run radix max_digits limit 0 0 s of
        None \<Rightarrow> None
      | Some (v, n, rest) \<Rightarrow>
          if n = 0 then None
          else if \<not> allow_zero_prefix \<and> hd s = CHR ''0'' \<and> 1 < n then None
          else Some (v, rest))"

fun read_char :: "char \<Rightarrow> str \<Rightarrow> str option" where
  "read_char c [] = None"
| "read_char c (x # xs) = (if x = c then Some xs else None)"

definition read_separator :: "char \<Rightarrow> nat \<Rightarrow> (str \<Rightarrow> ('a \<times> str) option) \<Rightarrow> str \<Rightarrow> ('a \<times> str) option" where
  "read_separator sep i inner s = (if 0 < i then Option.bind (read_char sep s) inner else inner s)"

fun read_octets :: "nat \<Rightarrow> nat \<Rightarrow> str \<Rightarrow> (nat list \<times> str) option" where
  "read_octets 0 i s = Some ([], s)"
| "read_octets (Suc n) i s =
     (case read_separator CHR ''.'' i (read_number 10 3 False 255) s of
        None \<Rightarrow> None
      | Some (g, r) \<Rightarrow> map_option (\<lambda>(gs, r'). (g # gs, r')) (read_octets n (Suc i) r))"

definition number_of :: "nat \<Rightarrow> nat list \<Rightarrow> nat" where
  "number_of base ds = foldl (\<lambda>acc d. acc * base + d) 0 ds"

definition read_ipv4 :: "str \<Rightarrow> (u32 \<times> str) option" where
  "read_ipv4 s = map_option (\<lambda>(gs, r). (of_nat (number_of 256 gs), r)) (read_octets 4 0 s)"

text \<open>Groups of an IPv6 address, possibly ending in an IPv4 address in dotted form.\<close>

fun read_groups :: "nat \<Rightarrow> nat \<Rightarrow> str \<Rightarrow> nat list \<times> bool \<times> str" where
  "read_groups 0 i s = ([], False, s)"
| "read_groups (Suc n) i s =
     (case (if 0 < n then read_separator CHR '':'' i read_ipv4 s else None) of
        Some (w, r) \<Rightarrow> ([unat w div 65536, unat w mod 65536], True, r)
      | None \<Rightarrow>
          (case read_separator CHR '':'' i (read_number 16 4 True 65535) s of
             None \<Rightarrow> ([], False, s)
           | Some (g, r) \<Rightarrow>
               (case read_groups n (Suc i) r of (gs, v4, r') \<Rightarrow> (g # gs, v4, r'))))"

definition read_ipv6 :: "str \<Rightarrow> (128 word \<times> str) option" where
  "read_ipv6 s =
     (case read_groups 8 0 s of
        (front, v4, r) \<Rightarrow>
          if length front = 8 then Some (of_nat (number_of 65536 front), r)
          else if v4 then None
          else
            (case Option.bind (read_char CHR '':'' r) (read_char CHR '':'') of
               None \<Rightarrow> None
             | Some r \<Rightarrow>
                 (case read_groups (8 - (length front + 1)) 0 r of
                    (back, _, r) \<Rightarrow>
                      Some (of_nat (number_of 65536
                              (front @ replicate (8 - length front - length back) 0 @ back)), r))))"

text \<open>\<open>str::parse::<IpAddr>\<close>: one of the two, and nothing after it.\<close>

definition parse_ip :: "str \<Rightarrow> ip_addr option" where
  "parse_ip s =
     (case (case read_ipv4 s of Some (w, r) \<Rightarrow> Some (V4 w, r)
            | None \<Rightarrow> map_option (\<lambda>(w, r). (V6 w, r)) (read_ipv6 s)) of
        Some (ip, []) \<Rightarrow> Some ip
      | _ \<Rightarrow> None)"

lemmas read_numerals =
  read_octets.simps(2) [where n = "pred_numeral k", folded numeral_eq_Suc]
  read_groups.simps(2) [where n = "pred_numeral k", folded numeral_eq_Suc]
  replicate_Suc [where n = "pred_numeral k", folded numeral_eq_Suc] for k

lemmas parse_ip_eval = read_numerals
  parse_ip_def read_ipv4_def read_ipv6_def read_separator_def read_number_def to_digit_def number_of_def
  char_code_def

lemma parse_ip_examples:
  "parse_ip ''10.2.3.4'' = Some (V4 0x0A020304)" "parse_ip ''256.1.1.1'' = None"
  "parse_ip ''01.2.3.4'' = None" "parse_ip ''1.2.3'' = None" "parse_ip ''1.2.3.4:80'' = None"
  "parse_ip ''2001:db8::1'' = Some (V6 0x20010DB8000000000000000000000001)"
  "parse_ip ''::ffff:192.0.2.1'' = Some (V6 0xFFFFC0000201)" "parse_ip ''::'' = Some (V6 0)"
  by (simp_all add: parse_ip_eval)

subsection \<open>Prefixes\<close>

text \<open>\<open>(a >> (w - p)) == (b >> (w - p))\<close> compares the first \<open>p\<close> bits.\<close>

definition same_prefix :: "nat \<Rightarrow> 'a::len word \<Rightarrow> 'a word \<Rightarrow> bool" where
  "same_prefix p a b \<longleftrightarrow> (\<forall>i < p. bit a (LENGTH('a) - 1 - i) = bit b (LENGTH('a) - 1 - i))"

lemma shifted_eq_iff:
  fixes a b :: "'a::len word"
  assumes "p \<le> LENGTH('a)"
  shows "drop_bit (LENGTH('a) - p) a = drop_bit (LENGTH('a) - p) b \<longleftrightarrow> same_prefix p a b"
proof
  assume eq: "drop_bit (LENGTH('a) - p) a = drop_bit (LENGTH('a) - p) b"
  show "same_prefix p a b" unfolding same_prefix_def
  proof (intro allI impI)
    fix i assume "i < p"
    with assms have k: "(LENGTH('a) - p) + (p - 1 - i) = LENGTH('a) - 1 - i" by simp
    have "bit (drop_bit (LENGTH('a) - p) a) (p - 1 - i) = bit (drop_bit (LENGTH('a) - p) b) (p - 1 - i)"
      by (simp add: eq)
    then show "bit a (LENGTH('a) - 1 - i) = bit b (LENGTH('a) - 1 - i)"
      unfolding bit_drop_bit_eq comp_def k .
  qed
next
  assume same: "same_prefix p a b"
  show "drop_bit (LENGTH('a) - p) a = drop_bit (LENGTH('a) - p) b"
  proof (rule bit_word_eqI)
    fix n assume n: "n < LENGTH('a)"
    show "bit (drop_bit (LENGTH('a) - p) a) n = bit (drop_bit (LENGTH('a) - p) b) n"
    proof (cases "n < p")
      case True
      with assms have k: "LENGTH('a) - 1 - (p - 1 - n) = LENGTH('a) - p + n" "p - 1 - n < p" by auto
      from same k(2) have "bit a (LENGTH('a) - 1 - (p - 1 - n)) = bit b (LENGTH('a) - 1 - (p - 1 - n))"
        unfolding same_prefix_def by blast
      then show ?thesis unfolding bit_drop_bit_eq comp_def k .
    next
      case False
      with assms n have "LENGTH('a) \<le> LENGTH('a) - p + n" by simp
      then have "\<not> bit a (LENGTH('a) - p + n)" "\<not> bit b (LENGTH('a) - p + n)"
        by (auto dest: bit_imp_le_length)
      then show ?thesis by (simp add: bit_drop_bit_eq comp_def)
    qed
  qed
qed

lemma same_prefix_0 [simp]: "same_prefix 0 a b"
  by (simp add: same_prefix_def)

lemma unat_map_to_ipv6: "unat (map_to_ipv6 w) = 0xFFFF00000000 + unat w"
proof -
  have "unat (ucast w :: 128 word) = unat w"
    using unat_less_word_size [of w] by (simp add: unsigned_ucast_eq take_bit_nat_eq_self)
  then show ?thesis
    using unat_less_word_size [of w] by (simp add: map_to_ipv6_def unat_word_ariths)
qed

lemma to_ipv4_mapped_map [simp]: "to_ipv4_mapped (map_to_ipv6 w) = Some w"
proof -
  have lt: "unat w < 2 ^ 32" using unat_less_word_size [of w] by simp
  have "unat (drop_bit 32 (map_to_ipv6 w)) = 0xFFFF"
    unfolding unat_drop_bit_eq drop_bit_eq_div [where 'a = nat] unat_map_to_ipv6 using lt by simp
  then have "drop_bit 32 (map_to_ipv6 w) = (0xFFFF :: 128 word)" by (simp add: word_unat_eq_iff)
  moreover have "unat (ucast (map_to_ipv6 w) :: u32) = (65535 * 2 ^ 32 + unat w) mod 2 ^ 32"
    unfolding unsigned_ucast_eq unat_map_to_ipv6 take_bit_eq_mod [where 'a = nat] by simp
  then have "unat (ucast (map_to_ipv6 w) :: u32) = unat w"
    unfolding mod_mult_self3 using lt by simp
  then have "(ucast (map_to_ipv6 w) :: u32) = w" by (simp only: word_unat_eq_iff)
  ultimately show ?thesis by (simp add: to_ipv4_mapped_def)
qed

end
