(* ===== verification/Firewall.thy ===== *)
theory Firewall
  imports IpAddr
begin

text \<open>
  The IP firewall (\<open>kite-x402-axum/src/firewall.rs\<close>): exact and IPv4-subnet rules, a deny list, an
  allow list and a default. The subnet test subtracts the prefix from 32 in \<open>u8\<close>; a larger prefix,
  which only a rule built without \<open>subnet_v4\<close> can have, overflows there, and the result is \<open>None\<close>.
  The lock around the configuration makes each operation one step.

  The lemmas give the decision in terms of address prefixes, and show that a client reached under
  its IPv4-mapped address is outside every IPv4 subnet rule.
\<close>

datatype ip_filter_action = Allow | Deny

datatype firewall_rule = Exact ip_addr | SubnetV4 u32 u8

record ip_firewall_config =
  fw_default_action :: ip_filter_action
  fw_allow_rules :: "firewall_rule list"
  fw_deny_rules :: "firewall_rule list"

definition subnet_v4 :: "u32 \<Rightarrow> u8 \<Rightarrow> firewall_rule" where
  "subnet_v4 network prefix = SubnetV4 network (min prefix 32)"

definition prefix_mask :: "u8 \<Rightarrow> u32" where
  "prefix_mask prefix = NOT (push_bit (unat (32 - prefix)) 1 - 1)"

fun rule_matches :: "firewall_rule \<Rightarrow> ip_addr \<Rightarrow> bool option" where
  "rule_matches (Exact rule_ip) ip = Some (rule_ip = ip)"
| "rule_matches (SubnetV4 network prefix) (V4 client) =
     (if prefix = 0 then Some True
      else if 32 < prefix then None
      else Some (network AND prefix_mask prefix = client AND prefix_mask prefix))"
| "rule_matches (SubnetV4 network prefix) (V6 client) = Some False"

definition default_firewall_config :: ip_firewall_config where
  "default_firewall_config = \<lparr>fw_default_action = Allow, fw_allow_rules = [], fw_deny_rules = []\<rparr>"

definition firewall_new :: "ip_firewall_config \<Rightarrow> ip_firewall_config" where
  "firewall_new config = config"

text \<open>The loop over a rule list with its early return.\<close>

fun first_match :: "firewall_rule list \<Rightarrow> ip_addr \<Rightarrow> bool option" where
  "first_match [] ip = Some False"
| "first_match (rule # rules) ip =
     (case rule_matches rule ip of
        None \<Rightarrow> None
      | Some True \<Rightarrow> Some True
      | Some False \<Rightarrow> first_match rules ip)"

definition evaluate :: "ip_firewall_config \<Rightarrow> ip_addr \<Rightarrow> ip_filter_action option" where
  "evaluate config ip =
     (case first_match (fw_deny_rules config) ip of
        None \<Rightarrow> None
      | Some True \<Rightarrow> Some Deny
      | Some False \<Rightarrow>
          if fw_allow_rules config \<noteq> [] then
            (case first_match (fw_allow_rules config) ip of
               None \<Rightarrow> None
             | Some True \<Rightarrow> Some Allow
             | Some False \<Rightarrow> Some Deny)
          else Some (fw_default_action config))"

definition is_allowed :: "ip_firewall_config \<Rightarrow> ip_addr \<Rightarrow> bool option" where
  "is_allowed config ip = map_option (\<lambda>action. action = Allow) (evaluate config ip)"

definition firewall_deny :: "firewall_rule \<Rightarrow> ip_firewall_config \<Rightarrow> ip_firewall_config" where
  "firewall_deny rule config = config\<lparr>fw_deny_rules := fw_deny_rules config @ [rule]\<rparr>"

definition firewall_allow :: "firewall_rule \<Rightarrow> ip_firewall_config \<Rightarrow> ip_firewall_config" where
  "firewall_allow rule config = config\<lparr>fw_allow_rules := fw_allow_rules config @ [rule]\<rparr>"

subsection \<open>What a rule covers\<close>

lemma and_mask_eq_iff: "a AND NOT (mask n) = b AND NOT (mask n) \<longleftrightarrow> drop_bit n a = drop_bit n b"
  for a b :: "'a::len word"
proof
  assume eq: "a AND NOT (mask n) = b AND NOT (mask n)"
  show "drop_bit n a = drop_bit n b"
  proof (rule bit_word_eqI)
    fix i assume "i < LENGTH('a)"
    have "bit (a AND NOT (mask n)) (n + i) = bit (b AND NOT (mask n)) (n + i)" by (simp add: eq)
    then show "bit (drop_bit n a) i = bit (drop_bit n b) i"
      by (auto simp: bit_simps dest: bit_imp_le_length)
  qed
next
  assume eq: "drop_bit n a = drop_bit n b"
  show "a AND NOT (mask n) = b AND NOT (mask n)"
  proof (rule bit_word_eqI)
    fix i assume i: "i < LENGTH('a)"
    have "n \<le> i \<Longrightarrow> bit (drop_bit n a) (i - n) = bit (drop_bit n b) (i - n)" by (simp add: eq)
    then show "bit (a AND NOT (mask n)) i = bit (b AND NOT (mask n)) i"
      using i by (auto simp: bit_simps)
  qed
qed

definition covers :: "firewall_rule \<Rightarrow> ip_addr \<Rightarrow> bool" where
  "covers rule ip \<longleftrightarrow>
     (case rule of Exact r \<Rightarrow> r = ip
      | SubnetV4 network prefix \<Rightarrow> (\<exists>c. ip = V4 c \<and> same_prefix (unat prefix) network c))"

definition rule_ok :: "firewall_rule \<Rightarrow> bool" where
  "rule_ok rule \<longleftrightarrow> (case rule of Exact _ \<Rightarrow> True | SubnetV4 _ prefix \<Rightarrow> prefix \<le> 32)"

lemma rule_ok_subnet [simp, intro]: "rule_ok (subnet_v4 network prefix)"
  by (simp add: rule_ok_def subnet_v4_def)

lemma rule_matches_covers:
  assumes "rule_ok rule"
  shows "rule_matches rule ip = Some (covers rule ip)"
proof (cases rule)
  case (SubnetV4 network prefix)
  with assms have le: "prefix \<le> 32" by (simp add: rule_ok_def)
  then have le': "unat prefix \<le> 32" by (simp add: word_le_nat_alt)
  have "unat (32 - prefix) = 32 - unat prefix" using le by (simp add: unat_sub)
  then have mask: "prefix_mask prefix = NOT (mask (32 - unat prefix))"
    by (simp add: prefix_mask_def mask_eq_exp_minus_1 push_bit_eq_mult)
  have "network AND prefix_mask prefix = c AND prefix_mask prefix \<longleftrightarrow> same_prefix (unat prefix) network c" for c
    unfolding mask and_mask_eq_iff using shifted_eq_iff [of "unat prefix" network c] le' by simp
  then show ?thesis using SubnetV4 le
    by (cases ip) (auto simp: covers_def unat_eq_zero not_less)
qed (simp add: covers_def)

lemma first_match_covers:
  "list_all rule_ok rules \<Longrightarrow> first_match rules ip = Some (\<exists>rule \<in> set rules. covers rule ip)"
  by (induction rules) (auto simp: rule_matches_covers split: bool.splits)

subsection \<open>Properties\<close>

text \<open>
  C39: the decision. When every subnet rule has a prefix of at most 32 bits, as those made by
  \<open>subnet_v4\<close> have, the firewall answers, and the answer is: denied if a deny rule covers the
  address, even if an allow rule does as well; otherwise, if there are allow rules, allowed exactly
  if one of them covers it; otherwise the default. A subnet rule covers the IPv4 addresses that
  agree with its network on the first \<open>prefix\<close> bits.
\<close>
theorem firewall_decision:
  assumes "list_all rule_ok (fw_deny_rules config)" "list_all rule_ok (fw_allow_rules config)"
  shows "evaluate config ip = Some
    (if \<exists>rule \<in> set (fw_deny_rules config). covers rule ip then Deny
     else if fw_allow_rules config = [] then fw_default_action config
     else if \<exists>rule \<in> set (fw_allow_rules config). covers rule ip then Allow else Deny)"
  using assms by (simp add: evaluate_def first_match_covers split: bool.split)

text \<open>
  IPv4 subnet rules do not see IPv4-mapped addresses. Whatever subnets are denied, and even if
  the client's IPv4 address is in one of them, the same client connecting under its mapped IPv6
  address, as on a dual-stack socket, is allowed by a firewall that allows by default.
\<close>
theorem mapped_address_evades_subnets:
  assumes "fw_default_action config = Allow" "fw_allow_rules config = []"
    and "\<forall>rule \<in> set (fw_deny_rules config). \<exists>network prefix. rule = subnet_v4 network prefix"
  shows "is_allowed config (V6 (map_to_ipv6 client)) = Some True"
proof -
  have "list_all rule_ok (fw_deny_rules config)" using assms(3) by (auto simp: list_all_iff)
  moreover have "\<not> (\<exists>rule \<in> set (fw_deny_rules config). covers rule (V6 (map_to_ipv6 client)))"
    using assms(3) by (auto simp: covers_def subnet_v4_def)
  ultimately show ?thesis
    using assms(1,2) by (simp add: is_allowed_def evaluate_def first_match_covers)
qed

theorem firewall_decision_witness:
  "let config = firewall_deny (subnet_v4 0x0A000000 8) (firewall_allow (Exact (V4 0x0A000001)) default_firewall_config)
   in evaluate config (V4 0x0A000001) = Some Deny"
proof -
  let ?config = "firewall_deny (subnet_v4 0x0A000000 8) (firewall_allow (Exact (V4 0x0A000001)) default_firewall_config)"
  have ok: "list_all rule_ok (fw_deny_rules ?config)" "list_all rule_ok (fw_allow_rules ?config)"
    by (simp_all add: firewall_deny_def firewall_allow_def default_firewall_config_def) (simp add: rule_ok_def)
  have "covers (subnet_v4 0x0A000000 8) (V4 0x0A000001)"
    using rule_matches_covers [OF rule_ok_subnet, of "0x0A000000" 8 "V4 0x0A000001"]
    by (simp add: subnet_v4_def prefix_mask_def min_def)
  then show ?thesis
    using firewall_decision [OF ok, of "V4 0x0A000001"]
    by (simp add: Let_def firewall_deny_def firewall_allow_def default_firewall_config_def)
qed

theorem mapped_address_evades_subnets_witness:
  "is_allowed (firewall_deny (subnet_v4 0x0A000000 8) default_firewall_config) (V4 0x0A000001) = Some False
   \<and> is_allowed (firewall_deny (subnet_v4 0x0A000000 8) default_firewall_config)
       (V6 (map_to_ipv6 0x0A000001)) = Some True"
proof -
  have "is_allowed (firewall_deny (subnet_v4 0x0A000000 8) default_firewall_config)
       (V6 (map_to_ipv6 0x0A000001)) = Some True"
    by (rule mapped_address_evades_subnets)
      (auto simp: firewall_deny_def default_firewall_config_def)
  moreover have "is_allowed (firewall_deny (subnet_v4 0x0A000000 8) default_firewall_config) (V4 0x0A000001) = Some False"
    by (simp add: is_allowed_def evaluate_def firewall_deny_def default_firewall_config_def
        subnet_v4_def prefix_mask_def min_def)
  ultimately show ?thesis by simp
qed

end
