(* ===== verification/TrustedProxies.thy ===== *)
theory TrustedProxies
  imports IpAddr Sample_Codec
begin

text \<open>
  Whom a request comes from (\<open>service/src/rate_limit.rs\<close>, first part): the networks of trusted
  proxies, their parser and membership test, and \<open>client_ip\<close>, which walks the forwarding headers
  from the nearest hop outwards. A header value is text or not, as \<open>header_text\<close> says (package
  \<open>http\<close>).

  The lemmas give membership by address prefix, and show that what a client writes into the
  forwarding headers cannot reach past the first untrusted hop.
\<close>

record ip_network =
  in_address :: ip_addr
  in_prefix :: nat

type_synonym trusted_proxies = "ip_network list"

fun normalize_ip :: "ip_addr \<Rightarrow> ip_addr" where
  "normalize_ip (V6 w) = (case to_ipv4_mapped w of Some v4 \<Rightarrow> V4 v4 | None \<Rightarrow> V6 w)"
| "normalize_ip (V4 w) = V4 w"

definition address_bits :: "ip_addr \<Rightarrow> nat" where
  "address_bits ip = (case ip of V4 _ \<Rightarrow> 32 | V6 _ \<Rightarrow> 128)"

text \<open>One element of the list, trimmed: an address, optionally with a prefix length.\<close>

definition parse_network :: "str \<Rightarrow> ip_network option" where
  "parse_network value =
     (case (case split_once CHR ''/'' value of
              Some (address, prefix) \<Rightarrow> map_option (\<lambda>p. (address, Some p)) (parse_unsigned 255 prefix)
            | None \<Rightarrow> Some (value, None)) of
        None \<Rightarrow> None
      | Some (address, prefix) \<Rightarrow>
        (case parse_ip address of
           None \<Rightarrow> None
         | Some address \<Rightarrow>
             let bits = address_bits address;
                 prefix = (case prefix of Some p \<Rightarrow> p | None \<Rightarrow> bits)
             in if bits < prefix then None
                else
                  (case address of
                     V4 _ \<Rightarrow> Some \<lparr>in_address = address, in_prefix = prefix\<rparr>
                   | V6 ip \<Rightarrow>
                       (case to_ipv4_mapped ip of
                          Some ip \<Rightarrow>
                            if prefix < 96 then None
                            else Some \<lparr>in_address = V4 ip, in_prefix = prefix - 96\<rparr>
                        | None \<Rightarrow> Some \<lparr>in_address = address, in_prefix = prefix\<rparr>))))"

fun parse_networks :: "str list \<Rightarrow> trusted_proxies option" where
  "parse_networks [] = Some []"
| "parse_networks (v # vs) =
     (case parse_network (trim v) of
        None \<Rightarrow> None
      | Some n \<Rightarrow> map_option (\<lambda>ns. n # ns) (parse_networks vs))"

definition parse_proxies :: "str \<Rightarrow> trusted_proxies option" where
  "parse_proxies value = (if trim value = [] then Some [] else parse_networks (split_on CHR '','' value))"

definition network_contains :: "ip_network \<Rightarrow> ip_addr \<Rightarrow> bool" where
  "network_contains network ip =
     (case (in_address network, ip) of
        (V4 network_ip, V4 ip) \<Rightarrow>
          in_prefix network = 0
          \<or> drop_bit (32 - in_prefix network) network_ip = drop_bit (32 - in_prefix network) ip
      | (V6 network_ip, V6 ip) \<Rightarrow>
          in_prefix network = 0
          \<or> drop_bit (128 - in_prefix network) network_ip = drop_bit (128 - in_prefix network) ip
      | _ \<Rightarrow> False)"

definition proxies_contain :: "trusted_proxies \<Rightarrow> ip_addr \<Rightarrow> bool" where
  "proxies_contain proxies ip = list_ex (\<lambda>network. network_contains network (normalize_ip ip)) proxies"

text \<open>
  The inner loop over the hops of one field, last first: \<open>Inl\<close> returns from the function, \<open>Inr\<close>
  goes on with the client found so far.
\<close>

fun read_hops :: "trusted_proxies \<Rightarrow> ip_addr \<Rightarrow> str list \<Rightarrow> (unit + ip_addr) + ip_addr" where
  "read_hops proxies client [] = Inr client"
| "read_hops proxies client (hop # hops) =
     (if \<not> proxies_contain proxies client then Inl (Inr client)
      else
        (case parse_ip (trim hop) of
           None \<Rightarrow> Inl (Inl ())
         | Some ip \<Rightarrow> read_hops proxies (normalize_ip ip) hops))"

fun read_values :: "externals \<Rightarrow> trusted_proxies \<Rightarrow> ip_addr \<Rightarrow> str list \<Rightarrow> unit + ip_addr" where
  "read_values x proxies client [] = Inr client"
| "read_values x proxies client (v # vs) =
     (if \<not> proxies_contain proxies client then Inr client
      else
        (case to_str_ok x v of
           None \<Rightarrow> Inl ()
         | Some text \<Rightarrow>
             (case read_hops proxies client (rev (split_on CHR '','' text)) of
                Inl res \<Rightarrow> res
              | Inr client \<Rightarrow> read_values x proxies client vs)))"

definition client_ip :: "externals \<Rightarrow> headers \<Rightarrow> ip_addr \<Rightarrow> trusted_proxies \<Rightarrow> unit + ip_addr" where
  "client_ip x hs peer proxies =
     (let client = normalize_ip peer
      in if \<not> proxies_contain proxies client then Inr client
         else if hcontains ''x-forwarded-for'' hs
         then read_values x proxies client (rev (hget_all ''x-forwarded-for'' hs))
         else
           (case hget ''x-real-ip'' hs of
              None \<Rightarrow> Inr client
            | Some value \<Rightarrow>
                if length (hget_all ''x-real-ip'' hs) \<noteq> 1 then Inl ()
                else
                  (case Option.bind (to_str_ok x value) (\<lambda>text. parse_ip (trim text)) of
                     None \<Rightarrow> Inl ()
                   | Some ip \<Rightarrow> Inr (normalize_ip ip))))"

subsection \<open>Membership\<close>

lemma normalize_ip_mapped [simp]: "normalize_ip (V6 (map_to_ipv6 w)) = V4 w"
  by simp

lemma normalize_ip_idem [simp]: "normalize_ip (normalize_ip ip) = normalize_ip ip"
  by (cases ip) (auto split: option.split)

definition network_ok :: "ip_network \<Rightarrow> bool" where
  "network_ok n \<longleftrightarrow> in_prefix n \<le> address_bits (in_address n) \<and> normalize_ip (in_address n) = in_address n"

lemma parse_network_ok: "parse_network v = Some n \<Longrightarrow> network_ok n"
  by (auto simp: parse_network_def Let_def network_ok_def address_bits_def
      split: option.splits prod.splits if_splits ip_addr.splits)

lemma parse_networks_ok: "parse_networks vs = Some ns \<Longrightarrow> list_all network_ok ns"
  by (induction vs arbitrary: ns) (auto split: option.splits dest: parse_network_ok)

lemma parse_proxies_ok: "parse_proxies v = Some ns \<Longrightarrow> list_all network_ok ns"
  by (auto simp: parse_proxies_def split: if_splits dest: parse_networks_ok)

text \<open>Agreement on the leading bits, within one address family.\<close>

fun in_network :: "ip_addr \<Rightarrow> nat \<Rightarrow> ip_addr \<Rightarrow> bool" where
  "in_network (V4 a) p (V4 b) = same_prefix p a b"
| "in_network (V6 a) p (V6 b) = same_prefix p a b"
| "in_network _ p _ = False"

lemma network_contains_iff:
  assumes "network_ok n"
  shows "network_contains n ip \<longleftrightarrow> in_network (in_address n) (in_prefix n) ip"
proof (cases "in_address n")
  case (V4 a)
  with assms have le: "in_prefix n \<le> 32" by (simp add: network_ok_def address_bits_def)
  have "drop_bit (32 - in_prefix n) a = drop_bit (32 - in_prefix n) b \<longleftrightarrow> same_prefix (in_prefix n) a b" for b
    using shifted_eq_iff [of "in_prefix n" a b] le by simp
  then have "in_prefix n = 0 \<or> drop_bit (32 - in_prefix n) a = drop_bit (32 - in_prefix n) b
      \<longleftrightarrow> same_prefix (in_prefix n) a b" for b
    by (metis same_prefix_0)
  with V4 show ?thesis by (cases ip) (simp_all add: network_contains_def)
next
  case (V6 a)
  with assms have le: "in_prefix n \<le> 128" by (simp add: network_ok_def address_bits_def)
  have "drop_bit (128 - in_prefix n) a = drop_bit (128 - in_prefix n) b \<longleftrightarrow> same_prefix (in_prefix n) a b" for b
    using shifted_eq_iff [of "in_prefix n" a b] le by simp
  then have "in_prefix n = 0 \<or> drop_bit (128 - in_prefix n) a = drop_bit (128 - in_prefix n) b
      \<longleftrightarrow> same_prefix (in_prefix n) a b" for b
    by (metis same_prefix_0)
  with V6 show ?thesis by (cases ip) (simp_all add: network_contains_def)
qed

text \<open>
  Membership is agreement on the prefix. For a list the parser accepts, no shift is out of
  range, and an address is trusted exactly when, after unwrapping an IPv4-mapped address, some
  network of its family agrees with it on the first \<open>prefix\<close> bits; so a mapped address and its IPv4
  address are trusted alike.
\<close>
theorem trusted_iff_prefix:
  assumes "parse_proxies value = Some proxies"
  shows "(\<forall>n \<in> set proxies. in_prefix n \<le> address_bits (in_address n))
     \<and> (proxies_contain proxies ip \<longleftrightarrow>
          (\<exists>n \<in> set proxies. in_network (in_address n) (in_prefix n) (normalize_ip ip)))
     \<and> proxies_contain proxies (V6 (map_to_ipv6 w)) = proxies_contain proxies (V4 w)"
proof -
  have ok: "\<forall>n \<in> set proxies. network_ok n"
    using parse_proxies_ok [OF assms] by (simp add: list_all_iff)
  then show ?thesis
    by (auto simp: proxies_contain_def list_ex_iff network_contains_iff network_ok_def)
qed

subsection \<open>The chain of hops\<close>

text \<open>The walk over all hops, as if the fields were one list.\<close>

fun walk :: "trusted_proxies \<Rightarrow> ip_addr \<Rightarrow> str list \<Rightarrow> unit + ip_addr" where
  "walk proxies client [] = Inr client"
| "walk proxies client (hop # hops) =
     (if \<not> proxies_contain proxies client then Inr client
      else
        (case parse_ip (trim hop) of
           None \<Rightarrow> Inl ()
         | Some ip \<Rightarrow> walk proxies (normalize_ip ip) hops))"

definition hops_of :: "str list \<Rightarrow> str list" where
  "hops_of values = concat (map (split_on CHR '','') values)"

lemma walk_untrusted: "\<not> proxies_contain proxies client \<Longrightarrow> walk proxies client hops = Inr client"
  by (cases hops) auto

lemma read_hops_walk:
  "(case read_hops proxies client hops of Inl res \<Rightarrow> res | Inr c \<Rightarrow> walk proxies c rest)
     = walk proxies client (hops @ rest)"
  by (induction hops arbitrary: client) (auto simp: walk_untrusted split: option.split)

lemma read_values_walk:
  assumes "\<forall>v \<in> set vs. header_text x v"
  shows "read_values x proxies client vs = walk proxies client (concat (map (\<lambda>v. rev (split_on CHR '','' v)) vs))"
  using assms
proof (induction vs arbitrary: client)
  case (Cons v vs)
  then have IH: "read_values x proxies c vs = walk proxies c (concat (map (\<lambda>v. rev (split_on CHR '','' v)) vs))" for c
    by simp
  have "read_values x proxies client (v # vs)
      = (if \<not> proxies_contain proxies client then Inr client
         else case read_hops proxies client (rev (split_on CHR '','' v)) of
                Inl res \<Rightarrow> res
              | Inr c \<Rightarrow> walk proxies c (concat (map (\<lambda>v. rev (split_on CHR '','' v)) vs)))"
    using Cons.prems by (simp add: to_str_ok_def IH split: sum.split)
  then show ?case by (simp add: read_hops_walk walk_untrusted)
qed simp

lemma rev_hops_of: "concat (map (\<lambda>v. rev (split_on CHR '','' v)) (rev vs)) = rev (hops_of vs)"
  by (induction vs) (auto simp: hops_of_def)

lemma walk_append:
  assumes "walk proxies client hops = Inr a" "\<not> proxies_contain proxies a"
  shows "walk proxies client (hops @ further) = Inr a"
  using assms by (induction hops arbitrary: client) (auto simp: walk_untrusted split: option.splits if_splits)

lemma client_ip_walk:
  assumes "hget_all ''x-forwarded-for'' hs \<noteq> []" "\<forall>v \<in> set (hget_all ''x-forwarded-for'' hs). header_text x v"
  shows "client_ip x hs peer proxies
     = walk proxies (normalize_ip peer) (rev (hops_of (hget_all ''x-forwarded-for'' hs)))"
proof -
  have "hcontains ''x-forwarded-for'' hs" using assms(1) by (simp add: hm.contains_iff)
  moreover have "read_values x proxies (normalize_ip peer) (rev (hget_all ''x-forwarded-for'' hs))
      = walk proxies (normalize_ip peer) (rev (hops_of (hget_all ''x-forwarded-for'' hs)))"
    using assms(2) by (simp add: read_values_walk rev_hops_of)
  ultimately show ?thesis by (auto simp: client_ip_def Let_def walk_untrusted)
qed

lemma split_on_append_comma: "split_on c (a @ c # b) = split_on c a @ split_on c b"
  by (induction a) (auto simp: split_on_def split: list.splits)

lemma read_hops_prefix:
  assumes "(case read_hops proxies client hops of Inl res \<Rightarrow> res | Inr c \<Rightarrow> Inr c) = Inr a"
    and "\<not> proxies_contain proxies a"
  shows "read_hops proxies client (hops @ further) \<in> {Inl (Inr a), Inr a}"
  using assms
proof (induction hops arbitrary: client)
  case Nil
  then show ?case by (cases further) auto
qed (auto split: option.splits if_splits)


lemma walk_iff:
  "walk proxies client hops = Inr a \<longleftrightarrow>
     (\<exists>ips. map (\<lambda>hop. parse_ip (trim hop)) (take (length ips) hops) = map Some ips
        \<and> a = last (client # map normalize_ip ips)
        \<and> (\<forall>b \<in> set (butlast (client # map normalize_ip ips)). proxies_contain proxies b)
        \<and> (length ips = length hops \<or> \<not> proxies_contain proxies a))"
  (is "_ \<longleftrightarrow> (\<exists>ips. ?path client hops ips)")
proof (induction hops arbitrary: client)
  case (Cons hop hops)
  show ?case
  proof (cases "proxies_contain proxies client")
    case False
    have "?path client (hop # hops) ips \<longleftrightarrow> ips = [] \<and> a = client" for ips
      using False by (cases ips) auto
    with False show ?thesis by auto
  next
    case True
    have "?path client (hop # hops) ips \<longleftrightarrow>
        (\<exists>ip ips'. ips = ip # ips' \<and> parse_ip (trim hop) = Some ip \<and> ?path (normalize_ip ip) hops ips')" for ips
      using True by (cases ips) auto
    then have "(\<exists>ips. ?path client (hop # hops) ips) \<longleftrightarrow>
        (\<exists>ip. parse_ip (trim hop) = Some ip \<and> (\<exists>ips'. ?path (normalize_ip ip) hops ips'))"
      by auto
    also have "\<dots> \<longleftrightarrow> (\<exists>ip. parse_ip (trim hop) = Some ip \<and> walk proxies (normalize_ip ip) hops = Inr a)"
      by (simp add: Cons.IH)
    finally show ?thesis using True by (simp split: option.split)
  qed
qed auto

text \<open>
  Which hop is the client. Reading the forwarded hops from the last one outwards, the client is
  the first address that is not a trusted proxy, starting with the peer itself, or the outermost
  hop when all are trusted; every hop up to it has to be an address, and nothing beyond it is read.
\<close>
theorem forwarded_chain:
  fixes hs :: headers
  defines "hops \<equiv> hops_of (hget_all ''x-forwarded-for'' hs)"
  assumes "hget_all ''x-forwarded-for'' hs \<noteq> []" "\<forall>v \<in> set (hget_all ''x-forwarded-for'' hs). header_text x v"
  shows "client_ip x hs peer proxies = Inr a \<longleftrightarrow>
     (\<exists>ips. map (\<lambda>hop. parse_ip (trim hop)) (take (length ips) (rev hops)) = map Some ips
        \<and> a = last (normalize_ip peer # map normalize_ip ips)
        \<and> (\<forall>b \<in> set (butlast (normalize_ip peer # map normalize_ip ips)). proxies_contain proxies b)
        \<and> (length ips = length hops \<or> \<not> proxies_contain proxies a))"
  using client_ip_walk [OF assms(2,3)] walk_iff [of proxies "normalize_ip peer" "rev hops" a]
  by (simp add: hops_def)

subsection \<open>Samples\<close>

definition sample_headers :: "str \<Rightarrow> headers" where
  "sample_headers v = [(''x-forwarded-for'', v)]"

lemma sample_networks: "parse_proxies ''10.0.0.0/8'' = Some [\<lparr>in_address = V4 0x0A000000, in_prefix = 8\<rparr>]"
proof -
  have "trim ''10.0.0.0/8'' = ''10.0.0.0/8''"
    by (rule trim_visible) (simp_all add: visible_def char_code_def)
  then show ?thesis
    by (simp add: parse_proxies_def parse_network_def split_on_def parse_ip_eval parse_unsigned_def
        is_ascii_digit_def address_bits_def Let_def)
qed

abbreviation sample_proxies :: trusted_proxies where
  "sample_proxies \<equiv> [\<lparr>in_address = V4 0x0A000000, in_prefix = 8\<rparr>]"

lemma sample_trusted:
  "proxies_contain sample_proxies (V4 0x0A000001)" "proxies_contain sample_proxies (V4 0x0A000002)"
  "\<not> proxies_contain sample_proxies (V4 0xCB007109)"
  by (simp_all add: proxies_contain_def network_contains_def)

lemma sample_chain:
  "parse_ip (trim '' 10.0.0.2'') = Some (V4 0x0A000002)"
  "parse_ip (trim ''203.0.113.9'') = Some (V4 0xCB007109)"
proof -
  have "trim '' 10.0.0.2'' = ''10.0.0.2''"
    unfolding trim_blank by (rule trim_visible) (simp_all add: visible_def char_code_def)
  then show "parse_ip (trim '' 10.0.0.2'') = Some (V4 0x0A000002)" by (simp add: parse_ip_eval)
  have "trim ''203.0.113.9'' = ''203.0.113.9''"
    by (rule trim_visible) (simp_all add: visible_def char_code_def)
  then show "parse_ip (trim ''203.0.113.9'') = Some (V4 0xCB007109)" by (simp add: parse_ip_eval)
qed

theorem trusted_iff_prefix_witness:
  "proxies_contain sample_proxies (V4 0x0A000001) \<and> proxies_contain sample_proxies (V6 (map_to_ipv6 0x0A000001))"
  using trusted_iff_prefix [OF sample_networks, of "V4 0x0A000001" "0x0A000001"] sample_trusted by blast

lemma sample_client:
  assumes "header_text x ''203.0.113.9, 10.0.0.2''"
  shows "client_ip x (sample_headers ''203.0.113.9, 10.0.0.2'') (V4 0x0A000001) sample_proxies = Inr (V4 0xCB007109)"
  using assms sample_trusted sample_chain
  by (simp add: client_ip_def sample_headers_def hcontains_def hget_all_def ascii_lower_def lower_char_def
      is_ascii_upper_def char_code_def to_str_ok_def split_on_def)


theorem forwarded_chain_witness:
  "\<exists>ips. map (\<lambda>hop. parse_ip (trim hop)) (take (length ips) ['' 10.0.0.2'', ''203.0.113.9'']) = map Some ips
     \<and> V4 0xCB007109 = last (V4 0x0A000001 # map normalize_ip ips)"
proof -
  let ?x = "sample_externals\<lparr>header_text := \<lambda>_. True\<rparr>" and ?hs = "sample_headers ''203.0.113.9, 10.0.0.2''"
  have all: "hget_all ''x-forwarded-for'' ?hs = [''203.0.113.9, 10.0.0.2'']"
    by (simp add: sample_headers_def hget_all_def ascii_lower_def lower_char_def is_ascii_upper_def char_code_def)
  then have hops: "hops_of (hget_all ''x-forwarded-for'' ?hs) = [''203.0.113.9'', '' 10.0.0.2'']"
    by (simp add: hops_of_def split_on_def)
  have "client_ip ?x ?hs (V4 0x0A000001) sample_proxies = Inr (V4 0xCB007109)"
    by (rule sample_client) simp
  then show ?thesis
    using forwarded_chain [of ?hs ?x "V4 0x0A000001" sample_proxies "V4 0xCB007109"]
    unfolding hops unfolding all by (auto simp del: last.simps butlast.simps)
qed

end
