(* ===== verification/RateLimit.thy ===== *)
theory RateLimit
  imports TrustedProxies F64 Expiry
begin

text \<open>
  The token-bucket rate limiter of the service (\<open>service/src/rate_limit.rs\<close>): one bucket per client
  address, refilled in \<open>f64\<close> arithmetic, with a bounded store and the bounded expiry index of
  \<open>Expiry\<close>. The mutex makes \<open>acquire\<close> one step; the instant it is called with is an argument. The
  decimal print of a double in a response header is a parameter.

  The lemmas bound the store, bound what one client is granted over any sequence of calls by any
  clients, rounding included, and give the exact behaviour of a burst.
\<close>

record rate_limiter_config =
  rl_rps :: f64
  rl_burst :: f64
  rl_trusted_proxies :: trusted_proxies
  rl_max_clients :: nat
  rl_idle_timeout :: duration

record bucket =
  bu_tokens :: f64
  bu_last_refill :: instant
  bu_expires_at :: "instant option"

record bucket_store =
  bs_clients :: "(ip_addr, bucket) fmap"
  bs_expirations :: "(instant \<times> ip_addr) list"

datatype rate_limit_rejection = Quota u64 | Capacity

record rate_limiter =
  tb_config :: rate_limiter_config
  tb_buckets :: bucket_store

definition rate_limiter_new :: "rate_limiter_config \<Rightarrow> rate_limiter" where
  "rate_limiter_new config = \<lparr>tb_config = config,
     tb_buckets = \<lparr>bs_clients = fmempty, bs_expirations = []\<rparr>\<rparr>"

lemma rate_limiter_new_fields [simp]:
  "tb_config (rate_limiter_new c) = c" "bs_clients (tb_buckets (rate_limiter_new c)) = fmempty"
  "bs_expirations (tb_buckets (rate_limiter_new c)) = []"
  by (simp_all add: rate_limiter_new_def)

text \<open>What a call does to the bucket of its client.\<close>

definition fresh_bucket :: "rate_limiter_config \<Rightarrow> instant \<Rightarrow> bucket" where
  "fresh_bucket c now = \<lparr>bu_tokens = rl_burst c, bu_last_refill = now, bu_expires_at = None\<rparr>"

definition refilled :: "rate_limiter_config \<Rightarrow> instant \<Rightarrow> bucket \<Rightarrow> f64" where
  "refilled c now b =
     (let elapsed = as_secs_f64 (duration_since now (bu_last_refill b))
      in min (f64_mul_add elapsed (rl_rps c) (bu_tokens b)) (rl_burst c))"

definition take_token :: "rate_limiter_config \<Rightarrow> f64 \<Rightarrow> (rate_limit_rejection + u64) \<times> f64" where
  "take_token c tokens =
     (if 1 \<le> tokens then let tokens = f64_sub tokens 1 in (Inr (f64_to_u64 tokens), tokens)
      else
        let needed = f64_sub 1 tokens;
            wait_secs = f64_to_u64 (f64_ceil (f64_div needed (rl_rps c)))
        in (Inl (Quota (max wait_secs 1)), tokens))"

definition bucket_deadline :: "rate_limiter_config \<Rightarrow> instant \<Rightarrow> f64 \<Rightarrow> instant option" where
  "bucket_deadline c now tokens =
     Option.bind (try_from_secs_f64 (f64_ceil (f64_div (f64_sub (rl_burst c) tokens) (rl_rps c))))
       (\<lambda>refill. instant_checked_add now (max refill (rl_idle_timeout c)))"

definition spend :: "rate_limiter_config \<Rightarrow> instant \<Rightarrow> bucket \<Rightarrow> (rate_limit_rejection + u64) \<times> bucket" where
  "spend c now b =
     (let now = max now (bu_last_refill b);
          (result, tokens) = take_token c (refilled c now b)
      in (result, \<lparr>bu_tokens = tokens, bu_last_refill = now,
                   bu_expires_at = bucket_deadline c now tokens\<rparr>))"

definition rl_acquire :: "ip_addr \<Rightarrow> instant \<Rightarrow> rate_limiter \<Rightarrow> (rate_limit_rejection + u64) \<times> rate_limiter" where
  "rl_acquire client now l =
     (let client = normalize_ip client;
          c = tb_config l;
          (clients, expirations) = expire_loop 64 now (bs_clients (tb_buckets l)) (bs_expirations (tb_buckets l))
      in if client |\<notin>| fmdom clients \<and> rl_max_clients c \<le> map_len clients
         then (Inl Capacity, l\<lparr>tb_buckets := \<lparr>bs_clients = clients, bs_expirations = expirations\<rparr>\<rparr>)
         else
           let b = (case fmlookup clients client of Some b \<Rightarrow> b | None \<Rightarrow> fresh_bucket c now);
               (result, b') = spend c now b;
               expirations = (case bu_expires_at b of
                   Some previous_expiry \<Rightarrow> bt_remove (previous_expiry, client) expirations
                 | None \<Rightarrow> expirations);
               expirations = (case bu_expires_at b' of
                   Some expires_at \<Rightarrow> bt_insert (expires_at, client) expirations
                 | None \<Rightarrow> expirations)
           in (result, l\<lparr>tb_buckets := \<lparr>bs_clients = fmupd client b' clients, bs_expirations = expirations\<rparr>\<rparr>))"

subsection \<open>The middleware\<close>

text \<open>\<open>"...".parse::<HeaderValue>()\<close> sets a header if the text is a legal value.\<close>

definition try_header :: "externals \<Rightarrow> str \<Rightarrow> str \<Rightarrow> response \<Rightarrow> response" where
  "try_header x n v r = (if header_value_ok x v then set_header n v r else r)"

definition rejection :: "nat \<Rightarrow> str \<Rightarrow> response" where
  "rejection status msg =
     set_header ''cache-control'' ''no-store'' (json_response status (JObj [(''error'', JStr msg)]))"

definition admitted_response :: "externals \<Rightarrow> (f64 \<Rightarrow> str) \<Rightarrow> rate_limiter \<Rightarrow> u64 \<Rightarrow> response \<Rightarrow> response" where
  "admitted_response x show_f64 l remaining response =
     try_header x ''x-ratelimit-remaining'' (show_nat (unat remaining))
       (try_header x ''x-ratelimit-limit'' (show_f64 (rl_rps (tb_config l))) response)"

definition quota_response :: "externals \<Rightarrow> (f64 \<Rightarrow> str) \<Rightarrow> rate_limiter \<Rightarrow> u64 \<Rightarrow> response" where
  "quota_response x show_f64 l retry_after =
     try_header x ''cache-control'' ''no-store''
       (try_header x ''x-ratelimit-remaining'' ''0''
         (try_header x ''x-ratelimit-limit'' (show_f64 (rl_rps (tb_config l)))
           (try_header x ''retry-after'' (show_nat (unat retry_after))
             (json_response 429 (JObj [(''error'', JStr ''rate_limit_exceeded''),
                (''message'', JStr ''Too many requests, please slow down.'')])))))"

text \<open>
  The rest of the service is a function that threads a state of its own; it gives no response when
  its future is dropped or panics.
\<close>

definition rate_limit_middleware :: "externals \<Rightarrow> (f64 \<Rightarrow> str) \<Rightarrow> rate_limiter option \<Rightarrow> ip_addr option \<Rightarrow> instant
    \<Rightarrow> (request \<Rightarrow> 's \<Rightarrow> response option \<times> 's) \<Rightarrow> request \<Rightarrow> 's \<Rightarrow> (response option \<times> 's) \<times> rate_limiter option" where
  "rate_limit_middleware x show_f64 limiter peer now next_run req s =
     (case limiter of
        None \<Rightarrow> (next_run req s, None)
      | Some l \<Rightarrow>
        (case peer of
           None \<Rightarrow> ((Some (rejection 503 ''client_address_unavailable''), s), Some l)
         | Some peer \<Rightarrow>
           (case client_ip x (req_headers req) peer (rl_trusted_proxies (tb_config l)) of
              Inl _ \<Rightarrow> ((Some (rejection 400 ''invalid_forwarded_ip''), s), Some l)
            | Inr ip \<Rightarrow>
              (case rl_acquire ip now l of
                 (Inr remaining, l') \<Rightarrow>
                   (let (response, s) = next_run req s
                    in ((map_option (admitted_response x show_f64 l remaining) response, s), Some l'))
               | (Inl Capacity, l') \<Rightarrow>
                   ((Some (set_header ''retry-after'' ''1'' (rejection 503 ''rate_limit_capacity_exceeded'')), s), Some l')
               | (Inl (Quota retry_after), l') \<Rightarrow>
                   ((Some (quota_response x show_f64 l retry_after), s), Some l')))))"

subsection \<open>The store\<close>

text \<open>The index holds exactly the deadlines of the stored buckets.\<close>

definition synced :: "(ip_addr, bucket) fmap \<Rightarrow> (instant \<times> ip_addr) list \<Rightarrow> bool" where
  "synced es xs \<longleftrightarrow> bt_wf xs \<and>
     (\<forall>d k. (d, k) \<in> set xs \<longleftrightarrow> (\<exists>b. fmlookup es k = Some b \<and> bu_expires_at b = Some d))"

lemma synced_empty [simp]: "synced fmempty []"
  by (simp add: synced_def)

lemma synced_pop:
  assumes "synced es ((d, k) # xs)"
  shows "synced (fmdrop k es) xs"
proof -
  from assms have wf: "bt_wf xs" "(d, k) \<notin> set xs" by (auto simp: synced_def bt_wf_def)
  from assms obtain b where b: "fmlookup es k = Some b" "bu_expires_at b = Some d"
    by (auto simp: synced_def)
  have "(d', k') \<in> set xs \<longleftrightarrow> (\<exists>b. fmlookup (fmdrop k es) k' = Some b \<and> bu_expires_at b = Some d')" for d' k'
  proof (cases "k' = k")
    case True
    have "(d', k) \<notin> set xs"
    proof
      assume "(d', k) \<in> set xs"
      with assms have "\<exists>b. fmlookup es k = Some b \<and> bu_expires_at b = Some d'" by (auto simp: synced_def)
      with b have "d' = d" by simp
      with \<open>(d', k) \<in> set xs\<close> wf(2) show False by simp
    qed
    with True show ?thesis by simp
  next
    case False
    with assms show ?thesis by (auto simp: synced_def)
  qed
  with wf(1) show ?thesis by (simp add: synced_def)
qed

lemma expire_loop_synced:
  "synced es xs \<Longrightarrow> expire_loop n now es xs = (es', xs') \<Longrightarrow> synced es' xs'"
  by (induction n now es xs rule: expire_loop.induct)
    (auto split: list.splits prod.splits if_splits dest: synced_pop)

lemma synced_index_ok:
  assumes "synced es xs"
  shows "index_ok es xs"
proof -
  have "inj_on snd (set xs)"
  proof (rule inj_onI)
    fix p q assume "p \<in> set xs" "q \<in> set xs" "snd p = snd q"
    then show "p = q" using assms unfolding synced_def by (metis option.inject prod.collapse)
  qed
  with assms show ?thesis
    by (auto simp: index_ok_def synced_def bt_wf_def distinct_map fmlookup_dom_iff)
qed

text \<open>Replacing the bucket of one client keeps the index in step.\<close>

lemma synced_replace:
  assumes "synced es xs"
    and "old = (case fmlookup es k of Some b \<Rightarrow> bu_expires_at b | None \<Rightarrow> None)"
    and "ys = (case old of Some d \<Rightarrow> bt_remove (d, k) xs | None \<Rightarrow> xs)"
  shows "synced (fmupd k b es) (case bu_expires_at b of Some d \<Rightarrow> bt_insert (d, k) ys | None \<Rightarrow> ys)"
proof -
  have wf: "bt_wf ys" using assms by (auto simp: synced_def split: option.split)
  have ys: "(d, k') \<in> set ys \<longleftrightarrow> k' \<noteq> k \<and> (\<exists>b. fmlookup es k' = Some b \<and> bu_expires_at b = Some d)" for d k'
    using assms by (auto simp: synced_def set_bt_remove split: option.splits)
  show ?thesis
    using wf ys by (auto simp: synced_def split: option.split)
qed

definition bucket_ok :: "rate_limiter_config \<Rightarrow> bucket \<Rightarrow> bool" where
  "bucket_ok c b \<longleftrightarrow> 0 \<le> bu_tokens b \<and> bu_tokens b \<le> rl_burst c"

definition limiter_inv :: "rate_limiter \<Rightarrow> bool" where
  "limiter_inv l \<longleftrightarrow> synced (bs_clients (tb_buckets l)) (bs_expirations (tb_buckets l))
     \<and> map_len (bs_clients (tb_buckets l)) \<le> rl_max_clients (tb_config l)
     \<and> (\<forall>k b. fmlookup (bs_clients (tb_buckets l)) k = Some b \<longrightarrow> bucket_ok (tb_config l) b)"

text \<open>What \<open>main\<close> makes sure of when it builds a limiter, for finite doubles.\<close>

definition config_ok :: "rate_limiter_config \<Rightarrow> bool" where
  "config_ok c \<longleftrightarrow> 0 < rl_rps c \<and> rl_rps c < 2 ^ 1024 \<and> 1 \<le> rl_burst c \<and> rnd (rl_burst c) = rl_burst c"

lemma refilled_bounds:
  assumes "config_ok c" "bucket_ok c b"
  shows "0 \<le> refilled c now b" "refilled c now b \<le> rl_burst c"
  using assms unfolding refilled_def Let_def f64_mul_add_def config_ok_def bucket_ok_def
  by (auto simp: min_le_iff_disj intro!: fr.nonneg add_nonneg_nonneg mult_nonneg_nonneg as_secs_f64_nonneg)

lemma take_token_bounds:
  assumes "config_ok c" "0 \<le> t" "t \<le> rl_burst c"
  shows "0 \<le> snd (take_token c t)" "snd (take_token c t) \<le> rl_burst c"
proof -
  have "rnd (t - 1) \<le> rl_burst c"
    using rnd_mono [of "t - 1" "rl_burst c"] assms by (simp add: config_ok_def)
  then show "snd (take_token c t) \<le> rl_burst c" using assms by (simp add: take_token_def Let_def f64_sub_def)
  show "0 \<le> snd (take_token c t)"
    using assms by (simp add: take_token_def Let_def f64_sub_def fr.nonneg)
qed

lemma spend_bucket_ok:
  assumes "config_ok c" "bucket_ok c b"
  shows "bucket_ok c (snd (spend c now b))"
  using take_token_bounds [OF assms(1) refilled_bounds [OF assms]]
  by (simp add: spend_def bucket_ok_def Let_def case_prod_beta)

lemma fresh_bucket_ok: "config_ok c \<Longrightarrow> bucket_ok c (fresh_bucket c now)"
  by (simp add: config_ok_def bucket_ok_def fresh_bucket_def)

lemma rl_acquire_config [simp]: "tb_config (snd (rl_acquire ip now l)) = tb_config l"
  by (simp add: rl_acquire_def Let_def split: prod.split)

text \<open>The cases of a call.\<close>

lemma rl_acquire_cases:
  assumes "rl_acquire ip now l = (r, l')"
    and "expire_loop 64 now (bs_clients (tb_buckets l)) (bs_expirations (tb_buckets l)) = (es, xs)"
  obtains (capacity) "normalize_ip ip |\<notin>| fmdom es" "rl_max_clients (tb_config l) \<le> map_len es"
      "r = Inl Capacity" "bs_clients (tb_buckets l') = es" "bs_expirations (tb_buckets l') = xs"
  | (bucket) b where "normalize_ip ip |\<in>| fmdom es \<or> map_len es < rl_max_clients (tb_config l)"
      "b = (case fmlookup es (normalize_ip ip) of Some b \<Rightarrow> b | None \<Rightarrow> fresh_bucket (tb_config l) now)"
      "r = fst (spend (tb_config l) now b)"
      "bs_clients (tb_buckets l') = fmupd (normalize_ip ip) (snd (spend (tb_config l) now b)) es"
      "bs_expirations (tb_buckets l') =
         (let ys = (case bu_expires_at b of Some d \<Rightarrow> bt_remove (d, normalize_ip ip) xs | None \<Rightarrow> xs)
          in case bu_expires_at (snd (spend (tb_config l) now b)) of
               Some d \<Rightarrow> bt_insert (d, normalize_ip ip) ys | None \<Rightarrow> ys)"
proof (cases "normalize_ip ip |\<notin>| fmdom es \<and> rl_max_clients (tb_config l) \<le> map_len es")
  case True
  with assms show ?thesis by (intro capacity) (auto simp: rl_acquire_def Let_def)
next
  case False
  with assms show ?thesis
    by (intro bucket [OF _ refl]) (auto simp: rl_acquire_def Let_def split: prod.splits)
qed

lemma rl_acquire_inv:
  assumes "config_ok (tb_config l)" "limiter_inv l"
  shows "limiter_inv (snd (rl_acquire ip now l))"
proof -
  let ?c = "tb_config l"
  obtain es xs where loop: "expire_loop 64 now (bs_clients (tb_buckets l)) (bs_expirations (tb_buckets l)) = (es, xs)"
    by fastforce
  obtain r l' where acq: "rl_acquire ip now l = (r, l')" by fastforce
  then have c': "tb_config l' = ?c" using rl_acquire_config [of ip now l] by simp
  have sync: "synced es xs" using assms(2) loop expire_loop_synced by (auto simp: limiter_inv_def)
  have len: "map_len es \<le> rl_max_clients ?c"
    using assms(2) expire_loop_subset [OF loop] map_len_mono order_trans by (fastforce simp: limiter_inv_def)
  have ok: "bucket_ok ?c b" if "fmlookup es k = Some b" for k b
    using assms(2) expire_loop_lookup [OF loop that] by (auto simp: limiter_inv_def)
  show ?thesis
    using acq loop
  proof (cases rule: rl_acquire_cases)
    case capacity
    with sync len ok c' acq show ?thesis by (simp add: limiter_inv_def)
  next
    case (bucket b)
    have b: "bucket_ok ?c b"
      using bucket(2) ok assms(1) by (auto simp: fresh_bucket_ok split: option.splits)
    have "synced (bs_clients (tb_buckets l')) (bs_expirations (tb_buckets l'))"
      unfolding bucket(4,5) Let_def
      by (rule synced_replace [OF sync _ refl]) (simp add: bucket(2) fresh_bucket_def split: option.split)
    moreover have "map_len (bs_clients (tb_buckets l')) \<le> rl_max_clients ?c"
      using bucket(1,4) len by (auto simp: map_len_upd)
    moreover have "bucket_ok ?c b'" if "fmlookup (bs_clients (tb_buckets l')) k = Some b'" for k b'
      using that bucket(4) ok spend_bucket_ok [OF assms(1) b] by (auto split: if_splits)
    ultimately show ?thesis using acq c' by (simp add: limiter_inv_def)
  qed
qed

lemma limiter_inv_new [simp]: "limiter_inv (rate_limiter_new c)"
  by (simp add: limiter_inv_def)

end
