(* ===== verification/RateBound.thy ===== *)
theory RateBound
  imports RateLimit
begin

text \<open>
  What the rate limiter of \<open>RateLimit\<close> grants. Over any sequence of calls by any clients, in the
  order of their clock readings, one client is granted at most its burst plus the configured rate
  times the time passed; the theorem carries the rounding of the \<open>f64\<close> arithmetic as an explicit
  relative error. The second part gives the exact results of a burst at one instant, and the bounds
  of the store.
\<close>

subsection \<open>One call\<close>

definition refill_amount :: "rate_limiter_config \<Rightarrow> duration \<Rightarrow> rat" where
  "refill_amount c d = rl_rps c * secs d * (1 + 3 * eps)"

lemma refill_amount_nonneg: "config_ok c \<Longrightarrow> 0 \<le> refill_amount c d"
  using eps_bounds(1) secs_nonneg [of d] by (simp add: refill_amount_def config_ok_def)

lemma refill_amount_add: "refill_amount c (a + b) = refill_amount c a + refill_amount c b"
  by (simp add: refill_amount_def secs_def add_divide_distrib algebra_simps)

lemma refill_amount_0 [simp]: "refill_amount c 0 = 0"
  by (simp add: refill_amount_def secs_def)

lemma eta_rps: "config_ok c \<Longrightarrow> eta * rl_rps c \<le> 4 * eps"
  using mult_left_mono [of "rl_rps c" "2 ^ 1024" eta] eta_bounds
  by (simp add: config_ok_def less_imp_le del: power_numeral)

lemma eps_burst: "config_ok c \<Longrightarrow> eps \<le> eps * rl_burst c"
  using eps_bounds(1) by (simp add: config_ok_def)

lemma rnd_capped:
  assumes "0 \<le> y" "config_ok c"
  shows "min (rnd y) (rl_burst c) \<le> y + 2 * (eps * rl_burst c)"
proof (cases "y \<le> rl_burst c")
  case True
  have "rnd y \<le> y + eps * y + eta" using rnd_upper [OF assms(1)] .
  moreover have "eps * y \<le> eps * rl_burst c" using True eps_bounds(1) by simp
  ultimately show ?thesis using eta_bounds(2) eps_burst [OF assms(2)] by (simp add: min_le_iff_disj)
next
  case False
  moreover have "0 \<le> eps * rl_burst c" using eps_burst [OF assms(2)] eps_bounds(1) by simp
  ultimately show ?thesis by (simp add: min_le_iff_disj)
qed

lemma refilled_upper:
  assumes "config_ok c" "bucket_ok c b"
  shows "refilled c now b
    \<le> bu_tokens b + refill_amount c (duration_since now (bu_last_refill b)) + 22 * (eps * rl_burst c)"
proof -
  let ?d = "duration_since now (bu_last_refill b)" and ?e = "as_secs_f64 (duration_since now (bu_last_refill b))"
  let ?y = "?e * rl_rps c + bu_tokens b"
  have rps: "0 \<le> rl_rps c" using assms(1) by (simp add: config_ok_def)
  have "?e * rl_rps c \<le> (secs ?d + 3 * eps * secs ?d + 5 * eta) * rl_rps c"
    using as_secs_f64_upper rps by (rule mult_right_mono)
  also have "\<dots> = refill_amount c ?d + 5 * (eta * rl_rps c)"
    by (simp add: refill_amount_def algebra_simps)
  also have "\<dots> \<le> refill_amount c ?d + 20 * (eps * rl_burst c)"
    using eta_rps [OF assms(1)] eps_burst [OF assms(1)] by simp
  finally have e: "?e * rl_rps c \<le> refill_amount c ?d + 20 * (eps * rl_burst c)" .
  have "0 \<le> ?y" using as_secs_f64_nonneg rps assms(2) by (simp add: bucket_ok_def)
  from rnd_capped [OF this assms(1)] e show ?thesis
    by (simp add: refilled_def Let_def f64_mul_add_def)
qed

lemma take_token_upper:
  assumes "config_ok c" "0 \<le> t" "t \<le> rl_burst c" "take_token c t = (r, t')"
  shows "of_bool (\<not> isl r) + t' \<le> t + 2 * (eps * rl_burst c)"
proof (cases "1 \<le> t")
  case True
  have "rnd (t - 1) \<le> (t - 1) + eps * (t - 1) + eta" using True by (intro rnd_upper) simp
  moreover have "eps * (t - 1) \<le> eps * rl_burst c" using assms(3) eps_bounds(1) by simp
  ultimately show ?thesis
    using True assms(4) eta_bounds(2) eps_burst [OF assms(1)] by (auto simp: take_token_def Let_def f64_sub_def)
next
  case False
  moreover have "0 \<le> eps * rl_burst c" using eps_burst [OF assms(1)] eps_bounds(1) by simp
  ultimately show ?thesis using assms(4) by (auto simp: take_token_def Let_def)
qed

text \<open>A bucket only expires once it would have refilled by itself, up to rounding.\<close>

lemma deadline_refills:
  assumes "config_ok c" "0 \<le> t" "t \<le> rl_burst c" "bucket_deadline c now t = Some d"
  shows "now \<le> d" "rl_burst c \<le> t + refill_amount c (nat (d - now)) + 8 * (eps * rl_burst c)"
proof -
  let ?m = "rl_burst c - t" and ?u = "eps * rl_burst c"
  let ?a = "rnd ?m" and ?q = "rnd (rnd ?m / rl_rps c)"
  have rps: "0 < rl_rps c" using assms(1) by (simp add: config_ok_def)
  obtain refill where refill: "try_from_secs_f64 (of_int \<lceil>?q\<rceil>) = Some refill"
    and d: "d = now + int (max refill (rl_idle_timeout c))"
    using assms(4) instant_checked_add_Some
    by (auto simp: bucket_deadline_def f64_ceil_def f64_div_def f64_sub_def bind_eq_Some_conv)
  then show le: "now \<le> d" by simp
  have "?q \<le> secs refill" unfolding try_from_secs_whole [OF refill] by (rule le_of_int_ceiling)
  also have "\<dots> \<le> secs (nat (d - now))"
    using d by (simp add: secs_def divide_right_mono)
  finally have "?q * rl_rps c \<le> secs (nat (d - now)) * rl_rps c" using rps by (intro mult_right_mono) auto
  also have "\<dots> \<le> refill_amount c (nat (d - now))"
    using rps eps_bounds(1) secs_nonneg [of "nat (d - now)"]
    by (simp add: refill_amount_def algebra_simps)
  finally have q: "?q * rl_rps c \<le> refill_amount c (nat (d - now))" .
  have m: "0 \<le> ?m" using assms(3) by simp
  then have a: "0 \<le> ?a" "?m - eps * ?m - eta \<le> ?a" by (simp_all add: fr.nonneg rnd_lower)
  have "?a / rl_rps c - eps * (?a / rl_rps c) - eta \<le> ?q"
    using a(1) rps by (intro rnd_lower) simp
  then have "(?a / rl_rps c - eps * (?a / rl_rps c) - eta) * rl_rps c \<le> ?q * rl_rps c"
    using rps by (intro mult_right_mono) auto
  then have low: "?a - eps * ?a - eta * rl_rps c \<le> ?q * rl_rps c"
    using rps by (simp add: algebra_simps)
  have "eps * ?m \<le> ?u" using assms(2) eps_bounds(1) by simp
  moreover have "?a \<le> ?m + eps * ?m + eta" using rnd_upper [OF m] .
  then have "eps * ?a \<le> eps * (?m + eps * ?m + eta)" using eps_bounds(1) by (intro mult_left_mono) auto
  moreover have "eps * (eps * ?m) \<le> 1 / 32 * (eps * ?m)" "eps * eta \<le> 1 / 32 * eta"
    using m eps_bounds eta_bounds(1) by (intro mult_right_mono; simp)+
  moreover have "eta \<le> ?u" "eta * rl_rps c \<le> 4 * ?u" "0 < eta"
    using eta_bounds(1,2) eps_burst [OF assms(1)] eta_rps [OF assms(1)] by linarith+
  ultimately have "?m - 8 * ?u \<le> ?a - eps * ?a - eta * rl_rps c" using a(2)
    by (simp only: distrib_left)
  with low q show "rl_burst c \<le> t + refill_amount c (nat (d - now)) + 8 * ?u" by simp
qed

text \<open>A bucket whose deadline, if it has one, comes no earlier than its natural refill.\<close>

definition refills_first :: "rate_limiter_config \<Rightarrow> bucket \<Rightarrow> bool" where
  "refills_first c b \<longleftrightarrow> (\<forall>d. bu_expires_at b = Some d \<longrightarrow> bu_last_refill b \<le> d
     \<and> rl_burst c \<le> bu_tokens b + refill_amount c (nat (d - bu_last_refill b)) + 8 * (eps * rl_burst c))"

lemma spend_quota:
  assumes "config_ok c" "bucket_ok c b" "spend c now b = (r, b')"
  shows "bucket_ok c b'" "refills_first c b'" "bu_last_refill b' = max now (bu_last_refill b)"
    and "of_bool (\<not> isl r) + bu_tokens b'
      \<le> bu_tokens b + refill_amount c (nat (max now (bu_last_refill b) - bu_last_refill b)) + 24 * (eps * rl_burst c)"
proof -
  let ?now = "max now (bu_last_refill b)"
  obtain t' where t: "take_token c (refilled c ?now b) = (r, t')"
    and b': "b' = \<lparr>bu_tokens = t', bu_last_refill = ?now, bu_expires_at = bucket_deadline c ?now t'\<rparr>"
    using assms(3) by (auto simp: spend_def Let_def split: prod.splits)
  note bounds = refilled_bounds [OF assms(1,2), of ?now]
  have t': "0 \<le> t'" "t' \<le> rl_burst c" using take_token_bounds [OF assms(1) bounds] by (simp_all add: t)
  then show "bucket_ok c b'" "bu_last_refill b' = ?now" by (simp_all add: b' bucket_ok_def)
  show "refills_first c b'"
    using deadline_refills [OF assms(1) t', of ?now]
    unfolding refills_first_def b' bucket.simps by blast
  show "of_bool (\<not> isl r) + bu_tokens b'
      \<le> bu_tokens b + refill_amount c (nat (?now - bu_last_refill b)) + 24 * (eps * rl_burst c)"
    using take_token_upper [OF assms(1) bounds t] refilled_upper [OF assms(1,2), of ?now]
    by (simp add: b' duration_since_def)
qed

subsection \<open>Sequences of calls\<close>

fun rl_run :: "rate_limiter \<Rightarrow> (ip_addr \<times> instant) list \<Rightarrow> (rate_limit_rejection + u64) list \<times> rate_limiter" where
  "rl_run l [] = ([], l)"
| "rl_run l ((ip, now) # calls) =
     (let (r, l) = rl_acquire ip now l; (rs, l) = rl_run l calls in (r # rs, l))"

definition calls_by :: "ip_addr \<Rightarrow> (ip_addr \<times> instant) list \<Rightarrow> nat" where
  "calls_by k calls = length (filter (\<lambda>(ip, _). normalize_ip ip = k) calls)"

definition granted :: "ip_addr \<Rightarrow> (ip_addr \<times> instant) list \<Rightarrow> (rate_limit_rejection + u64) list \<Rightarrow> nat" where
  "granted k calls rs = length (filter (\<lambda>((ip, _), r). normalize_ip ip = k \<and> \<not> isl r) (zip calls rs))"

lemma granted_Cons [simp]:
  "granted k ((ip, now) # calls) (r # rs) = of_bool (normalize_ip ip = k \<and> \<not> isl r) + granted k calls rs"
  by (simp add: granted_def)

lemma calls_by_Cons [simp]: "calls_by k ((ip, now) # calls) = of_bool (normalize_ip ip = k) + calls_by k calls"
  by (simp add: calls_by_def)

text \<open>
  The account of one client: \<open>g\<close> grants in \<open>n\<close> calls since \<open>start\<close>, with the clock now at \<open>now\<close>.
\<close>

definition quota :: "ip_addr \<Rightarrow> instant \<Rightarrow> nat \<Rightarrow> nat \<Rightarrow> instant \<Rightarrow> rate_limiter_config
    \<Rightarrow> (ip_addr, bucket) fmap \<Rightarrow> bool" where
  "quota k start g n now c es \<longleftrightarrow> start \<le> now \<and>
     (case fmlookup es k of
        Some b \<Rightarrow> bucket_ok c b \<and> refills_first c b \<and> start \<le> bu_last_refill b \<and> bu_last_refill b \<le> now
          \<and> of_nat g + bu_tokens b \<le> rl_burst c + refill_amount c (nat (bu_last_refill b - start))
              + of_nat n * (32 * (eps * rl_burst c))
      | None \<Rightarrow> of_nat g \<le> refill_amount c (nat (now - start)) + of_nat n * (32 * (eps * rl_burst c))
              + 8 * (eps * rl_burst c))"

lemma refill_amount_split:
  assumes "start \<le> t" "t \<le> now"
  shows "refill_amount c (nat (now - start)) = refill_amount c (nat (t - start)) + refill_amount c (nat (now - t))"
  using assms by (simp flip: refill_amount_add add: nat_add_distrib [symmetric])

lemma refill_amount_mono:
  assumes "config_ok c" "start \<le> t" "t \<le> now"
  shows "refill_amount c (nat (t - start)) \<le> refill_amount c (nat (now - start))"
  using refill_amount_split [OF assms(2,3)] refill_amount_nonneg [OF assms(1)] by simp

lemma quota_expire:
  assumes "config_ok c" "synced es xs" "quota k start g n t c es" "t \<le> now"
    and "expire_loop m now es xs = (es', xs')"
  shows "quota k start g n now c es'"
proof (cases "fmlookup es' k = fmlookup es k")
  case True
  show ?thesis
  proof (cases "fmlookup es k")
    case None
    with True assms(3,4) refill_amount_mono [OF assms(1), of start t now] show ?thesis
      by (auto simp: quota_def)
  next
    case (Some b)
    with True assms(3,4) show ?thesis by (auto simp: quota_def)
  qed
next
  case False
  then obtain b where b: "fmlookup es k = Some b" and gone: "fmlookup es' k = None"
    using expire_loop_lookup [OF assms(5)] by (cases "fmlookup es' k"; cases "fmlookup es k") fastforce+
  have "\<exists>d. (d, k) \<in> set xs \<and> d \<le> now"
    using expire_loop_keeps [OF assms(5), of k] False not_le by blast
  then obtain d where d: "(d, k) \<in> set xs" "d \<le> now" by blast
  with assms(2) b have "bu_expires_at b = Some d" by (auto simp: synced_def)
  with assms(3) b have q: "start \<le> bu_last_refill b" "bu_last_refill b \<le> d"
    "rl_burst c \<le> bu_tokens b + refill_amount c (nat (d - bu_last_refill b)) + 8 * (eps * rl_burst c)"
    "of_nat g + bu_tokens b \<le> rl_burst c + refill_amount c (nat (bu_last_refill b - start))
       + of_nat n * (32 * (eps * rl_burst c))"
    by (auto simp: quota_def refills_first_def)
  have "refill_amount c (nat (d - start)) \<le> refill_amount c (nat (now - start))"
    using q d(2) by (intro refill_amount_mono assms(1)) auto
  with q refill_amount_split [OF q(1,2), of c] gone assms(3,4) show ?thesis by (auto simp: quota_def)
qed

lemma quota_step:
  assumes c: "config_ok (tb_config l)" and inv: "limiter_inv l"
    and q: "quota k start g n t (tb_config l) (bs_clients (tb_buckets l))"
    and "t \<le> now" "rl_acquire ip now l = (r, l')"
  shows "quota k start (g + of_bool (normalize_ip ip = k \<and> \<not> isl r)) (n + of_bool (normalize_ip ip = k)) now
    (tb_config l) (bs_clients (tb_buckets l'))"
proof -
  let ?c = "tb_config l"
  have u: "0 \<le> eps * rl_burst ?c" using eps_burst [OF c] eps_bounds(1) by simp
  obtain es xs where loop: "expire_loop 64 now (bs_clients (tb_buckets l)) (bs_expirations (tb_buckets l)) = (es, xs)"
    by fastforce
  have qe: "quota k start g n now ?c es"
    using quota_expire [OF c _ q assms(4) loop] inv by (simp add: limiter_inv_def)
  show ?thesis
    using assms(5) loop
  proof (cases rule: rl_acquire_cases)
    case capacity
    show ?thesis
    proof (cases "normalize_ip ip = k")
      case True
      with capacity(1) have "fmlookup es k = None" by (simp add: fmlookup_dom_iff)
      with capacity True qe u show ?thesis by (simp add: quota_def distrib_right)
    next
      case False
      with capacity qe show ?thesis by simp
    qed
  next
    case (bucket b)
    show ?thesis
    proof (cases "normalize_ip ip = k")
      case False
      with bucket qe show ?thesis by (simp add: quota_def)
    next
      case True
      obtain r' b' where sp: "spend ?c now b = (r', b')" by fastforce
      have b: "bucket_ok ?c b \<and> start \<le> bu_last_refill b \<and> bu_last_refill b \<le> now
        \<and> of_nat g + bu_tokens b \<le> rl_burst ?c + refill_amount ?c (nat (bu_last_refill b - start))
            + of_nat n * (32 * (eps * rl_burst ?c)) + 8 * (eps * rl_burst ?c)"
        using bucket(2) qe True c u fresh_bucket_ok [OF c, of now]
        by (auto simp: quota_def fresh_bucket_def split: option.splits)
      note s = spend_quota [OF c _ sp]
      have now: "max now (bu_last_refill b) = now" using b by simp
      have "fmlookup (bs_clients (tb_buckets l')) k = Some b'" "r = r'" using bucket True sp by simp_all
      moreover have "start \<le> now" using qe by (simp add: quota_def)
      moreover have "of_nat g + of_bool (\<not> isl r') + bu_tokens b' \<le> rl_burst ?c + refill_amount ?c (nat (now - start))
          + of_nat n * (32 * (eps * rl_burst ?c)) + 32 * (eps * rl_burst ?c)"
        using s(4) b refill_amount_split [of start "bu_last_refill b" now ?c] unfolding now by simp
      ultimately show ?thesis
        using s(1,2,3) b True by (simp add: quota_def now distrib_right)
    qed
  qed
qed

lemma quota_run:
  assumes "config_ok (tb_config l)" "limiter_inv l"
    and "quota k start g n t (tb_config l) (bs_clients (tb_buckets l))"
    and "sorted (t # map snd calls)" "rl_run l calls = (rs, l')"
  shows "quota k start (g + granted k calls rs) (n + calls_by k calls) (last (t # map snd calls))
    (tb_config l) (bs_clients (tb_buckets l'))"
  using assms
proof (induction calls arbitrary: l g n t rs l')
  case (Cons call calls)
  obtain ip now where call: "call = (ip, now)" by fastforce
  obtain r l1 where acq: "rl_acquire ip now l = (r, l1)" by fastforce
  obtain rs' l2 where run: "rl_run l1 calls = (rs', l2)" by fastforce
  have c1: "tb_config l1 = tb_config l" using rl_acquire_config [of ip now l] acq by simp
  have inv1: "limiter_inv l1" using rl_acquire_inv [OF Cons.prems(1,2), of ip now] acq by simp
  have "t \<le> now" using Cons.prems(4) call by simp
  note q1 = quota_step [OF Cons.prems(1-3) this acq]
  have "sorted (now # map snd calls)" using Cons.prems(4) call by simp
  from Cons.IH [OF _ inv1 _ this run] Cons.prems(1) q1
  have "quota k start (g + of_bool (normalize_ip ip = k \<and> \<not> isl r) + granted k calls rs')
      (n + of_bool (normalize_ip ip = k) + calls_by k calls) (last (now # map snd calls)) (tb_config l)
      (bs_clients (tb_buckets l2))"
    by (simp add: c1)
  moreover have "rs = r # rs'" "l' = l2" using Cons.prems(5) call acq run by auto
  ultimately show ?case using call by (simp add: add.assoc)
qed (simp add: granted_def calls_by_def)

lemma rate_limit_bound:
  assumes "config_ok c" "calls \<noteq> []" "sorted (map snd calls)" "rl_run (rate_limiter_new c) calls = (rs, l)"
  shows "of_nat (granted k calls rs)
    \<le> rl_burst c
      + rl_rps c * secs (nat (snd (last calls) - snd (hd calls))) * (1 + 3 / 2 ^ 53)
      + of_nat (calls_by k calls) * rl_burst c / 2 ^ 48"
proof -
  let ?start = "snd (hd calls)" and ?u = "eps * rl_burst c"
  have u: "0 \<le> ?u" using eps_burst [OF assms(1)] eps_bounds(1) by simp
  have "quota k ?start 0 0 ?start (tb_config (rate_limiter_new c)) (bs_clients (tb_buckets (rate_limiter_new c)))"
    using u by (simp add: quota_def)
  moreover have "sorted (?start # map snd calls)" using assms(2,3) by (cases calls) auto
  ultimately have "quota k ?start (granted k calls rs) (calls_by k calls) (last (?start # map snd calls)) c
      (bs_clients (tb_buckets l))"
    using quota_run [OF _ limiter_inv_new _ _ assms(4), of k ?start 0 0 ?start] assms(1) by simp
  moreover have "last (?start # map snd calls) = snd (last calls)"
    using assms(2) by (simp add: last_map)
  ultimately have q: "quota k ?start (granted k calls rs) (calls_by k calls) (snd (last calls)) c (bs_clients (tb_buckets l))"
    by simp
  have "8 * ?u \<le> rl_burst c" using eps_bounds assms(1) by (simp add: config_ok_def)
  then have "of_nat (granted k calls rs) \<le> rl_burst c + refill_amount c (nat (snd (last calls) - ?start))
      + of_nat (calls_by k calls) * (32 * ?u)"
    using q refill_amount_mono [OF assms(1), of ?start _ "snd (last calls)"]
    by (fastforce simp: quota_def bucket_ok_def split: option.splits)
  then show ?thesis by (simp add: refill_amount_def eps_def)
qed


subsection \<open>A burst\<close>

lemma expire_loop_not_due: "\<forall>p \<in> set xs. now < fst p \<Longrightarrow> expire_loop n now es xs = (es, xs)"
  by (cases n) (auto split: list.split)

definition burst_wait :: "rate_limiter_config \<Rightarrow> u64" where
  "burst_wait c = max (f64_to_u64 (f64_ceil (f64_div 1 (rl_rps c)))) 1"

text \<open>A whole number of tokens, no time passing: every step is exact.\<close>

lemma take_token_whole:
  assumes "m \<le> 2 ^ 53"
  shows "take_token c (of_nat m)
    = (if 0 < m then (Inr (of_nat (m - 1)), of_nat (m - 1)) else (Inl (Quota (burst_wait c)), 0))"
proof (cases m)
  case (Suc i)
  have "f64_sub (of_nat m) 1 = of_nat i"
    using rnd_exact [of i] assms Suc by (simp add: f64_sub_def)
  moreover have "f64_to_u64 (of_nat i) = of_nat i"
    using of_nat_mono [of i "2 ^ 53", where 'a = rat] assms Suc by (simp add: f64_to_u64_def)
  ultimately show ?thesis using Suc by (simp add: take_token_def)
qed (simp add: take_token_def burst_wait_def f64_sub_def fr.one)

lemma spend_whole:
  assumes "rl_burst c = of_nat n" "n \<le> 2 ^ 53" "m \<le> n" "bu_tokens b = of_nat m" "bu_last_refill b = now"
  shows "spend c now b = (fst (take_token c (of_nat m)),
    \<lparr>bu_tokens = of_nat (m - 1), bu_last_refill = now, bu_expires_at = bucket_deadline c now (of_nat (m - 1))\<rparr>)"
proof -
  have "refilled c now b = of_nat m"
    using assms rnd_exact [of m] by (simp add: refilled_def duration_since_def f64_mul_add_def)
  moreover have "snd (take_token c (of_nat m)) = of_nat (m - 1)" using assms by (simp add: take_token_whole)
  ultimately show ?thesis using assms(5) by (simp add: spend_def Let_def case_prod_beta)
qed

definition bursting :: "ip_addr \<Rightarrow> nat \<Rightarrow> instant \<Rightarrow> rate_limiter \<Rightarrow> bool" where
  "bursting k m now l \<longleftrightarrow> limiter_inv l \<and> (\<forall>p \<in> set (bs_expirations (tb_buckets l)). now < fst p)
     \<and> (\<exists>b. fmlookup (bs_clients (tb_buckets l)) k = Some b \<and> bu_tokens b = of_nat m \<and> bu_last_refill b = now)"

lemma deadline_later:
  assumes "bucket_deadline c now t = Some d" "0 < rl_idle_timeout c"
  shows "now < d"
  using assms instant_checked_add_Some by (fastforce simp: bucket_deadline_def bind_eq_Some_conv)

lemma acquire_whole:
  assumes c: "config_ok (tb_config l)" "rl_burst (tb_config l) = of_nat n" "n \<le> 2 ^ 53" "m \<le> n"
      "0 < rl_idle_timeout (tb_config l)" "0 < rl_max_clients (tb_config l)"
    and l: "bursting (normalize_ip ip) m now l \<or> (m = n \<and> l = rate_limiter_new (tb_config l))"
    and acq: "rl_acquire ip now l = (r, l')"
  shows "r = fst (take_token (tb_config l) (of_nat m))" "bursting (normalize_ip ip) (m - 1) now l'"
proof -
  let ?c = "tb_config l" and ?k = "normalize_ip ip"
  let ?es = "bs_clients (tb_buckets l)" and ?xs = "bs_expirations (tb_buckets l)"
  have new: "bs_clients (tb_buckets l) = fmempty \<and> bs_expirations (tb_buckets l) = [] \<and> limiter_inv l"
    if "l = rate_limiter_new (tb_config l)"
    by (subst (1 2 3) that) simp
  from l new have inv: "limiter_inv l" and due: "\<forall>p \<in> set ?xs. now < fst p"
    unfolding bursting_def by auto
  have inv': "limiter_inv l'" using rl_acquire_inv [OF c(1) inv, of ip now] acq by simp
  have loop: "expire_loop 64 now ?es ?xs = (?es, ?xs)" using due by (rule expire_loop_not_due)
  have "r = fst (take_token ?c (of_nat m)) \<and> bursting ?k (m - 1) now l'"
    using acq loop
  proof (cases rule: rl_acquire_cases)
    case capacity
    then show ?thesis using l c(6) new by (auto simp: bursting_def fmlookup_dom_iff)
  next
    case (bucket b)
    have b: "bu_tokens b = of_nat m" "bu_last_refill b = now"
      using l bucket(2) c(2) new by (auto simp: bursting_def fresh_bucket_def)
    note sp = spend_whole [OF c(2-4) b]
    have "now < fst p" if "p \<in> set (bs_expirations (tb_buckets l'))" for p
    proof -
      have "p \<in> set ?xs \<or> (\<exists>d. bucket_deadline ?c now (of_nat (m - 1)) = Some d \<and> p = (d, ?k))"
        using that unfolding bucket(5) sp
        by (auto simp: Let_def bt_remove_def split: option.splits dest: subsetD [OF set_remove1_subset])
      then show ?thesis using due deadline_later c(5) by auto
    qed
    with inv' show ?thesis unfolding bursting_def bucket(3,4) sp by simp
  qed
  then show "r = fst (take_token ?c (of_nat m))" "bursting ?k (m - 1) now l'" by auto
qed

lemma burst_run:
  assumes "config_ok (tb_config l)" "rl_burst (tb_config l) = of_nat n" "n \<le> 2 ^ 53" "m \<le> n"
      "0 < rl_idle_timeout (tb_config l)" "0 < rl_max_clients (tb_config l)"
    and "bursting (normalize_ip ip) m now l \<or> (m = n \<and> l = rate_limiter_new (tb_config l))"
  shows "fst (rl_run l (replicate q (ip, now)))
    = map (\<lambda>i. if i < m then Inr (of_nat (m - 1 - i)) else Inl (Quota (burst_wait (tb_config l)))) [0..<q]"
  using assms
proof (induction q arbitrary: l m)
  case (Suc q)
  obtain r l1 where acq: "rl_acquire ip now l = (r, l1)" by fastforce
  have c1: "tb_config l1 = tb_config l" using rl_acquire_config [of ip now l] acq by simp
  note step = acquire_whole [OF Suc.prems acq]
  have "fst (rl_run l1 (replicate q (ip, now)))
      = map (\<lambda>i. if i < m - 1 then Inr (of_nat (m - 1 - 1 - i)) else Inl (Quota (burst_wait (tb_config l1)))) [0..<q]"
    using Suc.prems step(2) by (intro Suc.IH) (auto simp: c1)
  moreover have "m \<le> 2 ^ 53" using Suc.prems by simp
  note take_token_whole [OF this, of "tb_config l"]
  ultimately show ?case using acq step(1)
    by (auto simp: c1 case_prod_beta map_upt_Suc simp del: upt_Suc intro!: map_cong)
qed simp

text \<open>
  A burst is exact. A client new to the limiter that calls \<open>q\<close> times at one instant, with a
  burst of \<open>n\<close> tokens, is granted exactly the first \<open>n\<close> calls, is told at each how many are left, and
  is told at every further one to wait for the time a token takes, at least a second.
\<close>
theorem burst_exact:
  assumes "config_ok c" "rl_burst c = of_nat n" "n \<le> 2 ^ 53" "0 < rl_idle_timeout c" "0 < rl_max_clients c"
  shows "fst (rl_run (rate_limiter_new c) (replicate q (ip, now)))
    = map (\<lambda>i. if i < n then Inr (of_nat (n - 1 - i)) else Inl (Quota (burst_wait c))) [0..<q]"
  using burst_run [of "rate_limiter_new c" n n ip now q] assms by simp

subsection \<open>The store\<close>

lemma rl_run_inv:
  "config_ok (tb_config l) \<Longrightarrow> limiter_inv l \<Longrightarrow> limiter_inv (snd (rl_run l calls)) \<and> tb_config (snd (rl_run l calls)) = tb_config l"
proof (induction calls arbitrary: l)
  case (Cons call calls)
  obtain ip now where call: "call = (ip, now)" by fastforce
  obtain r l1 where acq: "rl_acquire ip now l = (r, l1)" by fastforce
  with rl_acquire_inv [OF Cons.prems, of ip now] rl_acquire_config [of ip now l]
  show ?case using Cons.IH [of l1] Cons.prems call by (simp add: case_prod_beta)
qed simp

text \<open>
  The store stays bounded. After any calls at any times, in whatever order the clock readings
  came, there are at most \<open>max_clients\<close> buckets, at most one deadline in the index for each, every
  deadline is that of a stored bucket, and every bucket holds between none and \<open>burst\<close> tokens.
\<close>
theorem limiter_bounded:
  assumes "config_ok c" "rl_run (rate_limiter_new c) calls = (rs, l)"
  shows "map_len (bs_clients (tb_buckets l)) \<le> rl_max_clients c
     \<and> length (bs_expirations (tb_buckets l)) \<le> map_len (bs_clients (tb_buckets l))
     \<and> (\<forall>d k. (d, k) \<in> set (bs_expirations (tb_buckets l)) \<longleftrightarrow>
          (\<exists>b. fmlookup (bs_clients (tb_buckets l)) k = Some b \<and> bu_expires_at b = Some d))
     \<and> (\<forall>k b. fmlookup (bs_clients (tb_buckets l)) k = Some b \<longrightarrow> 0 \<le> bu_tokens b \<and> bu_tokens b \<le> rl_burst c)"
proof -
  have "limiter_inv l \<and> tb_config l = c"
    using rl_run_inv [of "rate_limiter_new c" calls] assms by simp
  then show ?thesis
    by (auto simp: limiter_inv_def bucket_ok_def intro: index_length [OF synced_index_ok])
      (auto simp: synced_def)
qed

subsection \<open>Samples\<close>

definition sample_limits :: rate_limiter_config where
  "sample_limits = \<lparr>rl_rps = 1, rl_burst = 2, rl_trusted_proxies = [], rl_max_clients = 1,
     rl_idle_timeout = from_secs 300\<rparr>"

lemma sample_limits_ok: "config_ok sample_limits"
  using rnd_exact [of 2] by (simp add: config_ok_def sample_limits_def)

theorem burst_exact_witness:
  "fst (rl_run (rate_limiter_new sample_limits) (replicate 3 (V4 1, 0))) = [Inr 1, Inr 0, Inl (Quota 1)]"
proof -
  have "f64_div 1 (rl_rps sample_limits) = 1" by (simp add: sample_limits_def f64_div_def fr.one)
  then have "burst_wait sample_limits = 1"
    unfolding burst_wait_def by (simp only: f64_ceil_def f64_to_u64_def) simp
  moreover have "fst (rl_run (rate_limiter_new sample_limits) (replicate 3 (V4 1, 0)))
      = map (\<lambda>i. if i < 2 then Inr (of_nat (2 - 1 - i)) else Inl (Quota (burst_wait sample_limits))) [0..<3]"
    by (rule burst_exact [OF sample_limits_ok])
      (simp_all add: sample_limits_def from_secs_def nanos_per_sec_def)
  moreover have "[0..<3] = [0, 1, 2]" by (simp add: upt_rec)
  ultimately show ?thesis by simp
qed


theorem limiter_bounded_witness:
  "\<exists>rs l. rl_run (rate_limiter_new sample_limits) [(V4 1, 0), (V4 2, 5)] = (rs, l)
     \<and> map_len (bs_clients (tb_buckets l)) \<le> 1"
proof -
  obtain rs l where "rl_run (rate_limiter_new sample_limits) [(V4 1, 0), (V4 2, 5)] = (rs, l)" by fastforce
  with limiter_bounded [OF sample_limits_ok this] show ?thesis by (auto simp: sample_limits_def)
qed

end
