(* ===== verification/Webhook.thy ===== *)
theory Webhook
  imports Text_Lib
begin

text \<open>
  The webhook queue (\<open>kite-x402-axum/src/webhook.rs\<close>): events are queued once per target, delivery
  results move a record through its states, and both the queue and the history are bounded rings.
  The lock makes each operation one step; the wall clock, and the hash of it that ends an event id,
  are arguments. Nothing in the code reads \<open>initial_backoff\<close> or \<open>signing_secret\<close>.

  The lemmas give the invariant of queue and history and how often a delivery is attempted.
\<close>

datatype webhook_event_type = PaymentPrompted | PaymentVerified | PaymentSettled | PaymentFailed

record webhook_payload =
  wp_event_id :: str
  wp_event_type :: webhook_event_type
  wp_timestamp_ms :: u64
  wp_payer :: "str option"
  wp_network :: "str option"
  wp_amount_atomic :: "str option"
  wp_tx_hash :: "str option"
  wp_request_path :: "str option"

datatype delivery_status = Pending | Delivered | Failed | Abandoned

record webhook_delivery_record =
  wd_delivery_id :: u64
  wd_target_url :: str
  wd_payload :: webhook_payload
  wd_attempts :: u32
  wd_max_retries :: u32
  wd_status :: delivery_status
  wd_last_status_code :: "u16 option"
  wd_last_error :: "str option"
  wd_last_attempt_ms :: "u64 option"

record webhook_config =
  wc_target_urls :: "str list"
  wc_max_retries :: u32
  wc_initial_backoff :: duration
  wc_max_queue_size :: nat
  wc_signing_secret :: "str option"

definition default_webhook_config :: webhook_config where
  "default_webhook_config = \<lparr>wc_target_urls = [], wc_max_retries = 3, wc_initial_backoff = from_millis 500,
     wc_max_queue_size = 1000, wc_signing_secret = None\<rparr>"

record webhook_state =
  ws_next_delivery_id :: u64
  ws_queue :: "webhook_delivery_record list"
  ws_history :: "webhook_delivery_record list"

definition webhook_new :: webhook_state where
  "webhook_new = \<lparr>ws_next_delivery_id = 1, ws_queue = [], ws_history = []\<rparr>"

text \<open>\<open>duration_since(UNIX_EPOCH).unwrap_or_default().as_millis() as u64\<close>.\<close>

definition unix_millis :: "duration option \<Rightarrow> u64" where
  "unix_millis since_epoch = of_nat (as_millis (case since_epoch of Some d \<Rightarrow> d | None \<Rightarrow> 0))"

definition fastrand_hex :: "u64 \<Rightarrow> nat \<Rightarrow> str" where
  "fastrand_hex hash len = take (min len 16) (pad_zeros 16 (show_hex (unat hash)))"

fun enqueue_targets :: "webhook_config \<Rightarrow> webhook_payload \<Rightarrow> str list \<Rightarrow> webhook_state
    \<Rightarrow> u64 list \<times> webhook_state" where
  "enqueue_targets cfg payload [] s = ([], s)"
| "enqueue_targets cfg payload (target # targets) s =
     (let delivery_id = ws_next_delivery_id s;
          r = \<lparr>wd_delivery_id = delivery_id, wd_target_url = target, wd_payload = payload, wd_attempts = 0,
               wd_max_retries = wc_max_retries cfg, wd_status = Pending, wd_last_status_code = None,
               wd_last_error = None, wd_last_attempt_ms = None\<rparr>;
          s = s\<lparr>ws_next_delivery_id := delivery_id + 1,
                ws_queue := push_bounded (wc_max_queue_size cfg) (ws_queue s) r\<rparr>;
          (ids, s) = enqueue_targets cfg payload targets s
      in (delivery_id # ids, s))"

definition enqueue_event :: "webhook_config \<Rightarrow> duration option \<Rightarrow> u64 \<Rightarrow> webhook_event_type \<Rightarrow> str option
    \<Rightarrow> str option \<Rightarrow> str option \<Rightarrow> str option \<Rightarrow> str option \<Rightarrow> webhook_state \<Rightarrow> u64 list \<times> webhook_state" where
  "enqueue_event cfg clock hash event_type payer network amount_atomic tx_hash request_path s =
     (let now = unix_millis clock;
          event_id = ''evt_'' @ show_nat (unat now) @ ''_'' @ fastrand_hex hash 8;
          payload = \<lparr>wp_event_id = event_id, wp_event_type = event_type, wp_timestamp_ms = now,
            wp_payer = payer, wp_network = network, wp_amount_atomic = amount_atomic, wp_tx_hash = tx_hash,
            wp_request_path = request_path\<rparr>
      in enqueue_targets cfg payload (wc_target_urls cfg) s)"

text \<open>\<open>iter().position(..)\<close> and \<open>VecDeque::remove\<close> of the element found.\<close>

fun take_delivery :: "u64 \<Rightarrow> webhook_delivery_record list
    \<Rightarrow> (webhook_delivery_record \<times> webhook_delivery_record list) option" where
  "take_delivery d [] = None"
| "take_delivery d (r # rs) =
     (if wd_delivery_id r = d then Some (r, rs)
      else map_option (\<lambda>(x, xs). (x, r # xs)) (take_delivery d rs))"

definition record_attempt_result :: "webhook_config \<Rightarrow> duration option \<Rightarrow> u64 \<Rightarrow> bool \<Rightarrow> u16 option \<Rightarrow> str option
    \<Rightarrow> webhook_state \<Rightarrow> webhook_delivery_record option \<times> webhook_state" where
  "record_attempt_result cfg clock delivery_id success status_code error_msg s =
     (case take_delivery delivery_id (ws_queue s) of
        None \<Rightarrow> (None, s)
      | Some (r, queue) \<Rightarrow>
          let r = r\<lparr>wd_attempts := wd_attempts r + 1, wd_last_attempt_ms := Some (unix_millis clock),
                    wd_last_status_code := status_code, wd_last_error := error_msg\<rparr>
          in if success then
               let r = r\<lparr>wd_status := Delivered\<rparr>
               in (Some r, s\<lparr>ws_queue := queue, ws_history := push_bounded (wc_max_queue_size cfg) (ws_history s) r\<rparr>)
             else if wd_max_retries r < wd_attempts r then
               let r = r\<lparr>wd_status := Abandoned\<rparr>
               in (Some r, s\<lparr>ws_queue := queue, ws_history := push_bounded (wc_max_queue_size cfg) (ws_history s) r\<rparr>)
             else
               let r = r\<lparr>wd_status := Failed\<rparr>
               in (Some r, s\<lparr>ws_queue := queue @ [r]\<rparr>))"

definition pending_count :: "webhook_state \<Rightarrow> nat" where
  "pending_count s = length (ws_queue s)"

definition history_count :: "webhook_state \<Rightarrow> nat" where
  "history_count s = length (ws_history s)"

subsection \<open>The invariant\<close>

lemma set_push_bounded: "set (push_bounded cap q x) \<subseteq> insert x (set q)"
  by (cases q) (auto simp: push_bounded_def)

lemma take_delivery_Some:
  "take_delivery d q = Some (r, q') \<Longrightarrow> wd_delivery_id r = d \<and> (\<exists>xs ys. q = xs @ r # ys \<and> q' = xs @ ys)"
proof (induction d q arbitrary: q' rule: take_delivery.induct)
  case (2 d x xs)
  show ?case
  proof (cases "wd_delivery_id x = d")
    case True
    with 2(2) show ?thesis by (auto intro: exI [of _ "[]"])
  next
    case False
    with 2(2) obtain q'' where "take_delivery d xs = Some (r, q'')" "q' = x # q''" by auto
    with 2(1) [OF False] show ?thesis by (metis append_Cons)
  qed
qed simp

lemma take_delivery_None: "take_delivery d q = None \<longleftrightarrow> d \<notin> wd_delivery_id ` set q"
  by (induction d q rule: take_delivery.induct) auto

text \<open>A queued record is waiting for its first attempt or has retries left; a finished one is not.\<close>

definition queued_ok :: "u32 \<Rightarrow> webhook_delivery_record \<Rightarrow> bool" where
  "queued_ok max_retries r \<longleftrightarrow> wd_max_retries r = max_retries \<and> wd_attempts r \<le> max_retries
     \<and> wd_status r = (if wd_attempts r = 0 then Pending else Failed)"

definition finished_ok :: "u32 \<Rightarrow> webhook_delivery_record \<Rightarrow> bool" where
  "finished_ok max_retries r \<longleftrightarrow> 0 < wd_attempts r \<and> wd_attempts r \<le> max_retries + 1
     \<and> (wd_status r = Delivered \<or> (wd_status r = Abandoned \<and> wd_attempts r = max_retries + 1))"

definition webhook_inv :: "webhook_config \<Rightarrow> webhook_state \<Rightarrow> bool" where
  "webhook_inv cfg s \<longleftrightarrow> distinct (map wd_delivery_id (ws_queue s))
     \<and> (\<forall>r \<in> set (ws_queue s). wd_delivery_id r < ws_next_delivery_id s \<and> queued_ok (wc_max_retries cfg) r)
     \<and> (\<forall>r \<in> set (ws_history s). finished_ok (wc_max_retries cfg) r)
     \<and> length (ws_queue s) \<le> max 1 (wc_max_queue_size cfg)
     \<and> length (ws_history s) \<le> max 1 (wc_max_queue_size cfg)"

lemma webhook_inv_new [simp]: "webhook_inv cfg webhook_new"
  by (simp add: webhook_inv_def webhook_new_def)

lemma enqueue_targets_inv:
  assumes "webhook_inv cfg s" "unat (ws_next_delivery_id s) + length targets < 2 ^ 64"
    and "enqueue_targets cfg payload targets s = (ids, s')"
  shows "webhook_inv cfg s' \<and> unat (ws_next_delivery_id s') = unat (ws_next_delivery_id s) + length targets"
  using assms
proof (induction targets arbitrary: s ids)
  case (Cons target targets)
  let ?n = "ws_next_delivery_id s"
  define r where "r = \<lparr>wd_delivery_id = ?n, wd_target_url = target, wd_payload = payload, wd_attempts = 0,
    wd_max_retries = wc_max_retries cfg, wd_status = Pending, wd_last_status_code = None,
    wd_last_error = None, wd_last_attempt_ms = None\<rparr>"
  define s1 where "s1 = s\<lparr>ws_next_delivery_id := ?n + 1,
    ws_queue := push_bounded (wc_max_queue_size cfg) (ws_queue s) r\<rparr>"
  have n: "unat (?n + 1) = Suc (unat ?n)" using Cons.prems(2) by (simp add: unat_word_ariths)
  then have less: "d < ?n \<Longrightarrow> d < ?n + 1" "?n < ?n + 1" for d by (auto simp: word_less_nat_alt)
  have "?n \<notin> wd_delivery_id ` set (ws_queue s)" using Cons.prems(1) by (fastforce simp: webhook_inv_def)
  then have "distinct (map wd_delivery_id (push_bounded (wc_max_queue_size cfg) (ws_queue s) r))"
    using Cons.prems(1)
    by (cases "ws_queue s") (auto simp: push_bounded_def webhook_inv_def r_def image_iff)
  moreover have "queued_ok (wc_max_retries cfg) r" by (simp add: queued_ok_def r_def)
  ultimately have "webhook_inv cfg s1"
    using Cons.prems(1) less set_push_bounded [of "wc_max_queue_size cfg" "ws_queue s" r]
      length_push_bounded [of "ws_queue s" "wc_max_queue_size cfg" r]
    by (auto simp: webhook_inv_def s1_def r_def)
  moreover obtain ids' where "enqueue_targets cfg payload targets s1 = (ids', s')"
    using Cons.prems(3) by (auto simp: s1_def r_def Let_def split: prod.splits)
  ultimately show ?case using Cons.IH [of s1 ids'] Cons.prems(2) n by (simp add: s1_def)
qed simp

lemma record_attempt_inv:
  assumes "webhook_inv cfg s" "wc_max_retries cfg < - 1"
    and "record_attempt_result cfg clock d success status_code error_msg s = (res, s')"
  shows "webhook_inv cfg s' \<and> ws_next_delivery_id s' = ws_next_delivery_id s"
proof (cases "take_delivery d (ws_queue s)")
  case None
  with assms show ?thesis by (auto simp: record_attempt_result_def)
next
  case (Some p)
  obtain r q where p: "p = (r, q)" by fastforce
  with take_delivery_Some Some obtain xs ys where q: "ws_queue s = xs @ r # ys" "q = xs @ ys" by blast
  let ?m = "wc_max_retries cfg"
  let ?r = "r\<lparr>wd_attempts := wd_attempts r + 1, wd_last_attempt_ms := Some (unix_millis clock),
    wd_last_status_code := status_code, wd_last_error := error_msg\<rparr>"
  have r: "queued_ok ?m r" using assms(1) q(1) by (simp add: webhook_inv_def)
  have m: "unat ?m < 2 ^ 32 - 1"
    using assms(2) by (simp add: word_less_nat_alt unat_minus_one_word)
  have a: "unat (wd_attempts r + 1) = unat (wd_attempts r) + 1" "unat (?m + 1) = unat ?m + 1"
    using r m by (auto simp: queued_ok_def word_le_nat_alt unat_word_ariths)
  have "unat (wd_attempts r) \<le> unat ?m" using r by (simp add: queued_ok_def word_le_nat_alt)
  then have done1: "finished_ok ?m (?r\<lparr>wd_status := Delivered\<rparr>)"
    and done2: "\<not> wd_attempts ?r \<le> ?m \<Longrightarrow> finished_ok ?m (?r\<lparr>wd_status := Abandoned\<rparr>)"
    and again: "wd_attempts ?r \<le> ?m \<Longrightarrow> queued_ok ?m (?r\<lparr>wd_status := Failed\<rparr>)"
    using r by (auto simp: finished_ok_def queued_ok_def word_le_nat_alt word_less_nat_alt a word_unat_eq_iff)
  have hist: "length (push_bounded (wc_max_queue_size cfg) (ws_history s) x) \<le> max 1 (wc_max_queue_size cfg)" for x
    using assms(1) by (intro length_push_bounded) (simp add: webhook_inv_def)
  have hist': "set (push_bounded (wc_max_queue_size cfg) (ws_history s) x) \<subseteq> insert x (set (ws_history s))" for x
    by (rule set_push_bounded)
  have max: "wd_max_retries r = ?m" using r by (simp add: queued_ok_def)
  consider (ok) "success" | (gone) "\<not> success" "?m < wd_attempts r + 1" | (retry) "\<not> success" "wd_attempts r + 1 \<le> ?m"
    by (meson not_le)
  then show ?thesis
  proof cases
    case ok
    with assms(1,3) Some p q hist hist' [of "?r\<lparr>wd_status := Delivered\<rparr>"] done1 show ?thesis
      by (auto simp: record_attempt_result_def Let_def webhook_inv_def)
  next
    case gone
    with assms(1,3) Some p q hist hist' [of "?r\<lparr>wd_status := Abandoned\<rparr>"] done2 max show ?thesis
      by (auto simp: record_attempt_result_def Let_def webhook_inv_def)
  next
    case retry
    then have "\<not> ?m < wd_attempts r + 1" by simp
    with retry assms(1,3) Some p q again max show ?thesis
      by (auto simp: record_attempt_result_def Let_def webhook_inv_def)
  qed
qed

datatype webhook_op =
    Enqueue "duration option" u64 webhook_event_type "str option" "str option" "str option" "str option" "str option"
  | Attempted "duration option" u64 bool "u16 option" "str option"

definition webhook_step :: "webhook_config \<Rightarrow> webhook_state \<Rightarrow> webhook_op \<Rightarrow> webhook_state" where
  "webhook_step cfg s ev =
     (case ev of
        Enqueue clock hash kind payer network amount tx path \<Rightarrow>
          snd (enqueue_event cfg clock hash kind payer network amount tx path s)
      | Attempted clock d success status_code error_msg \<Rightarrow>
          snd (record_attempt_result cfg clock d success status_code error_msg s))"

definition enqueued :: "webhook_op list \<Rightarrow> nat" where
  "enqueued evs = length (filter (\<lambda>ev. case ev of Enqueue _ _ _ _ _ _ _ _ \<Rightarrow> True | _ \<Rightarrow> False) evs)"

lemma webhook_run_inv:
  assumes "wc_max_retries cfg < - 1" "webhook_inv cfg s"
    and "unat (ws_next_delivery_id s) + enqueued evs * length (wc_target_urls cfg) < 2 ^ 64"
  shows "webhook_inv cfg (foldl (webhook_step cfg) s evs)"
  using assms
proof (induction evs arbitrary: s)
  case (Cons ev evs)
  show ?case
  proof (cases ev)
    case (Enqueue clock hash kind payer network amount tx path)
    obtain ids s1 where e: "enqueue_event cfg clock hash kind payer network amount tx path s = (ids, s1)" by fastforce
    have n: "unat (ws_next_delivery_id s) + length (wc_target_urls cfg)
        + enqueued evs * length (wc_target_urls cfg) < 2 ^ 64"
      using Cons.prems(3) Enqueue by (simp add: enqueued_def)
    then have "webhook_inv cfg s1 \<and>
        unat (ws_next_delivery_id s1) = unat (ws_next_delivery_id s) + length (wc_target_urls cfg)"
      using e unfolding enqueue_event_def Let_def by (intro enqueue_targets_inv [OF Cons.prems(2)]) auto
    with Cons.IH [of s1] Cons.prems(1) n e Enqueue show ?thesis by (simp add: webhook_step_def)
  next
    case (Attempted clock d success status_code error_msg)
    obtain res s1 where r: "record_attempt_result cfg clock d success status_code error_msg s = (res, s1)" by fastforce
    with record_attempt_inv [OF Cons.prems(2,1) r] Cons.IH [of s1] Cons.prems Attempted
    show ?thesis by (simp add: webhook_step_def enqueued_def)
  qed
qed simp


subsection \<open>Giving up\<close>

text \<open>\<open>failing n\<close> reports \<open>n\<close> failures of one delivery in a row, and collects the records returned.\<close>

fun failing :: "webhook_config \<Rightarrow> u64 \<Rightarrow> nat \<Rightarrow> webhook_state \<Rightarrow> webhook_delivery_record option list \<times> webhook_state" where
  "failing cfg d 0 s = ([], s)"
| "failing cfg d (Suc n) s =
     (let (res, s) = record_attempt_result cfg None d False None None s;
          (rest, s) = failing cfg d n s
      in (res # rest, s))"

lemma take_delivery_member:
  assumes "distinct (map wd_delivery_id q)" "r \<in> set q"
  obtains q' where "take_delivery (wd_delivery_id r) q = Some (r, q')" "set q' = set q - {r}" "wd_delivery_id r \<notin> wd_delivery_id ` set q'"
proof -
  obtain x q' where t: "take_delivery (wd_delivery_id r) q = Some (x, q')"
    using assms(2) take_delivery_None [of "wd_delivery_id r" q] by (cases "take_delivery (wd_delivery_id r) q") auto
  from take_delivery_Some [OF this] obtain xs ys where
    x: "wd_delivery_id x = wd_delivery_id r" "q = xs @ x # ys" "q' = xs @ ys" by blast
  with assms have "x = r" by (auto simp: image_iff)
  with that t x assms(1) show thesis by auto
qed

lemma fail_queued:
  assumes "webhook_inv cfg s" "wc_max_retries cfg < - 1" "r \<in> set (ws_queue s)"
    and "record_attempt_result cfg None (wd_delivery_id r) False None None s = (res, s')"
  shows "if wd_attempts r < wc_max_retries cfg
     then \<exists>r'. res = Some r' \<and> wd_status r' = Failed \<and> r' \<in> set (ws_queue s')
       \<and> wd_delivery_id r' = wd_delivery_id r \<and> unat (wd_attempts r') = Suc (unat (wd_attempts r))
     else (\<exists>r'. res = Some r' \<and> wd_status r' = Abandoned) \<and> wd_delivery_id r \<notin> wd_delivery_id ` set (ws_queue s')"
proof -
  let ?m = "wc_max_retries cfg"
  have r: "queued_ok ?m r" and d: "distinct (map wd_delivery_id (ws_queue s))"
    using assms(1,3) by (auto simp: webhook_inv_def)
  obtain q' where q': "take_delivery (wd_delivery_id r) (ws_queue s) = Some (r, q')"
    "wd_delivery_id r \<notin> wd_delivery_id ` set q'"
    using take_delivery_member [OF d assms(3)] by metis
  have m: "unat ?m < 2 ^ 32 - 1" using assms(2) by (simp add: word_less_nat_alt unat_minus_one_word)
  have le: "unat (wd_attempts r) \<le> unat ?m" "wd_max_retries r = ?m"
    using r by (simp_all add: queued_ok_def word_le_nat_alt)
  then have a: "unat (wd_attempts r + 1) = Suc (unat (wd_attempts r))" using m by (simp add: unat_word_ariths)
  then have "?m < wd_attempts r + 1 \<longleftrightarrow> \<not> wd_attempts r < ?m" by (auto simp: word_less_nat_alt)
  then show ?thesis
    using assms(4) q' le a by (auto simp: record_attempt_result_def Let_def)
qed

lemma failing_gives_up:
  assumes "webhook_inv cfg s" "wc_max_retries cfg < - 1" "r \<in> set (ws_queue s)"
    and "unat (wc_max_retries cfg) = unat (wd_attempts r) + n"
  shows "map (map_option wd_status) (fst (failing cfg (wd_delivery_id r) (Suc (Suc n)) s))
     = replicate n (Some Failed) @ [Some Abandoned, None]"
  using assms
proof (induction n arbitrary: s r)
  case 0
  obtain res s' where step: "record_attempt_result cfg None (wd_delivery_id r) False None None s = (res, s')"
    by fastforce
  have "\<not> wd_attempts r < wc_max_retries cfg" using 0(4) by (simp add: word_less_nat_alt)
  with fail_queued [OF 0(1-3) step] obtain r' where "res = Some r'" "wd_status r' = Abandoned"
    and "wd_delivery_id r \<notin> wd_delivery_id ` set (ws_queue s')" by auto
  moreover from this have "record_attempt_result cfg None (wd_delivery_id r) False None None s' = (None, s')"
    using take_delivery_None [of "wd_delivery_id r" "ws_queue s'"] by (simp add: record_attempt_result_def)
  ultimately show ?case by (simp add: step)
next
  case (Suc n)
  obtain res s' where step: "record_attempt_result cfg None (wd_delivery_id r) False None None s = (res, s')"
    by fastforce
  have "wd_attempts r < wc_max_retries cfg" using Suc.prems(4) by (simp add: word_less_nat_alt)
  with fail_queued [OF Suc.prems(1-3) step] obtain r' where r': "res = Some r'" "wd_status r' = Failed"
    "r' \<in> set (ws_queue s')" "wd_delivery_id r' = wd_delivery_id r" "unat (wd_attempts r') = Suc (unat (wd_attempts r))"
    by auto
  have "webhook_inv cfg s'" using record_attempt_inv [OF Suc.prems(1,2) step] by simp
  from Suc.IH [OF this Suc.prems(2) r'(3)] Suc.prems(4) r'(5)
  have "map (map_option wd_status) (fst (failing cfg (wd_delivery_id r) (Suc (Suc n)) s'))
     = replicate n (Some Failed) @ [Some Abandoned, None]" by (simp add: r'(4))
  moreover have "fst (failing cfg (wd_delivery_id r) (Suc (Suc (Suc n))) s)
     = res # fst (failing cfg (wd_delivery_id r) (Suc (Suc n)) s')"
    by (subst failing.simps(2)) (simp only: step Let_def prod.case case_prod_beta fst_conv snd_conv)
  ultimately show ?case by (simp only: r'(1,2) list.map option.map replicate_Suc append_Cons)
qed

text \<open>
  A delivery that keeps failing is attempted once more than it may be retried, then given up. A
  delivery queued for its first attempt answers \<open>Failed\<close> to each of its \<open>max_retries\<close> first failures,
  \<open>Abandoned\<close> to the next, and is unknown from then on; the loop of failures ends by itself.
\<close>
theorem delivery_gives_up:
  assumes "wc_max_retries cfg < - 1" "enqueued evs * length (wc_target_urls cfg) < 2 ^ 64 - 1"
    and "s = foldl (webhook_step cfg) webhook_new evs"
    and "r \<in> set (ws_queue s)" "wd_status r = Pending"
  shows "map (map_option wd_status)
      (fst (failing cfg (wd_delivery_id r) (Suc (Suc (unat (wc_max_retries cfg)))) s))
     = replicate (unat (wc_max_retries cfg)) (Some Failed) @ [Some Abandoned, None]"
proof -
  have inv: "webhook_inv cfg s"
    unfolding assms(3) using assms(1) webhook_inv_new
    by (rule webhook_run_inv) (use assms(2) in \<open>simp add: webhook_new_def\<close>)
  then have "wd_attempts r = 0"
    using assms(4,5) by (auto simp: webhook_inv_def queued_ok_def split: if_splits)
  with failing_gives_up [OF inv assms(1,4), of "unat (wc_max_retries cfg)"] show ?thesis by simp
qed

definition sample_hooks :: webhook_config where
  "sample_hooks = \<lparr>wc_target_urls = [''u''], wc_max_retries = 1, wc_initial_backoff = 0,
     wc_max_queue_size = 5, wc_signing_secret = None\<rparr>"

definition sample_event :: webhook_op where
  "sample_event = Enqueue (Some 0) 0 PaymentSettled None None None None None"


theorem delivery_gives_up_witness:
  "map (map_option wd_status) (fst (failing sample_hooks 1 3 (webhook_step sample_hooks webhook_new sample_event)))
     = [Some Failed, Some Abandoned, None]"
proof -
  let ?s = "foldl (webhook_step sample_hooks) webhook_new [sample_event]"
  obtain r where "ws_queue ?s = [r]" "wd_delivery_id r = 1" "wd_status r = Pending"
    by (simp add: sample_hooks_def sample_event_def webhook_step_def enqueue_event_def webhook_new_def
        push_bounded_def Let_def)
  moreover have "wc_max_retries sample_hooks = 1" by (simp add: sample_hooks_def)
  moreover have "wc_max_retries sample_hooks < - 1"
    "enqueued [sample_event] * length (wc_target_urls sample_hooks) < 2 ^ 64 - 1"
    by (simp_all add: sample_hooks_def sample_event_def enqueued_def word_less_nat_alt unat_minus_one_word)
  ultimately show ?thesis
    using delivery_gives_up [of sample_hooks "[sample_event]" ?s r] by (simp add: numeral_3_eq_3)
qed

end
