(* ===== verification/SlidingLimiter.thy ===== *)
theory SlidingLimiter
  imports Prelude
begin

text \<open>
  The sliding-window limiter (\<open>kite-x402-axum/src/sliding_limiter.rs\<close>): per key, the instants of the
  admitted requests inside the window. A call that panics while it holds the mutex poisons it, and
  every later call panics on the poisoned mutex; \<open>None\<close> stands for a panic.

  The lemmas say how many requests a window admits, what the retry hint is worth, and what a limit
  of zero does.
\<close>

record sliding_window_config =
  sw_max_requests :: nat
  sw_window_duration :: duration

definition default_sliding_config :: sliding_window_config where
  "default_sliding_config = \<lparr>sw_max_requests = 60, sw_window_duration = from_secs 60\<rparr>"

record sliding_limiter =
  sl_config :: sliding_window_config
  sl_state :: "(str, instant list) fmap"
  sl_poisoned :: bool

definition sliding_new :: "sliding_window_config \<Rightarrow> sliding_limiter" where
  "sliding_new config = \<lparr>sl_config = config, sl_state = fmempty, sl_poisoned = False\<rparr>"

text \<open>The loop that pops the timestamps before the cutoff.\<close>

fun drop_before :: "instant \<Rightarrow> instant list \<Rightarrow> instant list" where
  "drop_before cutoff [] = []"
| "drop_before cutoff (first # rest) =
     (if first < cutoff then drop_before cutoff rest else first # rest)"

definition sliding_check :: "str \<Rightarrow> instant \<Rightarrow> sliding_limiter \<Rightarrow> (duration + nat) option \<times> sliding_limiter" where
  "sliding_check key now l =
     (if sl_poisoned l then (None, l)
      else
        let w = sw_window_duration (sl_config l);
            cutoff = (case instant_checked_sub now w of Some t \<Rightarrow> t | None \<Rightarrow> now);
            timestamps = drop_before cutoff (case fmlookup (sl_state l) key of Some ts \<Rightarrow> ts | None \<Rightarrow> []);
            l = l\<lparr>sl_state := fmupd key timestamps (sl_state l)\<rparr>
        in if sw_max_requests (sl_config l) \<le> length timestamps
           then
             (case timestamps of
                [] \<Rightarrow> (None, l\<lparr>sl_poisoned := True\<rparr>)
              | earliest # _ \<Rightarrow>
                  (case instant_checked_add earliest w of
                     None \<Rightarrow> (None, l\<lparr>sl_poisoned := True\<rparr>)
                   | Some t \<Rightarrow> (Some (Inl (duration_since t now)), l)))
           else
             (let timestamps = timestamps @ [now]
              in (Some (Inr (sw_max_requests (sl_config l) - length timestamps)),
                  l\<lparr>sl_state := fmupd key timestamps (sl_state l)\<rparr>)))"

definition sliding_reset :: "str \<Rightarrow> sliding_limiter \<Rightarrow> unit option \<times> sliding_limiter" where
  "sliding_reset key l =
     (if sl_poisoned l then (None, l) else (Some (), l\<lparr>sl_state := fmdrop key (sl_state l)\<rparr>))"

subsection \<open>Calls in the order of the clock\<close>

lemma drop_before_sorted: "sorted ts \<Longrightarrow> drop_before c ts = filter (\<lambda>t. c \<le> t) ts"
proof (induction ts)
  case (Cons a ts)
  show ?case
  proof (cases "a < c")
    case False
    with Cons.prems have "filter (\<lambda>t. c \<le> t) ts = ts" by (auto simp: filter_id_conv)
    with False show ?thesis by simp
  qed (use Cons in auto)
qed simp

lemma drop_before_filter:
  assumes "sorted ts" "c \<le> d"
  shows "drop_before d (filter (\<lambda>t. c \<le> t) ts) = filter (\<lambda>t. d \<le> t) ts"
proof -
  have "drop_before d (filter (\<lambda>t. c \<le> t) ts) = filter (\<lambda>t. d \<le> t) (filter (\<lambda>t. c \<le> t) ts)"
    using assms(1) by (intro drop_before_sorted sorted_wrt_filter)
  then show ?thesis using assms(2) by (auto intro: filter_cong)
qed

fun sliding_run :: "sliding_limiter \<Rightarrow> (str \<times> instant) list \<Rightarrow> (duration + nat) option list \<times> sliding_limiter" where
  "sliding_run l [] = ([], l)"
| "sliding_run l ((key, now) # calls) =
     (let (r, l) = sliding_check key now l; (rs, l) = sliding_run l calls in (r # rs, l))"

text \<open>The instants at which requests of one key were admitted.\<close>

definition admissions :: "str \<Rightarrow> (str \<times> instant) list \<Rightarrow> (duration + nat) option list \<Rightarrow> instant list" where
  "admissions key calls rs = map (snd \<circ> fst)
     (filter (\<lambda>((k, _), r). k = key \<and> (\<exists>n. r = Some (Inr n))) (zip calls rs))"

definition window_count :: "instant \<Rightarrow> duration \<Rightarrow> instant list \<Rightarrow> nat" where
  "window_count now w ts = length (filter (\<lambda>t. now - int w \<le> t \<and> t \<le> now) ts)"

text \<open>
  The stored timestamps of a key are its admissions \<open>ts\<close> since some cutoff, which no later call
  undercuts, and every window ending at an admission holds at most the limit.
\<close>

definition window_inv :: "str \<Rightarrow> instant \<Rightarrow> instant list \<Rightarrow> sliding_limiter \<Rightarrow> bool" where
  "window_inv key now ts l \<longleftrightarrow> sorted ts \<and> (\<forall>t \<in> set ts. t \<le> now)
     \<and> (\<exists>c \<le> now - int (sw_window_duration (sl_config l)).
          (case fmlookup (sl_state l) key of Some xs \<Rightarrow> xs | None \<Rightarrow> []) = filter (\<lambda>t. c \<le> t) ts)
     \<and> (\<forall>t \<in> set ts. window_count t (sw_window_duration (sl_config l)) ts \<le> sw_max_requests (sl_config l))"

definition clock_ok :: "duration \<Rightarrow> instant \<Rightarrow> bool" where
  "clock_ok w now \<longleftrightarrow> instant_min \<le> now - int w \<and> now + int w \<le> instant_max"

lemma sliding_check_config [simp]: "sl_config (snd (sliding_check key now l)) = sl_config l"
  by (simp add: sliding_check_def Let_def split: list.split option.split)

lemma sliding_check_other:
  "k \<noteq> key \<Longrightarrow> fmlookup (sl_state (snd (sliding_check key now l))) k = fmlookup (sl_state l) k"
  by (simp add: sliding_check_def Let_def split: list.split option.split)

lemma window_inv_later: "window_inv key t ts l \<Longrightarrow> t \<le> now \<Longrightarrow> window_inv key now ts l"
  unfolding window_inv_def by (elim conjE exE, intro conjI exI) (auto intro: order_trans)

lemma window_count_snoc:
  assumes "sorted ts" "\<forall>t \<in> set ts. t \<le> now"
  shows "window_count now w (ts @ [now]) = Suc (length (filter (\<lambda>t. now - int w \<le> t) ts))"
    and "t \<le> now \<Longrightarrow> t \<noteq> now \<Longrightarrow> window_count t w (ts @ [now]) = window_count t w ts"
proof -
  have "filter (\<lambda>t. now - int w \<le> t \<and> t \<le> now) ts = filter (\<lambda>t. now - int w \<le> t) ts"
    using assms(2) by (auto intro!: filter_cong)
  then show "window_count now w (ts @ [now]) = Suc (length (filter (\<lambda>t. now - int w \<le> t) ts))"
    by (simp add: window_count_def)
qed (auto simp: window_count_def)

text \<open>Only the admissions still inside the window decide.\<close>

lemma sliding_check_window:
  assumes "window_inv key now ts l" "\<not> sl_poisoned l" "0 < sw_max_requests (sl_config l)"
    and "clock_ok (sw_window_duration (sl_config l)) now"
    and "recent = filter (\<lambda>t. now - int (sw_window_duration (sl_config l)) \<le> t) ts"
  shows "sliding_check key now l =
      (if sw_max_requests (sl_config l) \<le> length recent
       then (Some (Inl (duration_since (hd recent + int (sw_window_duration (sl_config l))) now)),
         l\<lparr>sl_state := fmupd key recent (sl_state l)\<rparr>)
       else (Some (Inr (sw_max_requests (sl_config l) - Suc (length recent))),
         l\<lparr>sl_state := fmupd key (recent @ [now]) (sl_state l)\<rparr>))"
proof -
  let ?w = "sw_window_duration (sl_config l)"
  obtain c where c: "c \<le> now - int ?w"
    "(case fmlookup (sl_state l) key of Some xs \<Rightarrow> xs | None \<Rightarrow> []) = filter (\<lambda>t. c \<le> t) ts"
    and ts: "sorted ts" "\<forall>t \<in> set ts. t \<le> now"
    using assms(1) by (auto simp: window_inv_def)
  have cut: "instant_checked_sub now ?w = Some (now - int ?w)"
    using assms(4) by (simp add: instant_checked_sub_def clock_ok_def)
  have kept: "drop_before (now - int ?w) (filter (\<lambda>t. c \<le> t) ts) = recent"
    unfolding assms(5) using ts(1) c(1) by (rule drop_before_filter)
  show ?thesis
  proof (cases recent)
    case Nil
    then show ?thesis using assms(2,3) c(2) by (simp add: sliding_check_def Let_def cut kept)
  next
    case (Cons e rest)
    then have "e \<in> set ts" unfolding assms(5) by (metis filter_is_subset in_mono list.set_intros(1))
    then have "instant_checked_add e ?w = Some (e + int ?w)"
      using ts(2) assms(4) by (fastforce simp: instant_checked_add_def clock_ok_def)
    then show ?thesis using assms(2,3) c(2) Cons by (simp add: sliding_check_def Let_def cut kept)
  qed
qed

lemma sliding_check_inv:
  assumes "window_inv key now ts l" "\<not> sl_poisoned l" "0 < sw_max_requests (sl_config l)"
    and "clock_ok (sw_window_duration (sl_config l)) now" "sliding_check key now l = (r, l')"
  shows "\<not> sl_poisoned l'" "r \<noteq> None"
    and "window_inv key now (if \<exists>n. r = Some (Inr n) then ts @ [now] else ts) l'"
    and "(\<exists>n. r = Some (Inr n)) \<longleftrightarrow>
      length (filter (\<lambda>t. now - int (sw_window_duration (sl_config l)) \<le> t) ts) < sw_max_requests (sl_config l)"
    and "r = Some (Inl d) \<Longrightarrow> \<exists>e rest. filter (\<lambda>t. now - int (sw_window_duration (sl_config l)) \<le> t) ts = e # rest
      \<and> int d = e + int (sw_window_duration (sl_config l)) - now"
proof -
  let ?w = "sw_window_duration (sl_config l)" and ?m = "sw_max_requests (sl_config l)"
  let ?ts = "filter (\<lambda>t. now - int ?w \<le> t) ts"
  have ts: "sorted ts" "\<forall>t \<in> set ts. t \<le> now" "\<forall>t \<in> set ts. window_count t ?w ts \<le> ?m"
    using assms(1) by (auto simp: window_inv_def)
  note check = sliding_check_window [OF assms(1-4) refl]
  have kept_all: "filter (\<lambda>t. now - int ?w \<le> t) (ts @ [now]) = ?ts @ [now]" by simp
  show "\<not> sl_poisoned l'" "r \<noteq> None"
    using assms(2,5) by (auto simp: check split: if_splits)
  show adm: "(\<exists>n. r = Some (Inr n)) \<longleftrightarrow> length ?ts < ?m"
    using assms(5) by (auto simp: check not_le split: if_splits)
  show "\<exists>e rest. ?ts = e # rest \<and> int d = e + int ?w - now" if "r = Some (Inl d)"
  proof -
    have "?m \<le> length ?ts" and d: "d = duration_since (hd ?ts + int ?w) now"
      using that assms(5) by (auto simp: check split: if_splits)
    with assms(3) obtain e rest where er: "?ts = e # rest" by (cases ?ts) auto
    then have "e \<in> set ?ts" by simp
    then have "now \<le> e + int ?w" by simp
    with d er show ?thesis by (simp add: duration_since_def)
  qed
  show "window_inv key now (if \<exists>n. r = Some (Inr n) then ts @ [now] else ts) l'"
  proof (cases "length ?ts < ?m")
    case False
    with adm have no: "\<not> (\<exists>n. r = Some (Inr n))" by simp
    have "l' = l\<lparr>sl_state := fmupd key ?ts (sl_state l)\<rparr>"
      using False assms(5) by (auto simp: check split: if_splits)
    with no ts show ?thesis unfolding window_inv_def by (auto intro!: exI [of _ "now - int ?w"])
  next
    case True
    with adm have yes: "\<exists>n. r = Some (Inr n)" by simp
    have l': "l' = l\<lparr>sl_state := fmupd key (?ts @ [now]) (sl_state l)\<rparr>"
      using True assms(5) by (auto simp: check split: if_splits)
    have "window_count t ?w (ts @ [now]) \<le> ?m" if "t \<in> set (ts @ [now])" for t
    proof (cases "t = now")
      case True
      then show ?thesis using window_count_snoc(1) [OF ts(1,2), of ?w] \<open>length ?ts < ?m\<close> by simp
    next
      case False
      with that ts show ?thesis using window_count_snoc(2) [OF ts(1,2), of t ?w] by auto
    qed
    with yes l' ts kept_all show ?thesis
      unfolding window_inv_def by (auto simp: sorted_append intro!: exI [of _ "now - int ?w"])
  qed
qed

lemma admissions_Cons:
  "admissions key ((k, now) # calls) (r # rs)
    = (if k = key \<and> (\<exists>n. r = Some (Inr n)) then now # admissions key calls rs else admissions key calls rs)"
  by (auto simp: admissions_def)

lemma sliding_check_healthy:
  assumes "\<And>k. window_inv k now (adm k) l" "\<not> sl_poisoned l" "0 < sw_max_requests (sl_config l)"
    and "clock_ok (sw_window_duration (sl_config l)) now" "sliding_check key now l = (r, l')"
  shows "window_inv k now (if k = key \<and> (\<exists>n. r = Some (Inr n)) then adm k @ [now] else adm k) l'"
proof (cases "k = key")
  case True
  with sliding_check_inv(3) [OF assms(1-5)] show ?thesis by (cases "\<exists>n. r = Some (Inr n)") auto
next
  case False
  have "sl_config l' = sl_config l" using sliding_check_config [of key now l] assms(5) by simp
  then show ?thesis
    using False assms(1) [of k] sliding_check_other [OF False, of now l] assms(5) by (simp add: window_inv_def)
qed

lemma sliding_run_inv:
  assumes "\<And>k. window_inv k t (adm k) l" "\<not> sl_poisoned l" "0 < sw_max_requests (sl_config l)"
    and "sorted (t # map snd calls)" "\<forall>now \<in> set (map snd calls). clock_ok (sw_window_duration (sl_config l)) now"
    and "sliding_run l calls = (rs, l')"
  shows "window_inv k (last (t # map snd calls)) (adm k @ admissions k calls rs) l'
     \<and> \<not> sl_poisoned l' \<and> sl_config l' = sl_config l \<and> None \<notin> set rs"
  using assms
proof (induction calls arbitrary: l t adm rs)
  case Nil
  then show ?case by (simp add: admissions_def)
next
  case (Cons call calls)
  obtain key now where call: "call = (key, now)" by fastforce
  obtain r l1 where chk: "sliding_check key now l = (r, l1)" by fastforce
  obtain rs' where run: "sliding_run l1 calls = (rs', l')" and rs: "rs = r # rs'"
    using Cons.prems(6) call chk by (auto split: prod.splits)
  have "t \<le> now" and ok: "clock_ok (sw_window_duration (sl_config l)) now" using Cons.prems(4,5) call by auto
  then have inv: "window_inv k now (adm k) l" for k using Cons.prems(1) window_inv_later by blast
  have c1: "sl_config l1 = sl_config l" using sliding_check_config [of key now l] chk by simp
  let ?adm = "\<lambda>k. if k = key \<and> (\<exists>n. r = Some (Inr n)) then adm k @ [now] else adm k"
  note healthy = sliding_check_healthy [OF inv Cons.prems(2,3) ok chk]
    and safe = sliding_check_inv(1,2) [OF inv Cons.prems(2,3) ok chk]
  have "sorted (now # map snd calls)" using Cons.prems(4) call by simp
  moreover have "0 < sw_max_requests (sl_config l1)" using Cons.prems(3) c1 by simp
  moreover have "\<forall>now \<in> set (map snd calls). clock_ok (sw_window_duration (sl_config l1)) now"
    using Cons.prems(5) c1 by simp
  ultimately have "window_inv k (last (now # map snd calls)) (?adm k @ admissions k calls rs') l'
     \<and> \<not> sl_poisoned l' \<and> sl_config l' = sl_config l1 \<and> None \<notin> set rs'"
    using Cons.IH [of now ?adm l1 rs', OF healthy safe(1)] run by blast
  then show ?case using rs call c1 safe(2) by (auto simp: admissions_Cons)
qed

lemma sliding_run_new:
  assumes "0 < sw_max_requests config" "sorted (map snd calls)"
    and "\<forall>now \<in> set (map snd calls). clock_ok (sw_window_duration config) now"
    and "sliding_run (sliding_new config) calls = (rs, l)" "calls \<noteq> []"
  shows "window_inv key (snd (last calls)) (admissions key calls rs) l
     \<and> \<not> sl_poisoned l \<and> sl_config l = config \<and> None \<notin> set rs"
proof -
  have new: "window_inv k t [] (sliding_new config)" for k t
    by (auto simp: window_inv_def sliding_new_def)
  have "sorted (snd (hd calls) # map snd calls)" using assms(2,5) by (cases calls) auto
  moreover have "last (snd (hd calls) # map snd calls) = snd (last calls)" using assms(5) by (simp add: last_map)
  ultimately show ?thesis
    using sliding_run_inv [where adm = "\<lambda>_. []" and t = "snd (hd calls)" and k = key, OF new, of calls rs l] assms
    by (simp add: sliding_new_def)
qed

text \<open>A window that ends between two admissions holds no more than the one ending at the first.\<close>

lemma length_filter_mono: "(\<And>x. x \<in> set xs \<Longrightarrow> P x \<Longrightarrow> Q x) \<Longrightarrow> length (filter P xs) \<le> length (filter Q xs)"
  by (induction xs) (auto simp: le_SucI)

lemma window_count_any:
  assumes "\<forall>t \<in> set ts. window_count t w ts \<le> m"
  shows "window_count now w ts \<le> m"
proof (cases "{t \<in> set ts. now - int w \<le> t \<and> t \<le> now} = {}")
  case True
  then have "filter (\<lambda>t. now - int w \<le> t \<and> t \<le> now) ts = []" by (auto simp: filter_empty_conv)
  then show ?thesis by (simp add: window_count_def)
next
  case False
  let ?f = "{t \<in> set ts. now - int w \<le> t \<and> t \<le> now}"
  have t: "Max ?f \<in> ?f" using False by (intro Max_in) auto
  have "window_count now w ts \<le> window_count (Max ?f) w ts"
    unfolding window_count_def
  proof (rule length_filter_mono)
    fix x assume "x \<in> set ts" "now - int w \<le> x \<and> x \<le> now"
    then have "x \<le> Max ?f" by (intro Max_ge) auto
    then show "Max ?f - int w \<le> x \<and> x \<le> Max ?f" using t \<open>now - int w \<le> x \<and> x \<le> now\<close> by auto
  qed
  also have "\<dots> \<le> m" using assms t by auto
  finally show ?thesis .
qed

subsection \<open>Properties\<close>


text \<open>
  The retry hint is a nanosecond short. A request rejected with a hint and repeated exactly that
  much later is rejected again, with a hint of zero; one nanosecond after that it is admitted.
\<close>
theorem retry_hint_short:
  assumes "0 < sw_max_requests config" "sorted (map snd calls)" "calls \<noteq> []" "snd (last calls) \<le> now"
    and "\<forall>t \<in> set (now # (now + int d + 1) # map snd calls). clock_ok (sw_window_duration config) t"
    and "sliding_run (sliding_new config) calls = (rs, l)"
    and "sliding_check key now l = (Some (Inl d), l')"
  shows "fst (sliding_check key (now + int d) l') = Some (Inl 0)
     \<and> (\<exists>n. fst (sliding_check key (now + int d + 1) l') = Some (Inr n))"
proof -
  let ?w = "sw_window_duration config" and ?m = "sw_max_requests config" and ?ts = "admissions key calls rs"
  have run: "window_inv key (snd (last calls)) ?ts l \<and> \<not> sl_poisoned l \<and> sl_config l = config"
    using sliding_run_new [OF assms(1,2) _ assms(6,3), of key] assms(5) by simp
  then have inv: "window_inv key now ?ts l" and ok: "\<not> sl_poisoned l" "0 < sw_max_requests (sl_config l)"
      "clock_ok (sw_window_duration (sl_config l)) now"
    using window_inv_later assms(1,4,5) by auto
  note chk = sliding_check_inv [OF inv ok assms(7)]
  from chk(4,5) run obtain e rest where
    kept: "filter (\<lambda>t. now - int ?w \<le> t) ?ts = e # rest" "int d = e + int ?w - now"
    and full: "?m \<le> length (filter (\<lambda>t. now - int ?w \<le> t) ?ts)" by auto
  have cfg: "sl_config l' = config" using sliding_check_config [of key now l] assms(7) run by simp
  have inv': "window_inv key now ?ts l'" using chk(3) by simp
  have sorted: "sorted ?ts" and past: "\<forall>t \<in> set ?ts. t \<le> now"
    and counts: "\<forall>t \<in> set ?ts. window_count t ?w ?ts \<le> ?m"
    using inv run by (auto simp: window_inv_def)
  have es: "sorted (e # rest)" using sorted_wrt_filter [OF sorted, of "\<lambda>t. now - int ?w \<le> t"] kept(1) by simp
  have split: "filter (\<lambda>t. c \<le> t) ?ts = filter (\<lambda>t. c \<le> t) (e # rest)" if "now - int ?w \<le> c" for c
    using that unfolding kept(1) [symmetric] by (auto intro: filter_cong)
  have now: "now + int d = e + int ?w" using kept(2) by simp
  have at: "filter (\<lambda>t. now + int d - int ?w \<le> t) ?ts = e # rest"
    using split [of e] es kept(2) now by (auto simp: filter_id_conv)
  have "length (e # rest) \<le> ?m"
    using window_count_any [OF counts, of now] past unfolding kept(1) [symmetric] window_count_def
    by (metis (mono_tags, lifting) filter_cong)
  moreover have "filter (\<lambda>t. now + int d + 1 - int ?w \<le> t) ?ts = filter (\<lambda>t. e + 1 \<le> t) rest"
    using split [of "e + 1"] kept(2) now by simp
  then have "length (filter (\<lambda>t. now + int d + 1 - int ?w \<le> t) ?ts) \<le> length rest" by simp
  ultimately have fewer: "length (filter (\<lambda>t. now + int d + 1 - int ?w \<le> t) ?ts) < ?m" by simp
  have ok': "\<not> sl_poisoned l'" "0 < sw_max_requests (sl_config l')" using chk(1) assms(1) cfg by auto
  have clocks: "clock_ok ?w (now + int d)" "clock_ok ?w (now + int d + 1)"
    using assms(5) by (auto simp: clock_ok_def)
  obtain r1 l1 where c1: "sliding_check key (now + int d) l' = (r1, l1)" by fastforce
  obtain r2 l2 where c2: "sliding_check key (now + int d + 1) l' = (r2, l2)" by fastforce
  have i1: "window_inv key (now + int d) ?ts l'" and i2: "window_inv key (now + int d + 1) ?ts l'"
    using inv' by (auto intro: window_inv_later)
  note s1 = sliding_check_inv [OF i1 ok' _ c1, unfolded cfg, OF clocks(1)]
  note s2 = sliding_check_inv [OF i2 ok' _ c2, unfolded cfg, OF clocks(2)]
  have "r1 = Some (Inl 0)"
  proof -
    have "\<not> (\<exists>n. r1 = Some (Inr n))" using s1(4) full kept(1) by (simp add: at)
    with s1(2) obtain d' where d': "r1 = Some (Inl d')" by (metis not_None_eq obj_sumE)
    with s1(5) [OF d'] at now show ?thesis by auto
  qed
  moreover have "\<exists>n. r2 = Some (Inr n)" using s2(4) fewer by simp
  ultimately show ?thesis by (simp add: c1 c2)
qed

text \<open>
  A limit of zero panics, and for good. With \<open>max_requests = 0\<close>, which nothing rules out, the first
  call unwraps the front of an empty queue while it holds the mutex; every later call of any kind
  on any key panics on the poisoned mutex.
\<close>
theorem zero_limit_panics:
  assumes "sw_max_requests config = 0" "sliding_run (sliding_new config) calls = (rs, l)"
  shows "rs = replicate (length calls) None \<and> (calls \<noteq> [] \<longrightarrow> fst (sliding_reset key l) = None)"
proof -
  have poisoned: "sl_poisoned l0 \<Longrightarrow> sliding_run l0 cs = (replicate (length cs) None, l0)" for l0 cs
    by (induction cs) (auto simp: sliding_check_def)
  show ?thesis
  proof (cases calls)
    case (Cons call cs)
    obtain k now where "call = (k, now)" by fastforce
    moreover have "fst (sliding_check k now (sliding_new config)) = None"
      "sl_poisoned (snd (sliding_check k now (sliding_new config)))"
      using assms(1) by (simp_all add: sliding_check_def sliding_new_def Let_def)
    ultimately show ?thesis
      using assms(2) Cons poisoned [of "snd (sliding_check k now (sliding_new config))" cs]
      by (auto simp: case_prod_beta sliding_reset_def)
  qed (use assms(2) in simp)
qed

definition sample_window :: sliding_window_config where
  "sample_window = \<lparr>sw_max_requests = 1, sw_window_duration = 10\<rparr>"

lemma sample_rejected:
  "sliding_run (sliding_new sample_window) [(''k'', 0)]
     = ([Some (Inr 0)], \<lparr>sl_config = sample_window, sl_state = fmupd ''k'' [0] fmempty, sl_poisoned = False\<rparr>)"
  "sliding_check ''k'' 4 \<lparr>sl_config = sample_window, sl_state = fmupd ''k'' [0] fmempty, sl_poisoned = False\<rparr>
     = (Some (Inl 6), \<lparr>sl_config = sample_window, sl_state = fmupd ''k'' [0] fmempty, sl_poisoned = False\<rparr>)"
  by (simp_all add: sliding_check_def sliding_new_def sample_window_def time_defs)


theorem retry_hint_short_witness:
  "fst (sliding_check ''k'' 10 \<lparr>sl_config = sample_window, sl_state = fmupd ''k'' [0] fmempty, sl_poisoned = False\<rparr>)
     = Some (Inl 0)"
  using retry_hint_short [OF _ _ _ _ _ sample_rejected] by (simp add: sample_window_def clock_ok_def time_defs)

theorem zero_limit_panics_witness:
  "\<exists>rs l. sliding_run (sliding_new \<lparr>sw_max_requests = 0, sw_window_duration = 10\<rparr>) [(''a'', 0), (''b'', 5)] = (rs, l)
     \<and> rs = [None, None]"
proof -
  obtain rs l where run: "sliding_run (sliding_new \<lparr>sw_max_requests = 0, sw_window_duration = 10\<rparr>)
      [(''a'', 0), (''b'', 5)] = (rs, l)" by fastforce
  from zero_limit_panics [OF _ run, of "''a''"] run show ?thesis by (simp add: numeral_2_eq_2)
qed

end
