(* ===== verification/HeaderPolicies.thy ===== *)
theory HeaderPolicies
  imports Externals
begin

text \<open>
  The two header policies of the library: the CORS origin guard (\<open>cors_guard.rs\<close>), which computes
  the header block of an allowed origin, and the security response headers
  (\<open>security_headers.rs\<close>), which edits a header map in place. A \<open>HashSet\<close> of origins is the set
  of its elements; the validity test of \<open>HeaderValue::from_str\<close> is a parameter.

  The lemmas give each policy as a function from header names to values, and show that applying the
  security headers twice is applying them once.
\<close>

subsection \<open>The origin guard\<close>

record cors_guard_config =
  cg_allowed_origins :: "str set"
  cg_allow_credentials :: bool
  cg_max_age_secs :: u64

definition default_cors_guard_config :: cors_guard_config where
  "default_cors_guard_config =
     \<lparr>cg_allowed_origins = {}, cg_allow_credentials = True, cg_max_age_secs = 86400\<rparr>"

definition cors_guard_new :: "str list \<Rightarrow> cors_guard_config" where
  "cors_guard_new allowed_origins = default_cors_guard_config\<lparr>cg_allowed_origins := set allowed_origins\<rparr>"

definition is_origin_allowed :: "cors_guard_config \<Rightarrow> str \<Rightarrow> bool" where
  "is_origin_allowed c origin =
     (if ''*'' \<in> cg_allowed_origins c then True else origin \<in> cg_allowed_origins c)"

definition get_cors_headers :: "cors_guard_config \<Rightarrow> str \<Rightarrow> (str \<times> str) list option" where
  "get_cors_headers c origin =
     (if \<not> is_origin_allowed c origin then None
      else Some [(''Access-Control-Allow-Origin'', origin),
                 (''Access-Control-Allow-Methods'', ''GET, POST, OPTIONS''),
                 (''Access-Control-Allow-Headers'', ''Content-Type, Authorization, PAYMENT-SIGNATURE''),
                 (''Access-Control-Expose-Headers'', ''PAYMENT-REQUIRED, PAYMENT-RESPONSE''),
                 (''Access-Control-Max-Age'', show_nat (unat (cg_max_age_secs c)))])"

text \<open>
  What a response carries after a caller inserted the block: the allowed origin is the one that
  asked, and no credentials header is ever among them, whatever \<open>allow_credentials\<close> says.
\<close>

lemma get_cors_headers_iff:
  "get_cors_headers (cors_guard_new os) origin \<noteq> None \<longleftrightarrow> ''*'' \<in> set os \<or> origin \<in> set os"
  by (simp add: get_cors_headers_def is_origin_allowed_def cors_guard_new_def)

lemma cors_block_inserted:
  assumes "get_cors_headers c origin = Some fs"
  shows "hget ''access-control-allow-origin'' (fold (\<lambda>(n, v). hinsert n v) fs hs) = Some origin"
    and "hget ''access-control-allow-credentials'' (fold (\<lambda>(n, v). hinsert n v) fs hs)
      = hget ''access-control-allow-credentials'' hs"
  using assms
  by (auto simp: get_cors_headers_def hm.get_insert_batch hm.get_insert ascii_lower_def text_eval split: if_splits)

subsection \<open>The security headers\<close>

record security_headers_config =
  sh_content_type_options :: bool
  sh_frame_options :: "str option"
  sh_xss_protection :: "str option"
  sh_referrer_policy :: "str option"
  sh_hsts_max_age_secs :: "u64 option"
  sh_prevent_receipt_caching :: bool

definition default_security_headers :: security_headers_config where
  "default_security_headers =
     \<lparr>sh_content_type_options = True, sh_frame_options = Some ''DENY'', sh_xss_protection = Some ''0'',
      sh_referrer_policy = Some ''no-referrer'', sh_hsts_max_age_secs = Some 31536000,
      sh_prevent_receipt_caching = True\<rparr>"

text \<open>\<open>if let Ok(hv) = HeaderValue::from_str(val) { headers.insert(name, hv); }\<close>\<close>

definition insert_valid :: "externals \<Rightarrow> str \<Rightarrow> str \<Rightarrow> headers \<Rightarrow> headers" where
  "insert_valid x n v hs = (if header_value_ok x v then hinsert n v hs else hs)"

definition insert_some :: "externals \<Rightarrow> str \<Rightarrow> str option \<Rightarrow> headers \<Rightarrow> headers" where
  "insert_some x n v hs = (case v of Some v \<Rightarrow> insert_valid x n v hs | None \<Rightarrow> hs)"

definition hsts_value :: "u64 \<Rightarrow> str" where
  "hsts_value max_age = ''max-age='' @ show_nat (unat max_age) @ ''; includeSubDomains''"

definition apply_security :: "externals \<Rightarrow> security_headers_config \<Rightarrow> headers \<Rightarrow> headers" where
  "apply_security x c hs =
     (let hs = (if sh_content_type_options c then hinsert ''x-content-type-options'' ''nosniff'' hs else hs);
          hs = insert_some x ''x-frame-options'' (sh_frame_options c) hs;
          hs = insert_some x ''x-xss-protection'' (sh_xss_protection c) hs;
          hs = insert_some x ''referrer-policy'' (sh_referrer_policy c) hs;
          hs = insert_some x ''strict-transport-security'' (map_option hsts_value (sh_hsts_max_age_secs c)) hs
      in if sh_prevent_receipt_caching c
         then hinsert ''pragma'' ''no-cache''
                (hinsert ''cache-control'' ''no-store, no-cache, must-revalidate'' hs)
         else hs)"

text \<open>The policy as a function of the header name.\<close>

definition legal :: "externals \<Rightarrow> str option \<Rightarrow> str option" where
  "legal x v = Option.bind v (\<lambda>v. if header_value_ok x v then Some v else None)"

definition security_value :: "externals \<Rightarrow> security_headers_config \<Rightarrow> str \<Rightarrow> str option" where
  "security_value x c n =
     (if n = ''x-content-type-options'' then (if sh_content_type_options c then Some ''nosniff'' else None)
      else if n = ''x-frame-options'' then legal x (sh_frame_options c)
      else if n = ''x-xss-protection'' then legal x (sh_xss_protection c)
      else if n = ''referrer-policy'' then legal x (sh_referrer_policy c)
      else if n = ''strict-transport-security'' then legal x (map_option hsts_value (sh_hsts_max_age_secs c))
      else if n = ''cache-control'' then
        (if sh_prevent_receipt_caching c then Some ''no-store, no-cache, must-revalidate'' else None)
      else if n = ''pragma'' then (if sh_prevent_receipt_caching c then Some ''no-cache'' else None)
      else None)"

lemma get_all_insert_some:
  "hget_all m (insert_some x n v hs)
     = (if ascii_lower m = ascii_lower n then (case legal x v of Some v \<Rightarrow> [v] | None \<Rightarrow> hget_all m hs) else hget_all m hs)"
  by (simp add: insert_some_def insert_valid_def legal_def hm.get_all_insert split: option.split)

lemma lower_names:
  "ascii_lower ''x-content-type-options'' = ''x-content-type-options''"
  "ascii_lower ''x-frame-options'' = ''x-frame-options''"
  "ascii_lower ''x-xss-protection'' = ''x-xss-protection''"
  "ascii_lower ''referrer-policy'' = ''referrer-policy''"
  "ascii_lower ''strict-transport-security'' = ''strict-transport-security''"
  "ascii_lower ''cache-control'' = ''cache-control''" "ascii_lower ''pragma'' = ''pragma''"
  by (simp_all add: ascii_lower_def text_eval)

text \<open>
  After the security headers are applied, each name the configuration covers with a legal value
  has exactly that one value, whatever the response held before; every other header keeps all its
  values in order.
\<close>
theorem security_headers_applied:
  "hget_all n (apply_security x c hs)
     = (case security_value x c (ascii_lower n) of Some v \<Rightarrow> [v] | None \<Rightarrow> hget_all n hs)"
  by (simp add: apply_security_def security_value_def Let_def hm.get_all_insert get_all_insert_some lower_names
      split: option.split)

lemma apply_security_idem: "hget_all n (apply_security x c (apply_security x c hs)) = hget_all n (apply_security x c hs)"
  by (simp add: apply_security_def Let_def hm.get_all_insert get_all_insert_some lower_names split: option.split)

end
