(* ===== verification/F64_Text.thy ===== *)
theory F64_Text
  imports F64 Text_Lib
begin

text \<open>
  \<open>str::parse::<f64>()\<close>, the grammar of the standard library: an optional sign, then \<open>inf\<close>,
  \<open>infinity\<close> or \<open>nan\<close> in any letter case, or a decimal number with an optional exponent, whose
  value is the double nearest to the exact one and infinite from \<open>2 ^ 1024\<close> on.

  The lemmas show that a parsed finite number is a double again (rounding is idempotent).
\<close>

datatype f64_value = Finite rat | Infinite bool | NaN

definition parse_exponent :: "str \<Rightarrow> int option" where
  "parse_exponent s =
     (let (neg, ds) = (case s of
          [] \<Rightarrow> (False, [])
        | c # cs \<Rightarrow> if c = CHR ''-'' then (True, cs) else if c = CHR ''+'' then (False, cs) else (False, s))
      in if ds \<noteq> [] \<and> list_all is_ascii_digit ds
         then Some (if neg then - int (digits_value 0 ds) else int (digits_value 0 ds)) else None)"

definition decimal_value :: "str \<Rightarrow> str \<Rightarrow> int \<Rightarrow> rat option" where
  "decimal_value i f e =
     (if i @ f \<noteq> [] \<and> list_all is_ascii_digit (i @ f)
      then Some (of_nat (digits_value 0 (i @ f)) * 10 powi (e - int (length f))) else None)"

definition parse_mantissa :: "str \<Rightarrow> int \<Rightarrow> rat option" where
  "parse_mantissa m e =
     (case split_on CHR ''.'' m of
        [i] \<Rightarrow> decimal_value i [] e
      | [i, f] \<Rightarrow> decimal_value i f e
      | _ \<Rightarrow> None)"

definition parse_decimal :: "str \<Rightarrow> rat option" where
  "parse_decimal s =
     (case split_by (\<lambda>c. c = CHR ''e'' \<or> c = CHR ''E'') s of
        [m] \<Rightarrow> parse_mantissa m 0
      | [m, e] \<Rightarrow> Option.bind (parse_exponent e) (parse_mantissa m)
      | _ \<Rightarrow> None)"

definition nearest :: "bool \<Rightarrow> rat \<Rightarrow> f64_value" where
  "nearest neg v =
     (if 2 ^ 1024 \<le> rnd v then Infinite neg else Finite (if neg then - rnd v else rnd v))"

definition parse_f64 :: "str \<Rightarrow> f64_value option" where
  "parse_f64 s =
     (let (neg, r) = (case s of
          [] \<Rightarrow> (False, [])
        | c # cs \<Rightarrow> if c = CHR ''-'' then (True, cs) else if c = CHR ''+'' then (False, cs) else (False, s))
      in if ascii_lower r = ''inf'' \<or> ascii_lower r = ''infinity'' then Some (Infinite neg)
         else if ascii_lower r = ''nan'' then Some NaN
         else map_option (nearest neg) (parse_decimal r))"

subsection \<open>Rounding is idempotent\<close>

lemma exponent_unique:
  assumes "2 powi e \<le> x" "x < 2 powi (e + 1)"
  shows "exponent x = e"
proof -
  have "0 < x" using assms(1) zero_less_power_int [of "2 :: rat" e] by linarith
  note b = exponent_bounds [OF this]
  have "(2 :: rat) powi e < 2 powi (exponent x + 1)" "(2 :: rat) powi exponent x < 2 powi (e + 1)"
    using b assms by linarith+
  then have "\<not> exponent x + 1 \<le> e" "\<not> e + 1 \<le> exponent x"
    by (metis two_powi_le not_less)+
  then show ?thesis by linarith
qed

lemma rnd_idem: "rnd (rnd x) = rnd x"
proof (cases "0 < rnd x")
  case False
  then have "rnd x = 0" using rnd_nonneg [of x] by linarith
  then show ?thesis by (simp add: fr.zero)
next
  case pos: True
  then have x: "0 < x" by (rule contrapos_pp) (simp add: rnd_def)
  define m where "m = max (exponent x) (- 1022)"
  define k where "k = round_half_even (x / ulp x)"
  have ulp: "ulp x = 2 powi (m - 52)" by (simp add: ulp_def m_def)
  have y: "rnd x = of_int k * ulp x" using x by (simp add: rnd_def k_def)
  have "x / ulp x \<le> of_int (2 ^ 53)" using below_binade [OF x] by (simp add: field_simps)
  from round_half_even_mono [OF this] have k_le: "k \<le> 2 ^ 53" by (simp only: k_def round_half_even_int)
  have top: "2 ^ 53 * ulp x = 2 powi (m + 1)" unfolding ulp by (subst two_powi_split [symmetric]) (simp add: add.commute)
  show ?thesis
  proof (cases "k = 2 ^ 53")
    case True
    have "exponent (rnd x) = m + 1"
      unfolding y True of_int_power of_int_numeral top by (rule exponent_unique) (simp_all add: two_powi_le power_int_strict_increasing)
    then have "ulp (rnd x) = 2 powi (m + 1 - 52)" by (simp add: ulp_def m_def)
    then have "ulp (rnd x) = 2 * ulp x" unfolding ulp using two_powi_split [of 1 "m - 52"] by (simp add: algebra_simps)
    then have "rnd x = of_int (2 ^ 52) * ulp (rnd x)" using y True by simp
    then show ?thesis by (rule rnd_of_multiple [OF pos])
  next
    case False
    with k_le have "k \<le> 2 ^ 53 - 1" by simp
    then have "(of_int k :: rat) < 2 ^ 53" by (metis False k_le less_le of_int_less_iff of_int_numeral of_int_power)
    then have upper: "rnd x < 2 powi (m + 1)" unfolding y top [symmetric] by simp
    have "ulp (rnd x) = ulp x"
    proof (cases "exponent x \<le> - 1022")
      case True
      then have "exponent (rnd x) + 1 \<le> m + 1"
        using exponent_bounds(1) [OF pos] upper two_powi_le [of "m + 1" "exponent (rnd x)"] by linarith
      with True show ?thesis by (simp add: ulp_def m_def)
    next
      case e: False
      then have m: "m = exponent x" by (simp add: m_def)
      have "2 ^ 52 * ulp x = 2 powi m" unfolding ulp by (subst two_powi_split [symmetric]) simp
      then have "2 powi m \<le> rnd x" using rnd_binade_bottom [OF x] e by simp
      with upper have "exponent (rnd x) = m" by (intro exponent_unique)
      with m e show ?thesis by (simp add: ulp_def)
    qed
    with y have "rnd x = of_int k * ulp (rnd x)" by simp
    then show ?thesis by (rule rnd_of_multiple [OF pos])
  qed
qed

lemma nearest_Finite:
  assumes "nearest neg v = Finite r" "0 \<le> r"
  shows "rnd r = r" "r < 2 ^ 1024"
proof -
  have "r = rnd v \<or> r = - rnd v" "rnd v < 2 ^ 1024" using assms(1) by (auto simp: nearest_def split: if_splits)
  with assms(2) rnd_nonneg [of v] have "r = rnd v" by auto
  with \<open>rnd v < 2 ^ 1024\<close> show "rnd r = r" "r < 2 ^ 1024" by (simp_all add: rnd_idem)
qed

lemma parse_f64_finite:
  assumes "parse_f64 s = Some (Finite r)" "0 \<le> r"
  shows "rnd r = r" "r < 2 ^ 1024"
  using assms nearest_Finite by (auto simp: parse_f64_def Let_def split: if_splits option.splits list.splits prod.splits)

end
