(* ===== verification/ServiceCors.thy ===== *)
theory ServiceCors
  imports Externals
begin

text \<open>
  The CORS layer of the service (\<open>service/src/cors.rs\<close>): the configuration read from
  \<open>CORS_ORIGIN\<close>, the match of a request's origin against it, and the middleware around the rest of
  the service, which is a function on requests that threads a state of its own and gives no response
  when its future is dropped. The lemmas show
  which responses carry the access-control headers and that caches are told to vary on the origin.
\<close>

datatype cors_config = Disabled | Wildcard | Origins "str list"

definition from_env :: "str option \<Rightarrow> cors_config" where
  "from_env value =
     (case value of
        None \<Rightarrow> Disabled
      | Some v \<Rightarrow>
        if trim v = '''' then Disabled
        else
          let val = trim v in
          if val = ''*'' then Wildcard
          else
            let origins = filter (\<lambda>s. s \<noteq> '''')
                  (map (\<lambda>s. trim_end_matches CHR ''/'' (trim s)) (split_on CHR '','' val))
            in if origins = [] then Disabled else Origins origins)"

fun match_origin :: "cors_config \<Rightarrow> str \<Rightarrow> str option" where
  "match_origin Disabled origin = None"
| "match_origin Wildcard origin = Some ''*''"
| "match_origin (Origins allowed) origin =
     (if trim_end_matches CHR ''/'' origin \<in> set allowed then Some origin else None)"

definition is_enabled :: "cors_config \<Rightarrow> bool" where
  "is_enabled c \<longleftrightarrow> c \<noteq> Disabled"

definition is_origins :: "cors_config \<Rightarrow> bool" where
  "is_origins c = (case c of Origins _ \<Rightarrow> True | _ \<Rightarrow> False)"

text \<open>Whether a \<open>Vary\<close> value already names the origin.\<close>

definition names_origin :: "externals \<Rightarrow> str \<Rightarrow> bool" where
  "names_origin x value = (case to_str_ok x value of
      None \<Rightarrow> False
    | Some value \<Rightarrow> list_ex (\<lambda>token. let token = trim token in token = ''*'' \<or> eq_ignore_case token ''origin'')
        (split_on CHR '','' value))"

definition vary_origin :: "externals \<Rightarrow> headers \<Rightarrow> headers" where
  "vary_origin x hs = (if list_ex (names_origin x) (hget_all ''vary'' hs) then hs else happend ''vary'' ''Origin'' hs)"

definition preflight_response :: "externals \<Rightarrow> cors_config \<Rightarrow> str option \<Rightarrow> response" where
  "preflight_response x cors matched =
     (let response = \<lparr>resp_status = 204, resp_headers = [], resp_body = BytesBody ''''\<rparr>;
          response = (if is_origins cors
                      then response\<lparr>resp_headers := vary_origin x (resp_headers response)\<rparr> else response)
      in case matched of
           None \<Rightarrow> response
         | Some origin \<Rightarrow>
           set_header ''access-control-max-age'' ''86400''
            (set_header ''access-control-allow-headers''
               ''Content-Type, Authorization, Payment-Signature, X-Payment, X-Requested-With, X-Request-ID''
             (set_header ''access-control-allow-methods'' ''GET, POST, PUT, DELETE, PATCH, HEAD, OPTIONS''
              (set_header ''access-control-allow-origin'' (header_value_or x ''*'' origin) response))))"

definition attach_cors :: "externals \<Rightarrow> cors_config \<Rightarrow> str option \<Rightarrow> response \<Rightarrow> response" where
  "attach_cors x cors matched response =
     (let response = (if is_origins cors
                      then response\<lparr>resp_headers := vary_origin x (resp_headers response)\<rparr> else response)
      in case matched of
           None \<Rightarrow> response
         | Some origin \<Rightarrow>
           set_header ''access-control-expose-headers''
             ''Payment-Required, Payment-Response, X-Payment, Payment-Signature, Retry-After, X-Request-ID''
            (set_header ''access-control-allow-origin'' (header_value_or x ''*'' origin) response))"

definition origin_of :: "externals \<Rightarrow> request \<Rightarrow> str option" where
  "origin_of x req = Option.bind (hget ''origin'' (req_headers req)) (to_str_ok x)"

definition cors_middleware :: "externals \<Rightarrow> cors_config \<Rightarrow> (request \<Rightarrow> 's \<Rightarrow> response option \<times> 's)
    \<Rightarrow> request \<Rightarrow> 's \<Rightarrow> response option \<times> 's" where
  "cors_middleware x cors next_run req s =
     (if \<not> is_enabled cors then next_run req s
      else
        let origin_header = origin_of x req;
            is_options = (req_method req = ''OPTIONS'');
            matched_origin = Option.bind origin_header (match_origin cors)
        in if is_options \<and> origin_header \<noteq> None then (Some (preflight_response x cors matched_origin), s)
           else let (response, s) = next_run req s in (map_option (attach_cors x cors matched_origin) response, s))"

subsection \<open>Properties\<close>

text \<open>A request counts as a preflight when the layer answers it itself.\<close>

definition is_preflight :: "externals \<Rightarrow> cors_config \<Rightarrow> request \<Rightarrow> bool" where
  "is_preflight x cors req \<longleftrightarrow> is_enabled cors \<and> req_method req = ''OPTIONS'' \<and> origin_of x req \<noteq> None"

text \<open>The values of a header in the answer of the rest of the service.\<close>

definition values_of :: "str \<Rightarrow> response option \<Rightarrow> str list" where
  "values_of n r = (case r of Some r \<Rightarrow> hget_all n (resp_headers r) | None \<Rightarrow> [])"

lemma values_of_simps [simp]: "values_of n None = []" "values_of n (Some r) = hget_all n (resp_headers r)"
  by (simp_all add: values_of_def)

text \<open>An origin is on the list of \<open>CORS_ORIGIN\<close>: a non-empty entry, up to blanks and final slashes.\<close>

definition listed :: "str \<Rightarrow> str \<Rightarrow> bool" where
  "listed value origin \<longleftrightarrow> trim_end_matches CHR ''/'' origin \<noteq> '''' \<and>
     (\<exists>piece \<in> set (split_on CHR '','' (trim value)).
        trim_end_matches CHR ''/'' origin = trim_end_matches CHR ''/'' (trim piece))"

lemma vary_origin_other: "ascii_lower n \<noteq> ''vary'' \<Longrightarrow> hget_all n (vary_origin x hs) = hget_all n hs"
  by (simp add: vary_origin_def hm.get_all_append ascii_lower_def text_eval)

lemma cors_names:
  "ascii_lower ''vary'' = ''vary''" "ascii_lower ''access-control-allow-origin'' = ''access-control-allow-origin''"
  "ascii_lower ''access-control-allow-methods'' = ''access-control-allow-methods''"
  "ascii_lower ''access-control-allow-headers'' = ''access-control-allow-headers''"
  "ascii_lower ''access-control-expose-headers'' = ''access-control-expose-headers''"
  "ascii_lower ''access-control-max-age'' = ''access-control-max-age''"
  by (simp_all add: ascii_lower_def text_eval)

lemma hget_all_Nil [simp]: "hget_all n [] = []"
  by (simp add: hget_all_def)

lemma listed_origins:
  assumes "trim value \<noteq> ''*''"
  shows "match_origin (from_env (Some value)) origin = (if listed value origin then Some origin else None)"
proof -
  let ?os = "filter (\<lambda>s. s \<noteq> '''') (map (\<lambda>s. trim_end_matches CHR ''/'' (trim s)) (split_on CHR '','' (trim value)))"
  have "trim_end_matches CHR ''/'' origin \<in> set ?os \<longleftrightarrow> listed value origin"
    by (auto simp: listed_def image_iff)
  moreover have "?os = [] \<and> \<not> listed value origin" if "trim value = ''''"
    using that by (auto simp: split_on_def trim_end_matches_def listed_def)
  moreover have "match_origin (from_env (Some value)) origin
      = (if trim value = '''' \<or> ?os = [] then None
         else if trim_end_matches CHR ''/'' origin \<in> set ?os then Some origin else None)"
    using assms unfolding from_env_def Let_def option.case if_False by (auto simp del: set_map set_filter filter_empty_conv)
  ultimately show ?thesis by (metis (no_types, lifting) empty_iff empty_set)
qed

lemma wildcard_origins: "trim value = ''*'' \<Longrightarrow> match_origin (from_env (Some value)) origin = Some ''*''"
  by (simp add: from_env_def)

lemma header_value_or_ok [simp]: "header_value_ok x v \<Longrightarrow> header_value_or x d v = v"
  by (simp add: header_value_or_def)

lemma attach_allow_origin:
  "hget_all ''access-control-allow-origin'' (resp_headers (attach_cors x c m r))
     = (case m of Some origin \<Rightarrow> [header_value_or x ''*'' origin]
        | None \<Rightarrow> hget_all ''access-control-allow-origin'' (resp_headers r))"
  by (simp add: attach_cors_def Let_def set_header_def hm.get_all_insert vary_origin_other cors_names split: option.split)

lemma preflight_allow_origin:
  "hget_all ''access-control-allow-origin'' (resp_headers (preflight_response x c m))
     = (case m of Some origin \<Rightarrow> [header_value_or x ''*'' origin] | None \<Rightarrow> [])"
  by (simp add: preflight_response_def Let_def set_header_def hm.get_all_insert vary_origin_other cors_names
      split: option.split)

lemma vary_origin_names:
  "names_origin x ''Origin'' \<Longrightarrow> \<exists>v \<in> set (hget_all ''vary'' (vary_origin x hs)). names_origin x v"
  by (auto simp: vary_origin_def hm.get_all_append list_ex_iff)

lemma vary_origin_keeps: "\<exists>added. hget_all ''vary'' (vary_origin x hs) = hget_all ''vary'' hs @ added"
  by (simp add: vary_origin_def hm.get_all_append)

lemma attach_vary:
  "hget_all ''vary'' (resp_headers (attach_cors x (Origins os) m r)) = hget_all ''vary'' (vary_origin x (resp_headers r))"
  by (simp add: attach_cors_def is_origins_def Let_def set_header_def hm.get_all_insert cors_names split: option.split)

lemma preflight_vary:
  "hget_all ''vary'' (resp_headers (preflight_response x (Origins os) m)) = hget_all ''vary'' (vary_origin x [])"
  by (simp add: preflight_response_def is_origins_def Let_def set_header_def hm.get_all_insert cors_names split: option.split)

lemma matched_nonempty:
  "match_origin c origin = Some m \<Longrightarrow> is_enabled c"
  by (cases c) (simp_all add: is_enabled_def)

text \<open>The layer answers a preflight itself and otherwise only edits the response.\<close>

lemma cors_transparent:
  "cors_middleware x cors next_run req s
     = (if is_preflight x cors req
        then (Some (preflight_response x cors (Option.bind (origin_of x req) (match_origin cors))), s)
        else if is_enabled cors
        then (map_option (attach_cors x cors (Option.bind (origin_of x req) (match_origin cors))) (fst (next_run req s)),
              snd (next_run req s))
        else next_run req s)"
  by (auto simp: cors_middleware_def is_preflight_def Let_def split_beta)

text \<open>
  C34: which responses may be read across origins. With \<open>CORS_ORIGIN = *\<close> every response to a request
  that names an origin carries \<open>Access-Control-Allow-Origin: *\<close>; otherwise the header echoes the
  origin exactly when it is on the list (up to blanks and final slashes), and in every other case
  the layer adds none: a preflight has none, any other response keeps those of the service.
\<close>
theorem cors_allow_origin:
  assumes "\<forall>v. header_text x v \<longrightarrow> header_value_ok x v" "header_value_ok x ''*''"
    and "cors = from_env (Some value)" "cors_middleware x cors next_run req s = (Some resp, s')"
  shows "hget_all ''access-control-allow-origin'' (resp_headers resp)
    = (case origin_of x req of
         Some origin \<Rightarrow>
           if trim value = ''*'' then [''*'']
           else if listed value origin then [origin]
           else if is_preflight x cors req then []
           else values_of ''access-control-allow-origin'' (fst (next_run req s))
       | None \<Rightarrow> values_of ''access-control-allow-origin'' (fst (next_run req s)))"
proof -
  have legal_origin: "origin_of x req = Some origin \<Longrightarrow> header_value_ok x origin" for origin
    using assms(1) by (auto simp: origin_of_def to_str_ok_def bind_eq_Some_conv split: if_splits)
  have match: "match_origin cors origin
      = (if trim value = ''*'' then Some ''*'' else if listed value origin then Some origin else None)" for origin
    using assms(3) by (simp add: listed_origins wildcard_origins)
  show ?thesis
  proof (cases "is_enabled cors")
    case False
    then have none: "match_origin cors origin = None" for origin
      using matched_nonempty by (cases "match_origin cors origin") auto
    have "trim value \<noteq> ''*''" "\<not> listed value origin" for origin
      using match [of origin] none [of origin] by (simp_all split: if_splits)
    with False show ?thesis
      using assms(4) by (simp add: cors_middleware_def is_preflight_def split: option.split)
  next
    case True
    let ?m = "Option.bind (origin_of x req) (match_origin cors)"
    from True assms(4) have "hget_all ''access-control-allow-origin'' (resp_headers resp)
        = (case ?m of Some origin \<Rightarrow> [header_value_or x ''*'' origin]
           | None \<Rightarrow> if is_preflight x cors req then [] else values_of ''access-control-allow-origin'' (fst (next_run req s)))"
      by (auto simp: cors_transparent attach_allow_origin preflight_allow_origin split: if_splits option.split)
    moreover have "origin_of x req = None \<Longrightarrow> \<not> is_preflight x cors req" by (simp add: is_preflight_def)
    ultimately show ?thesis
      by (cases "origin_of x req") (simp_all add: match legal_origin header_value_or_ok assms(2))
  qed
qed

text \<open>
  A cache never serves the answer for one origin to another: with a list of origins every response,
  preflights and denied origins included, has a \<open>Vary\<close> value that names the origin, and keeps the
  \<open>Vary\<close> values of the service.
\<close>
theorem cors_varies_on_origin:
  assumes "header_text x ''Origin''" "cors_middleware x (Origins allowed) next_run req s = (Some resp, s')"
  shows "(\<exists>v \<in> set (hget_all ''vary'' (resp_headers resp)). names_origin x v) \<and>
    (is_preflight x (Origins allowed) req \<or> (\<exists>added. hget_all ''vary'' (resp_headers resp)
        = values_of ''vary'' (fst (next_run req s)) @ added))"
proof -
  have "names_origin x ''Origin''"
    using assms(1) by (simp add: names_origin_def to_str_ok_def split_on_def Let_def trim_visible visible_def
        char_code_def eq_ignore_case_def ascii_lower_def text_eval)
  note vary = vary_origin_names [OF this]
  show ?thesis
  proof (cases "is_preflight x (Origins allowed) req")
    case True
    with assms(2) vary show ?thesis by (auto simp: cors_transparent preflight_vary)
  next
    case False
    with assms(2) obtain r where r: "fst (next_run req s) = Some r"
      "hget_all ''vary'' (resp_headers resp) = hget_all ''vary'' (vary_origin x (resp_headers r))"
      by (auto simp: cors_transparent is_enabled_def attach_vary)
    then show ?thesis using vary vary_origin_keeps [of x "resp_headers r"] by simp
  qed
qed

subsection \<open>The theorems applied\<close>

definition sample_cors_value :: str where
  "sample_cors_value = ''https://app.example.com/, http://localhost:3000''"

definition cors_sample_x :: externals where
  "cors_sample_x = \<lparr>b64_encode = id, b64_decode = Some, json_print = (\<lambda>_. ''''), json_parse = (\<lambda>_. None),
     json_error = id, header_text = (\<lambda>_. True), header_value_ok = (\<lambda>_. True), debug_str = id\<rparr>"

definition sample_cors_request :: request where
  "sample_cors_request = \<lparr>req_method = ''GET'', req_uri = ''/v1/data'', req_path_query = Some ''/v1/data'',
     req_headers = [(''origin'', ''http://localhost:3000'')], req_body = ''''\<rparr>"

definition sample_service :: "request \<Rightarrow> unit \<Rightarrow> response option \<times> unit" where
  "sample_service req s = (Some \<lparr>resp_status = 200, resp_headers = [(''vary'', ''Accept'')], resp_body = BytesBody ''''\<rparr>, s)"

lemma sample_trims:
  "trim sample_cors_value = sample_cors_value"
  "trim ''https://app.example.com/'' = ''https://app.example.com/''"
  "trim '' http://localhost:3000'' = ''http://localhost:3000''"
  by (simp_all add: sample_cors_value_def trim_blank trim_visible visible_def char_code_def)

lemma sample_origin: "origin_of cors_sample_x sample_cors_request = Some ''http://localhost:3000''"
  by (simp add: origin_of_def sample_cors_request_def cors_sample_x_def to_str_ok_def hget_def ascii_lower_def text_eval)

lemma sample_listed: "listed sample_cors_value ''http://localhost:3000''"
  by (simp add: listed_def sample_trims) (simp add: sample_cors_value_def split_on_def sample_trims trim_end_matches_def)

lemma sample_run: "cors_middleware cors_sample_x c sample_service sample_cors_request ()
    = (Some (the (fst (cors_middleware cors_sample_x c sample_service sample_cors_request ()))), ())"
  by (simp add: prod_eq_iff cors_transparent sample_service_def)

theorem cors_allow_origin_witness:
  "hget_all ''access-control-allow-origin''
     (resp_headers (the (fst (cors_middleware cors_sample_x (from_env (Some sample_cors_value)) sample_service sample_cors_request ()))))
   = [''http://localhost:3000'']"
proof -
  obtain resp where resp: "cors_middleware cors_sample_x (from_env (Some sample_cors_value)) sample_service sample_cors_request ()
      = (Some resp, ())" using sample_run by blast
  have star: "trim sample_cors_value \<noteq> ''*''" by (simp add: sample_trims) (simp add: sample_cors_value_def)
  show ?thesis
    using cors_allow_origin [OF _ _ refl resp]
    by (simp add: resp sample_origin sample_listed star) (simp add: cors_sample_x_def)
qed

theorem cors_varies_on_origin_witness:
  "(\<exists>v \<in> set (hget_all ''vary'' (resp_headers (the (fst (cors_middleware cors_sample_x (Origins []) sample_service
       sample_cors_request ()))))). names_origin cors_sample_x v)"
proof -
  obtain resp where resp: "cors_middleware cors_sample_x (Origins []) sample_service sample_cors_request () = (Some resp, ())"
    using sample_run by blast
  from cors_varies_on_origin [OF _ this] show ?thesis by (simp add: resp) (simp add: cors_sample_x_def)
qed

end
