(* ===== verification/ServiceConfig.thy ===== *)
theory ServiceConfig
  imports Gate Proxy RateLimit F64_Text ServiceCors
begin

text \<open>
  The start-up of the service (\<open>main\<close> in \<open>service/src/main.rs\<close>, up to the construction of the
  router): every environment variable it reads, in order, with its default, its type and its range.
  A failed check is a panic and is the left value, with the message the code gives it (the debug form
  of a parse error that \<open>expect\<close> appends is left out). The environment is a function from names to
  values, the decimal print of a double a parameter.

  The lemmas show that the minimal environment starts with the documented defaults and that a
  service that starts has every limit within its bounds, so that the theorems on its parts apply.
\<close>

datatype env_value = Unicode str | NotUnicode

type_synonym environ = "str \<Rightarrow> env_value option"

text \<open>\<open>env::var(key).ok()\<close>\<close>

definition env_var :: "environ \<Rightarrow> str \<Rightarrow> str option" where
  "env_var e key = (case e key of Some (Unicode v) \<Rightarrow> Some v | _ \<Rightarrow> None)"

definition env_or :: "environ \<Rightarrow> str \<Rightarrow> str \<Rightarrow> str" where
  "env_or e key fallback =
     (case env_var e key of
        Some v \<Rightarrow> if trim v \<noteq> '''' then trim v else fallback
      | None \<Rightarrow> fallback)"

subsection \<open>Checks that panic\<close>

definition expect :: "str \<Rightarrow> 'a option \<Rightarrow> str + 'a" where
  "expect msg v = (case v of None \<Rightarrow> Inl msg | Some a \<Rightarrow> Inr a)"

definition ensure :: "str \<Rightarrow> ('a \<Rightarrow> bool) \<Rightarrow> 'a \<Rightarrow> str + 'a" where
  "ensure msg P a = (if P a then Inr a else Inl msg)"

definition and_then :: "str + 'a \<Rightarrow> ('a \<Rightarrow> str + 'b) \<Rightarrow> str + 'b" where
  "and_then r f = (case r of Inl msg \<Rightarrow> Inl msg | Inr a \<Rightarrow> f a)"

lemma and_then_Inr: "and_then r f = Inr b \<longleftrightarrow> (\<exists>a. r = Inr a \<and> f a = Inr b)"
  by (simp add: and_then_def split: sum.split)

lemma expect_Inr: "expect msg v = Inr a \<longleftrightarrow> v = Some a"
  by (simp add: expect_def split: option.split)

lemma ensure_Inr: "ensure msg P a = Inr b \<longleftrightarrow> P a \<and> b = a"
  by (auto simp: ensure_def)

lemmas checks = and_then_Inr expect_Inr ensure_Inr

text \<open>An integer of a width, and one within a range.\<close>

definition read_nat :: "environ \<Rightarrow> str \<Rightarrow> str \<Rightarrow> nat \<Rightarrow> str \<Rightarrow> str + nat" where
  "read_nat e key fallback width msg = expect msg (parse_unsigned (2 ^ width - 1) (env_or e key fallback))"

definition in_range :: "str \<Rightarrow> nat \<Rightarrow> nat \<Rightarrow> nat \<Rightarrow> str + nat" where
  "in_range msg lo hi n = ensure msg (\<lambda>n. lo \<le> n \<and> n \<le> hi) n"

definition read_f64 :: "environ \<Rightarrow> str \<Rightarrow> str \<Rightarrow> str \<Rightarrow> str \<Rightarrow> str + f64" where
  "read_f64 e key fallback not_number not_finite =
     and_then (expect not_number (parse_f64 (env_or e key fallback)))
       (\<lambda>v. case v of
          Finite r \<Rightarrow> if r < 0 then Inl not_finite else Inr r
        | _ \<Rightarrow> Inl not_finite)"

subsection \<open>The limits\<close>

definition proxies_message :: str where
  "proxies_message = ''RATE_LIMIT_TRUSTED_PROXIES must contain comma-separated IP addresses or CIDRs''"

definition load_rate_limiter :: "(f64 \<Rightarrow> str) \<Rightarrow> environ \<Rightarrow> str + rate_limiter option" where
  "load_rate_limiter show_f64 e =
     and_then (read_f64 e ''RATE_LIMIT_RPS'' ''0'' ''RATE_LIMIT_RPS must be a number''
                 ''RATE_LIMIT_RPS must be a finite non-negative number'') (\<lambda>rps.
     and_then (read_f64 e ''RATE_LIMIT_BURST'' (show_f64 rps) ''RATE_LIMIT_BURST must be a number''
                 ''RATE_LIMIT_BURST must be a finite non-negative number'') (\<lambda>burst.
     and_then (expect proxies_message (parse_proxies (env_or e ''RATE_LIMIT_TRUSTED_PROXIES'' ''''))) (\<lambda>proxies.
     let clients_message = ''RATE_LIMIT_MAX_CLIENTS must be an integer between 1 and 1000000'' in
     and_then (read_nat e ''RATE_LIMIT_MAX_CLIENTS'' ''10000'' 64 clients_message) (\<lambda>max_clients.
     and_then (in_range clients_message 1 1000000 max_clients) (\<lambda>max_clients.
     let idle_message = ''RATE_LIMIT_IDLE_TIMEOUT_SECS must be an integer between 1 and 86400'' in
     and_then (read_nat e ''RATE_LIMIT_IDLE_TIMEOUT_SECS'' ''300'' 64 idle_message) (\<lambda>idle.
     and_then (in_range idle_message 1 86400 idle) (\<lambda>idle.
     Inr (if 0 < rps
          then Some (rate_limiter_new \<lparr>rl_rps = rps, rl_burst = max burst 1, rl_trusted_proxies = proxies,
                       rl_max_clients = max_clients, rl_idle_timeout = from_secs (of_nat idle)\<rparr>)
          else None))))))))"

record service_limits =
  li_upstream_timeout :: duration
  li_facilitator_timeout :: duration
  li_max_concurrent :: nat

definition load_limits :: "environ \<Rightarrow> str + service_limits" where
  "load_limits e =
     and_then (read_nat e ''UPSTREAM_TIMEOUT_MS'' ''10000'' 64 ''UPSTREAM_TIMEOUT_MS must be a number'') (\<lambda>upstream.
     and_then (in_range ''UPSTREAM_TIMEOUT_MS must be between 100 and 300000 ms'' 100 300000 upstream) (\<lambda>upstream.
     and_then (read_nat e ''FACILITATOR_TIMEOUT_MS'' ''30000'' 64 ''FACILITATOR_TIMEOUT_MS must be a number'') (\<lambda>facilitator.
     and_then (in_range ''FACILITATOR_TIMEOUT_MS must be between 100 and 300000 ms'' 100 300000 facilitator) (\<lambda>facilitator.
     and_then (read_nat e ''MAX_CONCURRENT_REQUESTS'' ''64'' 64 ''MAX_CONCURRENT_REQUESTS must be a number'') (\<lambda>concurrent.
     and_then (in_range ''MAX_CONCURRENT_REQUESTS must be between 1 and 10000'' 1 10000 concurrent) (\<lambda>concurrent.
     Inr \<lparr>li_upstream_timeout = from_millis (of_nat upstream),
          li_facilitator_timeout = from_millis (of_nat facilitator), li_max_concurrent = concurrent\<rparr>))))))"

definition load_retry :: "environ \<Rightarrow> str + retry_config" where
  "load_retry e =
     and_then (read_nat e ''FACILITATOR_SETTLE_RETRIES'' ''0'' 32 ''FACILITATOR_SETTLE_RETRIES must be 0'') (\<lambda>settle.
     and_then (read_nat e ''FACILITATOR_VERIFY_BACKOFF_MS'' ''150'' 64
                 ''FACILITATOR_VERIFY_BACKOFF_MS must be an integer'') (\<lambda>backoff.
     and_then (in_range ''FACILITATOR_VERIFY_BACKOFF_MS must be between 1 and 3000'' 1 3000 backoff) (\<lambda>backoff.
     and_then (ensure ''FACILITATOR_SETTLE_RETRIES must be 0; reconcile unknown settlements instead of retrying them''
                 (\<lambda>n. n = 0) settle) (\<lambda>_.
     and_then (read_nat e ''FACILITATOR_VERIFY_RETRIES'' ''0'' 32
                 ''FACILITATOR_VERIFY_RETRIES must be an integer'') (\<lambda>retries.
     and_then (in_range ''FACILITATOR_VERIFY_RETRIES must be between 0 and 5'' 0 5 retries) (\<lambda>retries.
     Inr (retry_config_new (of_nat retries) (from_millis (of_nat backoff)) (from_secs 3))))))))"

subsection \<open>The payment configuration\<close>

definition load_expiration_guard :: "environ \<Rightarrow> expiration_guard option" where
  "load_expiration_guard e =
     map_option (\<lambda>drift. expiration_guard_new drift 5)
       (Option.bind (env_var e ''PAYMENT_CLOCK_DRIFT_SECS'') (\<lambda>v. parse_u64 (trim v)))"

definition load_nonce_guard :: "environ \<Rightarrow> str + nonce_guard option" where
  "load_nonce_guard e =
     (let msg = ''PAYMENT_REPLAY_CACHE_SIZE must be an integer between 1 and 1000000'' in
      case e ''PAYMENT_REPLAY_CACHE_SIZE'' of
        None \<Rightarrow> Inr None
      | Some NotUnicode \<Rightarrow> Inl msg
      | Some (Unicode value) \<Rightarrow>
          if trim value = '''' then Inr None
          else
            and_then (expect msg (parse_unsigned (2 ^ 64 - 1) (trim value))) (\<lambda>capacity.
            and_then (in_range msg 1 1000000 capacity) (\<lambda>capacity.
            Inr (Some (new_guard capacity 3600)))))"

record security_config =
  se_enabled :: bool
  se_csp :: str
  se_referrer_policy :: str

definition default_csp :: str where
  "default_csp = ''default-src 'none'; frame-ancestors 'none'' @ [CHR 0x27]"

definition default_security_config :: security_config where
  "default_security_config = \<lparr>se_enabled = True, se_csp = default_csp,
     se_referrer_policy = ''strict-origin-when-cross-origin''\<rparr>"

definition load_security :: "environ \<Rightarrow> security_config" where
  "load_security e =
     \<lparr>se_enabled = (case env_var e ''SECURITY_HEADERS_ENABLED'' of
          Some v \<Rightarrow> trim v \<noteq> ''0'' \<and> \<not> eq_ignore_case (trim v) ''false''
        | None \<Rightarrow> True),
      se_csp = env_or e ''SECURITY_CSP'' default_csp,
      se_referrer_policy = env_or e ''SECURITY_REFERRER_POLICY'' ''strict-origin-when-cross-origin''\<rparr>"

record service_config =
  sc_port :: u16
  sc_rate_limiter :: "rate_limiter option"
  sc_limits :: service_limits
  sc_cors :: cors_config
  sc_payment :: payment_config
  sc_upstream :: upstream_config
  sc_security :: security_config

definition service_payment :: "environ \<Rightarrow> str \<Rightarrow> kite_chain \<Rightarrow> str \<Rightarrow> str \<Rightarrow> str \<Rightarrow> service_limits
    \<Rightarrow> retry_config \<Rightarrow> nonce_guard option \<Rightarrow> payment_config" where
  "service_payment e pay_to chain price_usd description facilitator_url limits retry_cfg nonce_guard =
     \<lparr>pc_pay_to = pay_to, pc_chain = chain, pc_price_usd = price_usd, pc_description = description,
      pc_facilitator = with_retry_config (client_with_timeout facilitator_url (li_facilitator_timeout limits)) retry_cfg,
      pc_expiration_guard = load_expiration_guard e, pc_metrics = Some new_metrics, pc_nonce_guard = nonce_guard\<rparr>"

definition service_upstream :: "str \<Rightarrow> str \<Rightarrow> str \<Rightarrow> upstream_config" where
  "service_upstream upstream_url auth_header auth_value =
     \<lparr>uc_base_url = upstream_url, uc_auth_header = auth_header, uc_auth_value = auth_value\<rparr>"

definition load_service :: "externals \<Rightarrow> (f64 \<Rightarrow> str) \<Rightarrow> environ \<Rightarrow> str + service_config" where
  "load_service x show_f64 e =
     and_then (read_nat e ''PORT'' ''8402'' 16 ''PORT must be a number'') (\<lambda>port.
     and_then (expect ''PAY_TO is required (the wallet that receives payment)'' (env_var e ''PAY_TO'')) (\<lambda>pay_to.
     and_then (expect ''UPSTREAM_URL is required (the API being wrapped)'' (env_var e ''UPSTREAM_URL'')) (\<lambda>upstream_url.
     let upstream_url = trim_end_matches CHR ''/'' upstream_url;
         price_usd = env_or e ''PRICE_USD'' ''0.001'';
         network_name = env_or e ''KITE_NETWORK'' ''mainnet'' in
     and_then (case kite_chain_by_name network_name of
                 Inl err \<Rightarrow> Inl (''invalid KITE_NETWORK='' @ debug_str x network_name @ '': '' @ kite_error_message x err)
               | Inr chain \<Rightarrow> Inr chain) (\<lambda>chain.
     let facilitator_url = env_or e ''FACILITATOR_URL'' FACILITATOR_URL;
         description = env_or e ''SERVICE_DESCRIPTION'' ''Paid API access via Kite x402'';
         auth_header = env_or e ''UPSTREAM_AUTH_HEADER'' ''Authorization'';
         auth_value = env_or e ''UPSTREAM_AUTH_VALUE'' '''' in
     and_then (load_rate_limiter show_f64 e) (\<lambda>rate_limiter.
     and_then (load_limits e) (\<lambda>limits.
     and_then (load_retry e) (\<lambda>retry_cfg.
     let cors = from_env (Some (env_or e ''CORS_ORIGIN'' '''')) in
     and_then (load_nonce_guard e) (\<lambda>nonce_guard.
     Inr \<lparr>sc_port = of_nat port, sc_rate_limiter = rate_limiter, sc_limits = limits, sc_cors = cors,
          sc_payment = service_payment e pay_to chain price_usd description facilitator_url limits retry_cfg nonce_guard,
          sc_upstream = service_upstream upstream_url auth_header auth_value,
          sc_security = load_security e\<rparr>))))))))"

subsection \<open>Properties\<close>

lemma read_nat_Inr: "read_nat e key fb w msg = Inr n \<longleftrightarrow> parse_unsigned (2 ^ w - 1) (env_or e key fb) = Some n"
  by (simp add: read_nat_def checks)

lemma in_range_Inr: "in_range msg lo hi n = Inr m \<longleftrightarrow> lo \<le> n \<and> n \<le> hi \<and> m = n"
  by (auto simp: in_range_def checks)

lemma read_f64_Inr: "read_f64 e key fb m1 m2 = Inr r \<longleftrightarrow> parse_f64 (env_or e key fb) = Some (Finite r) \<and> 0 \<le> r"
  by (cases "parse_f64 (env_or e key fb)"; cases "the (parse_f64 (env_or e key fb))")
    (auto simp: read_f64_def and_then_def expect_def)

lemmas reads = checks read_nat_Inr in_range_Inr read_f64_Inr

lemma load_rate_limiter_ok:
  assumes "load_rate_limiter show_f64 e = Inr (Some l)"
  shows "l = rate_limiter_new (tb_config l)" "config_ok (tb_config l)"
    "1 \<le> rl_max_clients (tb_config l)" "rl_max_clients (tb_config l) \<le> 1000000"
proof -
  from assms obtain rps burst proxies clients idle where
    rps: "parse_f64 (env_or e ''RATE_LIMIT_RPS'' ''0'') = Some (Finite rps)" "0 < rps"
    and burst: "parse_f64 (env_or e ''RATE_LIMIT_BURST'' (show_f64 rps)) = Some (Finite burst)" "0 \<le> burst"
    and clients: "1 \<le> clients" "clients \<le> 1000000"
    and l: "l = rate_limiter_new \<lparr>rl_rps = rps, rl_burst = max burst 1, rl_trusted_proxies = proxies,
              rl_max_clients = clients, rl_idle_timeout = from_secs (of_nat idle)\<rparr>"
    by (auto simp: load_rate_limiter_def reads Let_def split: if_splits)
  have "rnd (max burst 1) = max burst 1"
    using parse_f64_finite(1) [OF burst] by (simp add: max_def fr.one)
  moreover have "rps < 2 ^ 1024" using parse_f64_finite(2) [OF rps(1)] rps(2) by simp
  ultimately show "config_ok (tb_config l)" using rps(2) by (simp add: l config_ok_def)
  show "l = rate_limiter_new (tb_config l)" "1 \<le> rl_max_clients (tb_config l)" "rl_max_clients (tb_config l) \<le> 1000000"
    using clients by (simp_all add: l)
qed

lemma load_limits_ok:
  assumes "load_limits e = Inr li"
  shows "100 * nanos_per_milli \<le> li_upstream_timeout li" "li_upstream_timeout li \<le> 300000 * nanos_per_milli"
    "100 * nanos_per_milli \<le> li_facilitator_timeout li" "li_facilitator_timeout li \<le> 300000 * nanos_per_milli"
    "1 \<le> li_max_concurrent li" "li_max_concurrent li \<le> 10000"
  using assms
  by (auto simp: load_limits_def reads Let_def from_millis_def nanos_per_milli_def unat_of_nat take_bit_nat_eq_self)

lemma load_retry_ok:
  assumes "load_retry e = Inr r"
  shows "rc_max_retries r \<le> 5" "nanos_per_milli \<le> rc_initial_backoff r" "rc_initial_backoff r \<le> rc_max_backoff r"
    "rc_max_backoff r = from_secs 3"
    "parse_unsigned (2 ^ 32 - 1) (env_or e ''FACILITATOR_SETTLE_RETRIES'' ''0'') = Some 0"
  using assms
  by (auto simp: load_retry_def reads Let_def retry_config_new_def from_millis_def from_secs_def nanos_per_milli_def
      nanos_per_sec_def unat_of_nat word_le_nat_alt)

lemma load_nonce_guard_ok:
  assumes "load_nonce_guard e = Inr (Some g)"
  shows "\<exists>capacity. g = new_guard capacity 3600 \<and> 1 \<le> capacity \<and> capacity \<le> 1000000"
  using assms by (auto simp: load_nonce_guard_def reads Let_def split: option.splits env_value.splits if_splits)

lemma load_service_Inr:
  assumes "load_service x show_f64 e = Inr c"
  shows "\<exists>retry. load_rate_limiter show_f64 e = Inr (sc_rate_limiter c) \<and> load_limits e = Inr (sc_limits c) \<and>
    load_retry e = Inr retry \<and> load_nonce_guard e = Inr (pc_nonce_guard (sc_payment c)) \<and>
    pc_expiration_guard (sc_payment c) = load_expiration_guard e \<and>
    fc_retry_config (pc_facilitator (sc_payment c)) = retry \<and>
    fc_timeout (pc_facilitator (sc_payment c)) = li_facilitator_timeout (sc_limits c) \<and>
    pc_chain (sc_payment c) \<in> {KITE_MAINNET, KITE_TESTNET} \<and>
    Some (pc_pay_to (sc_payment c)) = env_var e ''PAY_TO''"
  using assms
  by (auto simp: load_service_def service_payment_def service_upstream_def reads Let_def with_retry_config_def client_with_timeout_def kite_chain_by_name_def
      split: sum.splits if_splits)

text \<open>
  C27: a service that starts is within its bounds: settlements are configured with no retry and
  verifications with at most five, both timeouts are between 100 ms and 300 s, 1 to 10000 requests
  run at once, the rate limiter (if any) is a fresh one that meets the assumptions of its theorems,
  and the replay guard (if any) is a fresh one for 1 to 1000000 authorizations that are kept for an
  hour. The chain is one of the two Kite networks.
\<close>
theorem startup_checked:
  assumes "load_service x show_f64 e = Inr c"
  shows "parse_unsigned (2 ^ 32 - 1) (env_or e ''FACILITATOR_SETTLE_RETRIES'' ''0'') = Some 0
    \<and> rc_max_retries (fc_retry_config (pc_facilitator (sc_payment c))) \<le> 5
    \<and> fc_timeout (pc_facilitator (sc_payment c)) = li_facilitator_timeout (sc_limits c)
    \<and> {li_upstream_timeout (sc_limits c), li_facilitator_timeout (sc_limits c)}
        \<subseteq> {100 * nanos_per_milli .. 300000 * nanos_per_milli}
    \<and> li_max_concurrent (sc_limits c) \<in> {1..10000}
    \<and> pred_option (\<lambda>l. l = rate_limiter_new (tb_config l) \<and> config_ok (tb_config l)
          \<and> rl_max_clients (tb_config l) \<in> {1..1000000}) (sc_rate_limiter c)
    \<and> pred_option (\<lambda>g. \<exists>capacity \<in> {1..1000000}. g = new_guard capacity 3600) (pc_nonce_guard (sc_payment c))
    \<and> pc_chain (sc_payment c) \<in> {KITE_MAINNET, KITE_TESTNET}"
proof -
  from load_service_Inr [OF assms] obtain retry where
    rl: "load_rate_limiter show_f64 e = Inr (sc_rate_limiter c)" and
    li: "load_limits e = Inr (sc_limits c)" and re: "load_retry e = Inr retry"
    and ng: "load_nonce_guard e = Inr (pc_nonce_guard (sc_payment c))"
    and client: "fc_retry_config (pc_facilitator (sc_payment c)) = retry"
      "fc_timeout (pc_facilitator (sc_payment c)) = li_facilitator_timeout (sc_limits c)"
      "pc_chain (sc_payment c) \<in> {KITE_MAINNET, KITE_TESTNET}"
    by blast
  have "pred_option (\<lambda>l. l = rate_limiter_new (tb_config l) \<and> config_ok (tb_config l)
          \<and> rl_max_clients (tb_config l) \<in> {1..1000000}) (sc_rate_limiter c)"
    using load_rate_limiter_ok [of show_f64 e] rl by (cases "sc_rate_limiter c") auto
  moreover have "pred_option (\<lambda>g. \<exists>capacity \<in> {1..1000000}. g = new_guard capacity 3600) (pc_nonce_guard (sc_payment c))"
    using load_nonce_guard_ok [of e] ng by (cases "pc_nonce_guard (sc_payment c)") auto
  ultimately show ?thesis
    using load_limits_ok [OF li] load_retry_ok [OF re] client by simp
qed

definition minimal_env :: "str \<Rightarrow> str \<Rightarrow> environ" where
  "minimal_env pay_to upstream_url = [''PAY_TO'' \<mapsto> Unicode pay_to, ''UPSTREAM_URL'' \<mapsto> Unicode upstream_url]"

lemma minimal_env_or [simp]:
  "key \<noteq> ''PAY_TO'' \<Longrightarrow> key \<noteq> ''UPSTREAM_URL'' \<Longrightarrow> env_var (minimal_env p u) key = None"
  "key \<noteq> ''PAY_TO'' \<Longrightarrow> key \<noteq> ''UPSTREAM_URL'' \<Longrightarrow> env_or (minimal_env p u) key fallback = fallback"
  by (simp_all add: minimal_env_def env_var_def env_or_def)

lemma parse_f64_zero: "parse_f64 ''0'' = Some (Finite 0)"
  by (simp add: parse_f64_def parse_decimal_def parse_mantissa_def decimal_value_def split_on_def nearest_def
      is_ascii_digit_def char_code_def ascii_lower_def text_eval fr.zero)

lemma default_numbers:
  "parse_unsigned (2 ^ 16 - 1) ''8402'' = Some 8402" "parse_unsigned (2 ^ 64 - 1) ''10000'' = Some 10000"
  "parse_unsigned (2 ^ 64 - 1) ''300'' = Some 300" "parse_unsigned (2 ^ 64 - 1) ''30000'' = Some 30000"
  "parse_unsigned (2 ^ 64 - 1) ''64'' = Some 64" "parse_unsigned (2 ^ 64 - 1) ''150'' = Some 150"
  "parse_unsigned (2 ^ 32 - 1) ''0'' = Some 0"
  by (simp_all add: parse_unsigned_def is_ascii_digit_def char_code_def)

lemma minimal_start:
  assumes "parse_f64 (show_f64 0) = Some (Finite 0)"
  shows "load_service x show_f64 (minimal_env pay_to upstream_url) = Inr
    \<lparr>sc_port = 8402, sc_rate_limiter = None,
     sc_limits = \<lparr>li_upstream_timeout = 10000 * nanos_per_milli, li_facilitator_timeout = 30000 * nanos_per_milli,
       li_max_concurrent = 64\<rparr>,
     sc_cors = Disabled,
     sc_payment = (config_new pay_to KITE_MAINNET ''0.001'' ''Paid API access via Kite x402''
        (client_with_retry FACILITATOR_URL (30000 * nanos_per_milli)
           (retry_config_new 0 (150 * nanos_per_milli) (3 * nanos_per_sec))))\<lparr>pc_metrics := Some new_metrics\<rparr>,
     sc_upstream = \<lparr>uc_base_url = trim_end_matches CHR ''/'' upstream_url, uc_auth_header = ''Authorization'', uc_auth_value = ''''\<rparr>,
     sc_security = default_security_config\<rparr>"
proof -
  let ?e = "minimal_env pay_to upstream_url"
  have limiter: "load_rate_limiter show_f64 ?e = Inr None"
    using assms by (simp add: load_rate_limiter_def read_f64_def read_nat_def and_then_def expect_def in_range_def ensure_def
        parse_f64_zero default_numbers [simplified] parse_proxies_def Let_def)
  have limits: "load_limits ?e = Inr \<lparr>li_upstream_timeout = 10000 * nanos_per_milli,
      li_facilitator_timeout = 30000 * nanos_per_milli, li_max_concurrent = 64\<rparr>"
    by (simp add: load_limits_def read_nat_def and_then_def expect_def in_range_def ensure_def from_millis_def
        default_numbers [simplified])
  have retry: "load_retry ?e = Inr (retry_config_new 0 (150 * nanos_per_milli) (3 * nanos_per_sec))"
    by (simp add: load_retry_def read_nat_def and_then_def expect_def in_range_def ensure_def from_millis_def
        from_secs_def default_numbers [simplified])
  have replay: "load_nonce_guard ?e = Inr None"
    by (simp add: load_nonce_guard_def minimal_env_def Let_def)
  have chain: "kite_chain_by_name ''mainnet'' = Inr KITE_MAINNET"
    by (simp add: kite_chain_by_name_def trim_visible visible_def char_code_def)
  have vars: "env_var ?e ''PAY_TO'' = Some pay_to" "env_var ?e ''UPSTREAM_URL'' = Some upstream_url"
    by (simp_all add: minimal_env_def env_var_def)
  show ?thesis
    by (simp add: load_service_def service_payment_def service_upstream_def limiter limits retry replay chain vars and_then_def expect_def read_nat_def
        default_numbers [simplified] from_env_def load_expiration_guard_def load_security_def default_security_config_def
        config_new_def client_with_retry_def)
qed

text \<open>
  The minimal environment: with only \<open>PAY_TO\<close> and \<open>UPSTREAM_URL\<close> set the service starts on port
  8402 with the documented defaults - mainnet, 0.001 USD, the public facilitator with 30 s and no
  retries, 64 concurrent requests, no rate limit, no replay guard, no validity check, CORS off,
  security headers on - and the upstream URL without its final slashes. The printed form of the
  rate 0 must read back as 0.
\<close>
theorem startup_defaults:
  assumes "parse_f64 (show_f64 0) = Some (Finite 0)"
  shows "load_service x show_f64 (minimal_env pay_to upstream_url) = Inr
    \<lparr>sc_port = 8402, sc_rate_limiter = None,
     sc_limits = \<lparr>li_upstream_timeout = 10000 * nanos_per_milli, li_facilitator_timeout = 30000 * nanos_per_milli,
       li_max_concurrent = 64\<rparr>,
     sc_cors = Disabled,
     sc_payment = (config_new pay_to KITE_MAINNET ''0.001'' ''Paid API access via Kite x402''
        (client_with_retry FACILITATOR_URL (30000 * nanos_per_milli)
           (retry_config_new 0 (150 * nanos_per_milli) (3 * nanos_per_sec))))\<lparr>pc_metrics := Some new_metrics\<rparr>,
     sc_upstream = \<lparr>uc_base_url = trim_end_matches CHR ''/'' upstream_url, uc_auth_header = ''Authorization'', uc_auth_value = ''''\<rparr>,
     sc_security = default_security_config\<rparr>"
  using assms by (rule minimal_start)

theorem startup_defaults_witness:
  "\<exists>c. load_service cors_sample_x (\<lambda>_. ''0'') (minimal_env ''0xpay'' ''http://up/'') = Inr c \<and> sc_port c = 8402"
  using startup_defaults [of "\<lambda>_. ''0''" cors_sample_x "''0xpay''" "''http://up/''"] parse_f64_zero by simp

theorem startup_checked_witness:
  "\<exists>c. load_service cors_sample_x (\<lambda>_. ''0'') (minimal_env ''0xpay'' ''http://up/'') = Inr c \<and>
     rc_max_retries (fc_retry_config (pc_facilitator (sc_payment c))) \<le> 5"
proof -
  obtain c where c: "load_service cors_sample_x (\<lambda>_. ''0'') (minimal_env ''0xpay'' ''http://up/'') = Inr c"
    by (cases "load_service cors_sample_x (\<lambda>_. ''0'') (minimal_env ''0xpay'' ''http://up/'')")
      (simp_all add: minimal_start parse_f64_zero)
  from startup_checked [OF c] c show ?thesis by blast
qed

end
