(* ===== verification/F64_Bits.thy ===== *)
theory F64_Bits
  imports F64_Text
begin

text \<open>
  The 64 bits of a double, as a JSON number carries them: a sign, eleven exponent bits and
  fifty-two fraction bits. The lemma says that the bits of a finite double give it back.
\<close>

definition f64_bits :: "f64 \<Rightarrow> u64" where
  "f64_bits v =
     (if v = 0 then 0
      else of_int ((max (exponent v) (- 1022) + 1022) * 2 ^ 52 + \<lfloor>v / ulp v\<rfloor>))"

definition f64_of_bits :: "u64 \<Rightarrow> f64" where
  "f64_of_bits w =
     (let n = uint w;
          e = (n div 2 ^ 52) mod 2048;
          m = n mod 2 ^ 52;
          v = (if e = 0 then of_int m * 2 powi (- 1074) else of_int (2 ^ 52 + m) * 2 powi (e - 1075))
      in if 2 ^ 63 \<le> n then - v else v)"

lemma f64_integral_multiple:
  assumes "0 < v" "rnd v = v"
  obtains k where "v = of_int k * ulp v" "0 < k" "k < 2 ^ 53"
    "exponent v < - 1022 \<or> 2 ^ 52 \<le> k"
proof -
  define M where "M = max (exponent v) (- 1022)"
  define k where "k = round_half_even (v / ulp v)"
  have ulp: "ulp v = 2 powi (M - 52)" by (simp add: ulp_def M_def)
  have v: "v = of_int k * ulp v" using assms by (simp add: rnd_def k_def split: if_splits)
  then have "0 < of_int k * ulp v" using assms(1) by simp
  then have "(0 :: rat) < of_int k" by (rule zero_less_mult_pos2) (rule ulp_pos)
  then have pos: "0 < k" by simp
  have scale: "2 ^ n * ulp v = 2 powi (M - 52 + int n)" for n
    unfolding ulp by (subst two_powi_split [symmetric]) (simp add: add.commute)
  have "v < 2 powi (exponent v + 1)" by (rule exponent_bounds(2) [OF assms(1)])
  also have "\<dots> \<le> 2 powi (M + 1)" by (simp add: two_powi_le M_def)
  finally have "of_int k * ulp v < 2 ^ 53 * ulp v" using v scale [of 53] by (simp add: add.commute)
  then have "(of_int k :: rat) < of_int (2 ^ 53)" by simp
  then have "k < 2 ^ 53" by (simp only: of_int_less_iff)
  moreover have "exponent v < - 1022 \<or> 2 ^ 52 \<le> k"
  proof (rule disjCI)
    assume "\<not> 2 ^ 52 \<le> k"
    then have "k < 2 ^ 52" by simp
    then have "(of_int k :: rat) < of_int (2 ^ 52)" by (simp only: of_int_less_iff)
    then have "of_int k * ulp v < 2 ^ 52 * ulp v" by simp
    then have "v < 2 powi M" using v scale [of 52] by simp
    show "exponent v < - 1022"
    proof (rule ccontr)
      assume "\<not> exponent v < - 1022"
      then have "M = exponent v" by (simp add: M_def)
      with exponent_bounds(1) [OF assms(1)] \<open>v < 2 powi M\<close> show False by simp
    qed
  qed
  ultimately show ?thesis using that v pos by blast
qed

lemma f64_bits_inverse:
  assumes "0 \<le> v" "v < 2 ^ 1024" "rnd v = v"
  shows "f64_of_bits (f64_bits v) = v"
proof (cases "v = 0")
  case True
  then show ?thesis by (simp add: f64_bits_def f64_of_bits_def)
next
  case False
  with assms(1) have pos: "0 < v" by simp
  obtain k where k: "v = of_int k * ulp v" "0 < k" "k < 2 ^ 53" "exponent v < - 1022 \<or> 2 ^ 52 \<le> k"
    using f64_integral_multiple [OF pos assms(3)] .
  define M where "M = max (exponent v) (- 1022)"
  have ulp: "ulp v = 2 powi (M - 52)" by (simp add: ulp_def M_def)
  have "(2 :: rat) powi exponent v \<le> v" by (rule exponent_bounds(1) [OF pos])
  also have "v < 2 powi 1024" using assms(2) by simp
  finally have "\<not> (1024 \<le> exponent v)" using two_powi_le [of 1024 "exponent v"] by linarith
  then have M: "- 1022 \<le> M" "M \<le> 1023" by (simp_all add: M_def)
  have "v / ulp v = of_int k" using k(1) less_imp_neq [OF ulp_pos [of v]] by (metis nonzero_mult_div_cancel_right)
  then have bits: "f64_bits v = of_int ((M + 1022) * 2 ^ 52 + k)" using False by (simp add: f64_bits_def M_def)
  define n where "n = (M + 1022) * 2 ^ 52 + k"
  have n: "0 \<le> n" "n < 2 ^ 63" using M k(2,3) by (simp_all add: n_def)
  have uint: "uint (f64_bits v) = n"
    unfolding bits n_def [symmetric] using n by (simp add: uint_word_of_int_eq take_bit_int_eq_self)
  have "f64_of_bits (f64_bits v) = of_int k * ulp v"
  proof (cases "2 ^ 52 \<le> k")
    case True
    have split: "n = 2 ^ 52 * (M + 1023) + (k - 2 ^ 52)" by (simp add: n_def algebra_simps)
    have "n div 2 ^ 52 = M + 1023" by (rule int_div_pos_eq [OF split]) (use True k(3) in simp_all)
    moreover have "n mod 2 ^ 52 = k - 2 ^ 52" by (rule int_mod_pos_eq [OF split]) (use True k(3) in simp_all)
    moreover note True
    ultimately show ?thesis using M n by (simp add: f64_of_bits_def uint ulp Let_def)
  next
    case False
    with k(4) have "M = - 1022" by (simp add: M_def)
    with False k(2) have "n div 2 ^ 52 = 0" "n mod 2 ^ 52 = k" by (simp_all add: n_def)
    with \<open>M = - 1022\<close> n show ?thesis by (simp add: f64_of_bits_def uint ulp Let_def)
  qed
  also have "\<dots> = v" by (rule k(1) [symmetric])
  finally show ?thesis .
qed

end
