(* ===== verification/Service.thy ===== *)
theory Service
  imports ServiceConfig F64_Bits
begin

text \<open>
  The running service (\<open>service/src/main.rs\<close> from the router on): the request logger with its
  counters, the security headers, the concurrency limiter, the free routes, and the composition of
  all layers around the payment gate and the proxy, in the order \<open>main\<close> puts them.

  A layer takes the rest of the service as a function from a request and the state to an optional
  response and a state; there is no response when the future of the inner layers is dropped or
  panics. Which route a request takes, and the replies the router gives by itself (a method that is
  not allowed), belong to the package \<open>axum\<close> and are part of \<open>surroundings\<close>, with the clocks, the peer
  and the two remote services. \<open>ServiceRuns\<close> has the interleavings of many requests.
\<close>

subsection \<open>Request identifiers\<close>

definition id_char :: "char \<Rightarrow> bool" where
  "id_char b \<longleftrightarrow> is_ascii_alphanumeric b \<or> b \<in> {CHR ''.'', CHR ''_'', CHR ''~'', CHR ''-''}"

definition is_valid_request_id :: "str \<Rightarrow> bool" where
  "is_valid_request_id s \<longleftrightarrow> s \<noteq> [] \<and> length s \<le> 128 \<and> list_all id_char s"

definition generate_request_id :: "duration option \<Rightarrow> u64 \<Rightarrow> str \<times> u64" where
  "generate_request_id since_epoch counter =
     (let now = as_millis (case since_epoch of Some d \<Rightarrow> d | None \<Rightarrow> 0)
      in (''req-'' @ show_hex now @ ''-'' @ pad_zeros 8 (show_hex (unat counter)), counter + 1))"

subsection \<open>State and surroundings\<close>

record service_metrics =
  sm_start_time :: instant
  sm_total_requests :: u64
  sm_paid_challenges :: u64
  sm_successful_requests :: u64
  sm_server_errors :: u64
  sm_active_requests :: "64 word"

definition service_metrics_new :: "instant \<Rightarrow> service_metrics" where
  "service_metrics_new now = \<lparr>sm_start_time = now, sm_total_requests = 0, sm_paid_challenges = 0,
     sm_successful_requests = 0, sm_server_errors = 0, sm_active_requests = 0\<rparr>"

record service =
  sv_metrics :: service_metrics
  sv_request_counter :: u64
  sv_permits :: nat
  sv_limiter :: "rate_limiter option"
  sv_payment :: payment_config
  sv_effects :: "effect list"

definition service_start :: "instant \<Rightarrow> service_config \<Rightarrow> service" where
  "service_start now c = \<lparr>sv_metrics = service_metrics_new now, sv_request_counter = 1,
     sv_permits = li_max_concurrent (sc_limits c), sv_limiter = sc_rate_limiter c,
     sv_payment = sc_payment c, sv_effects = []\<rparr>"

text \<open>The route of a request; under \<open>/v1\<close> the router strips the prefix and keeps the original URI.\<close>

datatype route =
    Healthz | Readyz | MetricsX402 | Livez | MetricsEndpoint
  | Paid str "str option" "str option"
  | NotFound
  | RouterReply response

record surroundings =
  wo_env :: environment
  wo_cancel :: "await_point option"
  wo_checks :: header_checks
  wo_upstream :: "upstream_request \<Rightarrow> upstream_reply"
  wo_show_f64 :: "f64 \<Rightarrow> str"
  wo_peer :: "ip_addr option"
  wo_now :: instant
  wo_since_epoch :: "duration option"
  wo_probe :: "str \<Rightarrow> http_outcome"
  wo_route :: "request \<Rightarrow> route"

subsection \<open>Counters\<close>

definition service_snapshot :: "instant \<Rightarrow> service_metrics \<Rightarrow> json" where
  "service_snapshot now m =
     JObj [(''active_requests'', JNum (PosInt (of_int (max (sint (sm_active_requests m)) 0)))),
           (''paid_challenges'', JNum (PosInt (sm_paid_challenges m))),
           (''server_errors'', JNum (PosInt (sm_server_errors m))),
           (''status'', JStr ''ok''),
           (''successful_requests'', JNum (PosInt (sm_successful_requests m))),
           (''total_requests'', JNum (PosInt (sm_total_requests m))),
           (''uptime_seconds'', JNum (PosInt (as_secs (duration_since now (sm_start_time m)))))]"

text \<open>\<open>ActiveRequestGuard::new\<close> and its \<open>Drop\<close>.\<close>

definition guard_new :: "service_metrics \<Rightarrow> service_metrics" where
  "guard_new m = m\<lparr>sm_active_requests := sm_active_requests m + 1\<rparr>"

definition guard_drop :: "service_metrics \<Rightarrow> service_metrics" where
  "guard_drop m = m\<lparr>sm_active_requests := sm_active_requests m - 1\<rparr>"

definition count_request :: "service_metrics \<Rightarrow> service_metrics" where
  "count_request m = m\<lparr>sm_total_requests := sm_total_requests m + 1\<rparr>"

definition count_response :: "nat \<Rightarrow> service_metrics \<Rightarrow> service_metrics" where
  "count_response status m =
     (if 500 \<le> status \<and> status < 600 then m\<lparr>sm_server_errors := sm_server_errors m + 1\<rparr>
      else if status = 402 then m\<lparr>sm_paid_challenges := sm_paid_challenges m + 1\<rparr>
      else if 400 \<le> status \<and> status < 500 then m
      else m\<lparr>sm_successful_requests := sm_successful_requests m + 1\<rparr>)"

subsection \<open>The request logger\<close>

definition take_request_id :: "externals \<Rightarrow> duration option \<Rightarrow> request \<Rightarrow> u64 \<Rightarrow> str \<times> u64" where
  "take_request_id x since_epoch req counter =
     (case Option.bind (hget ''x-request-id'' (req_headers req)) (to_str_ok x) of
        Some s \<Rightarrow> if is_valid_request_id s then (s, counter) else generate_request_id since_epoch counter
      | None \<Rightarrow> generate_request_id since_epoch counter)"

definition tag_request :: "externals \<Rightarrow> str \<Rightarrow> request \<Rightarrow> request" where
  "tag_request x request_id req =
     (if header_value_ok x request_id
      then req\<lparr>req_headers := hinsert ''x-request-id'' request_id (req_headers req)\<rparr> else req)"

definition tag_response :: "externals \<Rightarrow> str \<Rightarrow> response \<Rightarrow> response" where
  "tag_response x request_id r =
     (if \<not> hcontains ''x-request-id'' (resp_headers r) \<and> header_value_ok x request_id
      then set_header ''x-request-id'' request_id r else r)"

definition http_request_logger :: "externals \<Rightarrow> duration option
    \<Rightarrow> (request \<Rightarrow> service \<Rightarrow> response option \<times> service) \<Rightarrow> request \<Rightarrow> service \<Rightarrow> response option \<times> service" where
  "http_request_logger x since_epoch next_run req s =
     (let s = s\<lparr>sv_metrics := count_request (guard_new (sv_metrics s))\<rparr>;
          (request_id, counter) = take_request_id x since_epoch req (sv_request_counter s);
          s = s\<lparr>sv_request_counter := counter\<rparr>;
          (response, s) = next_run (tag_request x request_id req) s
      in case response of
           None \<Rightarrow> (None, s\<lparr>sv_metrics := guard_drop (sv_metrics s)\<rparr>)
         | Some r \<Rightarrow>
           (Some (tag_response x request_id r),
            s\<lparr>sv_metrics := guard_drop (count_response (resp_status r) (sv_metrics s))\<rparr>))"

subsection \<open>Security headers and concurrency\<close>

definition security_edit :: "externals \<Rightarrow> security_config \<Rightarrow> response \<Rightarrow> response" where
  "security_edit x c r =
     (if \<not> se_enabled c then r
      else
        let r = set_header ''x-xss-protection'' ''0''
                  (set_header ''x-frame-options'' ''DENY'' (set_header ''x-content-type-options'' ''nosniff'' r));
            r = (if header_value_ok x (se_referrer_policy c)
                 then set_header ''referrer-policy'' (se_referrer_policy c) r else r)
        in if header_value_ok x (se_csp c) then set_header ''content-security-policy'' (se_csp c) r else r)"

definition security_headers_middleware :: "externals \<Rightarrow> security_config
    \<Rightarrow> (request \<Rightarrow> 's \<Rightarrow> response option \<times> 's) \<Rightarrow> request \<Rightarrow> 's \<Rightarrow> response option \<times> 's" where
  "security_headers_middleware x c next_run req s =
     (let (response, s) = next_run req s in (map_option (security_edit x c) response, s))"

definition busy_response :: response where
  "busy_response =
     set_header ''cache-control'' ''no-store'' (set_header ''retry-after'' ''1''
       (json_response 503 (JObj [(''error'', JStr ''service_busy'')])))"

text \<open>A permit is given back when it is dropped, also with a future that is cancelled.\<close>

definition concurrency_limiter :: "(request \<Rightarrow> service \<Rightarrow> response option \<times> service)
    \<Rightarrow> request \<Rightarrow> service \<Rightarrow> response option \<times> service" where
  "concurrency_limiter next_run req s =
     (if sv_permits s = 0 then (Some busy_response, s)
      else
        let (response, s) = next_run req (s\<lparr>sv_permits := sv_permits s - 1\<rparr>)
        in (response, s\<lparr>sv_permits := sv_permits s + 1\<rparr>))"

subsection \<open>The free routes\<close>

definition healthz :: response where
  "healthz = json_response 200 (JObj [(''status'', JStr ''ok'')])"

definition livez :: "instant \<Rightarrow> service_metrics \<Rightarrow> response" where
  "livez now m = json_response 200 (JObj [(''status'', JStr ''ok''),
     (''uptime_seconds'', JNum (PosInt (as_secs (duration_since now (sm_start_time m)))))])"

definition metrics_endpoint :: "instant \<Rightarrow> service_metrics \<Rightarrow> response" where
  "metrics_endpoint now m = json_response 200 (service_snapshot now m)"

definition not_found :: response where
  "not_found = json_response 404 (JObj [(''error'', JStr ''not_found''), (''message'', JStr ''route not found'')])"

definition readyz :: "externals \<Rightarrow> payment_config \<Rightarrow> (str \<Rightarrow> http_outcome) \<Rightarrow> response" where
  "readyz x c get =
     (case probe_network x (pc_facilitator c) (kc_network (pc_chain c)) get of
        Inr _ \<Rightarrow> json_response 200 (JObj [(''facilitator'', JStr ''ok''),
                   (''network'', JStr (kc_network (pc_chain c))), (''status'', JStr ''ready'')])
      | Inl err \<Rightarrow> json_response 503 (JObj [(''error'', JStr (facilitator_error_message err)),
                   (''facilitator'', JStr ''unreachable''), (''status'', JStr ''not_ready'')]))"

definition metrics_x402_handler :: "payment_metrics \<Rightarrow> response" where
  "metrics_x402_handler m =
     (let s = snapshot m
      in json_response 200 (JObj
           [(''requests_total'', JNum (PosInt (pm_requests_total s))),
            (''challenges_total'', JNum (PosInt (pm_challenges_total s))),
            (''verifications_success'', JNum (PosInt (pm_verifications_success s))),
            (''verifications_failed'', JNum (PosInt (pm_verifications_failed s))),
            (''settlements_success'', JNum (PosInt (pm_settlements_success s))),
            (''settlements_failed'', JNum (PosInt (pm_settlements_failed s))),
            (''total_settlement_latency_ms'', JNum (PosInt (pm_total_settlement_latency_ms s))),
            (''avg_settlement_latency_ms'', JNum (FloatBits (f64_bits (ms_avg_settlement_latency_ms s)))),
            (''settlement_success_rate'', JNum (FloatBits (f64_bits (ms_settlement_success_rate s))))]))"

subsection \<open>The application\<close>

text \<open>The proxy as the handler below \<open>/v1\<close>: the router has stripped the prefix.\<close>

definition paid_handler :: "service_config \<Rightarrow> surroundings \<Rightarrow> request \<Rightarrow> response" where
  "paid_handler c w req =
     proxy (wo_checks w) (sc_upstream c) (wo_upstream w)
       \<lparr>px_method = req_method req, px_path_query = req_path_query req, px_nested = True,
        px_headers = req_headers req, px_body = Some (req_body req)\<rparr>"

definition payment_layer :: "service_config \<Rightarrow> surroundings \<Rightarrow> str option \<Rightarrow> request \<Rightarrow> service \<Rightarrow> response option \<times> service" where
  "payment_layer c w original req s =
     (let (pc, result, effects) =
            x402_payment ((wo_env w)\<lparr>env_handler := paid_handler c w\<rparr>) (wo_cancel w) (sv_payment s)
              \<lparr>gr_request = req, gr_original_uri = original\<rparr>
      in (case result of Responded r \<Rightarrow> Some r | Cancelled \<Rightarrow> None | Panicked \<Rightarrow> None,
          s\<lparr>sv_payment := pc, sv_effects := sv_effects s @ effects\<rparr>))"

definition rate_limit_layer :: "surroundings \<Rightarrow> (request \<Rightarrow> service \<Rightarrow> response option \<times> service)
    \<Rightarrow> request \<Rightarrow> service \<Rightarrow> response option \<times> service" where
  "rate_limit_layer w next_run req s =
     (let ((response, s), l) =
            rate_limit_middleware (env_x (wo_env w)) (wo_show_f64 w) (sv_limiter s) (wo_peer w) (wo_now w) next_run req s
      in (response, s\<lparr>sv_limiter := l\<rparr>))"

definition paid :: "service_config \<Rightarrow> surroundings \<Rightarrow> str option \<Rightarrow> request \<Rightarrow> service \<Rightarrow> response option \<times> service" where
  "paid c w original = concurrency_limiter (rate_limit_layer w (payment_layer c w original))"

definition routed :: "service_config \<Rightarrow> surroundings \<Rightarrow> request \<Rightarrow> service \<Rightarrow> response option \<times> service" where
  "routed c w req s =
     (case wo_route w req of
        Healthz \<Rightarrow> (Some healthz, s)
      | Readyz \<Rightarrow> (Some (readyz (env_x (wo_env w)) (sv_payment s) (wo_probe w)), s)
      | MetricsX402 \<Rightarrow>
          (Some (metrics_x402_handler (case pc_metrics (sv_payment s) of Some m \<Rightarrow> m | None \<Rightarrow> new_metrics)), s)
      | Livez \<Rightarrow> (Some (livez (wo_now w) (sv_metrics s)), s)
      | MetricsEndpoint \<Rightarrow> (Some (metrics_endpoint (wo_now w) (sv_metrics s)), s)
      | Paid uri path_query original \<Rightarrow>
          paid c w original (req\<lparr>req_uri := uri, req_path_query := path_query\<rparr>) s
      | NotFound \<Rightarrow> (Some not_found, s)
      | RouterReply r \<Rightarrow> (Some r, s))"

definition logged :: "service_config \<Rightarrow> surroundings \<Rightarrow> request \<Rightarrow> service \<Rightarrow> response option \<times> service" where
  "logged c w =
     http_request_logger (env_x (wo_env w)) (wo_since_epoch w)
       (security_headers_middleware (env_x (wo_env w)) (sc_security c) (routed c w))"

definition app :: "service_config \<Rightarrow> surroundings \<Rightarrow> request \<Rightarrow> service \<Rightarrow> response option \<times> service" where
  "app c w req s =
     (if is_enabled (sc_cors c) then cors_middleware (env_x (wo_env w)) (sc_cors c) (logged c w) req s
      else logged c w req s)"

subsection \<open>Request identifiers: properties\<close>

lemma id_char_visible: "id_char c \<Longrightarrow> visible c"
  by (auto simp: id_char_def visible_def is_ascii_alphanumeric_def is_ascii_digit_def is_ascii_upper_def char_code_def)

lemma id_char_hex: "d < 16 \<Longrightarrow> id_char (digit_char d)"
  by (auto simp: id_char_def is_ascii_alphanumeric_def is_ascii_digit_def digit_char_def char_code_def)

lemma hex_not_dash: "d < 16 \<Longrightarrow> digit_char d \<noteq> CHR ''-''"
proof
  assume "d < 16" "digit_char d = CHR ''-''"
  then have "char_code (digit_char d) = 45" by (simp add: char_code_def)
  with \<open>d < 16\<close> show False by (simp add: digit_char_def char_code_def split: if_splits)
qed

lemma show_hex_chars: "list_all (\<lambda>c. id_char c \<and> c \<noteq> CHR ''-'') (show_hex n)"
proof (induction n rule: show_hex.induct)
  case (1 n)
  have "n mod 16 < 16" by simp
  with 1 show ?case
    by (cases "n < 16") (simp_all add: show_hex.simps [of n] id_char_hex hex_not_dash)
qed

lemma show_hex_length: "n < 16 ^ Suc k \<Longrightarrow> length (show_hex n) \<le> Suc k"
proof (induction k arbitrary: n)
  case 0
  then show ?case by (simp add: show_hex.simps [of n])
next
  case (Suc k)
  then show ?case by (simp add: show_hex.simps [of n] less_mult_imp_div_less)
qed

text \<open>Reading hexadecimal digits back.\<close>

definition hex_digit :: "char \<Rightarrow> nat" where
  "hex_digit c = (if char_code c < 58 then char_code c - 48 else char_code c - 87)"

definition hex_value :: "str \<Rightarrow> nat" where
  "hex_value = foldl (\<lambda>acc c. acc * 16 + hex_digit c) 0"

lemma hex_digit_char: "d < 16 \<Longrightarrow> hex_digit (digit_char d) = d"
  by (auto simp: hex_digit_def digit_char_def char_code_def)

lemma hex_value_show: "hex_value (show_hex n) = n"
proof (induction n rule: show_hex.induct)
  case (1 n)
  then show ?case by (simp add: show_hex.simps [of n] hex_value_def hex_digit_char)
qed

lemma hex_value_pad: "hex_value (pad_zeros w s) = hex_value s"
proof -
  have "foldl (\<lambda>acc c. acc * 16 + hex_digit c) 0 (replicate k CHR ''0'') = 0" for k
    by (induction k) (simp_all add: hex_digit_def char_code_def)
  then show ?thesis by (simp add: hex_value_def pad_zeros_def)
qed

lemma as_millis_bound: "d \<le> duration_max \<Longrightarrow> as_millis d < 16 ^ Suc 18"
  by (simp add: as_millis_def duration_max_def nanos_per_milli_def nanos_per_sec_def div_less_iff_less_mult)

lemma dash_not_hex: "CHR ''-'' \<notin> set (show_hex n)"
  using show_hex_chars [of n] by (auto simp: list_all_iff)

lemma split_at_first:
  assumes "a @ x # p = a' @ x # p'" "x \<notin> set a" "x \<notin> set a'"
  shows "p = p'"
proof -
  have "dropWhile (\<lambda>y. y \<noteq> x) (b @ x # q) = x # q" if "x \<notin> set b" for b q
    using that by (induction b) auto
  from this [OF assms(2)] this [OF assms(3)] assms(1) show ?thesis by (metis list.inject)
qed

lemma generated_id_valid:
  assumes "pred_option (\<lambda>d. d \<le> duration_max) t"
  shows "is_valid_request_id (fst (generate_request_id t counter))"
proof -
  let ?now = "as_millis (case t of Some d \<Rightarrow> d | None \<Rightarrow> 0)"
  have "?now < 16 ^ Suc 18"
    using assms as_millis_bound by (auto simp: as_millis_def split: option.split)
  note now = show_hex_length [OF this]
  have "unat counter < 16 ^ Suc 15" using unat_less_word_size [of counter] by simp
  note count = show_hex_length [OF this]
  have "list_all id_char (show_hex n)" for n
    using show_hex_chars [of n] by (auto simp: list_all_iff)
  moreover have "list_all id_char (replicate k CHR ''0'')" for k
    by (simp add: list_all_iff id_char_def is_ascii_alphanumeric_def is_ascii_digit_def char_code_def)
  ultimately show ?thesis
    using now count
    by (simp add: is_valid_request_id_def generate_request_id_def Let_def pad_zeros_def id_char_def
        is_ascii_alphanumeric_def is_ascii_digit_def is_ascii_upper_def char_code_def)
qed

text \<open>
  Identifiers are usable and distinct: whatever the clock says, a generated identifier is one that
  the service accepts from a client, and two requests for which the process-wide counter differs
  get different ones.
\<close>
theorem generated_ids_distinct:
  assumes "pred_option (\<lambda>d. d \<le> duration_max) t" "counter \<noteq> counter'"
  shows "is_valid_request_id (fst (generate_request_id t counter))
    \<and> fst (generate_request_id t counter) \<noteq> fst (generate_request_id t' counter')
    \<and> snd (generate_request_id t counter) = counter + 1"
proof -
  have valid: "is_valid_request_id (fst (generate_request_id t counter))"
    using assms(1) by (rule generated_id_valid)
  have "fst (generate_request_id t counter) \<noteq> fst (generate_request_id t' counter')"
  proof
    assume "fst (generate_request_id t counter) = fst (generate_request_id t' counter')"
    then have "pad_zeros 8 (show_hex (unat counter)) = pad_zeros 8 (show_hex (unat counter'))"
      by (auto simp: generate_request_id_def Let_def dest!: split_at_first [OF _ dash_not_hex dash_not_hex])
    then have "unat counter = unat counter'" by (metis hex_value_pad hex_value_show)
    with assms(2) show False by (simp add: word_unat_eq_iff)
  qed
  with valid show ?thesis by (simp add: generate_request_id_def Let_def)
qed

lemma id_name: "ascii_lower ''x-request-id'' = ''x-request-id''"
  by (simp add: ascii_lower_def text_eval)

lemma taken_id_valid:
  assumes "pred_option (\<lambda>d. d \<le> duration_max) t"
  shows "is_valid_request_id (fst (take_request_id x t req counter))"
  using generated_id_valid [OF assms] by (simp add: take_request_id_def split: option.split)

lemma valid_id_legal:
  assumes "\<forall>v. v \<noteq> [] \<and> list_all visible v \<longrightarrow> header_value_ok x v" "is_valid_request_id i"
  shows "header_value_ok x i"
  using assms id_char_visible by (auto simp: is_valid_request_id_def list_all_iff)

lemma hget_all_lower: "ascii_lower n = ascii_lower m \<Longrightarrow> hget_all n hs = hget_all m hs"
  by (simp add: hget_all_def)

lemma tag_response_ids:
  "header_value_ok x i \<Longrightarrow> hget_all n (resp_headers (tag_response x i r))
     = (if ascii_lower n = ''x-request-id'' \<and> hget_all n (resp_headers r) = [] then [i] else hget_all n (resp_headers r))"
  using hget_all_lower [of n "''x-request-id''" "resp_headers r"]
  by (auto simp: tag_response_def set_header_def hm.get_all_insert hm.contains_iff id_name)

text \<open>
  Every request is traced end to end. The inner layers receive the request with exactly one
  identifier, which is valid: the client's own if that is valid, a fresh one otherwise. The response
  carries that identifier unless an inner layer set one; nothing else of it changes.
\<close>
theorem request_id_propagated:
  assumes "\<forall>v. v \<noteq> [] \<and> list_all visible v \<longrightarrow> header_value_ok x v"
    and "pred_option (\<lambda>d. d \<le> duration_max) t"
    and "http_request_logger x t next_run req s = (Some r, s')"
  shows "\<exists>i s1 r1 s2. is_valid_request_id i
    \<and> next_run (req\<lparr>req_headers := hinsert ''x-request-id'' i (req_headers req)\<rparr>) s1 = (Some r1, s2)
    \<and> i = (case Option.bind (hget ''x-request-id'' (req_headers req)) (to_str_ok x) of
             Some own \<Rightarrow> if is_valid_request_id own then own else fst (generate_request_id t (sv_request_counter s))
           | None \<Rightarrow> fst (generate_request_id t (sv_request_counter s)))
    \<and> resp_status r = resp_status r1 \<and> resp_body r = resp_body r1
    \<and> (\<forall>n. hget_all n (resp_headers r)
           = (if ascii_lower n = ''x-request-id'' \<and> hget_all n (resp_headers r1) = [] then [i]
              else hget_all n (resp_headers r1)))"
proof -
  obtain i counter where i: "take_request_id x t req (sv_request_counter s) = (i, counter)" by fastforce
  have valid: "is_valid_request_id i" using taken_id_valid [OF assms(2), of x req "sv_request_counter s"] i by simp
  note ok = valid_id_legal [OF assms(1) valid]
  let ?s1 = "s\<lparr>sv_metrics := count_request (guard_new (sv_metrics s)), sv_request_counter := counter\<rparr>"
  obtain r1 s2 where next1: "next_run (tag_request x i req) ?s1 = (r1, s2)" by fastforce
  with assms(3) i obtain r0 where r0: "r1 = Some r0" "r = tag_response x i r0"
    by (auto simp: http_request_logger_def Let_def split: option.splits)
  have "i = (case Option.bind (hget ''x-request-id'' (req_headers req)) (to_str_ok x) of
             Some own \<Rightarrow> if is_valid_request_id own then own else fst (generate_request_id t (sv_request_counter s))
           | None \<Rightarrow> fst (generate_request_id t (sv_request_counter s)))"
    using i by (auto simp: take_request_id_def split: option.splits if_splits)
  moreover have "resp_status r = resp_status r0" "resp_body r = resp_body r0"
    using r0 by (simp_all add: tag_response_def)
  ultimately show ?thesis
    using valid next1 r0 ok tag_response_ids [OF ok] by (force simp: tag_request_def)
qed

subsection \<open>The layers together: properties\<close>

lemma header_names:
  "ascii_lower ''x-content-type-options'' = ''x-content-type-options''"
  "ascii_lower ''x-frame-options'' = ''x-frame-options''" "ascii_lower ''x-xss-protection'' = ''x-xss-protection''"
  "ascii_lower ''referrer-policy'' = ''referrer-policy''"
  "ascii_lower ''content-security-policy'' = ''content-security-policy''"
  by (simp_all add: ascii_lower_def text_eval)

text \<open>The security headers as a function from lower-case names to values.\<close>

definition security_fields :: "security_config \<Rightarrow> (str \<times> str) list" where
  "security_fields c = [(''x-content-type-options'', ''nosniff''), (''x-frame-options'', ''DENY''),
     (''x-xss-protection'', ''0''), (''referrer-policy'', se_referrer_policy c), (''content-security-policy'', se_csp c)]"

lemma security_edit_values:
  assumes "se_enabled c" "header_value_ok x (se_csp c)" "header_value_ok x (se_referrer_policy c)"
  shows "hget_all n (resp_headers (security_edit x c r))
    = (case map_of (security_fields c) (ascii_lower n) of Some v \<Rightarrow> [v] | None \<Rightarrow> hget_all n (resp_headers r))"
  using assms by (simp add: security_edit_def security_fields_def Let_def set_header_def hm.get_all_insert header_names)

lemma attach_cors_other:
  "ascii_lower n \<notin> {''vary'', ''access-control-allow-origin'', ''access-control-expose-headers''} \<Longrightarrow>
     hget_all n (resp_headers (attach_cors x c m r)) = hget_all n (resp_headers r)"
  by (simp add: attach_cors_def Let_def set_header_def hm.get_all_insert vary_origin_other cors_names split: option.split)

lemma tag_response_other:
  "ascii_lower n \<noteq> ''x-request-id'' \<Longrightarrow> hget_all n (resp_headers (tag_response x i r)) = hget_all n (resp_headers r)"
  by (simp add: tag_response_def set_header_def hm.get_all_insert id_name)

lemma logged_Some:
  assumes "logged c w req s = (Some r, s')"
  obtains i counter s1 r1 s2 where "take_request_id (env_x (wo_env w)) (wo_since_epoch w) req (sv_request_counter s) = (i, counter)"
    "routed c w (tag_request (env_x (wo_env w)) i req) s1 = (Some r1, s2)"
    "r = tag_response (env_x (wo_env w)) i (security_edit (env_x (wo_env w)) (sc_security c) r1)"
  using assms
  by (auto simp: logged_def http_request_logger_def security_headers_middleware_def Let_def
      split: prod.splits option.splits)

lemma app_cases:
  "app c w req s
     = (if is_preflight (env_x (wo_env w)) (sc_cors c) req
        then (Some (preflight_response (env_x (wo_env w)) (sc_cors c)
                (Option.bind (origin_of (env_x (wo_env w)) req) (match_origin (sc_cors c)))), s)
        else if is_enabled (sc_cors c)
        then (map_option (attach_cors (env_x (wo_env w)) (sc_cors c)
                (Option.bind (origin_of (env_x (wo_env w)) req) (match_origin (sc_cors c)))) (fst (logged c w req s)),
              snd (logged c w req s))
        else logged c w req s)"
  by (auto simp: app_def cors_transparent is_preflight_def)

lemma app_Some:
  assumes "app c w req s = (Some r, s')" "\<not> is_preflight (env_x (wo_env w)) (sc_cors c) req"
  obtains r0 where "logged c w req s = (Some r0, s')"
    "\<And>n. ascii_lower n \<notin> {''vary'', ''access-control-allow-origin'', ''access-control-expose-headers''} \<Longrightarrow>
       hget_all n (resp_headers r) = hget_all n (resp_headers r0)"
  using assms by (auto simp: app_cases attach_cors_other prod_eq_iff split: if_splits)


text \<open>
  A CORS preflight is answered outside the logger and the security layer: the state (counters,
  gauge, identifiers, limiter, payments) is untouched, and the 204 carries neither a request
  identifier nor any security header.
\<close>
theorem preflight_bypasses_layers:
  assumes "is_preflight (env_x (wo_env w)) (sc_cors c) req"
  shows "\<exists>r. app c w req s = (Some r, s) \<and> resp_status r = 204 \<and> hget_all ''x-request-id'' (resp_headers r) = []
    \<and> (\<forall>(n, v) \<in> set (security_fields (sc_security c)). hget_all n (resp_headers r) = [])"
  using assms
  by (simp add: app_cases security_fields_def preflight_response_def Let_def set_header_def hm.get_all_insert
      vary_origin_other cors_names header_names id_name split: option.split)

text \<open>The limiter grants a token to the client of a request; the calls the payment middleware makes.\<close>

definition granted_by_limiter :: "surroundings \<Rightarrow> request \<Rightarrow> service \<Rightarrow> bool" where
  "granted_by_limiter w req s =
     pred_option (\<lambda>l. \<exists>peer ip remaining l'. wo_peer w = Some peer \<and>
       client_ip (env_x (wo_env w)) (req_headers req) peer (rl_trusted_proxies (tb_config l)) = Inr ip \<and>
       rl_acquire ip (wo_now w) l = (Inr remaining, l')) (sv_limiter s)"

definition payment_calls :: "service_config \<Rightarrow> surroundings \<Rightarrow> str option \<Rightarrow> request \<Rightarrow> service \<Rightarrow> effect list" where
  "payment_calls c w original req s =
     snd (snd (x402_payment ((wo_env w)\<lparr>env_handler := paid_handler c w\<rparr>) (wo_cancel w) (sv_payment s)
       \<lparr>gr_request = req, gr_original_uri = original\<rparr>))"

lemma granted_cong [simp]:
  "granted_by_limiter w (req\<lparr>req_uri := u, req_path_query := q\<rparr>) s = granted_by_limiter w req s"
  "granted_by_limiter w req (s\<lparr>sv_permits := p\<rparr>) = granted_by_limiter w req s"
  "granted_by_limiter w req (s\<lparr>sv_metrics := m, sv_request_counter := n\<rparr>) = granted_by_limiter w req s"
  "payment_calls c w orig req (s\<lparr>sv_permits := p\<rparr>) = payment_calls c w orig req s"
  "payment_calls c w orig req (s\<lparr>sv_metrics := m, sv_request_counter := n\<rparr>) = payment_calls c w orig req s"
  by (simp_all add: granted_by_limiter_def payment_calls_def)

lemma rate_limit_layer_cases:
  assumes "rate_limit_layer w next_run req s = (r, s')"
  shows "(\<exists>l. r \<noteq> None \<and> s' = s\<lparr>sv_limiter := l\<rparr>) \<or>
    (\<exists>r1 s1 l. next_run req s = (r1, s1) \<and> s' = s1\<lparr>sv_limiter := l\<rparr> \<and>
       granted_by_limiter w req s)"
  using assms
  by (auto simp: rate_limit_layer_def rate_limit_middleware_def granted_by_limiter_def Let_def split: prod.splits option.splits sum.splits
      rate_limit_rejection.splits)

lemma payment_layer_effects:
  "payment_layer c w original req s = (r, s') \<Longrightarrow> sv_effects s' = sv_effects s @ payment_calls c w original req s"
  by (auto simp: payment_layer_def payment_calls_def Let_def split: prod.splits)

lemma payment_layer_same:
  "payment_layer c w original req s = (r, s') \<Longrightarrow>
     sv_metrics s' = sv_metrics s \<and> sv_permits s' = sv_permits s \<and> sv_request_counter s' = sv_request_counter s"
  by (auto simp: payment_layer_def Let_def split: prod.splits)

text \<open>What a run below \<open>/v1\<close> changes, and when it calls anything outside.\<close>

lemma paid_frame:
  assumes "paid c w original req s = (r, s')"
  shows "sv_metrics s' = sv_metrics s \<and> sv_permits s' = sv_permits s \<and> sv_request_counter s' = sv_request_counter s"
proof (cases "sv_permits s = 0")
  case True
  then show ?thesis using assms by (simp add: paid_def concurrency_limiter_def)
next
  case False
  obtain r1 s1 where layer: "rate_limit_layer w (payment_layer c w original) req (s\<lparr>sv_permits := sv_permits s - 1\<rparr>) = (r1, s1)"
    by fastforce
  from rate_limit_layer_cases [OF this] have "sv_metrics s1 = sv_metrics s \<and> sv_permits s1 = sv_permits s - 1 \<and>
      sv_request_counter s1 = sv_request_counter s"
    by (auto dest!: payment_layer_same)
  with False layer assms show ?thesis by (auto simp: paid_def concurrency_limiter_def)
qed

lemma paid_effects:
  assumes "paid c w original req s = (r, s')" "sv_effects s' \<noteq> sv_effects s"
  shows "0 < sv_permits s \<and>
    granted_by_limiter w req s \<and>
    sv_effects s' = sv_effects s @ payment_calls c w original req s"
proof -
  let ?s = "s\<lparr>sv_permits := sv_permits s - 1\<rparr>"
  have permits: "0 < sv_permits s" using assms by (auto simp: paid_def concurrency_limiter_def split: if_splits)
  obtain r1 s1 where layer: "rate_limit_layer w (payment_layer c w original) req ?s = (r1, s1)" by fastforce
  with assms permits have s': "s' = s1\<lparr>sv_permits := sv_permits s1 + 1\<rparr>"
    by (auto simp: paid_def concurrency_limiter_def)
  with rate_limit_layer_cases [OF layer] assms(2) obtain r2 s2 l where
    inner: "payment_layer c w original req ?s = (r2, s2)" "s1 = s2\<lparr>sv_limiter := l\<rparr>"
    and taken: "granted_by_limiter w req s" by auto
  have "sv_effects s' = sv_effects s @ payment_calls c w original req s"
    using payment_layer_effects [OF inner(1)] by (simp add: s' inner(2))
  with permits taken show ?thesis by blast
qed

lemma routed_effects:
  assumes "routed c w req s = (r, s')" "sv_effects s' \<noteq> sv_effects s"
  obtains uri path_query original where "wo_route w req = Paid uri path_query original"
    "paid c w original (req\<lparr>req_uri := uri, req_path_query := path_query\<rparr>) s = (r, s')"
  using assms by (auto simp: routed_def split: route.splits)

lemma routed_frame:
  assumes "routed c w req s = (r, s')"
  shows "sv_metrics s' = sv_metrics s" "sv_permits s' = sv_permits s"
  using assms paid_frame by (auto simp: routed_def split: route.splits)

lemma logged_run:
  obtains i counter r1 s2 where
    "take_request_id (env_x (wo_env w)) (wo_since_epoch w) req (sv_request_counter s) = (i, counter)"
    "routed c w (tag_request (env_x (wo_env w)) i req)
       (s\<lparr>sv_metrics := count_request (guard_new (sv_metrics s)), sv_request_counter := counter\<rparr>) = (r1, s2)"
    "logged c w req s = (map_option (tag_response (env_x (wo_env w)) i \<circ> security_edit (env_x (wo_env w)) (sc_security c)) r1,
       s2\<lparr>sv_metrics := guard_drop (case r1 of None \<Rightarrow> sv_metrics s2 | Some r \<Rightarrow> count_response (resp_status r) (sv_metrics s2))\<rparr>)"
proof -
  let ?x = "env_x (wo_env w)"
  obtain i counter where i: "take_request_id ?x (wo_since_epoch w) req (sv_request_counter s) = (i, counter)" by fastforce
  obtain r1 s2 where r: "routed c w (tag_request ?x i req)
      (s\<lparr>sv_metrics := count_request (guard_new (sv_metrics s)), sv_request_counter := counter\<rparr>) = (r1, s2)" by fastforce
  have status: "resp_status (security_edit x k r) = resp_status r" for x k r
    by (simp add: security_edit_def Let_def)
  show ?thesis
    by (rule that [OF i r])
      (simp add: logged_def http_request_logger_def security_headers_middleware_def i r status Let_def split: option.split)
qed


subsection \<open>Accounting of one run\<close>

lemma guard_balance [simp]:
  "guard_drop (count_request (guard_new m)) = count_request m"
  "guard_drop (count_response st (count_request (guard_new m))) = count_response st (count_request m)"
  by (simp_all add: guard_drop_def guard_new_def count_request_def count_response_def)

lemma edit_status [simp]:
  "resp_status (security_edit x c r) = resp_status r" "resp_status (tag_response x i r) = resp_status r"
  "resp_status (attach_cors x cors m r) = resp_status r"
  by (simp_all add: security_edit_def tag_response_def attach_cors_def Let_def split: option.split)

lemma logged_accounting:
  assumes "logged c w req s = (r, s')"
  shows "sv_metrics s' = (case r of None \<Rightarrow> count_request (sv_metrics s)
           | Some r \<Rightarrow> count_response (resp_status r) (count_request (sv_metrics s))) \<and> sv_permits s' = sv_permits s"
proof (rule logged_run [of w req s c])
  fix i counter r1 s2
  assume run: "routed c w (tag_request (env_x (wo_env w)) i req)
       (s\<lparr>sv_metrics := count_request (guard_new (sv_metrics s)), sv_request_counter := counter\<rparr>) = (r1, s2)"
    and eq: "logged c w req s = (map_option (tag_response (env_x (wo_env w)) i \<circ> security_edit (env_x (wo_env w)) (sc_security c)) r1,
       s2\<lparr>sv_metrics := guard_drop (case r1 of None \<Rightarrow> sv_metrics s2 | Some r \<Rightarrow> count_response (resp_status r) (sv_metrics s2))\<rparr>)"
  from routed_frame [OF run] eq assms show ?thesis by (auto split: option.split)
qed

text \<open>
  Each request counts once. A request that is not a preflight raises the total by one and, if it is
  answered, exactly the counter of its status class (none for a client error other than 402); the
  gauge of active requests and the permits are back where they were, whether the request was
  answered, cancelled at one of the awaits of the payment gate, or panicked there.
\<close>
theorem app_accounting:
  assumes "app c w req s = (r, s')" "\<not> is_preflight (env_x (wo_env w)) (sc_cors c) req"
  shows "sv_metrics s' = (case r of None \<Rightarrow> count_request (sv_metrics s)
           | Some r \<Rightarrow> count_response (resp_status r) (count_request (sv_metrics s)))
    \<and> sv_permits s' = sv_permits s"
proof -
  obtain r0 where r0: "logged c w req s = (r0, s')" "map_option resp_status r = map_option resp_status r0"
    using assms by (auto simp: app_cases option.map_comp comp_def prod_eq_iff split: if_splits)
  from logged_accounting [OF r0(1)] r0(2) show ?thesis by (cases r; cases r0) auto
qed

text \<open>
  Readiness. \<open>/readyz\<close> answers 200 exactly when the facilitator answers \<open>/supported\<close> with a success
  status and a well-formed list that offers x402 version 2, scheme \<open>exact\<close>, on the network of the
  configuration; otherwise it answers 503.
\<close>
theorem readiness_iff:
  "resp_status (readyz x c get) = 200 \<longleftrightarrow>
     (\<exists>status text kinds k. get (fc_base_url (pc_facilitator c) @ ''/supported'') = Replied status (Some text)
        \<and> 200 \<le> status \<and> status < 300
        \<and> Option.bind (json_parse x text) de_supported = Some kinds \<and> k \<in> set kinds
        \<and> sk_version k = 2 \<and> sk_scheme k = ''exact'' \<and> sk_network k = kc_network (pc_chain c)
        \<and> kc_network (pc_chain c) \<noteq> '''')"
proof -
  have "resp_status (readyz x c get) = 200
      \<longleftrightarrow> probe_network x (pc_facilitator c) (kc_network (pc_chain c)) get = Inr ()"
    by (auto simp: readyz_def split: sum.split)
  then show ?thesis by (simp only: probe_network_iff)
qed

end
