(* ===== verification/ServiceTypes.thy ===== *)
theory ServiceTypes
  imports Service
begin

text \<open>
  The types of the running service: what a well-formed state is, with the invariants of its replay
  guard and of its rate limiter, and what a well-formed response is. The lemmas say that each layer
  of \<open>Service\<close> takes well-formed inner answers to well-formed answers and keeps the state well-formed,
  also when the inner future is cancelled or panics; the property is their composition, from the
  start-up on.
\<close>

subsection \<open>Responses\<close>

definition lower_names :: "headers \<Rightarrow> bool" where
  "lower_names hs \<longleftrightarrow> list_all (\<lambda>(n, _). ascii_lower n = n) hs"

definition response_ok :: "response \<Rightarrow> bool" where
  "response_ok r \<longleftrightarrow> 100 \<le> resp_status r \<and> resp_status r < 1000 \<and> lower_names (resp_headers r)"

lemma lower_char_twice: "lower_char (lower_char c) = lower_char c"
proof (cases "is_ascii_upper c")
  case True
  then have "\<not> is_ascii_upper (char_of (char_code c + 32))" by (simp add: is_ascii_upper_def char_code_def)
  then show ?thesis by (simp add: lower_char_def)
qed (simp add: lower_char_def)

lemma ascii_lower_twice [simp]: "ascii_lower (ascii_lower n) = ascii_lower n"
  by (simp add: ascii_lower_def lower_char_twice)

lemma lower_names_edit [simp]:
  "lower_names []" "lower_names hs \<Longrightarrow> lower_names (hinsert n v hs)" "lower_names hs \<Longrightarrow> lower_names (happend n v hs)"
  by (auto simp: lower_names_def hinsert_def happend_def list_all_iff)

lemma lower_names_json [simp]: "lower_names [(''content-type'', v)]"
  by (simp add: lower_names_def ascii_lower_def text_eval)

lemma response_ok_edit [simp]:
  "response_ok r \<Longrightarrow> response_ok (set_header n v r)"
  "100 \<le> st \<Longrightarrow> st < 1000 \<Longrightarrow> response_ok (json_response st j)"
  by (simp_all add: response_ok_def set_header_def json_response_def)

lemma lower_names_copied [simp]: "lower_names out \<Longrightarrow> lower_names (copy_headers k drops hs out)"
  by (induction k drops hs out rule: copy_headers.induct) simp_all

lemma response_ok_layers [simp]:
  "response_ok r \<Longrightarrow> response_ok (tag_response x i r)"
  "response_ok r \<Longrightarrow> response_ok (security_edit x sc r)"
  "response_ok r \<Longrightarrow> response_ok (admitted_response x show_f64 l n r)"
  "response_ok r \<Longrightarrow> response_ok (attach_cors x cors m r)"
  "response_ok (quota_response x show_f64 l t)"
  "response_ok (preflight_response x cors m)"
  "response_ok busy_response" "response_ok healthz" "response_ok (livez now sm)" "response_ok (metrics_endpoint now sm)"
  "response_ok not_found" "response_ok (readyz x pc get)" "response_ok (metrics_x402_handler pm)"
  by (simp_all add: tag_response_def security_edit_def admitted_response_def attach_cors_def quota_response_def
      preflight_response_def busy_response_def healthz_def livez_def metrics_endpoint_def not_found_def readyz_def
      metrics_x402_handler_def try_header_def vary_origin_def Let_def response_ok_def
      split: option.split sum.split) (simp_all add: set_header_def json_response_def)

lemma response_ok_rejection [simp]: "100 \<le> st \<Longrightarrow> st < 1000 \<Longrightarrow> response_ok (rejection st m)"
  by (simp add: rejection_def)

lemma response_ok_proxy [simp]: "response_ok (proxy k cfg upstream req)"
  by (auto simp: proxy_def relay_reply_def build_request_def error_response_def response_headers_def response_ok_def
      json_response_def Let_def split: sum.splits option.splits upstream_reply.splits body_read.splits)

subsection \<open>The payment gate\<close>

lemma response_ok_gate [simp]:
  "response_ok (payment_required_response x r u d e)" "response_ok capacity_response"
  "response_ok (settlement_failure_response x s)" "response_ok r' \<Longrightarrow> response_ok (settled_response x s r')"
  by (simp_all add: payment_required_response_def capacity_response_def settlement_failure_response_def
      settled_response_def Let_def)

text \<open>The settings never change; whether there are metrics does not either.\<close>

definition guard_ok :: "nonce_guard \<Rightarrow> nonce_guard \<Rightarrow> bool" where
  "guard_ok g0 g \<longleftrightarrow> store_inv g \<and> ng_max_capacity g = ng_max_capacity g0 \<and> ng_ttl g = ng_ttl g0"

definition payment_ok :: "payment_config \<Rightarrow> payment_config \<Rightarrow> bool" where
  "payment_ok c0 c \<longleftrightarrow> same_settings c0 c \<and> (pc_metrics c = None \<longleftrightarrow> pc_metrics c0 = None)
     \<and> rel_option guard_ok (pc_nonce_guard c0) (pc_nonce_guard c)"


lemma payment_ok_refl_new:
  "pred_option (\<lambda>g. \<exists>n. g = new_guard n t) (pc_nonce_guard c) \<Longrightarrow> payment_ok c c"
  by (cases "pc_nonce_guard c") (auto simp: payment_ok_def guard_ok_def guard_inv_alone [symmetric] guard_inv_new)

lemma payment_ok_trans: "payment_ok a b \<Longrightarrow> payment_ok b c \<Longrightarrow> payment_ok a c"
  unfolding payment_ok_def guard_ok_def
  by (auto simp: option.rel_sel intro: same_settings_trans)

text \<open>The stages that leave the guard alone, and the three that do not.\<close>

lemma payment_ok_metrics [simp]: "payment_ok c0 (on_metrics f c) = payment_ok c0 c"
  by (simp add: payment_ok_def)

lemma guard_ok_reserve:
  assumes "guard_ok g0 g" "reserve x g p now = (r, g')"
  shows "guard_ok g0 g'"
    and "r = Inr rv \<Longrightarrow> guard_inv False g' [rv]"
proof -
  obtain r' where r': "reserve_key g (authorization_key x p) now = (r', g')" "r = Inr rv \<Longrightarrow> r' = Inr rv"
    using assms(2) by (auto simp: reserve_def split: prod.splits sum.splits nonce_error.splits)
  have alone: "guard_inv False g []" using assms(1) by (simp add: guard_ok_def guard_inv_alone)
  have inv: "store_inv g'"
  proof (cases r')
    case (Inl err)
    with reserve_key_err_inv [OF alone] r' show ?thesis by (simp add: guard_inv_alone)
  next
    case (Inr rv')
    with reserve_key_ok_inv(1) [OF alone] r' show ?thesis by (auto simp: guard_inv_def)
  qed
  have "ng_max_capacity g' = ng_max_capacity g" "ng_ttl g' = ng_ttl g"
    using r'(1) by (auto simp: reserve_key_alt Let_def split: if_splits)
  with assms(1) inv show "guard_ok g0 g'" by (simp add: guard_ok_def)
  show "guard_inv False g' [rv]" if "r = Inr rv"
    using reserve_key_ok_inv(1) [OF alone] r' that by simp
qed

lemma guard_ok_drop:
  assumes "guard_ok g0 g" "guard_inv False g [r]" "res_key r' = res_key r" "res_generation r' = res_generation r"
  shows "guard_ok g0 (drop_reservation g r' now)"
  using drop_inv [of False g "[]" r "[]" r' now] assms by (simp add: guard_ok_def guard_inv_alone)

definition holds_ok :: "payment_config \<Rightarrow> reservation option \<Rightarrow> bool" where
  "holds_ok c r \<longleftrightarrow> (\<forall>g rv. pc_nonce_guard c = Some g \<and> r = Some rv \<longrightarrow> guard_inv False g [rv])"

lemma holds_ok_simps [simp]:
  "holds_ok c None" "holds_ok (on_metrics f c) r = holds_ok c r"
  "holds_ok c (map_option retain_on_drop r) = holds_ok c r"
proof -
  have "guard_inv False g [retain_on_drop rv] = guard_inv False g [rv]" for g rv
    by (simp add: guard_inv_def retain_on_drop_def current_def)
  then show "holds_ok c (map_option retain_on_drop r) = holds_ok c r" by (auto simp: holds_ok_def)
qed (simp_all add: holds_ok_def)

lemma payment_ok_drop:
  assumes "payment_ok c0 c" "holds_ok c r"
  shows "payment_ok c0 (drop_held r now c)" "payment_ok c0 (release_held r now c)"
  using assms
  by (cases r; cases "pc_nonce_guard c"; cases "pc_nonce_guard c0";
      auto simp: payment_ok_def holds_ok_def drop_held_def release_held_def release_reservation_def
        same_settings_def intro!: guard_ok_drop)+

lemma payment_ok_take:
  assumes "payment_ok c0 c" "take_reservation x p now c = (c', r)"
  shows "payment_ok c0 c'" "r = Inr rv \<Longrightarrow> holds_ok c' rv"
  using assms guard_ok_reserve [where x = x and p = p and now = now]
  by (auto simp: take_reservation_def payment_ok_def holds_ok_def option_rel_Some2 split: option.splits prod.splits sum.splits)

lemma payment_ok_admit:
  assumes "payment_ok c0 c" "admit x clock now c q = (c', s)"
  shows "payment_ok c0 c'" "s = Continue a \<Longrightarrow> holds_ok c' (ad_reservation a)" "s = Answer resp \<Longrightarrow> response_ok resp"
proof -
  show "payment_ok c0 c'"
    using assms payment_ok_take(1) [of c0 "on_metrics record_request c" x _ now]
    by (auto simp: admit_def Let_def split: option.splits sum.splits if_splits prod.splits nonce_error.splits)
  show "holds_ok c' (ad_reservation a)" if "s = Continue a"
  proof -
    have "take_reservation x (ad_payload a) now (on_metrics record_request c) = (c', Inr (ad_reservation a))"
      using admit_Continue(5) assms(2) that by blast
    with assms(1) show ?thesis by (intro payment_ok_take(2) [of c0 "on_metrics record_request c"]) simp_all
  qed
  show "response_ok resp" if "s = Answer resp"
    using admit_Answer [of x clock now c q c' resp] assms that by (auto simp: is_challenge_def)
qed

text \<open>What one run of the payment gate keeps.\<close>

definition gate_ok :: "payment_config \<Rightarrow> payment_config \<times> gate_result \<times> effect list \<Rightarrow> bool" where
  "gate_ok c0 res \<longleftrightarrow> payment_ok c0 (fst res) \<and> (\<forall>r. fst (snd res) = Responded r \<longrightarrow> response_ok r)"

lemma gate_ok_settle:
  assumes "payment_ok c0 c" "holds_ok c (ad_reservation a)" "response_ok resp"
  shows "gate_ok c0 (run_settle e k c a resp)"
  using assms
  by (auto simp: gate_ok_def run_settle_def after_settle_def Let_def intro!: payment_ok_drop split: prod.splits sum.splits)

lemma gate_ok_handler:
  assumes "payment_ok c0 c" "holds_ok c (ad_reservation a)" "response_ok (env_handler e req)"
  shows "gate_ok c0 (run_handler e k c a req)"
  using assms gate_ok_settle [OF assms, of e k]
  by (auto simp: run_handler_def after_handler_cases gate_ok_def intro!: payment_ok_drop split: prod.splits)

lemma gate_ok_verify:
  assumes "payment_ok c0 c" "holds_ok c (ad_reservation a)" "response_ok (env_handler e req)"
  shows "gate_ok c0 (run_verify e k c a req)"
proof -
  let ?o = "verify_outcome e c (ad_payload a) (ad_requirements a)"
  obtain c' s where av: "after_verify (env_x e) (env_finish_at e) c a ?o = (c', s)" by fastforce
  show ?thesis
  proof (cases s)
    case (Continue a')
    with av have "after_verify (env_x e) (env_finish_at e) c a ?o = (c', Continue a')" by simp
    note ok = after_verify_Continue(2,3) [OF this]
    have "gate_ok c0 (run_handler e k c' a' req)" using assms by (intro gate_ok_handler) (simp_all add: ok)
    with assms av Continue show ?thesis
      by (auto simp: run_verify_def gate_ok_def Let_def intro!: payment_ok_drop split: prod.splits)
  next
    case (Answer resp)
    with assms av show ?thesis
      by (auto simp: run_verify_def gate_ok_def after_verify_def Let_def intro!: payment_ok_drop
          split: sum.splits if_splits)
  next
    case Panic
    with av show ?thesis by (simp add: after_verify_no_panic)
  qed
qed

lemma gate_ok_payment:
  assumes "payment_ok c0 c" "response_ok (env_handler e (gr_request q))"
  shows "gate_ok c0 (x402_payment e k c q)"
proof -
  obtain c' s where ad: "admit (env_x e) (env_unix_clock e) (env_reserve_at e) c q = (c', s)" by fastforce
  note ok = payment_ok_admit [OF assms(1) ad]
  show ?thesis
  proof (cases s)
    case (Continue a)
    with ok assms(2) have "gate_ok c0 (run_verify e k c' a (gr_request q))" by (intro gate_ok_verify) simp_all
    with ad Continue show ?thesis by (simp add: x402_payment_def)
  qed (use ad ok in \<open>simp_all add: x402_payment_def gate_ok_def\<close>)
qed

subsection \<open>The layers\<close>

definition limiter_ok :: "rate_limiter \<Rightarrow> rate_limiter \<Rightarrow> bool" where
  "limiter_ok l0 l \<longleftrightarrow> tb_config l = tb_config l0 \<and> config_ok (tb_config l) \<and> limiter_inv l"

definition parts_ok :: "service_config \<Rightarrow> service \<Rightarrow> bool" where
  "parts_ok c s \<longleftrightarrow> payment_ok (sc_payment c) (sv_payment s) \<and> rel_option limiter_ok (sc_rate_limiter c) (sv_limiter s)"

text \<open>A service function that keeps the parts and answers, if at all, with a well-formed response.\<close>

definition well_typed :: "service_config \<Rightarrow> (request \<Rightarrow> service \<Rightarrow> response option \<times> service) \<Rightarrow> bool" where
  "well_typed c f \<longleftrightarrow> (\<forall>req s. parts_ok c s \<longrightarrow> pred_option response_ok (fst (f req s)) \<and> parts_ok c (snd (f req s)))"

lemma parts_ok_frame [simp]:
  "parts_ok c (s\<lparr>sv_permits := p\<rparr>) = parts_ok c s" "parts_ok c (s\<lparr>sv_metrics := m\<rparr>) = parts_ok c s"
  "parts_ok c (s\<lparr>sv_request_counter := n\<rparr>) = parts_ok c s" "parts_ok c (s\<lparr>sv_effects := es\<rparr>) = parts_ok c s"
  by (simp_all add: parts_ok_def)

lemma well_typed_payment: "well_typed c (payment_layer c w original)"
  unfolding well_typed_def
proof (intro allI impI)
  fix req s
  let ?e = "(wo_env w)\<lparr>env_handler := paid_handler c w\<rparr>"
  let ?q = "\<lparr>gr_request = req, gr_original_uri = original\<rparr>"
  assume s: "parts_ok c s"
  obtain pc result effects where run: "x402_payment ?e (wo_cancel w) (sv_payment s) ?q = (pc, result, effects)"
    by (metis prod_cases3)
  have "gate_ok (sc_payment c) (x402_payment ?e (wo_cancel w) (sv_payment s) ?q)"
    using s by (intro gate_ok_payment) (simp_all add: parts_ok_def paid_handler_def)
  then show "pred_option response_ok (fst (payment_layer c w original req s)) \<and> parts_ok c (snd (payment_layer c w original req s))"
    using s by (auto simp: payment_layer_def run gate_ok_def parts_ok_def split: gate_result.split)
qed

lemma well_typed_rate_limit: "well_typed c f \<Longrightarrow> well_typed c (rate_limit_layer w f)"
proof -
  assume f: "well_typed c f"
  show ?thesis
    unfolding well_typed_def
  proof (intro allI impI)
    fix req s
    assume s: "parts_ok c s"
    then have acquired: "rel_option limiter_ok (sc_rate_limiter c) (Some l')"
      if "sv_limiter s = Some l" "rl_acquire ip now l = (r, l')" for l ip now r l'
      using that rl_acquire_inv [of l ip now] rl_acquire_config [of ip now l]
      by (auto simp: parts_ok_def limiter_ok_def option_rel_Some2)
    have inner: "pred_option response_ok (fst (f req s))" "parts_ok c (snd (f req s))"
      using f s by (simp_all add: well_typed_def)
    show "pred_option response_ok (fst (rate_limit_layer w f req s)) \<and> parts_ok c (snd (rate_limit_layer w f req s))"
      using s inner acquired
      by (auto simp: rate_limit_layer_def rate_limit_middleware_def parts_ok_def Let_def option.pred_map comp_def
          elim!: option.pred_mono_strong split: option.splits sum.splits prod.splits rate_limit_rejection.splits)
  qed
qed

lemma well_typed_concurrency: "well_typed c f \<Longrightarrow> well_typed c (concurrency_limiter f)"
  by (auto simp: well_typed_def concurrency_limiter_def Let_def split: prod.splits)
    (metis fst_conv parts_ok_frame(1) snd_conv)+

lemma well_typed_paid: "well_typed c (paid c w original)"
  unfolding paid_def by (intro well_typed_concurrency well_typed_rate_limit well_typed_payment)

definition routes_ok :: "surroundings \<Rightarrow> bool" where
  "routes_ok w \<longleftrightarrow> (\<forall>req r. wo_route w req = RouterReply r \<longrightarrow> response_ok r)"

lemma well_typed_routed: "routes_ok w \<Longrightarrow> well_typed c (routed c w)"
  using well_typed_paid
  by (auto simp: well_typed_def routed_def routes_ok_def split: route.split)

lemma pred_option_map: "pred_option response_ok r \<Longrightarrow> (\<And>r. response_ok r \<Longrightarrow> response_ok (f r)) \<Longrightarrow> pred_option response_ok (map_option f r)"
  by (cases r) simp_all

lemma well_typed_logged: "routes_ok w \<Longrightarrow> well_typed c (logged c w)"
proof -
  assume "routes_ok w"
  then have inner: "well_typed c (routed c w)" by (rule well_typed_routed)
  show ?thesis
    unfolding well_typed_def
  proof (intro allI impI)
    fix req s
    assume s: "parts_ok c s"
    show "pred_option response_ok (fst (logged c w req s)) \<and> parts_ok c (snd (logged c w req s))"
    proof (rule logged_run [of w req s c])
      fix i counter r1 s2
      assume run: "routed c w (tag_request (env_x (wo_env w)) i req)
          (s\<lparr>sv_metrics := count_request (guard_new (sv_metrics s)), sv_request_counter := counter\<rparr>) = (r1, s2)"
        and eq: "logged c w req s = (map_option (tag_response (env_x (wo_env w)) i \<circ> security_edit (env_x (wo_env w)) (sc_security c)) r1,
          s2\<lparr>sv_metrics := guard_drop (case r1 of None \<Rightarrow> sv_metrics s2 | Some r \<Rightarrow> count_response (resp_status r) (sv_metrics s2))\<rparr>)"
      have "parts_ok c (s\<lparr>sv_metrics := count_request (guard_new (sv_metrics s)), sv_request_counter := counter\<rparr>)"
        using s by simp
      with inner run have "pred_option response_ok r1" "parts_ok c s2" unfolding well_typed_def by (metis fst_conv snd_conv)+
      then show ?thesis by (simp add: eq pred_option_map)
    qed
  qed
qed

lemma well_typed_app: "routes_ok w \<Longrightarrow> well_typed c (app c w)"
  using well_typed_logged [of w c]
  by (auto simp: well_typed_def app_cases intro!: pred_option_map)

subsection \<open>The service\<close>

text \<open>Between two requests all permits are free and no request is counted as active.\<close>

definition service_ok :: "service_config \<Rightarrow> service \<Rightarrow> bool" where
  "service_ok c s \<longleftrightarrow> parts_ok c s \<and> sv_permits s = li_max_concurrent (sc_limits c)
     \<and> sm_active_requests (sv_metrics s) = 0"

lemma service_ok_start:
  assumes "load_service x show_f64 e = Inr c"
  shows "service_ok c (service_start now c)"
proof -
  from load_service_Inr [OF assms] have rl: "load_rate_limiter show_f64 e = Inr (sc_rate_limiter c)"
    and ng: "load_nonce_guard e = Inr (pc_nonce_guard (sc_payment c))" by blast+
  have "limiter_ok l l" if "sc_rate_limiter c = Some l" for l
    using load_rate_limiter_ok(1,2) [of show_f64 e l] rl that limiter_inv_new [of "tb_config l"] by (simp add: limiter_ok_def)
  then have "rel_option limiter_ok (sc_rate_limiter c) (sc_rate_limiter c)" by (cases "sc_rate_limiter c") simp_all
  moreover have "payment_ok (sc_payment c) (sc_payment c)"
    using load_nonce_guard_ok [of e] ng
    by (intro payment_ok_refl_new [of 3600]) (cases "pc_nonce_guard (sc_payment c)", auto)
  ultimately show ?thesis by (simp add: service_ok_def parts_ok_def service_start_def service_metrics_new_def)
qed

lemma app_frame:
  assumes "app c w req s = (r, s')"
  shows "sv_permits s' = sv_permits s" "sm_active_requests (sv_metrics s') = sm_active_requests (sv_metrics s)"
proof -
  obtain r0 s0 where run: "logged c w req s = (r0, s0)" by fastforce
  have gauge: "sm_active_requests (count_request m) = sm_active_requests m"
    "sm_active_requests (count_response st m) = sm_active_requests m" for st m
    by (simp_all add: count_request_def count_response_def)
  have "sm_active_requests (sv_metrics s0) = sm_active_requests (sv_metrics s)" "sv_permits s0 = sv_permits s"
    using logged_accounting [OF run] by (simp_all add: gauge split: option.splits)
  with assms run show "sv_permits s' = sv_permits s" "sm_active_requests (sv_metrics s') = sm_active_requests (sv_metrics s)"
    by (auto simp: app_cases split: if_splits)
qed

text \<open>
  C9: the service is well typed. It starts in a well-formed state, and every request, whether it is
  answered, cancelled or panics, leaves it in one: the settings and the limits are those of the
  start-up, all permits are free again and no request counts as active, the replay guard and the
  rate limiter are within their capacity with consistent indexes and quotas within the burst. Every
  response has a status between 100 and 999 and header names in lower case, whatever the upstream
  answered.
\<close>
theorem app_well_typed:
  "(load_service x print e = Inr c \<longrightarrow> service_ok c (service_start now c))
    \<and> (service_ok c s \<and> routes_ok w \<and> app c w req s = (r, s') \<longrightarrow> service_ok c s' \<and> pred_option response_ok r)"
proof (intro conjI impI)
  show "service_ok c (service_start now c)" if "load_service x print e = Inr c" by (rule service_ok_start [OF that])
  assume run: "service_ok c s \<and> routes_ok w \<and> app c w req s = (r, s')"
  then have "pred_option response_ok r \<and> parts_ok c s'"
    using well_typed_app [of w c] unfolding well_typed_def service_ok_def by (metis fst_conv snd_conv)
  with run app_frame [of c w req s r s'] show "service_ok c s'" "pred_option response_ok r"
    by (simp_all add: service_ok_def)
qed

end
