(* ===== verification/ServiceSamples.thy ===== *)
theory ServiceSamples
  imports ServiceTypes Gate_Samples
begin

text \<open>
  A concrete deployment on which the properties of the composed service are evaluated: the sample
  gate of \<open>Gate_Samples\<close> below \<open>/v1\<close>, one allowed browser origin, the default security headers.
\<close>

definition sample_service_config :: service_config where
  "sample_service_config = \<lparr>sc_port = 8402, sc_rate_limiter = None,
     sc_limits = \<lparr>li_upstream_timeout = 10000000000, li_facilitator_timeout = 30000000000, li_max_concurrent = 1\<rparr>,
     sc_cors = Origins [''http://localhost:3000''], sc_payment = sample_config,
     sc_upstream = \<lparr>uc_base_url = ''http://up'', uc_auth_header = ''Authorization'', uc_auth_value = ''''\<rparr>,
     sc_security = default_security_config\<rparr>"

definition sample_surroundings :: surroundings where
  "sample_surroundings = \<lparr>wo_env = sample_env 0 200, wo_cancel = None,
     wo_checks = \<lparr>hc_name = (\<lambda>_. True), hc_text = (\<lambda>_. True), hc_value = (\<lambda>_. True), hc_to_str = (\<lambda>_. True),
       hc_method = (\<lambda>_. True)\<rparr>,
     wo_upstream = (\<lambda>_. UpstreamReplied 200 [] []), wo_show_f64 = (\<lambda>_. ''0''), wo_peer = None, wo_now = 0,
     wo_since_epoch = Some 0, wo_probe = (\<lambda>_. Replied 404 None),
     wo_route = (\<lambda>req. if req_uri req = ''/healthz'' then Healthz
                 else Paid ''/forecast'' (Some ''/forecast'') (Some ''/v1/forecast''))\<rparr>"

definition plain_request :: "str \<Rightarrow> str \<Rightarrow> headers \<Rightarrow> request" where
  "plain_request method uri hs = \<lparr>req_method = method, req_uri = uri, req_path_query = Some uri,
     req_headers = hs, req_body = ''''\<rparr>"

definition started :: service where
  "started = service_start 0 sample_service_config"

lemma sample_fields [simp]:
  "wo_env sample_surroundings = sample_env 0 200" "wo_since_epoch sample_surroundings = Some 0"
  "sc_security sample_service_config = default_security_config"
  "sc_cors sample_service_config = Origins [''http://localhost:3000'']"
  "sv_limiter started = None" "sv_payment started = sample_config" "sv_permits started = 1" "sv_effects started = []"
  by (simp_all add: sample_surroundings_def sample_service_config_def started_def service_start_def)

lemma sample_legal: "\<forall>v. v \<noteq> [] \<and> list_all visible v \<longrightarrow> header_value_ok sample_x v"
  by simp

lemma not_preflight: "m \<noteq> ''OPTIONS'' \<Longrightarrow> \<not> is_preflight x c (plain_request m u hs)"
  by (simp add: is_preflight_def plain_request_def)

theorem generated_ids_distinct_witness:
  "is_valid_request_id (fst (generate_request_id (Some 0) 1))
    \<and> fst (generate_request_id (Some 0) 1) \<noteq> fst (generate_request_id None 2)"
  using generated_ids_distinct [of "Some 0" 1 2 None] by simp

text \<open>The health check through all layers.\<close>

lemma health_run:
  "\<exists>r s'. app sample_service_config sample_surroundings (plain_request ''GET'' ''/healthz'' []) started = (Some r, s')"
proof -
  have route: "wo_route sample_surroundings (tag_request x i (plain_request ''GET'' ''/healthz'' [])) = Healthz" for x i
    by (simp add: sample_surroundings_def tag_request_def plain_request_def)
  show ?thesis
    by (auto simp: app_cases logged_def http_request_logger_def security_headers_middleware_def routed_def route Let_def
        split: prod.splits)
qed


theorem app_accounting_witness:
  "\<exists>r s'. app sample_service_config sample_surroundings (plain_request ''GET'' ''/healthz'' []) started = (Some r, s')
    \<and> sm_total_requests (sv_metrics s') = 1 \<and> sv_permits s' = 1"
proof -
  obtain r s' where run: "app sample_service_config sample_surroundings (plain_request ''GET'' ''/healthz'' []) started = (Some r, s')"
    using health_run by blast
  from app_accounting [OF run not_preflight] run show ?thesis
    by (auto simp: count_response_def count_request_def started_def service_start_def service_metrics_new_def sample_service_config_def)
qed

theorem request_id_propagated_witness:
  "\<exists>r s'. http_request_logger sample_x (Some 0) (\<lambda>req s. (Some healthz, s))
        (plain_request ''GET'' ''/healthz'' [(''x-request-id'', ''abc'')]) started = (Some r, s')
     \<and> hget_all ''x-request-id'' (resp_headers r) = [''abc'']"
proof -
  have own: "hget ''x-request-id'' (req_headers (plain_request ''GET'' ''/healthz'' [(''x-request-id'', ''abc'')])) = Some ''abc''"
    by (simp add: plain_request_def hget_def id_name)
  have valid: "is_valid_request_id ''abc''"
    by (simp add: is_valid_request_id_def id_char_def is_ascii_alphanumeric_def is_ascii_digit_def is_ascii_upper_def char_code_def)
  obtain r s' where run: "http_request_logger sample_x (Some 0) (\<lambda>req s. (Some healthz, s))
        (plain_request ''GET'' ''/healthz'' [(''x-request-id'', ''abc'')]) started = (Some r, s')"
    by (cases "take_request_id sample_x (Some 0) (plain_request ''GET'' ''/healthz'' [(''x-request-id'', ''abc'')])
        (sv_request_counter started)") (auto simp: http_request_logger_def Let_def)
  have none: "hget_all ''x-request-id'' (resp_headers healthz) = []"
    by (simp add: healthz_def json_response_def hget_all_def id_name)
  from request_id_propagated [OF sample_legal _ run] run own valid none show ?thesis
    by (auto simp: to_str_ok_def id_name)
qed

theorem preflight_bypasses_layers_witness:
  "\<exists>r. app sample_service_config sample_surroundings
      (plain_request ''OPTIONS'' ''/v1/x'' [(''origin'', ''http://localhost:3000'')]) started = (Some r, started)
     \<and> hget_all ''x-request-id'' (resp_headers r) = []"
proof -
  have "is_preflight (env_x (wo_env sample_surroundings)) (sc_cors sample_service_config)
      (plain_request ''OPTIONS'' ''/v1/x'' [(''origin'', ''http://localhost:3000'')])"
    by (simp add: is_preflight_def plain_request_def is_enabled_def origin_of_def to_str_ok_def hget_def ascii_lower_def text_eval)
  from preflight_bypasses_layers [OF this, of started] show ?thesis by blast
qed

text \<open>A payment through all layers contacts the facilitator.\<close>

lemma sample_admits:
  assumes "payment_header sample_x (req_headers (gr_request q)) = Some ''pay''"
  shows "\<exists>c1 a. admit sample_x (Some 0) t sample_config q = (c1, Continue a)"
  using sample_reserve [of "authorization_key sample_x sample_payment" t]
  by (auto simp: admit_def Let_def sample_requirements assms sample_decode window_error_def take_reservation_def
      reserve_ok_iff [THEN iffD2] sample_payment_def sample_terms_def split: prod.splits)

lemma run_verify_calls: "snd (snd (run_verify e cancel c a req)) \<noteq> []"
  by (auto simp: run_verify_def Let_def split: if_splits prod.splits stage.splits)

lemma paid_header:
  "payment_header sample_x (hinsert ''x-request-id'' i [(''payment-signature'', ''pay'')]) = Some ''pay''"
  by (simp add: payment_header_def hm.get_insert to_str_ok_def) (simp add: hget_def ascii_lower_def to_str_ok_def text_eval)



text \<open>The minimal environment starts a well-formed service, and a paid route keeps it so.\<close>

theorem app_well_typed_witness:
  "\<exists>c r s'. load_service cors_sample_x (\<lambda>_. ''0'') (minimal_env ''0xpay'' ''http://up/'') = Inr c
    \<and> app c sample_surroundings (plain_request ''GET'' ''/v1/forecast'' []) (service_start 0 c) = (r, s')
    \<and> service_ok c s' \<and> pred_option response_ok r"
proof -
  obtain c where c: "load_service cors_sample_x (\<lambda>_. ''0'') (minimal_env ''0xpay'' ''http://up/'') = Inr c"
    by (cases "load_service cors_sample_x (\<lambda>_. ''0'') (minimal_env ''0xpay'' ''http://up/'')")
      (simp_all add: minimal_start parse_f64_zero)
  obtain r s' where run:
    "app c sample_surroundings (plain_request ''GET'' ''/v1/forecast'' []) (service_start 0 c) = (r, s')" by fastforce
  have routes: "routes_ok sample_surroundings" by (simp add: routes_ok_def sample_surroundings_def)
  have "service_ok c s' \<and> pred_option response_ok r"
    using app_well_typed [of cors_sample_x "\<lambda>_. ''0''" "minimal_env ''0xpay'' ''http://up/''" c 0
        "service_start 0 c" sample_surroundings "plain_request ''GET'' ''/v1/forecast'' []" r s'] c run routes
    by blast
  with c run show ?thesis by blast
qed

end
