(* ===== verification/ServiceRuns.thy ===== *)
theory ServiceRuns
  imports Service "HOL-Library.Multiset"
begin

text \<open>
  Many requests at once through the logger and the concurrency limiter of \<open>Service\<close>. A request in
  flight is before the limiter or below it with a permit; requests arrive, take and give back
  permits, are answered, or are dropped with their connection in any order. The steps are the
  atomic updates of the code; the history (arrivals, answered statuses) is kept beside the state.

  The invariant ties the counters, the gauge and the permits to what really happened.
\<close>

datatype flight = Outside | Holding

record runs =
  rn_metrics :: service_metrics
  rn_permits :: nat
  rn_flights :: "flight multiset"
  rn_arrived :: nat
  rn_answered :: "nat list"

definition runs_start :: "instant \<Rightarrow> nat \<Rightarrow> runs" where
  "runs_start now max_concurrent = \<lparr>rn_metrics = service_metrics_new now, rn_permits = max_concurrent,
     rn_flights = {#}, rn_arrived = 0, rn_answered = []\<rparr>"

inductive run_step :: "runs \<Rightarrow> runs \<Rightarrow> bool" where
  arrive: "run_step s (s\<lparr>rn_metrics := count_request (guard_new (rn_metrics s)),
     rn_flights := add_mset Outside (rn_flights s), rn_arrived := rn_arrived s + 1\<rparr>)"
| acquire_permit: "Outside \<in># rn_flights s \<Longrightarrow> 0 < rn_permits s \<Longrightarrow>
     run_step s (s\<lparr>rn_permits := rn_permits s - 1,
       rn_flights := add_mset Holding (rn_flights s - {#Outside#})\<rparr>)"
| release_permit: "Holding \<in># rn_flights s \<Longrightarrow>
     run_step s (s\<lparr>rn_permits := rn_permits s + 1,
       rn_flights := add_mset Outside (rn_flights s - {#Holding#})\<rparr>)"
| answer: "Outside \<in># rn_flights s \<Longrightarrow>
     run_step s (s\<lparr>rn_metrics := guard_drop (count_response status (rn_metrics s)),
       rn_flights := rn_flights s - {#Outside#}, rn_answered := status # rn_answered s\<rparr>)"
| dropped: "f \<in># rn_flights s \<Longrightarrow>
     run_step s (s\<lparr>rn_metrics := guard_drop (rn_metrics s),
       rn_permits := rn_permits s + (if f = Holding then 1 else 0), rn_flights := rn_flights s - {#f#}\<rparr>)"

inductive_cases run_stepE: "run_step s s'"

inductive_simps run_step_iff: "run_step s s'"

abbreviation runs_reachable :: "runs \<Rightarrow> runs \<Rightarrow> bool" where
  "runs_reachable \<equiv> run_step\<^sup>*\<^sup>*"

subsection \<open>The accounting invariant\<close>

definition answers :: "(nat \<Rightarrow> bool) \<Rightarrow> runs \<Rightarrow> nat" where
  "answers P s = length (filter P (rn_answered s))"

definition is_server_error :: "nat \<Rightarrow> bool" where
  "is_server_error status \<longleftrightarrow> 500 \<le> status \<and> status < 600"

definition is_client_error :: "nat \<Rightarrow> bool" where
  "is_client_error status \<longleftrightarrow> 400 \<le> status \<and> status < 500"

definition runs_inv :: "nat \<Rightarrow> runs \<Rightarrow> bool" where
  "runs_inv limit s \<longleftrightarrow>
     rn_permits s + count (rn_flights s) Holding = limit
     \<and> sm_active_requests (rn_metrics s) = of_nat (size (rn_flights s))
     \<and> sm_total_requests (rn_metrics s) = of_nat (rn_arrived s)
     \<and> sm_server_errors (rn_metrics s) = of_nat (answers is_server_error s)
     \<and> sm_paid_challenges (rn_metrics s) = of_nat (answers (\<lambda>st. st = 402) s)
     \<and> sm_successful_requests (rn_metrics s) = of_nat (answers (\<lambda>st. \<not> is_server_error st \<and> \<not> is_client_error st) s)
     \<and> size (rn_flights s) + length (rn_answered s) \<le> rn_arrived s"

lemmas counter_defs = count_request_def guard_new_def guard_drop_def count_response_def service_metrics_new_def

lemma runs_inv_start: "runs_inv limit (runs_start now limit)"
  by (simp add: runs_inv_def runs_start_def answers_def counter_defs)

lemma size_taken:
  assumes "f \<in># M"
  obtains k where "size M = Suc k" "size (M - {#f#}) = k"
  using assms by (metis insert_DiffM size_add_mset)

lemma runs_inv_step [inv_intros]:
  assumes "run_step s s'" "runs_inv limit s"
  shows "runs_inv limit s'"
  using assms(1)
proof cases
  case (answer status)
  obtain k where "size (rn_flights s) = Suc k" "size (rn_flights s - {#Outside#}) = k"
    using answer(2) by (rule size_taken)
  with answer assms(2) show ?thesis
    by (simp add: runs_inv_def answers_def counter_defs is_server_error_def is_client_error_def)
next
  case (dropped f)
  obtain k where "size (rn_flights s) = Suc k" "size (rn_flights s - {#f#}) = k"
    using dropped(2) by (rule size_taken)
  moreover have "f = Holding \<Longrightarrow> Suc (limit - Suc 0) = limit"
    using dropped(2) assms(2) by (auto simp: runs_inv_def simp flip: count_greater_zero_iff)
  ultimately show ?thesis using dropped assms(2)
    by (cases f) (simp_all add: runs_inv_def answers_def counter_defs)
next
  case acquire_permit
  obtain k where "size (rn_flights s) = Suc k" "size (rn_flights s - {#Outside#}) = k"
    using acquire_permit(2) by (rule size_taken)
  with acquire_permit assms(2) show ?thesis by (simp add: runs_inv_def answers_def)
next
  case release_permit
  obtain k where "size (rn_flights s) = Suc k" "size (rn_flights s - {#Holding#}) = k"
    using release_permit(2) by (rule size_taken)
  moreover have "Suc (limit - Suc 0) = limit"
    using release_permit(2) assms(2) by (auto simp: runs_inv_def simp flip: count_greater_zero_iff)
  ultimately show ?thesis using release_permit assms(2) by (simp add: runs_inv_def answers_def)
next
  case arrive
  with assms(2) show ?thesis by (simp add: runs_inv_def answers_def counter_defs)
qed

lemma runs_inv_reachable: "runs_reachable s s' \<Longrightarrow> runs_inv limit s \<Longrightarrow> runs_inv limit s'"
  by (induction rule: rtranclp_induct) (auto intro: inv_intros)

text \<open>
  C30: under every interleaving of arrivals, answers and broken connections: never more requests below
  the limiter than configured, and a permit is refused exactly when that many hold one; the gauge
  reported on \<open>/metrics\<close> is the number of requests in flight (below \<open>2 ^ 63\<close>), and the counters are
  the arrivals and the answers of each class modulo \<open>2 ^ 64\<close>, so nothing leaks when a connection breaks.
\<close>
theorem in_flight_accounting:
  assumes "runs_reachable (runs_start now limit) s"
  shows "count (rn_flights s) Holding \<le> limit
    \<and> (rn_permits s = 0 \<longleftrightarrow> count (rn_flights s) Holding = limit)
    \<and> (2 ^ 63 \<le> size (rn_flights s) \<or> max (sint (sm_active_requests (rn_metrics s))) 0 = int (size (rn_flights s)))
    \<and> sm_total_requests (rn_metrics s) = of_nat (rn_arrived s)
    \<and> sm_server_errors (rn_metrics s) = of_nat (answers is_server_error s)
    \<and> sm_paid_challenges (rn_metrics s) = of_nat (answers (\<lambda>st. st = 402) s)
    \<and> sm_successful_requests (rn_metrics s) = of_nat (answers (\<lambda>st. \<not> is_server_error st \<and> \<not> is_client_error st) s)"
proof -
  have inv: "runs_inv limit s" by (rule runs_inv_reachable [OF assms runs_inv_start])
  have "sint (of_nat n :: 64 word) = int n" if "n < 2 ^ 63" for n
    using that by (simp add: signed_of_nat signed_take_bit_int_eq_self)
  with inv show ?thesis
    by (cases "size (rn_flights s) < 2 ^ 63") (auto simp: runs_inv_def)
qed

theorem in_flight_accounting_witness:
  "\<exists>s. runs_reachable (runs_start 0 1) s \<and> rn_permits s = 0 \<and> count (rn_flights s) Holding = 1"
proof -
  let ?s1 = "(runs_start 0 1)\<lparr>rn_metrics := count_request (guard_new (rn_metrics (runs_start 0 1))),
     rn_flights := add_mset Outside (rn_flights (runs_start 0 1)), rn_arrived := rn_arrived (runs_start 0 1) + 1\<rparr>"
  let ?s2 = "?s1\<lparr>rn_permits := rn_permits ?s1 - 1, rn_flights := add_mset Holding (rn_flights ?s1 - {#Outside#})\<rparr>"
  have "run_step (runs_start 0 1) ?s1" by (rule run_step.arrive)
  moreover have "run_step ?s1 ?s2" by (rule run_step.acquire_permit) (simp_all add: runs_start_def)
  ultimately have reach: "runs_reachable (runs_start 0 1) ?s2"
    by (meson converse_rtranclp_into_rtranclp rtranclp.rtrancl_refl)
  have permits: "rn_permits ?s2 = 0" by (simp add: runs_start_def)
  with in_flight_accounting [OF reach] have "count (rn_flights ?s2) Holding = 1" by blast
  with reach permits show ?thesis by blast
qed

end
