(* ===== verification/SystemRuns.thy ===== *)
theory SystemRuns
  imports ServiceRuns GateConcurrency RateBound
begin

text \<open>
  The whole service under concurrency: the logger and the concurrency limiter of \<open>ServiceRuns\<close>, the rate
  limiter of \<open>RateLimit\<close> and the payment gate of \<open>GateConcurrency\<close> in one transition system, in the order
  in which \<open>main.rs\<close> puts them below \<open>/v1\<close>. A step is one critical section or one stage between two
  awaits of some request; requests of any number of clients interleave in any order, and a connection
  can break wherever a request is. Clock readings are taken before the lock and may be older than the
  clock. As in \<open>GateConcurrency\<close>, the configured price is one that parses, so the gate does not panic.

  A request with a permit is queued before the rate limiter, has passed it, is a task of the gate, or
  has its answer and is about to give the permit back. The lemmas project every run to a run of each
  part, so that what is proved of the parts holds of the whole, and add what only the composition
  gives.
\<close>

subsection \<open>The steps of the counters and permits as functions\<close>

definition run_arrive :: "runs \<Rightarrow> runs" where
  "run_arrive r = r\<lparr>rn_metrics := count_request (guard_new (rn_metrics r)),
     rn_flights := add_mset Outside (rn_flights r), rn_arrived := rn_arrived r + 1\<rparr>"

definition run_acquire :: "runs \<Rightarrow> runs" where
  "run_acquire r = r\<lparr>rn_permits := rn_permits r - 1,
     rn_flights := add_mset Holding (rn_flights r - {#Outside#})\<rparr>"

definition run_release :: "runs \<Rightarrow> runs" where
  "run_release r = r\<lparr>rn_permits := rn_permits r + 1,
     rn_flights := add_mset Outside (rn_flights r - {#Holding#})\<rparr>"

definition run_answer :: "nat \<Rightarrow> runs \<Rightarrow> runs" where
  "run_answer status r = r\<lparr>rn_metrics := guard_drop (count_response status (rn_metrics r)),
     rn_flights := rn_flights r - {#Outside#}, rn_answered := status # rn_answered r\<rparr>"

definition run_drop :: "flight \<Rightarrow> runs \<Rightarrow> runs" where
  "run_drop f r = r\<lparr>rn_metrics := guard_drop (rn_metrics r),
     rn_permits := rn_permits r + (if f = Holding then 1 else 0), rn_flights := rn_flights r - {#f#}\<rparr>"

lemma run_functions:
  "run_step r (run_arrive r)"
  "Outside \<in># rn_flights r \<Longrightarrow> 0 < rn_permits r \<Longrightarrow> run_step r (run_acquire r)"
  "Holding \<in># rn_flights r \<Longrightarrow> run_step r (run_release r)"
  "Outside \<in># rn_flights r \<Longrightarrow> run_step r (run_answer status r)"
  "f \<in># rn_flights r \<Longrightarrow> run_step r (run_drop f r)"
  unfolding run_arrive_def run_acquire_def run_release_def run_answer_def run_drop_def
  by (blast intro: run_step.intros)+

subsection \<open>The system\<close>

record system =
  sy_runs :: runs
  sy_limiter :: "rate_limiter option"
  sy_world :: world
  sy_queued :: nat
  sy_granted :: "ip_addr option multiset"
  sy_leaving :: nat
  sy_calls :: "(ip_addr \<times> instant) list"
  sy_entered :: "ip_addr option multiset"

text \<open>
  \<open>sy_granted\<close> holds the requests between the rate limiter and the gate, by their client (none without
  a limiter); \<open>sy_calls\<close> and \<open>sy_entered\<close> are the history: the calls of the limiter and the requests
  whose payment the gate let through to the verification.
\<close>

definition system_start :: "instant \<Rightarrow> service_config \<Rightarrow> system" where
  "system_start now c = \<lparr>sy_runs = runs_start now (li_max_concurrent (sc_limits c)),
     sy_limiter = sc_rate_limiter c,
     sy_world = \<lparr>w_conf = sc_payment c, w_now = now, w_tasks = [], w_settle_calls = []\<rparr>,
     sy_queued = 0, sy_granted = {#}, sy_leaving = 0, sy_calls = [], sy_entered = {#}\<rparr>"

text \<open>A task of the gate ends with an answer.\<close>

definition gate_answers :: "system \<Rightarrow> payment_config \<Rightarrow> task list \<Rightarrow> system" where
  "gate_answers s c ts = s\<lparr>sy_world := (sy_world s)\<lparr>w_conf := c, w_tasks := ts\<rparr>, sy_leaving := Suc (sy_leaving s)\<rparr>"

inductive system_step :: "externals \<Rightarrow> system \<Rightarrow> system \<Rightarrow> bool" for x where
  clock: "w_now (sy_world s) \<le> now \<Longrightarrow> system_step x s (s\<lparr>sy_world := (sy_world s)\<lparr>w_now := now\<rparr>\<rparr>)"
| arrival: "system_step x s (s\<lparr>sy_runs := run_arrive (sy_runs s)\<rparr>)"
| permit: "Outside \<in># rn_flights (sy_runs s) \<Longrightarrow> 0 < rn_permits (sy_runs s) \<Longrightarrow>
    system_step x s (s\<lparr>sy_runs := run_acquire (sy_runs s), sy_queued := Suc (sy_queued s)\<rparr>)"
| unlimited: "sy_queued s = Suc n \<Longrightarrow> sy_limiter s = None \<Longrightarrow>
    system_step x s (s\<lparr>sy_queued := n, sy_granted := add_mset None (sy_granted s)\<rparr>)"
| no_address: "sy_queued s = Suc n \<Longrightarrow> sy_limiter s \<noteq> None \<Longrightarrow>
    system_step x s (s\<lparr>sy_queued := n, sy_leaving := Suc (sy_leaving s)\<rparr>)"
| throttled: "sy_queued s = Suc n \<Longrightarrow> sy_limiter s = Some l \<Longrightarrow> reading \<le> w_now (sy_world s) \<Longrightarrow>
    rl_acquire ip reading l = (Inl e, l') \<Longrightarrow>
    system_step x s (s\<lparr>sy_queued := n, sy_limiter := Some l', sy_leaving := Suc (sy_leaving s),
      sy_calls := sy_calls s @ [(ip, reading)]\<rparr>)"
| token: "sy_queued s = Suc n \<Longrightarrow> sy_limiter s = Some l \<Longrightarrow> reading \<le> w_now (sy_world s) \<Longrightarrow>
    rl_acquire ip reading l = (Inr remaining, l') \<Longrightarrow>
    system_step x s (s\<lparr>sy_queued := n, sy_limiter := Some l',
      sy_granted := add_mset (Some (normalize_ip ip)) (sy_granted s), sy_calls := sy_calls s @ [(ip, reading)]\<rparr>)"
| turned_away: "p \<in># sy_granted s \<Longrightarrow> reading \<le> w_now (sy_world s) \<Longrightarrow>
    admit x clock reading (w_conf (sy_world s)) q = (c', Answer resp) \<Longrightarrow>
    system_step x s (gate_answers (s\<lparr>sy_granted := sy_granted s - {#p#}\<rparr>) c' (w_tasks (sy_world s)))"
| admitted: "p \<in># sy_granted s \<Longrightarrow> reading \<le> w_now (sy_world s) \<Longrightarrow>
    admit x clock reading (w_conf (sy_world s)) q = (c', Continue a) \<Longrightarrow>
    system_step x s (s\<lparr>sy_granted := sy_granted s - {#p#}, sy_entered := add_mset p (sy_entered s),
      sy_world := (sy_world s)\<lparr>w_conf := c',
        w_tasks := \<lparr>t_phase = Verifying, t_admitted = a\<rparr> # w_tasks (sy_world s)\<rparr>\<rparr>)"
| verified_ok: "w_tasks (sy_world s) = xs @ t # ys \<Longrightarrow> t_phase t = Verifying \<Longrightarrow>
    after_verify x (w_now (sy_world s)) (w_conf (sy_world s)) (t_admitted t) outcome = (c', Continue a') \<Longrightarrow>
    system_step x s (s\<lparr>sy_world := (sy_world s)\<lparr>w_conf := c',
      w_tasks := xs @ \<lparr>t_phase = Handling, t_admitted = a'\<rparr> # ys\<rparr>\<rparr>)"
| verified_bad: "w_tasks (sy_world s) = xs @ t # ys \<Longrightarrow> t_phase t = Verifying \<Longrightarrow>
    after_verify x (w_now (sy_world s)) (w_conf (sy_world s)) (t_admitted t) outcome = (c', Answer resp) \<Longrightarrow>
    system_step x s (gate_answers s c' (xs @ ys))"
| handled: "w_tasks (sy_world s) = xs @ t # ys \<Longrightarrow> t_phase t = Handling \<Longrightarrow>
    after_handler (w_now (sy_world s)) (w_conf (sy_world s)) (t_admitted t) resp = (c', Continue resp') \<Longrightarrow>
    system_step x s (s\<lparr>sy_world := (sy_world s)\<lparr>w_conf := c', w_tasks := xs @ t\<lparr>t_phase := Settling\<rparr> # ys,
      w_settle_calls := w_settle_calls (sy_world s) @ [(task_key t, w_now (sy_world s))]\<rparr>\<rparr>)"
| handler_error: "w_tasks (sy_world s) = xs @ t # ys \<Longrightarrow> t_phase t = Handling \<Longrightarrow>
    after_handler (w_now (sy_world s)) (w_conf (sy_world s)) (t_admitted t) resp = (c', Answer resp') \<Longrightarrow>
    system_step x s (gate_answers s c' (xs @ ys))"
| settlement: "w_tasks (sy_world s) = xs @ t # ys \<Longrightarrow> t_phase t = Settling \<Longrightarrow>
    after_settle x elapsed (w_now (sy_world s)) (w_conf (sy_world s)) (t_admitted t) resp outcome = (c', resp') \<Longrightarrow>
    system_step x s (gate_answers s c' (xs @ ys))"
| permit_back: "sy_leaving s = Suc n \<Longrightarrow>
    system_step x s (s\<lparr>sy_runs := run_release (sy_runs s), sy_leaving := n\<rparr>)"
| answered: "Outside \<in># rn_flights (sy_runs s) \<Longrightarrow>
    system_step x s (s\<lparr>sy_runs := run_answer status (sy_runs s)\<rparr>)"
| broken_outside: "Outside \<in># rn_flights (sy_runs s) \<Longrightarrow>
    system_step x s (s\<lparr>sy_runs := run_drop Outside (sy_runs s)\<rparr>)"
| broken_queued: "sy_queued s = Suc n \<Longrightarrow>
    system_step x s (s\<lparr>sy_runs := run_drop Holding (sy_runs s), sy_queued := n\<rparr>)"
| broken_granted: "p \<in># sy_granted s \<Longrightarrow>
    system_step x s (s\<lparr>sy_runs := run_drop Holding (sy_runs s), sy_granted := sy_granted s - {#p#}\<rparr>)"
| broken_task: "w_tasks (sy_world s) = xs @ t # ys \<Longrightarrow>
    system_step x s (s\<lparr>sy_runs := run_drop Holding (sy_runs s),
      sy_world := (sy_world s)\<lparr>w_conf := drop_held (ad_reservation (t_admitted t)) (w_now (sy_world s)) (w_conf (sy_world s)),
        w_tasks := xs @ ys\<rparr>\<rparr>)"
| broken_leaving: "sy_leaving s = Suc n \<Longrightarrow>
    system_step x s (s\<lparr>sy_runs := run_drop Holding (sy_runs s), sy_leaving := n\<rparr>)"

abbreviation system_reachable :: "externals \<Rightarrow> system \<Rightarrow> system \<Rightarrow> bool" where
  "system_reachable x \<equiv> (system_step x)\<^sup>*\<^sup>*"

subsection \<open>The parts of a run\<close>

text \<open>A request with a permit is in exactly one of four places.\<close>

definition below_permit :: "system \<Rightarrow> nat" where
  "below_permit s = sy_queued s + size (sy_granted s) + length (w_tasks (sy_world s)) + sy_leaving s"

definition placed :: "system \<Rightarrow> bool" where
  "placed s \<longleftrightarrow> below_permit s = count (rn_flights (sy_runs s)) Holding"

lemma placed_holding: "placed s \<Longrightarrow> 0 < below_permit s \<Longrightarrow> Holding \<in># rn_flights (sy_runs s)"
  by (simp add: placed_def flip: count_greater_zero_iff)

lemma run_flights [simp]:
  "rn_flights (run_arrive r) = add_mset Outside (rn_flights r)"
  "rn_flights (run_acquire r) = add_mset Holding (rn_flights r - {#Outside#})"
  "rn_flights (run_release r) = add_mset Outside (rn_flights r - {#Holding#})"
  "rn_flights (run_answer st r) = rn_flights r - {#Outside#}"
  "rn_flights (run_drop f r) = rn_flights r - {#f#}"
  by (simp_all add: run_arrive_def run_acquire_def run_release_def run_answer_def run_drop_def)

lemma size_taken_out: "p \<in># M \<Longrightarrow> size M = Suc (size (M - {#p#}))"
  by (metis insert_DiffM size_add_mset)

lemmas place_defs = placed_def below_permit_def gate_answers_def

lemma placed_step: "system_step x s s' \<Longrightarrow> placed s \<Longrightarrow> placed s'"
  by (induction rule: system_step.induct) (auto simp: place_defs size_taken_out)

text \<open>The projections: each step is a step of one part or leaves the part as it is.\<close>

lemma project_runs: "system_step x s s' \<Longrightarrow> placed s \<Longrightarrow> run_step\<^sup>=\<^sup>= (sy_runs s) (sy_runs s')"
proof (induction rule: system_step.induct)
  case (permit s)
  then show ?case by (simp add: run_functions)
next
  case (permit_back s n)
  then have "Holding \<in># rn_flights (sy_runs s)" by (intro placed_holding) (simp_all add: below_permit_def)
  then show ?case by (simp add: run_functions)
next
  case (broken_queued s n)
  then have "Holding \<in># rn_flights (sy_runs s)" by (intro placed_holding) (simp_all add: below_permit_def)
  then show ?case by (simp add: run_functions)
next
  case (broken_granted p s)
  then have "Holding \<in># rn_flights (sy_runs s)" by (intro placed_holding) (simp_all add: below_permit_def size_taken_out)
  then show ?case by (simp add: run_functions)
next
  case (broken_task s xs t ys)
  then have "Holding \<in># rn_flights (sy_runs s)" by (intro placed_holding) (simp_all add: below_permit_def)
  then show ?case by (simp add: run_functions)
next
  case (broken_leaving s n)
  then have "Holding \<in># rn_flights (sy_runs s)" by (intro placed_holding) (simp_all add: below_permit_def)
  then show ?case by (simp add: run_functions)
qed (simp_all add: run_functions gate_answers_def)

lemma project_gate: "system_step x s s' \<Longrightarrow> (gate_step x)\<^sup>=\<^sup>= (sy_world s) (sy_world s')"
  by (induction rule: system_step.induct)
    (auto simp: gate_answers_def intro: gate_step.intros simp del: append_assoc)


subsection \<open>The history of the rate limiter\<close>

lemma rl_run_snoc:
  "rl_run l (calls @ [(ip, now)]) =
     (let (rs, l1) = rl_run l calls; (r, l2) = rl_acquire ip now l1 in (rs @ [r], l2))"
  by (induction l calls rule: rl_run.induct) (simp_all add: Let_def split: prod.split)

lemma rl_run_length: "rl_run l calls = (rs, l') \<Longrightarrow> length rs = length calls"
  by (induction l calls arbitrary: rs l' rule: rl_run.induct) (auto simp: Let_def split: prod.splits)

lemma granted_snoc:
  "length rs = length calls \<Longrightarrow>
     granted k (calls @ [(ip, now)]) (rs @ [r]) = granted k calls rs + of_bool (normalize_ip ip = k \<and> \<not> isl r)"
  by (simp add: granted_def)

text \<open>
  Without a limiter nothing is counted; with one, each request that passed it, before the gate or let
  through there, has a token of its own.
\<close>

definition passed :: "system \<Rightarrow> ip_addr option multiset" where
  "passed s = sy_granted s + sy_entered s"

definition tokens_ok :: "rate_limiter option \<Rightarrow> system \<Rightarrow> bool" where
  "tokens_ok l0 s \<longleftrightarrow>
     (case l0 of
        None \<Rightarrow> sy_limiter s = None \<and> set_mset (passed s) \<subseteq> {None}
      | Some l \<Rightarrow> sy_limiter s = Some (snd (rl_run l (sy_calls s))) \<and> None \<notin># passed s
          \<and> (\<forall>k. count (passed s) (Some k) \<le> granted k (sy_calls s) (fst (rl_run l (sy_calls s)))))"

lemma tokens_ok_shrink:
  "tokens_ok l0 s \<Longrightarrow> passed s' \<subseteq># passed s \<Longrightarrow> sy_limiter s' = sy_limiter s \<Longrightarrow> sy_calls s' = sy_calls s \<Longrightarrow>
     tokens_ok l0 s'"
  unfolding tokens_ok_def
  by (auto split: option.splits dest: mset_subset_eqD intro: order_trans [OF mset_subset_eq_count])

lemma tokens_ok_call:
  assumes "tokens_ok l0 s" "sy_limiter s = Some l" "rl_acquire ip reading l = (r, l')"
    and "passed s' = (if isl r then passed s else add_mset (Some (normalize_ip ip)) (passed s))"
    and "sy_limiter s' = Some l'" "sy_calls s' = sy_calls s @ [(ip, reading)]"
  shows "tokens_ok l0 s'"
proof (cases l0)
  case None
  with assms show ?thesis by (simp add: tokens_ok_def)
next
  case (Some lim)
  obtain rs l1 where run: "rl_run lim (sy_calls s) = (rs, l1)" by fastforce
  with assms(1,2) Some have "l1 = l" by (simp add: tokens_ok_def)
  with run assms(3) have run': "rl_run lim (sy_calls s') = (rs @ [r], l')"
    by (simp add: assms(6) rl_run_snoc)
  show ?thesis
    using assms(1,4,5) run run' granted_snoc [OF rl_run_length [OF run]]
    by (auto simp: tokens_ok_def Some assms(6))
qed

lemma tokens_ok_step: "system_step x s s' \<Longrightarrow> tokens_ok l0 s \<Longrightarrow> tokens_ok l0 s'"
proof (induction rule: system_step.induct)
  case (unlimited s n)
  then show ?case by (auto simp: tokens_ok_def passed_def split: option.splits)
next
  case (throttled s n l reading ip e l')
  then show ?case by - (rule tokens_ok_call [of l0 s l ip reading "Inl e" l'], simp_all add: passed_def)
next
  case (token s n l reading ip remaining l')
  then show ?case by - (rule tokens_ok_call [of l0 s l ip reading "Inr remaining" l'], simp_all add: passed_def)
next
  case (admitted p s reading clock q c' a)
  then have "passed (s\<lparr>sy_granted := sy_granted s - {#p#}, sy_entered := add_mset p (sy_entered s), sy_world := w\<rparr>)
      = passed s" for w by (simp add: passed_def)
  with admitted(4) show ?case by - (rule tokens_ok_shrink [of l0 s], simp_all)
next
  case (turned_away p s reading clock q c' resp)
  then show ?case by - (rule tokens_ok_shrink [of l0 s], simp_all add: passed_def gate_answers_def)
next
  case (broken_granted p s)
  then show ?case by - (rule tokens_ok_shrink [of l0 s], simp_all add: passed_def)
qed (simp_all add: tokens_ok_def passed_def gate_answers_def cong: option.case_cong)

text \<open>Each settlement call is that of a request let through, and each of those makes at most one.\<close>

definition unsettled :: "world \<Rightarrow> nat" where
  "unsettled w = length (filter (\<lambda>t. t_phase t \<noteq> Settling) (w_tasks w))"

definition settled_ok :: "system \<Rightarrow> bool" where
  "settled_ok s \<longleftrightarrow> length (w_settle_calls (sy_world s)) + unsettled (sy_world s) \<le> size (sy_entered s)"

lemma settled_step: "system_step x s s' \<Longrightarrow> settled_ok s \<Longrightarrow> settled_ok s'"
  by (induction rule: system_step.induct) (auto simp: settled_ok_def unsettled_def gate_answers_def split: if_splits)


subsection \<open>Properties\<close>

definition gate_start :: "instant \<Rightarrow> payment_config \<Rightarrow> world" where
  "gate_start now c = \<lparr>w_conf = c, w_now = now, w_tasks = [], w_settle_calls = []\<rparr>"

lemma system_invariants:
  assumes "system_reachable x (system_start now c) s"
  shows "placed s" "runs_reachable (runs_start now (li_max_concurrent (sc_limits c))) (sy_runs s)"
    "reachable x (gate_start now (sc_payment c)) (sy_world s)" "settled_ok s"
    "tokens_ok (sc_rate_limiter c) s"
proof -
  have "placed s \<and> runs_reachable (runs_start now (li_max_concurrent (sc_limits c))) (sy_runs s)
      \<and> reachable x (gate_start now (sc_payment c)) (sy_world s) \<and> settled_ok s \<and> tokens_ok (sc_rate_limiter c) s"
    using assms
  proof (induction rule: rtranclp_induct)
    case base
    show ?case
      by (simp add: place_defs system_start_def runs_start_def gate_start_def settled_ok_def unsettled_def
          tokens_ok_def passed_def split: option.split)
  next
    case (step s s')
    then show ?case
      using placed_step [OF step(2)] settled_step [OF step(2)] tokens_ok_step [OF step(2)]
        project_runs [OF step(2)] project_gate [OF step(2)]
      by (auto intro: rtranclp.rtrancl_into_rtrancl)
  qed
  then show "placed s" "runs_reachable (runs_start now (li_max_concurrent (sc_limits c))) (sy_runs s)"
    "reachable x (gate_start now (sc_payment c)) (sy_world s)" "settled_ok s" "tokens_ok (sc_rate_limiter c) s"
    by blast+
qed


lemma passed_rate:
  assumes "tokens_ok (Some l) s" "l = rate_limiter_new (tb_config l)" "config_ok (tb_config l)"
    and "sy_calls s \<noteq> []" "sorted (map snd (sy_calls s))"
  shows "of_nat (count (sy_entered s) (Some k))
    \<le> rl_burst (tb_config l)
      + rl_rps (tb_config l) * secs (nat (snd (last (sy_calls s)) - snd (hd (sy_calls s)))) * (1 + 3 / 2 ^ 53)
      + of_nat (calls_by k (sy_calls s)) * rl_burst (tb_config l) / 2 ^ 48"
proof -
  obtain rs l' where run: "rl_run l (sy_calls s) = (rs, l')" by fastforce
  with assms(2) have run': "rl_run (rate_limiter_new (tb_config l)) (sy_calls s) = (rs, l')" by simp
  have "count (sy_entered s) (Some k) \<le> count (passed s) (Some k)" by (simp add: passed_def)
  also have "\<dots> \<le> granted k (sy_calls s) rs" using assms(1) run by (simp add: tokens_ok_def)
  finally have "rat_of_nat (count (sy_entered s) (Some k)) \<le> of_nat (granted k (sy_calls s) rs)"
    by (rule of_nat_mono)
  from this rate_limit_bound [OF assms(3-5) run', of k] show ?thesis by (rule order_trans)
qed

lemma gate_start_guarded:
  "pc_nonce_guard c = Some (new_guard n t) \<Longrightarrow> gate_start now c = start_world c n t now"
  by (cases c) (simp add: gate_start_def start_world_def with_nonce_guard_def)

lemma guarded_gate:
  assumes "reachable x (gate_start now c) w" "pc_nonce_guard c = Some (new_guard n t)"
  shows "distinct (map task_key (w_tasks w))" "spaced (from_secs (max t 1)) (w_settle_calls w)"
proof -
  have "world_inv (from_secs (max t 1)) (max n 1) w"
    using assms world_inv_reachable world_inv_start by (metis gate_start_guarded)
  then obtain g where g: "guard_inv True g (map task_reservation (w_tasks w))"
    and spaced: "spaced (from_secs (max t 1)) (w_settle_calls w)" by (auto simp: world_inv_def)
  show "distinct (map task_key (w_tasks w))"
    using guard_inv_distinct_keys [OF g] unfolding map_map comp_def task_key_def .
  show "spaced (from_secs (max t 1)) (w_settle_calls w)" by (rule spaced)
qed



subsection \<open>A run\<close>

text \<open>A service on the test network with replay guard and rate limiter, started from its environment.\<close>

definition paid_env :: environ where
  "paid_env = [''PAY_TO'' \<mapsto> Unicode ''0x11'', ''UPSTREAM_URL'' \<mapsto> Unicode ''http://up'',
     ''KITE_NETWORK'' \<mapsto> Unicode ''testnet'', ''PRICE_USD'' \<mapsto> Unicode ''1'',
     ''PAYMENT_REPLAY_CACHE_SIZE'' \<mapsto> Unicode ''10'', ''RATE_LIMIT_RPS'' \<mapsto> Unicode ''1'']"

definition paid_limits :: rate_limiter_config where
  "paid_limits = \<lparr>rl_rps = 1, rl_burst = 1, rl_trusted_proxies = [], rl_max_clients = 10000,
     rl_idle_timeout = from_secs 300\<rparr>"

lemma parse_f64_one: "parse_f64 ''1'' = Some (Finite 1)"
  by (simp add: parse_f64_def parse_decimal_def parse_mantissa_def decimal_value_def split_on_def nearest_def
      is_ascii_digit_def char_code_def ascii_lower_def text_eval fr.one)

lemma paid_trims: "trim ''1'' = ''1''" "trim ''10'' = ''10''" "trim ''testnet'' = ''testnet''"
  by (simp_all add: trim_visible visible_def char_code_def)

lemma paid_start:
  "\<exists>c. load_service sample_x (\<lambda>_. ''1'') paid_env = Inr c \<and> sc_rate_limiter c = Some (rate_limiter_new paid_limits)
     \<and> sc_payment c = (with_nonce_guard (with_metrics (config_new ''0x11'' KITE_TESTNET ''1'' ''Paid API access via Kite x402''
          (pc_facilitator (sc_payment c))) new_metrics) (new_guard 10 3600))
     \<and> pc_nonce_guard (sc_payment c) = Some (new_guard 10 3600)
     \<and> li_max_concurrent (sc_limits c) = 64"
proof -
  have other: "env_or paid_env key fallback = fallback" "env_var paid_env key = None"
    if "key \<notin> {''PAY_TO'', ''UPSTREAM_URL'', ''KITE_NETWORK'', ''PRICE_USD'', ''PAYMENT_REPLAY_CACHE_SIZE'', ''RATE_LIMIT_RPS''}"
    for key fallback
    using that by (simp_all add: env_or_def env_var_def paid_env_def)
  have given: "env_or paid_env ''KITE_NETWORK'' f = ''testnet''" "env_or paid_env ''PRICE_USD'' f = ''1''"
      "env_or paid_env ''RATE_LIMIT_RPS'' f = ''1''" "env_var paid_env ''PAY_TO'' = Some ''0x11''"
      "env_var paid_env ''UPSTREAM_URL'' = Some ''http://up''" for f
    by (simp_all add: env_or_def env_var_def paid_env_def paid_trims)
  have limiter: "load_rate_limiter (\<lambda>_. ''1'') paid_env = Inr (Some (rate_limiter_new paid_limits))"
    by (simp add: load_rate_limiter_def read_f64_def read_nat_def and_then_def expect_def in_range_def ensure_def
        parse_f64_one default_numbers [simplified] parse_proxies_def given other paid_limits_def Let_def)
  have limits: "load_limits paid_env = Inr \<lparr>li_upstream_timeout = 10000 * nanos_per_milli,
      li_facilitator_timeout = 30000 * nanos_per_milli, li_max_concurrent = 64\<rparr>"
    by (simp add: load_limits_def read_nat_def and_then_def expect_def in_range_def ensure_def from_millis_def
        default_numbers [simplified] other)
  have retry: "load_retry paid_env = Inr (retry_config_new 0 (150 * nanos_per_milli) (3 * nanos_per_sec))"
    by (simp add: load_retry_def read_nat_def and_then_def expect_def in_range_def ensure_def from_millis_def
        from_secs_def default_numbers [simplified] other)
  have "parse_unsigned (2 ^ 64 - 1) ''10'' = Some 10" by (simp add: parse_unsigned_def is_ascii_digit_def char_code_def)
  then have replay: "load_nonce_guard paid_env = Inr (Some (new_guard 10 3600))"
    by (simp add: load_nonce_guard_def paid_env_def paid_trims and_then_def expect_def in_range_def ensure_def Let_def)
  have chain: "kite_chain_by_name ''testnet'' = Inr KITE_TESTNET"
    by (simp add: kite_chain_by_name_def paid_trims)
  have window: "load_expiration_guard paid_env = None" by (simp add: load_expiration_guard_def other)
  show ?thesis
    by (simp add: load_service_def service_payment_def service_upstream_def limiter limits retry replay chain window and_then_def
        expect_def read_nat_def default_numbers [simplified] given other config_new_def with_nonce_guard_def with_metrics_def)
qed

lemma paid_admit:
  assumes "pc = with_nonce_guard (with_metrics (config_new ''0x11'' KITE_TESTNET ''1'' d f) new_metrics) (new_guard 10 3600)"
  shows "\<exists>c1 a. admit sample_x (Some 0) t pc sample_request = (c1, Continue a)"
proof -
  have "requirements sample_x pc = requirements sample_x sample_config"
    by (simp add: assms requirements_def sample_config_def with_nonce_guard_def with_metrics_def config_new_def
        cong: option.case_cong sum.case_cong)
  then have terms: "requirements sample_x pc = Some (Inr sample_terms)" by (simp add: sample_requirements)
  have cells: "pc_nonce_guard pc = Some (new_guard 10 3600)" "pc_expiration_guard pc = None"
    by (simp_all add: assms with_nonce_guard_def with_metrics_def config_new_def)
  have "\<exists>g. reserve_key (new_guard 10 3600) k t = (Inr \<lparr>res_key = k, res_generation = 0, res_retain = False\<rparr>, g)" for k
    by (simp add: guard_eval)
  from this [of "authorization_key sample_x sample_payment"] show ?thesis
    by (auto simp: admit_def Let_def terms cells sample_header sample_decode window_error_def
        take_reservation_def reserve_ok_iff [THEN iffD2] sample_url sample_payment_def sample_terms_def
        split: prod.splits)
qed


lemma paid_token:
  "\<exists>remaining l'. rl_acquire (V4 1) t (rate_limiter_new paid_limits) = (Inr remaining, l')"
proof -
  have config: "config_ok paid_limits" by (simp add: config_ok_def paid_limits_def fr.one)
  obtain r l' where acq: "rl_acquire (V4 1) t (rate_limiter_new paid_limits) = (r, l')" by fastforce
  have "r = fst (take_token paid_limits (of_nat 1))"
    using acquire_whole(1) [of "rate_limiter_new paid_limits" 1 1 "V4 1" t r l'] acq config
    by (simp add: paid_limits_def from_secs_def nanos_per_sec_def)
  then have "\<not> isl r" by (simp add: take_token_def Let_def)
  with acq show ?thesis by (cases r) auto
qed

lemma paid_run:
  assumes "load_service sample_x (\<lambda>_. ''1'') paid_env = Inr c"
  shows "\<exists>s. system_reachable sample_x (system_start 0 c) s \<and> sy_calls s = [(V4 1, 0)]
    \<and> sy_entered s = {#Some (V4 1)#} \<and> length (w_tasks (sy_world s)) = 1"
proof -
  from paid_start assms obtain f where limiter: "sc_rate_limiter c = Some (rate_limiter_new paid_limits)"
    and gate: "sc_payment c = with_nonce_guard (with_metrics (config_new ''0x11'' KITE_TESTNET ''1''
          ''Paid API access via Kite x402'' f) new_metrics) (new_guard 10 3600)"
    and permits: "li_max_concurrent (sc_limits c) = 64" by auto
  obtain remaining l' where acq: "rl_acquire (V4 1) 0 (rate_limiter_new paid_limits) = (Inr remaining, l')"
    using paid_token by blast
  obtain c1 a where ad: "admit sample_x (Some 0) 0 (sc_payment c) sample_request = (c1, Continue a)"
    using paid_admit [OF gate] by blast
  let ?s0 = "system_start 0 c"
  let ?s1 = "?s0\<lparr>sy_runs := run_arrive (sy_runs ?s0)\<rparr>"
  let ?s2 = "?s1\<lparr>sy_runs := run_acquire (sy_runs ?s1), sy_queued := Suc (sy_queued ?s1)\<rparr>"
  let ?s3 = "?s2\<lparr>sy_queued := 0, sy_limiter := Some l', sy_granted := add_mset (Some (normalize_ip (V4 1))) (sy_granted ?s2),
    sy_calls := sy_calls ?s2 @ [(V4 1, 0)]\<rparr>"
  let ?s4 = "?s3\<lparr>sy_granted := sy_granted ?s3 - {#Some (V4 1)#}, sy_entered := add_mset (Some (V4 1)) (sy_entered ?s3),
    sy_world := (sy_world ?s3)\<lparr>w_conf := c1, w_tasks := \<lparr>t_phase = Verifying, t_admitted = a\<rparr> # w_tasks (sy_world ?s3)\<rparr>\<rparr>"
  have "system_step sample_x ?s0 ?s1" by (rule system_step.arrival)
  moreover have "system_step sample_x ?s1 ?s2"
    by (rule system_step.permit) (simp_all add: system_start_def runs_start_def permits run_arrive_def)
  moreover have "system_step sample_x ?s2 ?s3"
    by (rule system_step.token [where l = "rate_limiter_new paid_limits"])
      (simp_all add: system_start_def limiter acq)
  moreover have "system_step sample_x ?s3 ?s4"
    by (rule system_step.admitted [where clock = "Some 0" and reading = 0 and q = sample_request])
      (simp_all add: system_start_def ad)
  ultimately have "system_reachable sample_x ?s0 ?s4"
    by (meson converse_rtranclp_into_rtranclp rtranclp.rtrancl_refl)
  then show ?thesis by (intro exI [of _ ?s4]) (simp add: system_start_def)
qed



end
