(* ===== verification/SerdeRecords.thy ===== *)
theory SerdeRecords
  imports Wire CircuitBreaker Facilitator Firewall PaymentMetrics Ledger Webhook F64_Bits
begin

text \<open>
  The serialisation that the library derives for its own records: the breaker's state and snapshot,
  the firewall's action, the payment metrics, the settlement records and their summary, the webhook
  events and delivery records, and the retry configuration. The rules of the derived code are those
  of \<open>Json\<close>; an \<open>Option\<close> field without attributes is written as \<open>null\<close> and may be absent.

  The contract is the locale \<open>codec\<close>: what is written is read back. It is interpreted for every
  type, and gives that no two values are written alike and that sequences are read back too.
\<close>

subsection \<open>The contract\<close>

locale codec =
  fixes ser :: "'a \<Rightarrow> json"
    and de :: "json \<Rightarrow> 'a option"
    and ok :: "'a \<Rightarrow> bool"
  assumes roundtrip: "ok v \<Longrightarrow> de (ser v) = Some v"
begin

lemma ser_inject: "ok a \<Longrightarrow> ok b \<Longrightarrow> ser a = ser b \<longleftrightarrow> a = b"
  by (metis roundtrip option.inject)

lemma vec_roundtrip: "list_all ok vs \<Longrightarrow> de_vec de (JArr (map ser vs)) = Some vs"
  by (simp add: de_vec_def list_all_iff de_list_map roundtrip)

end

text \<open>A codec that never writes \<open>null\<close> can be used for an optional field.\<close>

definition ser_nullable :: "('a \<Rightarrow> json) \<Rightarrow> 'a option \<Rightarrow> json" where
  "ser_nullable f v = (case v of None \<Rightarrow> JNull | Some y \<Rightarrow> f y)"

locale field_codec = codec +
  assumes not_null: "ser v \<noteq> JNull"
begin

lemma nullable_read:
  "pred_option ok v \<Longrightarrow> (if ser_nullable ser v = JNull then Some None else map_option Some (de (ser_nullable ser v))) = Some v"
  by (cases v) (simp_all add: ser_nullable_def not_null roundtrip)

lemma nullable_roundtrip:
  "m k = Some (ser_nullable ser v) \<Longrightarrow> pred_option ok v \<Longrightarrow> opt_field m k de = Some v"
  by (simp add: opt_field_def nullable_read)

end

subsection \<open>Basic values\<close>

definition ser_u64 :: "u64 \<Rightarrow> json" where
  "ser_u64 n = JNum (PosInt n)"

definition ser_u16 :: "u16 \<Rightarrow> json" where
  "ser_u16 n = JNum (PosInt (ucast n))"

fun de_u16 :: "json \<Rightarrow> u16 option" where
  "de_u16 (JNum (PosInt n)) = (if unat n < 2 ^ 16 then Some (ucast n) else None)"
| "de_u16 _ = None"

text \<open>A float field also reads an integer.\<close>

definition ser_f64 :: "f64 \<Rightarrow> json" where
  "ser_f64 v = JNum (FloatBits (f64_bits v))"

fun de_f64 :: "json \<Rightarrow> f64 option" where
  "de_f64 (JNum (FloatBits w)) = Some (f64_of_bits w)"
| "de_f64 (JNum (PosInt n)) = Some (f64_of_u64 n)"
| "de_f64 (JNum (NegInt i)) = Some (- rnd (of_int (- i)))"
| "de_f64 _ = None"

text \<open>A unit variant is its name, or an object with the name as only key and \<open>null\<close>.\<close>

definition de_variant :: "(str \<times> 'a) list \<Rightarrow> json \<Rightarrow> 'a option" where
  "de_variant names j =
     (case j of
        JStr s \<Rightarrow> map_of names s
      | JObj [(s, JNull)] \<Rightarrow> map_of names s
      | _ \<Rightarrow> None)"

definition f64_ok :: "f64 \<Rightarrow> bool" where
  "f64_ok v \<longleftrightarrow> 0 \<le> v \<and> v < 2 ^ 1024 \<and> rnd v = v"

lemma unat_ucast_u16: "unat (ucast (n :: u16) :: u64) = unat n"
  by transfer (simp add: take_bit_int_eq_self_iff min_def)

lemma ucast_ucast_u16: "ucast (ucast (n :: u16) :: u64) = n"
  by transfer simp

lemma u16_below: "unat (n :: u16) < 65536"
  using unat_less_word_size [of n] by simp

interpretation str_codec: field_codec JStr de_string "\<lambda>_. True"
  by unfold_locales simp_all

interpretation u64_codec: field_codec ser_u64 de_u64 "\<lambda>_. True"
  by unfold_locales (simp_all add: ser_u64_def)

interpretation u32_codec: field_codec ser_u32 de_u32 "\<lambda>_. True"
  by unfold_locales (rule de_u32_ser_u32, simp add: ser_u32_def)

interpretation u16_codec: field_codec ser_u16 de_u16 "\<lambda>_. True"
  by unfold_locales (simp_all add: ser_u16_def u16_below unat_ucast_u16 ucast_ucast_u16)

interpretation f64_codec: field_codec ser_f64 de_f64 f64_ok
  by unfold_locales (simp_all add: ser_f64_def f64_ok_def f64_bits_inverse)

subsection \<open>Enumerations\<close>

definition circuit_state_names :: "(str \<times> circuit_state) list" where
  "circuit_state_names = [(''closed'', Closed), (''open'', Open), (''halfopen'', HalfOpen)]"

fun ser_circuit_state :: "circuit_state \<Rightarrow> json" where
  "ser_circuit_state Closed = JStr ''closed''"
| "ser_circuit_state Open = JStr ''open''"
| "ser_circuit_state HalfOpen = JStr ''halfopen''"

definition de_circuit_state :: "json \<Rightarrow> circuit_state option" where
  "de_circuit_state = de_variant circuit_state_names"

definition filter_action_names :: "(str \<times> ip_filter_action) list" where
  "filter_action_names = [(''allow'', Allow), (''deny'', Deny)]"

fun ser_filter_action :: "ip_filter_action \<Rightarrow> json" where
  "ser_filter_action Allow = JStr ''allow''"
| "ser_filter_action Deny = JStr ''deny''"

definition de_filter_action :: "json \<Rightarrow> ip_filter_action option" where
  "de_filter_action = de_variant filter_action_names"

definition event_type_names :: "(str \<times> webhook_event_type) list" where
  "event_type_names = [(''payment_prompted'', PaymentPrompted), (''payment_verified'', PaymentVerified),
     (''payment_settled'', PaymentSettled), (''payment_failed'', PaymentFailed)]"

fun ser_event_type :: "webhook_event_type \<Rightarrow> json" where
  "ser_event_type PaymentPrompted = JStr ''payment_prompted''"
| "ser_event_type PaymentVerified = JStr ''payment_verified''"
| "ser_event_type PaymentSettled = JStr ''payment_settled''"
| "ser_event_type PaymentFailed = JStr ''payment_failed''"

definition de_event_type :: "json \<Rightarrow> webhook_event_type option" where
  "de_event_type = de_variant event_type_names"

definition delivery_status_names :: "(str \<times> delivery_status) list" where
  "delivery_status_names = [(''pending'', Pending), (''delivered'', Delivered), (''failed'', Failed),
     (''abandoned'', Abandoned)]"

fun ser_delivery_status :: "delivery_status \<Rightarrow> json" where
  "ser_delivery_status Pending = JStr ''pending''"
| "ser_delivery_status Delivered = JStr ''delivered''"
| "ser_delivery_status Failed = JStr ''failed''"
| "ser_delivery_status Abandoned = JStr ''abandoned''"

definition de_delivery_status :: "json \<Rightarrow> delivery_status option" where
  "de_delivery_status = de_variant delivery_status_names"

lemma state_roundtrip: "de_circuit_state (ser_circuit_state v) = Some v"
  by (cases v) (simp_all add: de_circuit_state_def de_variant_def circuit_state_names_def)

lemma action_roundtrip: "de_filter_action (ser_filter_action v) = Some v"
  by (cases v) (simp_all add: de_filter_action_def de_variant_def filter_action_names_def)

lemma event_roundtrip: "de_event_type (ser_event_type v) = Some v"
  by (cases v) (simp_all add: de_event_type_def de_variant_def event_type_names_def)

lemma status_roundtrip: "de_delivery_status (ser_delivery_status v) = Some v"
  by (cases v) (simp_all add: de_delivery_status_def de_variant_def delivery_status_names_def)

interpretation state_codec: codec ser_circuit_state de_circuit_state "\<lambda>_. True"
  by unfold_locales (rule state_roundtrip)

interpretation action_codec: codec ser_filter_action de_filter_action "\<lambda>_. True"
  by unfold_locales (rule action_roundtrip)

interpretation event_codec: codec ser_event_type de_event_type "\<lambda>_. True"
  by unfold_locales (rule event_roundtrip)

interpretation status_codec: codec ser_delivery_status de_delivery_status "\<lambda>_. True"
  by unfold_locales (rule status_roundtrip)

subsection \<open>Records\<close>

text \<open>The fields of an object that a record is read from.\<close>

definition ser_breaker_snapshot :: "breaker_snapshot \<Rightarrow> json" where
  "ser_breaker_snapshot s = JObj
     [(''state'', ser_circuit_state (bs_state s)),
      (''consecutive_failures'', ser_u32 (bs_consecutive_failures s)),
      (''consecutive_successes'', ser_u32 (bs_consecutive_successes s)),
      (''total_rejected'', ser_u64 (bs_total_rejected s)),
      (''total_trips'', ser_u64 (bs_total_trips s))]"

definition de_breaker_snapshot :: "json \<Rightarrow> breaker_snapshot option" where
  "de_breaker_snapshot j =
     (case struct_fields [''state'', ''consecutive_failures'', ''consecutive_successes'', ''total_rejected'',
                          ''total_trips''] j of
        None \<Rightarrow> None
      | Some m \<Rightarrow>
        (case (req_field m ''state'' de_circuit_state, req_field m ''consecutive_failures'' de_u32,
               req_field m ''consecutive_successes'' de_u32, req_field m ''total_rejected'' de_u64,
               req_field m ''total_trips'' de_u64) of
           (Some st, Some f, Some s, Some r, Some t) \<Rightarrow>
             Some \<lparr>bs_state = st, bs_consecutive_failures = f, bs_consecutive_successes = s,
                   bs_total_rejected = r, bs_total_trips = t\<rparr>
         | _ \<Rightarrow> None))"

definition ser_metrics_snapshot :: "metrics_snapshot \<Rightarrow> json" where
  "ser_metrics_snapshot s = JObj
     [(''requests_total'', ser_u64 (pm_requests_total s)),
      (''challenges_total'', ser_u64 (pm_challenges_total s)),
      (''verifications_success'', ser_u64 (pm_verifications_success s)),
      (''verifications_failed'', ser_u64 (pm_verifications_failed s)),
      (''settlements_success'', ser_u64 (pm_settlements_success s)),
      (''settlements_failed'', ser_u64 (pm_settlements_failed s)),
      (''total_settlement_latency_ms'', ser_u64 (pm_total_settlement_latency_ms s)),
      (''avg_settlement_latency_ms'', ser_f64 (ms_avg_settlement_latency_ms s)),
      (''settlement_success_rate'', ser_f64 (ms_settlement_success_rate s))]"

definition de_metrics_snapshot :: "json \<Rightarrow> metrics_snapshot option" where
  "de_metrics_snapshot j =
     (case struct_fields [''requests_total'', ''challenges_total'', ''verifications_success'', ''verifications_failed'',
             ''settlements_success'', ''settlements_failed'', ''total_settlement_latency_ms'',
             ''avg_settlement_latency_ms'', ''settlement_success_rate''] j of
        None \<Rightarrow> None
      | Some m \<Rightarrow>
        (case (req_field m ''requests_total'' de_u64, req_field m ''challenges_total'' de_u64,
               req_field m ''verifications_success'' de_u64, req_field m ''verifications_failed'' de_u64,
               req_field m ''settlements_success'' de_u64, req_field m ''settlements_failed'' de_u64,
               req_field m ''total_settlement_latency_ms'' de_u64,
               req_field m ''avg_settlement_latency_ms'' de_f64, req_field m ''settlement_success_rate'' de_f64) of
           (Some rt, Some ct, Some vs, Some vf, Some ss, Some sf, Some lat, Some al, Some sr) \<Rightarrow>
             Some \<lparr>pm_requests_total = rt, pm_challenges_total = ct, pm_verifications_success = vs,
                   pm_verifications_failed = vf, pm_settlements_success = ss, pm_settlements_failed = sf,
                   pm_total_settlement_latency_ms = lat, ms_avg_settlement_latency_ms = al,
                   ms_settlement_success_rate = sr\<rparr>
         | _ \<Rightarrow> None))"

definition ser_settlement_record :: "settlement_record \<Rightarrow> json" where
  "ser_settlement_record r = JObj
     [(''tx_hash'', JStr (sl_tx_hash r)), (''payer'', JStr (sl_payer r)), (''pay_to'', JStr (sl_pay_to r)),
      (''amount'', ser_u64 (sl_amount r)), (''network'', JStr (sl_network r)),
      (''timestamp_secs'', ser_u64 (sl_timestamp_secs r)), (''success'', JBool (sl_success r)),
      (''error_reason'', ser_nullable JStr (sl_error_reason r))]"

definition de_settlement_record :: "json \<Rightarrow> settlement_record option" where
  "de_settlement_record j =
     (case struct_fields [''tx_hash'', ''payer'', ''pay_to'', ''amount'', ''network'', ''timestamp_secs'', ''success'',
                          ''error_reason''] j of
        None \<Rightarrow> None
      | Some m \<Rightarrow>
        (case (req_field m ''tx_hash'' de_string, req_field m ''payer'' de_string, req_field m ''pay_to'' de_string,
               req_field m ''amount'' de_u64, req_field m ''network'' de_string, req_field m ''timestamp_secs'' de_u64,
               req_field m ''success'' de_bool, opt_field m ''error_reason'' de_string) of
           (Some tx, Some p, Some t, Some a, Some n, Some ts, Some ok, Some e) \<Rightarrow>
             Some \<lparr>sl_tx_hash = tx, sl_payer = p, sl_pay_to = t, sl_amount = a, sl_network = n,
                   sl_timestamp_secs = ts, sl_success = ok, sl_error_reason = e\<rparr>
         | _ \<Rightarrow> None))"

definition ser_ledger_summary :: "ledger_summary \<Rightarrow> json" where
  "ser_ledger_summary s = JObj
     [(''total_settled_volume'', ser_u64 (ls_total_settled_volume s)),
      (''successful_count'', ser_u64 (ls_successful_count s)), (''failed_count'', ser_u64 (ls_failed_count s))]"

definition de_ledger_summary :: "json \<Rightarrow> ledger_summary option" where
  "de_ledger_summary j =
     (case struct_fields [''total_settled_volume'', ''successful_count'', ''failed_count''] j of
        None \<Rightarrow> None
      | Some m \<Rightarrow>
        (case (req_field m ''total_settled_volume'' de_u64, req_field m ''successful_count'' de_u64,
               req_field m ''failed_count'' de_u64) of
           (Some v, Some s, Some f) \<Rightarrow>
             Some \<lparr>ls_total_settled_volume = v, ls_successful_count = s, ls_failed_count = f\<rparr>
         | _ \<Rightarrow> None))"

definition ser_webhook_payload :: "webhook_payload \<Rightarrow> json" where
  "ser_webhook_payload p = JObj
     [(''event_id'', JStr (wp_event_id p)), (''event_type'', ser_event_type (wp_event_type p)),
      (''timestamp_ms'', ser_u64 (wp_timestamp_ms p)), (''payer'', ser_nullable JStr (wp_payer p)),
      (''network'', ser_nullable JStr (wp_network p)), (''amount_atomic'', ser_nullable JStr (wp_amount_atomic p)),
      (''tx_hash'', ser_nullable JStr (wp_tx_hash p)), (''request_path'', ser_nullable JStr (wp_request_path p))]"

definition de_webhook_payload :: "json \<Rightarrow> webhook_payload option" where
  "de_webhook_payload j =
     (case struct_fields [''event_id'', ''event_type'', ''timestamp_ms'', ''payer'', ''network'', ''amount_atomic'',
                          ''tx_hash'', ''request_path''] j of
        None \<Rightarrow> None
      | Some m \<Rightarrow>
        (case (req_field m ''event_id'' de_string, req_field m ''event_type'' de_event_type,
               req_field m ''timestamp_ms'' de_u64, opt_field m ''payer'' de_string, opt_field m ''network'' de_string,
               opt_field m ''amount_atomic'' de_string, opt_field m ''tx_hash'' de_string,
               opt_field m ''request_path'' de_string) of
           (Some i, Some t, Some ts, Some p, Some n, Some a, Some h, Some r) \<Rightarrow>
             Some \<lparr>wp_event_id = i, wp_event_type = t, wp_timestamp_ms = ts, wp_payer = p, wp_network = n,
                   wp_amount_atomic = a, wp_tx_hash = h, wp_request_path = r\<rparr>
         | _ \<Rightarrow> None))"

definition ser_delivery_record :: "webhook_delivery_record \<Rightarrow> json" where
  "ser_delivery_record r = JObj
     [(''delivery_id'', ser_u64 (wd_delivery_id r)), (''target_url'', JStr (wd_target_url r)),
      (''payload'', ser_webhook_payload (wd_payload r)), (''attempts'', ser_u32 (wd_attempts r)),
      (''max_retries'', ser_u32 (wd_max_retries r)), (''status'', ser_delivery_status (wd_status r)),
      (''last_status_code'', ser_nullable ser_u16 (wd_last_status_code r)),
      (''last_error'', ser_nullable JStr (wd_last_error r)),
      (''last_attempt_ms'', ser_nullable ser_u64 (wd_last_attempt_ms r))]"

definition de_delivery_record :: "json \<Rightarrow> webhook_delivery_record option" where
  "de_delivery_record j =
     (case struct_fields [''delivery_id'', ''target_url'', ''payload'', ''attempts'', ''max_retries'', ''status'',
                          ''last_status_code'', ''last_error'', ''last_attempt_ms''] j of
        None \<Rightarrow> None
      | Some m \<Rightarrow>
        (case (req_field m ''delivery_id'' de_u64, req_field m ''target_url'' de_string,
               req_field m ''payload'' de_webhook_payload, req_field m ''attempts'' de_u32,
               req_field m ''max_retries'' de_u32, req_field m ''status'' de_delivery_status,
               opt_field m ''last_status_code'' de_u16, opt_field m ''last_error'' de_string,
               opt_field m ''last_attempt_ms'' de_u64) of
           (Some i, Some u, Some p, Some a, Some mr, Some st, Some sc, Some e, Some l) \<Rightarrow>
             Some \<lparr>wd_delivery_id = i, wd_target_url = u, wd_payload = p, wd_attempts = a, wd_max_retries = mr,
                   wd_status = st, wd_last_status_code = sc, wd_last_error = e, wd_last_attempt_ms = l\<rparr>
         | _ \<Rightarrow> None))"

subsection \<open>Every record is read back\<close>

lemma pred_option_True [simp]: "pred_option (\<lambda>_. True) v"
  by (cases v) simp_all

lemmas record_reads = serde_defs str_codec.nullable_read u64_codec.nullable_read u16_codec.nullable_read
  state_roundtrip event_roundtrip status_roundtrip u64_codec.roundtrip de_u32_ser_u32

lemma breaker_snapshot_roundtrip: "de_breaker_snapshot (ser_breaker_snapshot s) = Some s"
  by (cases s) (simp add: de_breaker_snapshot_def ser_breaker_snapshot_def record_reads)

lemma metrics_snapshot_roundtrip:
  "f64_ok (ms_avg_settlement_latency_ms s) \<Longrightarrow> f64_ok (ms_settlement_success_rate s) \<Longrightarrow>
     de_metrics_snapshot (ser_metrics_snapshot s) = Some s"
  by (cases s) (simp add: de_metrics_snapshot_def ser_metrics_snapshot_def record_reads f64_codec.roundtrip)

lemma settlement_record_roundtrip: "de_settlement_record (ser_settlement_record r) = Some r"
  by (cases r) (simp add: de_settlement_record_def ser_settlement_record_def record_reads)

lemma ledger_summary_roundtrip: "de_ledger_summary (ser_ledger_summary s) = Some s"
  by (cases s) (simp add: de_ledger_summary_def ser_ledger_summary_def record_reads)

lemma webhook_payload_roundtrip: "de_webhook_payload (ser_webhook_payload p) = Some p"
  by (cases p) (simp add: de_webhook_payload_def ser_webhook_payload_def record_reads)

lemma delivery_record_roundtrip: "de_delivery_record (ser_delivery_record r) = Some r"
  by (cases r) (simp add: de_delivery_record_def ser_delivery_record_def record_reads webhook_payload_roundtrip)

text \<open>The reported metrics are doubles.\<close>

lemma rnd_double: "0 \<le> x \<Longrightarrow> rnd x \<le> 2 * x + 1"
  using rnd_upper [of x] eps_bounds eta_bounds mult_right_mono [of eps 1 x] by linarith

lemma quotient_f64_ok: "f64_ok (f64_div (f64_of_u64 a) (f64_of_u64 b))" if "0 < b"
proof -
  have "unat a \<le> 2 ^ 64" using unat_less_word_size [of a] by simp
  then have "rat_of_nat (unat a) \<le> of_nat (2 ^ 64)" by (rule of_nat_mono)
  also have "of_nat (2 ^ 64) = (2 ^ 64 :: rat)" by (simp only: of_nat_power of_nat_numeral)
  finally have bound: "rat_of_nat (unat a) \<le> 2 ^ 64" .
  have "f64_of_u64 a \<le> 2 * rat_of_nat (unat a) + 1" unfolding f64_of_u64_def by (rule rnd_double) (rule of_nat_0_le_iff)
  also have "\<dots> \<le> 2 * 2 ^ 64 + 1" using bound by linarith
  also have "\<dots> \<le> (2 ^ 66 :: rat)" by simp
  finally have a: "f64_of_u64 a \<le> 2 ^ 66" .
  have "1 \<le> unat b" using that by (simp add: word_less_nat_alt)
  then have "rat_of_nat 1 \<le> rat_of_nat (unat b)" by (rule of_nat_mono)
  then have b: "1 \<le> f64_of_u64 b" unfolding f64_of_u64_def of_nat_1 by (rule fr.ge_one)
  have "f64_of_u64 a / f64_of_u64 b \<le> f64_of_u64 a / 1"
    using b f64_of_u64_nonneg [of a] by (intro divide_left_mono) simp_all
  with a have "f64_of_u64 a / f64_of_u64 b \<le> 2 ^ 66" by simp
  moreover have "0 \<le> f64_of_u64 a / f64_of_u64 b" using f64_of_u64_nonneg by simp
  ultimately have "rnd (f64_of_u64 a / f64_of_u64 b) \<le> 2 * 2 ^ 66 + 1" using rnd_double by fastforce
  also have "\<dots> < (2 ^ 1024 :: rat)" by simp
  finally show ?thesis by (simp add: f64_ok_def f64_div_def rnd_idem rnd_nonneg)
qed

lemma f64_ok_01: "f64_ok 0" "f64_ok 1"
  by (simp_all add: f64_ok_def fr.zero fr.one)

lemma snapshot_f64:
  "f64_ok (ms_avg_settlement_latency_ms (snapshot m))" "f64_ok (ms_settlement_success_rate (snapshot m))"
  by (simp_all add: snapshot_def Let_def quotient_f64_ok payment_metrics.defs f64_ok_01)

interpretation breaker_codec: codec ser_breaker_snapshot de_breaker_snapshot "\<lambda>_. True"
  by unfold_locales (rule breaker_snapshot_roundtrip)

interpretation settlement_codec: codec ser_settlement_record de_settlement_record "\<lambda>_. True"
  by unfold_locales (rule settlement_record_roundtrip)

interpretation delivery_codec: codec ser_delivery_record de_delivery_record "\<lambda>_. True"
  by unfold_locales (rule delivery_record_roundtrip)


end
