(* ===== verification/ProxyStream.thy ===== *)
theory ProxyStream
  imports Proxy
begin

text \<open>
  The loop of \<open>proxy.rs\<close> that reads the upstream's body, over a body that arrives while it runs: the
  \<open>n\<close>-th call of \<open>chunk()\<close> answers \<open>ev n\<close>, and nothing says that the upstream ever ends the body.
  The loop is a partial function, so that not returning is the value \<open>None\<close>.

  The lemmas say exactly when the loop returns and with what, that it agrees with \<open>read_chunks\<close> of
  \<open>Proxy\<close> on every body that ends, and that chunks with content cannot keep it running.
\<close>

datatype stream_event = Arrived str | Broke | Ended

partial_function (option) read_stream :: "(nat \<Rightarrow> stream_event) \<Rightarrow> nat \<Rightarrow> str \<Rightarrow> body_read option" where
  "read_stream ev n acc =
     (case ev n of
        Arrived c \<Rightarrow>
          if length c \<le> MAX_RESPONSE_BODY_BYTES - length acc then read_stream ev (Suc n) (acc @ c)
          else Some TooLarge
      | Ended \<Rightarrow> Some (Complete acc)
      | Broke \<Rightarrow> Some Incomplete)"

subsection \<open>What has arrived, and what ends the loop\<close>

fun arrived :: "(nat \<Rightarrow> stream_event) \<Rightarrow> nat \<Rightarrow> str" where
  "arrived ev 0 = []"
| "arrived ev (Suc n) = arrived ev n @ (case ev n of Arrived c \<Rightarrow> c | _ \<Rightarrow> [])"

definition stops :: "(nat \<Rightarrow> stream_event) \<Rightarrow> nat \<Rightarrow> bool" where
  "stops ev n \<longleftrightarrow> ev n = Ended \<or> ev n = Broke \<or> MAX_RESPONSE_BODY_BYTES < length (arrived ev (Suc n))"

definition stream_outcome :: "(nat \<Rightarrow> stream_event) \<Rightarrow> nat \<Rightarrow> body_read" where
  "stream_outcome ev n =
     (case ev n of Ended \<Rightarrow> Complete (arrived ev n) | Broke \<Rightarrow> Incomplete | Arrived _ \<Rightarrow> TooLarge)"

lemma read_stream_step:
  assumes "length (arrived ev n) \<le> MAX_RESPONSE_BODY_BYTES"
  shows "read_stream ev n (arrived ev n) =
    (if stops ev n then Some (stream_outcome ev n) else read_stream ev (Suc n) (arrived ev (Suc n)))"
  using assms by (subst read_stream.simps) (auto simp: stops_def stream_outcome_def split: stream_event.split)

lemma running_within_limit: "(\<And>i. i < n \<Longrightarrow> \<not> stops ev i) \<Longrightarrow> length (arrived ev n) \<le> MAX_RESPONSE_BODY_BYTES"
  by (cases n) (auto simp: stops_def not_less simp del: arrived.simps(2))

lemma read_stream_skip:
  "(\<And>i. i < n \<Longrightarrow> \<not> stops ev i) \<Longrightarrow> read_stream ev 0 [] = read_stream ev n (arrived ev n)"
proof (induction n)
  case (Suc n)
  then have "read_stream ev 0 [] = read_stream ev n (arrived ev n)" by simp
  also have "\<dots> = read_stream ev (Suc n) (arrived ev (Suc n))"
    using Suc.prems by (simp add: read_stream_step running_within_limit del: arrived.simps(2))
  finally show ?case .
qed simp

lemma read_stream_first_stop:
  "(\<And>i. i < n \<Longrightarrow> \<not> stops ev i) \<Longrightarrow> stops ev n \<Longrightarrow> read_stream ev 0 [] = Some (stream_outcome ev n)"
  by (simp add: read_stream_skip [of n] read_stream_step running_within_limit)

lemma read_stream_returns_stops:
  assumes "read_stream ev n acc = Some r" "acc = arrived ev n" "length acc \<le> MAX_RESPONSE_BODY_BYTES"
  shows "\<exists>m\<ge>n. stops ev m"
  using assms
proof (induction rule: read_stream.raw_induct [rotated 1, consumes 1, case_names step])
  case (step f ev n acc r)
  show ?case
  proof (cases "stops ev n")
    case False
    with step(2-) obtain c where "ev n = Arrived c" "f ev (Suc n) (acc @ c) = Some r"
        "length (acc @ c) \<le> MAX_RESPONSE_BODY_BYTES"
      by (auto simp: stops_def split: stream_event.splits if_splits)
    with step(1) [of ev "Suc n" "acc @ c" r] step(3-) have "\<exists>m\<ge>Suc n. stops ev m" by simp
    then show ?thesis using Suc_leD by blast
  qed auto
qed

lemma read_stream_None: "read_stream ev 0 [] = None" if "\<And>n. \<not> stops ev n"
  using read_stream_returns_stops [of ev 0 "[]"] that by (cases "read_stream ev 0 []") auto

lemma first_stop: "stops ev n \<Longrightarrow> \<exists>m\<le>n. stops ev m \<and> (\<forall>i<m. \<not> stops ev i)"
  using exists_least_iff [of "stops ev"] by (metis not_le_imp_less)

subsection \<open>Bodies that end\<close>

definition stream_of :: "chunk list \<Rightarrow> nat \<Rightarrow> stream_event" where
  "stream_of cs n =
     (if n < length cs then (case cs ! n of Chunk c \<Rightarrow> Arrived c | ChunkFailed \<Rightarrow> Broke) else Ended)"

lemma read_stream_chunks:
  "(\<And>i. ev (n + i) = stream_of cs i) \<Longrightarrow> read_stream ev n acc = Some (read_chunks acc cs)"
proof (induction acc cs arbitrary: n rule: read_chunks.induct)
  case (1 acc)
  with 1 [of 0] show ?case by (subst read_stream.simps) (simp add: stream_of_def)
next
  case (2 acc c cs)
  have "ev (Suc n + i) = stream_of cs i" for i using 2(2) [of "Suc i"] by (simp add: stream_of_def)
  moreover have "ev n = Arrived c" using 2(2) [of 0] by (simp add: stream_of_def)
  ultimately show ?case using 2(1) by (subst read_stream.simps) simp
next
  case (3 acc cs)
  with 3 [of 0] show ?case by (subst read_stream.simps) (simp add: stream_of_def)
qed

subsection \<open>Chunks with content\<close>

lemma arrived_grows: "(\<And>i. i < n \<Longrightarrow> \<exists>c. ev i = Arrived c \<and> c \<noteq> []) \<Longrightarrow> n \<le> length (arrived ev n)"
proof (induction n)
  case (Suc n)
  then obtain c where "ev n = Arrived c" "c \<noteq> []" by blast
  with Suc show ?case by (cases c) auto
qed simp

lemma content_stops: "\<exists>n\<le>MAX_RESPONSE_BODY_BYTES. stops ev n" if "\<And>n. ev n \<noteq> Arrived []"
proof (rule ccontr)
  assume running: "\<not> ?thesis"
  have "\<exists>c. ev i = Arrived c \<and> c \<noteq> []" if "i < Suc MAX_RESPONSE_BODY_BYTES" for i
    using running that \<open>ev i \<noteq> Arrived []\<close> by (cases "ev i") (auto simp: stops_def less_Suc_eq_le)
  then have "Suc MAX_RESPONSE_BODY_BYTES \<le> length (arrived ev (Suc MAX_RESPONSE_BODY_BYTES))"
    by (rule arrived_grows)
  then have "stops ev MAX_RESPONSE_BODY_BYTES" by (simp add: stops_def del: arrived.simps(2))
  with running show False by blast
qed

text \<open>
  C21: the loop that reads the upstream's body returns exactly when the body ends, breaks off or exceeds
  the limit at some call, and then with the outcome of the first such call; on a body that ends it
  gives what reading the list of its chunks gives. An upstream that keeps sending chunks with content
  cannot keep the loop running: it returns after at most one call more than the limit has bytes. One
  that keeps sending empty chunks can.
\<close>
theorem body_read_terminates:
  "((\<exists>r. read_stream ev 0 [] = Some r) \<longleftrightarrow> (\<exists>n. stops ev n))
    \<and> (stops ev n \<and> (\<forall>i<n. \<not> stops ev i) \<longrightarrow> read_stream ev 0 [] = Some (stream_outcome ev n))
    \<and> ((\<forall>i. ev i \<noteq> Arrived []) \<longrightarrow>
         (\<exists>m\<le>MAX_RESPONSE_BODY_BYTES. stops ev m \<and> read_stream ev 0 [] = Some (stream_outcome ev m)))
    \<and> read_stream (stream_of cs) 0 [] = Some (read_chunks [] cs)
    \<and> read_stream (\<lambda>_. Arrived []) 0 [] = None"
proof (intro conjI impI iffI)
  show "\<exists>n. stops ev n" if "\<exists>r. read_stream ev 0 [] = Some r"
    using that read_stream_None [of ev] by fastforce
  show "\<exists>r. read_stream ev 0 [] = Some r" if "\<exists>n. stops ev n"
    using that first_stop [of ev] read_stream_first_stop [of _ ev] by metis
  show "read_stream ev 0 [] = Some (stream_outcome ev n)" if "stops ev n \<and> (\<forall>i<n. \<not> stops ev i)"
    using that read_stream_first_stop by blast
  show "\<exists>m\<le>MAX_RESPONSE_BODY_BYTES. stops ev m \<and> read_stream ev 0 [] = Some (stream_outcome ev m)"
    if content: "\<forall>i. ev i \<noteq> Arrived []"
  proof -
    obtain n where n: "n \<le> MAX_RESPONSE_BODY_BYTES" "stops ev n" using content_stops content by blast
    obtain m where "m \<le> n" "stops ev m" "\<forall>i<m. \<not> stops ev i" using first_stop [OF n(2)] by blast
    with n(1) show ?thesis using read_stream_first_stop by (intro exI [of _ m]) auto
  qed
  show "read_stream (stream_of cs) 0 [] = Some (read_chunks [] cs)" by (rule read_stream_chunks) simp
  have "length (arrived (\<lambda>_. Arrived []) n) = 0" for n by (induction n) simp_all
  then show "read_stream (\<lambda>_. Arrived []) 0 [] = None"
    by (intro read_stream_None) (simp add: stops_def del: arrived.simps(2))
qed

text \<open>An upstream that sends \<open>data\<close> for ever is answered.\<close>

theorem body_read_terminates_witness:
  "read_stream (\<lambda>_. Arrived ''data'') 0 [] = Some TooLarge
    \<and> stops (\<lambda>_. Ended) 0 \<and> read_stream (\<lambda>_. Ended) 0 [] = Some (Complete [])"
  using body_read_terminates [of "\<lambda>_. Arrived ''data''" 0 "[]"] body_read_terminates [of "\<lambda>_. Ended" 0 "[]"]
  by (auto simp: stops_def stream_outcome_def)

end
