(* ===== verification/LogRecords.thy ===== *)
theory LogRecords
  imports Service
begin

text \<open>
  What the program writes about itself: the hand-written \<open>Debug\<close> forms of the replay guard, its
  reservations (\<open>nonce_guard.rs\<close>) and the upstream's configuration (\<open>proxy.rs\<close>), and the log events
  of the start-up and of the request logger (\<open>service/src/main.rs\<close>) and of the proxy. An event is its
  level, its message and its fields; the text that the subscriber prints for it belongs to the package
  \<open>tracing\<close>. The names of a header block are a set: the order in which a map gives its keys is its own.

  The lemmas say what these outputs cannot depend on: the replay key of an authorization, the
  upstream credential, and the values of headers.
\<close>

subsection \<open>Debug forms\<close>

text \<open>\<open>Duration\<close>'s debug form: the unit is the largest that fits, the fraction ends with a digit.\<close>

definition fraction :: "nat \<Rightarrow> nat \<Rightarrow> str" where
  "fraction w n = (if n = 0 then '''' else CHR ''.'' # trim_end_matches CHR ''0'' (pad_zeros w (show_nat n)))"

definition debug_duration :: "duration \<Rightarrow> str" where
  "debug_duration d =
     (if nanos_per_sec \<le> d then show_nat (d div nanos_per_sec) @ fraction 9 (d mod nanos_per_sec) @ ''s''
      else if nanos_per_milli \<le> d then show_nat (d div nanos_per_milli) @ fraction 6 (d mod nanos_per_milli) @ ''ms''
      else if 1000 \<le> d then show_nat (d div 1000) @ fraction 3 (d mod 1000) @ bytes_str [0xC2, 0xB5] @ ''s''
      else show_nat d @ ''ns'')"

lemma debug_whole_seconds: "0 < s \<Longrightarrow> debug_duration (s * nanos_per_sec) = show_nat s @ ''s''"
  by (simp add: debug_duration_def fraction_def nanos_per_sec_def)

definition debug_bool :: "bool \<Rightarrow> str" where
  "debug_bool b = (if b then ''true'' else ''false'')"

text \<open>\<open>debug_struct(..).field(..)..finish()\<close>, and \<open>finish_non_exhaustive()\<close>.\<close>

fun debug_fields :: "(str \<times> str) list \<Rightarrow> str" where
  "debug_fields [] = ''''"
| "debug_fields [(f, v)] = f @ '': '' @ v"
| "debug_fields ((f, v) # fs) = f @ '': '' @ v @ '', '' @ debug_fields fs"

definition debug_struct :: "str \<Rightarrow> (str \<times> str) list \<Rightarrow> str" where
  "debug_struct name fs = name @ '' { '' @ debug_fields fs @ '' }''"

definition debug_struct_more :: "str \<Rightarrow> (str \<times> str) list \<Rightarrow> str" where
  "debug_struct_more name fs = name @ '' { '' @ debug_fields fs @ '', .. }''"

definition debug_nonce_guard :: "nonce_guard \<Rightarrow> str" where
  "debug_nonce_guard g = debug_struct ''PaymentNonceReplayGuard''
     [(''max_capacity'', show_nat (ng_max_capacity g)), (''ttl'', debug_duration (ng_ttl g)),
      (''len'', show_nat (guard_len g))]"

definition debug_reservation :: "reservation \<Rightarrow> str" where
  "debug_reservation r = debug_struct_more ''PaymentNonceReservation'' [(''retain'', debug_bool (res_retain r))]"

definition debug_upstream_config :: "externals \<Rightarrow> upstream_config \<Rightarrow> str" where
  "debug_upstream_config x c = debug_struct ''UpstreamConfig''
     [(''base_url'', debug_str x (uc_base_url c)), (''auth_header'', debug_str x (uc_auth_header c)),
      (''auth_value'', debug_str x (if uc_auth_value c = '''' then ''[empty]'' else ''[redacted]''))]"

lemma debug_examples:
  "debug_nonce_guard (new_guard 10000 600) = ''PaymentNonceReplayGuard { max_capacity: 10000, ttl: 600s, len: 0 }''"
  "debug_reservation \<lparr>res_key = ''secret'', res_generation = 7, res_retain = True\<rparr>
     = ''PaymentNonceReservation { retain: true, .. }''"
  "debug_duration 1500000 = ''1.5ms''"
  by (simp_all add: debug_nonce_guard_def debug_reservation_def debug_struct_def debug_struct_more_def
      debug_duration_def fraction_def new_guard_def guard_len_def from_secs_def nanos_per_sec_def
      nanos_per_milli_def debug_bool_def show_nat.simps digit_char_def pad_zeros_def trim_end_matches_def text_eval char_of_def)

subsection \<open>Log events\<close>

datatype level = Trace | Debug | Info | Warn | Error

datatype log_value =
    Shown str
  | Count nat
  | Flag bool
  | Number f64
  | Names "str set"
  | Elapsed duration
  | Optional "str option"
  | Terms payment_requirements
  | Settlement settle_response

text \<open>The last three stand for the derived debug forms of an optional text and of the two messages.\<close>

record log_event =
  le_level :: level
  le_message :: str
  le_fields :: "(str \<times> log_value) list"

definition header_names :: "headers \<Rightarrow> str set" where
  "header_names hs = fst ` set hs"

text \<open>The event of a completed start-up. The numbers that the limiter is made of have been read before.\<close>

definition logged_f64 :: "environ \<Rightarrow> str \<Rightarrow> str \<Rightarrow> log_value" where
  "logged_f64 e key fallback =
     (case parse_f64 (env_or e key fallback) of Some (Finite v) \<Rightarrow> Number v | _ \<Rightarrow> Number 0)"

definition startup_event :: "(f64 \<Rightarrow> str) \<Rightarrow> environ \<Rightarrow> service_config \<Rightarrow> log_event" where
  "startup_event show_f64 e c =
     (let rps = logged_f64 e ''RATE_LIMIT_RPS'' ''0''
      in \<lparr>le_level = Info, le_message = ''Configured kite-x402 wrapper'',
          le_fields =
            [(''port'', Count (unat (sc_port c))),
             (''network'', Shown (env_or e ''KITE_NETWORK'' ''mainnet'')),
             (''chain_id'', Shown (kc_network (pc_chain (sc_payment c)))),
             (''asset'', Shown (kc_asset_symbol (pc_chain (sc_payment c)))),
             (''price_usd'', Shown (pc_price_usd (sc_payment c))),
             (''pay_to'', Shown (pc_pay_to (sc_payment c))),
             (''upstream_url'', Shown (uc_base_url (sc_upstream c))),
             (''facilitator_url'', Shown (env_or e ''FACILITATOR_URL'' FACILITATOR_URL)),
             (''rate_limit_rps'', rps),
             (''rate_limit_burst'',
               logged_f64 e ''RATE_LIMIT_BURST'' (case rps of Number v \<Rightarrow> show_f64 v | _ \<Rightarrow> '''')),
             (''upstream_timeout_ms'', Count (as_millis (li_upstream_timeout (sc_limits c)))),
             (''facilitator_timeout_ms'', Count (as_millis (li_facilitator_timeout (sc_limits c)))),
             (''max_concurrent_requests'', Count (li_max_concurrent (sc_limits c))),
             (''cors_origin'', Shown (env_or e ''CORS_ORIGIN'' '''')),
             (''cors_enabled'', Flag (is_enabled (sc_cors c))),
             (''auth_injected'', Flag (uc_auth_value (sc_upstream c) \<noteq> ''''))]\<rparr>)"

text \<open>
  The request logger: one event when the request comes in and two when the inner service has
  answered, none of these when its future is dropped. \<open>answer\<close> is what the inner service gave.
\<close>

definition incoming_event :: "str \<Rightarrow> request \<Rightarrow> log_event" where
  "incoming_event request_id req =
     \<lparr>le_level = Debug, le_message = ''--> Incoming HTTP request'',
      le_fields = [(''request_id'', Shown request_id), (''method'', Shown (req_method req)),
        (''uri'', Shown (req_uri req)), (''header_names'', Names (header_names (req_headers req)))]\<rparr>"

definition outcome_level :: "nat \<Rightarrow> level" where
  "outcome_level status =
     (if 500 \<le> status \<and> status < 600 then Error
      else if status = 402 then Info
      else if 400 \<le> status \<and> status < 500 then Warn else Info)"

definition outcome_message :: "nat \<Rightarrow> str" where
  "outcome_message status =
     (if 500 \<le> status \<and> status < 600 then ''<-- HTTP request failed (server error)''
      else if status = 402 then ''<-- HTTP request requires payment (402 challenge issued)''
      else if 400 \<le> status \<and> status < 500 then ''<-- HTTP request client error''
      else ''<-- HTTP request completed successfully'')"

definition outcome_fields :: "str \<Rightarrow> request \<Rightarrow> nat \<Rightarrow> duration \<Rightarrow> (str \<times> log_value) list" where
  "outcome_fields request_id req status latency =
     [(''request_id'', Shown request_id), (''method'', Shown (req_method req)), (''uri'', Shown (req_uri req)),
      (''status'', Count status), (''latency'', Elapsed latency)]"

definition request_events :: "externals \<Rightarrow> duration option \<Rightarrow> request \<Rightarrow> u64 \<Rightarrow> response option \<Rightarrow> duration
    \<Rightarrow> log_event list" where
  "request_events x since_epoch req counter answer latency =
     (let request_id = fst (take_request_id x since_epoch req counter)
      in incoming_event request_id (tag_request x request_id req) #
         (case answer of
            None \<Rightarrow> []
          | Some r \<Rightarrow>
              let r = tag_response x request_id r;
                  status = resp_status r;
                  common = outcome_fields request_id req status latency
              in [\<lparr>le_level = outcome_level status, le_message = outcome_message status, le_fields = common\<rparr>,
                  \<lparr>le_level = Debug, le_message = ''<-- HTTP response details'',
                   le_fields = common @ [(''response_header_names'', Names (header_names (resp_headers r)))]\<rparr>]))"

text \<open>The proxy; \<open>too_large\<close> is the message of the error that reading the request body gives.\<close>

definition reply_events :: "str \<Rightarrow> upstream_reply \<Rightarrow> log_event list" where
  "reply_events url reply =
     (case reply of
        Unreachable detail \<Rightarrow>
          [\<lparr>le_level = Error, le_message = ''Upstream API request failed (unreachable or timed out)'',
            le_fields = [(''url'', Shown url), (''error'', Shown detail)]\<rparr>]
      | UpstreamReplied status hs chunks \<Rightarrow>
          [\<lparr>le_level = Debug, le_message = ''Received response from upstream API'',
            le_fields = [(''url'', Shown url),
              (''status'', Count (if 100 \<le> status \<and> status < 1000 then status else 502))]\<rparr>])"

definition proxy_events :: "header_checks \<Rightarrow> str \<Rightarrow> upstream_config \<Rightarrow> (upstream_request \<Rightarrow> upstream_reply)
    \<Rightarrow> proxy_request \<Rightarrow> log_event list" where
  "proxy_events k too_large cfg upstream req =
     (let path_and_query = (case px_path_query req of Some pq \<Rightarrow> pq | None \<Rightarrow> ''/'')
      in if has_dot_segment path_and_query
         then [\<lparr>le_level = Warn, le_message = ''Rejected request with dot segments in the path'',
                le_fields = [(''path'', Shown path_and_query)]\<rparr>]
         else
           let url = uc_base_url cfg @ forwarded_path (px_nested req) path_and_query
           in \<lparr>le_level = Debug, le_message = ''Proxying request to upstream'',
               le_fields = [(''original_path'', Shown path_and_query), (''forwarded_url'', Shown url)]\<rparr> #
              (case build_request k cfg req of
                 Inl _ \<Rightarrow>
                   [\<lparr>le_level = Warn, le_message = ''Request body too large to proxy'',
                     le_fields = [(''max_bytes'', Count MAX_REQUEST_BODY_BYTES), (''error'', Shown too_large)]\<rparr>]
               | Inr out \<Rightarrow>
                   (if uc_auth_value cfg \<noteq> '''' \<and> hc_name k (uc_auth_header cfg) \<and> hc_text k (uc_auth_value cfg)
                    then [\<lparr>le_level = Trace, le_message = ''Injected upstream auth header'',
                           le_fields = [(''auth_header'', Shown (uc_auth_header cfg))]\<rparr>]
                    else []) @
                   \<lparr>le_level = Debug, le_message = ''Dispatching request to upstream API'',
                    le_fields = [(''method'', Shown (ur_method out)), (''url'', Shown url),
                      (''body_len'', Count (length (ur_body out)))]\<rparr> #
                   reply_events url (upstream out)))"

subsection \<open>What the outputs do not tell\<close>

definition same_logged_request :: "request \<Rightarrow> request \<Rightarrow> bool" where
  "same_logged_request a b \<longleftrightarrow> req_method a = req_method b \<and> req_uri a = req_uri b
     \<and> header_names (req_headers a) = header_names (req_headers b)
     \<and> hget ''x-request-id'' (req_headers a) = hget ''x-request-id'' (req_headers b)"

definition same_logged_response :: "response \<Rightarrow> response \<Rightarrow> bool" where
  "same_logged_response a b \<longleftrightarrow> resp_status a = resp_status b
     \<and> header_names (resp_headers a) = header_names (resp_headers b)"

lemma header_names_hinsert: "header_names (hinsert n v hs) = insert (ascii_lower n) (header_names hs)"
  by (force simp: header_names_def hinsert_def)

lemma hcontains_names: "hcontains n hs \<longleftrightarrow> ascii_lower n \<in> header_names hs"
  by (simp add: hcontains_def header_names_def)

lemma request_events_names_only:
  assumes "same_logged_request req req'" "rel_option same_logged_response answer answer'"
  shows "request_events x since_epoch req counter answer latency
    = request_events x since_epoch req' counter answer' latency"
proof -
  have rid: "take_request_id x since_epoch req counter = take_request_id x since_epoch req' counter"
    using assms(1) by (simp add: take_request_id_def same_logged_request_def)
  have incoming: "incoming_event i (tag_request x i req) = incoming_event i (tag_request x i req')" for i
    using assms(1) by (simp add: incoming_event_def tag_request_def same_logged_request_def header_names_hinsert)
  have tagged: "resp_status (tag_response x i r) = resp_status (tag_response x i r')
      \<and> header_names (resp_headers (tag_response x i r)) = header_names (resp_headers (tag_response x i r'))"
    if "same_logged_response r r'" for i r r'
    using that by (simp add: tag_response_def same_logged_response_def hcontains_names set_header_def header_names_hinsert)
  have fields: "outcome_fields i req st latency = outcome_fields i req' st latency" for i st
    using assms(1) by (simp add: outcome_fields_def same_logged_request_def)
  show ?thesis
  proof (cases answer)
    case None
    with assms(2) show ?thesis by (cases answer') (simp_all add: request_events_def Let_def rid incoming)
  next
    case (Some r)
    with assms(2) obtain r' where r': "answer' = Some r'" "same_logged_response r r'" by (cases answer') auto
    show ?thesis
      using tagged [OF r'(2)] by (simp add: Some r'(1) request_events_def Let_def rid incoming fields)
  qed
qed

lemma env_other:
  assumes "key \<noteq> name"
  shows "env_var (e(name \<mapsto> w)) key = env_var e key" "env_or (e(name \<mapsto> w)) key fallback = env_or e key fallback"
  using assms by (simp_all add: env_var_def env_or_def)

lemma load_service_credential:
  fixes e :: environ
  assumes "trim w \<noteq> ''''"
  shows "load_service x show_f64 (e(''UPSTREAM_AUTH_VALUE'' \<mapsto> Unicode w))
    = map_sum id (\<lambda>c. c\<lparr>sc_upstream := (sc_upstream c)\<lparr>uc_auth_value := trim w\<rparr>\<rparr>) (load_service x show_f64 e)"
proof -
  let ?e = "e(''UPSTREAM_AUTH_VALUE'' \<mapsto> Unicode w)"
  have parts: "load_rate_limiter show_f64 ?e = load_rate_limiter show_f64 e" "load_limits ?e = load_limits e"
    "load_retry ?e = load_retry e" "load_nonce_guard ?e = load_nonce_guard e" "load_security ?e = load_security e"
    "load_expiration_guard ?e = load_expiration_guard e"
    by (simp_all add: load_rate_limiter_def load_limits_def load_retry_def load_nonce_guard_def load_security_def
        load_expiration_guard_def read_nat_def read_f64_def env_other)
  have credential: "env_or ?e ''UPSTREAM_AUTH_VALUE'' '''' = trim w"
    using assms by (simp add: env_or_def env_var_def)
  show ?thesis
    unfolding load_service_def
    by (simp add: parts credential env_other read_nat_def service_payment_def service_upstream_def Let_def and_then_def
        expect_def split: sum.split option.split)
qed

lemma startup_event_credential:
  assumes "load_service x show_f64 e = Inr c" "uc_auth_value (sc_upstream c) \<noteq> ''''" "trim w \<noteq> ''''"
  shows "\<exists>c'. load_service x show_f64 (e(''UPSTREAM_AUTH_VALUE'' \<mapsto> Unicode w)) = Inr c'
    \<and> startup_event show_f64 (e(''UPSTREAM_AUTH_VALUE'' \<mapsto> Unicode w)) c' = startup_event show_f64 e c"
  using assms by (simp add: load_service_credential startup_event_def logged_f64_def env_other Let_def)

lemma build_request_with_credential:
  "build_request k (cfg\<lparr>uc_auth_value := v\<rparr>) req =
     map_sum id (\<lambda>out. out\<lparr>ur_headers := request_headers k (cfg\<lparr>uc_auth_value := v\<rparr>) (px_headers req)\<rparr>)
       (build_request k cfg req)"
  by (auto simp: build_request_def Let_def split: option.splits)

end
