(* ===== verification/GateEvents.thy ===== *)
theory GateEvents
  imports LogRecords Gate_Samples
begin

text \<open>
  The log events of the payment gate (\<open>middleware.rs\<close>), of the header codec (\<open>wire.rs\<close>) and of the
  facilitator client (\<open>facilitator.rs\<close>), stage by stage like \<open>Gate\<close>. Two events go to the target
  \<open>kite_x402::audit\<close>; they are the audit trail of the settlements. The client's events while a call is
  cut off by a broken connection, and those of the protected handler, are not listed here.

  The audit trail is compared with what the middleware does, and the secrets of \<open>LogRecords\<close> are
  extended by the signature of a payment.
\<close>

definition event :: "level \<Rightarrow> str \<Rightarrow> (str \<times> log_value) list \<Rightarrow> log_event" where
  "event l message fs = \<lparr>le_level = l, le_message = message, le_fields = fs\<rparr>"

datatype written = Plain log_event | Audit log_event

definition audit_trail :: "written list \<Rightarrow> log_event list" where
  "audit_trail ws = [e. Audit e \<leftarrow> ws]"

lemma audit_trail_simps [simp]:
  "audit_trail [] = []" "audit_trail (Plain e # ws) = audit_trail ws" "audit_trail (Audit e # ws) = e # audit_trail ws"
  "audit_trail (vs @ ws) = audit_trail vs @ audit_trail ws" "audit_trail (map Plain es) = []"
  by (simp_all add: audit_trail_def comp_def)

subsection \<open>The facilitator client\<close>

definition send_events :: "externals \<Rightarrow> facilitator_client \<Rightarrow> str \<Rightarrow> (json \<Rightarrow> 'a option) \<Rightarrow> http_outcome
    \<Rightarrow> log_event list" where
  "send_events x c op decode outcome =
     (let url = fc_base_url c @ ''/'' @ op;
          here = [(''op'', Shown op), (''url'', Shown url)]
      in event Debug ''Sending HTTP request to facilitator'' here #
         (case outcome of
            SendFailed err \<Rightarrow>
              [event Error ''Facilitator HTTP request failed'' (here @ [(''error'', Shown (re_text err))])]
          | Replied status body \<Rightarrow>
              let text = (case body of Some t \<Rightarrow> t | None \<Rightarrow> '''');
                  here = here @ [(''status'', Count status)]
              in if \<not> is_success status
                 then [event Warn ''Facilitator returned non-success HTTP status'' (here @ [(''body'', Shown text)])]
                 else event Debug ''Facilitator returned success HTTP status'' here #
                   (case Option.bind (json_parse x text) decode of
                      Some _ \<Rightarrow> []
                    | None \<Rightarrow> [event Error ''Failed to parse facilitator JSON response''
                                (here @ [(''error'', Shown (json_error x text)), (''body'', Shown text)])])))"

function retry_events :: "retry_config \<Rightarrow> str \<Rightarrow> nat \<Rightarrow> (nat \<Rightarrow> facilitator_error + 'a) \<Rightarrow> (nat \<Rightarrow> log_event list)
    \<Rightarrow> nat \<Rightarrow> log_event list" where
  "retry_events cfg op max_retries attempts sends attempt =
     sends attempt @
     (case attempts attempt of
        Inr resp \<Rightarrow> []
      | Inl err \<Rightarrow>
          if attempt < max_retries \<and> is_transient err
          then event Warn ''Transient facilitator failure, retrying with backoff''
                 [(''op'', Shown op), (''attempt'', Count (Suc attempt)), (''max_retries'', Count max_retries),
                  (''backoff_ms'', Count (as_millis (calculate_backoff cfg (of_nat attempt)))),
                  (''error'', Shown (facilitator_error_message err))]
               # retry_events cfg op max_retries attempts sends (Suc attempt)
          else [])"
  by pat_completeness auto
termination
  by (relation "measure (\<lambda>(cfg, op, m, f, s, a). m - a)") auto

declare retry_events.simps [simp del]

definition call_events :: "externals \<Rightarrow> facilitator_client \<Rightarrow> str \<Rightarrow> (json \<Rightarrow> 'a option)
    \<Rightarrow> payment_payload \<Rightarrow> payment_requirements \<Rightarrow> (nat \<Rightarrow> fac_request \<Rightarrow> http_outcome) \<Rightarrow> log_event list" where
  "call_events x c op decode payload r transport =
     (let max_retries = (if op = ''verify'' then unat (rc_max_retries (fc_retry_config c)) else 0);
          req = \<lparr>fr_url = fc_base_url c @ ''/'' @ op, fr_body = ser_facilitator_request payload r\<rparr>
      in retry_events (fc_retry_config c) op max_retries
           (\<lambda>n. send_single x c op decode payload r (transport n))
           (\<lambda>n. send_events x c op decode (transport n req)) 0)"

subsection \<open>The header codec\<close>

text \<open>\<open>b64_error\<close> gives the text of the error of package \<open>base64\<close>.\<close>

definition decode_events :: "externals \<Rightarrow> (str \<Rightarrow> str) \<Rightarrow> str \<Rightarrow> log_event list" where
  "decode_events x b64_error header_value =
     (case b64_decode x (trim header_value) of
        None \<Rightarrow> [event Debug ''Failed to base64-decode payment header'' [(''error'', Shown (b64_error (trim header_value)))]]
      | Some bytes \<Rightarrow>
        (case Option.bind (json_parse x bytes) de_payload of
           Some p \<Rightarrow>
             if pp_x402_version p = 2 then []
             else [event Debug ''Unsupported x402 payment version'' [(''version'', Count (unat (pp_x402_version p)))]]
         | None \<Rightarrow> [event Debug ''Failed to parse JSON payment payload'' [(''error'', Shown (json_error x bytes))]]))"

subsection \<open>The middleware\<close>

definition admit_events :: "externals \<Rightarrow> (str \<Rightarrow> str) \<Rightarrow> u64 option \<Rightarrow> instant \<Rightarrow> payment_config \<Rightarrow> gate_request
    \<Rightarrow> log_event list" where
  "admit_events x b64_error clock now c q =
     (let url = resource_url q;
          uri = (''uri'', Shown url)
      in event Debug ''Processing request through x402 payment gate''
           [(''method'', Shown (req_method (gr_request q))), uri] #
         (case requirements x c of
            None \<Rightarrow> []
          | Some (Inl msg) \<Rightarrow>
              [event Error ''Failed to compute payment requirements (invalid server configuration)'' [(''error'', Shown msg)]]
          | Some (Inr r) \<Rightarrow>
             (case payment_header x (req_headers (gr_request q)) of
                None \<Rightarrow>
                  [event Info ''No payment signature header found; returning 402 Payment Required challenge'' [uri],
                   event Debug ''402 challenge requirements details'' [uri, (''requirements'', Terms r)]]
              | Some hv \<Rightarrow>
                  event Debug ''Payment signature header present; decoding payload'' [uri] #
                  decode_events x b64_error hv @
                  (case decode_payment_payload x hv of
                     None \<Rightarrow> [event Warn ''Failed to decode payment signature header; returning 402'' [uri]]
                   | Some p \<Rightarrow>
                       if pp_accepted p \<noteq> r
                       then [event Warn ''Payment requirements mismatch; returning 402''
                               [uri, (''expected'', Terms r), (''actual'', Terms (pp_accepted p))]]
                       else
                         (case window_error (pc_expiration_guard c) clock p of
                            Some e \<Rightarrow>
                              [event Warn ''Payment authorization rejected by expiration guard; returning 402''
                                 [uri, (''error'', Shown (expiration_message e))]]
                          | None \<Rightarrow>
                            (case snd (take_reservation x p now c) of
                               Inl CapacityExceeded \<Rightarrow> []
                             | Inl (ReplayDetected k) \<Rightarrow>
                                 [event Warn ''Payment authorization rejected by nonce replay guard; returning 402''
                                    [uri, (''error'', Shown (nonce_error_message (ReplayDetected k)))]]
                             | Inr _ \<Rightarrow>
                                 [event Debug ''Calling facilitator to verify payment signature''
                                    [uri, (''facilitator'', Shown (client_base_url (pc_facilitator c))),
                                     (''network'', Shown (pr_network r)), (''amount'', Shown (pr_amount r)),
                                     (''pay_to'', Shown (pr_pay_to r))]]))))))"

definition verified_events :: "admitted \<Rightarrow> (facilitator_error + verify_response) \<Rightarrow> log_event list" where
  "verified_events a outcome =
     (let uri = (''uri'', Shown (ad_url a))
      in case outcome of
           Inl e \<Rightarrow> [event Error ''Facilitator verify unavailable; returning 402''
                      [uri, (''error'', Shown (facilitator_error_message e))]]
         | Inr v \<Rightarrow>
             if \<not> vr_is_valid v
             then [event Warn ''Payment rejected by facilitator; returning 402''
                     [uri, (''reason'', Shown (case vr_invalid_reason v of Some r \<Rightarrow> r | None \<Rightarrow> ''Payment invalid'')),
                      (''payer'', Optional (vr_payer v))]]
             else [event Info ''Payment signature verified successfully by facilitator''
                     [uri, (''payer'', Optional (vr_payer v))],
                   event Debug ''Running inner handler (forwarding to upstream)'' [uri]])"

definition handled_events :: "admitted \<Rightarrow> str option \<Rightarrow> response \<Rightarrow> log_event list" where
  "handled_events a payer resp =
     (let here = [(''uri'', Shown (ad_url a)), (''status'', Count (resp_status resp))]
      in if 400 \<le> resp_status resp
         then [event Warn ''Upstream returned HTTP status >= 400; skipping settlement'' here]
         else [event Info ''Upstream succeeded; settling payment with facilitator'' (here @ [(''payer'', Optional payer)])])"

text \<open>The audit record of a settlement the facilitator answered.\<close>

definition settlement_audit :: "str \<Rightarrow> settle_response \<Rightarrow> log_event" where
  "settlement_audit url s =
     (if sr_success s
      then event Info ''Payment settlement audit: confirmed''
             [(''event'', Shown ''settlement_success''), (''uri'', Shown url), (''tx'', Shown (sr_transaction s)),
              (''network'', Shown (sr_network s)), (''payer'', Optional (sr_payer s)), (''amount'', Optional (sr_amount s))]
      else event Warn ''Payment settlement audit: failed''
             [(''event'', Shown ''settlement_failure''), (''uri'', Shown url),
              (''error_reason'', Optional (sr_error_reason s))])"

definition settled_events :: "admitted \<Rightarrow> (facilitator_error + settle_response) \<Rightarrow> written list" where
  "settled_events a outcome =
     (let uri = (''uri'', Shown (ad_url a))
      in case outcome of
           Inl e \<Rightarrow> [Plain (event Error ''Facilitator settle unavailable''
                             [uri, (''error'', Shown (facilitator_error_message e))])]
         | Inr s \<Rightarrow>
             if \<not> sr_success s
             then [Plain (event Error ''Facilitator settlement failed''
                     [uri, (''error_reason'', Optional (sr_error_reason s)), (''error_message'', Optional (sr_error_message s))]),
                   Audit (settlement_audit (ad_url a) s)]
             else [Plain (event Info ''Payment settled successfully on-chain''
                     [uri, (''tx'', Shown (sr_transaction s)), (''network'', Shown (sr_network s)),
                      (''payer'', Optional (sr_payer s)), (''amount'', Optional (sr_amount s))]),
                   Audit (settlement_audit (ad_url a) s),
                   Plain (event Debug ''Full settlement response details'' [(''settle'', Settlement s)])])"

subsection \<open>A run of the middleware\<close>

definition settle_run_events :: "environment \<Rightarrow> await_point option \<Rightarrow> payment_config \<Rightarrow> admitted \<Rightarrow> written list" where
  "settle_run_events e cancel c a =
     (if cancel = Some AwaitSettle then []
      else map Plain (call_events (env_x e) (pc_facilitator c) ''settle'' de_settle_response
             (ad_payload a) (ad_requirements a) (env_settle e)) @
           settled_events a (settle_outcome e c (ad_payload a) (ad_requirements a)))"

definition handler_run_events :: "environment \<Rightarrow> await_point option \<Rightarrow> payment_config \<Rightarrow> admitted \<Rightarrow> str option
    \<Rightarrow> request \<Rightarrow> written list" where
  "handler_run_events e cancel c a payer req =
     (if cancel = Some AwaitHandler then []
      else map Plain (handled_events a payer (env_handler e req)) @
        (case after_handler (env_finish_at e) c a (env_handler e req) of
           (c', Continue resp) \<Rightarrow> settle_run_events e cancel c' a
         | _ \<Rightarrow> []))"

definition verify_run_events :: "environment \<Rightarrow> await_point option \<Rightarrow> payment_config \<Rightarrow> admitted \<Rightarrow> request
    \<Rightarrow> written list" where
  "verify_run_events e cancel c a req =
     (if cancel = Some AwaitVerify then []
      else
        let outcome = verify_outcome e c (ad_payload a) (ad_requirements a);
            payer = (case outcome of Inr v \<Rightarrow> vr_payer v | Inl _ \<Rightarrow> None)
        in map Plain (call_events (env_x e) (pc_facilitator c) ''verify'' de_verify_response
             (ad_payload a) (ad_requirements a) (env_verify e) @ verified_events a outcome) @
           (case after_verify (env_x e) (env_finish_at e) c a outcome of
              (c', Continue a') \<Rightarrow> handler_run_events e cancel c' a' payer req
            | _ \<Rightarrow> []))"

definition gate_events :: "environment \<Rightarrow> (str \<Rightarrow> str) \<Rightarrow> await_point option \<Rightarrow> payment_config \<Rightarrow> gate_request
    \<Rightarrow> written list" where
  "gate_events e b64_error cancel c q =
     map Plain (admit_events (env_x e) b64_error (env_unix_clock e) (env_reserve_at e) c q) @
     (case admit (env_x e) (env_unix_clock e) (env_reserve_at e) c q of
        (c', Continue a) \<Rightarrow> verify_run_events e cancel c' a (gr_request q)
      | _ \<Rightarrow> [])"

subsection \<open>The audit trail\<close>

text \<open>What a run that made its settlement call audits.\<close>

definition audited_outcome :: "await_point option \<Rightarrow> str \<Rightarrow> (facilitator_error + settle_response) \<Rightarrow> log_event list" where
  "audited_outcome cancel url outcome =
     (if cancel = Some AwaitSettle then [] else case outcome of Inl _ \<Rightarrow> [] | Inr s \<Rightarrow> [settlement_audit url s])"

lemma audit_settle:
  "audit_trail (settle_run_events e k c a)
     = audited_outcome k (ad_url a) (settle_outcome e c (ad_payload a) (ad_requirements a))"
  by (simp add: settle_run_events_def settled_events_def audited_outcome_def Let_def split: sum.split)

lemma audit_handler:
  "audit_trail (handler_run_events e k c a payer req) =
     (if k \<noteq> Some AwaitHandler \<and> resp_status (env_handler e req) < 400
      then audited_outcome k (ad_url a) (settle_outcome e c (ad_payload a) (ad_requirements a)) else [])"
  by (simp add: handler_run_events_def after_handler_cases audit_settle)

lemma audit_verify:
  "audit_trail (verify_run_events e k c a req) =
     (if k \<noteq> Some AwaitVerify \<and> verified (verify_outcome e c (ad_payload a) (ad_requirements a))
        \<and> k \<noteq> Some AwaitHandler \<and> resp_status (env_handler e req) < 400
      then audited_outcome k (ad_url a) (settle_outcome e c (ad_payload a) (ad_requirements a)) else [])"
  by (auto simp: verify_run_events_def after_verify_def verified_def audit_handler Let_def split: sum.split)

text \<open>The two counters of settlements, and what a run adds to them.\<close>

definition confirmed :: "log_event \<Rightarrow> bool" where
  "confirmed ev \<longleftrightarrow> le_message ev = ''Payment settlement audit: confirmed''"

definition settlement_counts :: "payment_config \<Rightarrow> (u64 \<times> u64) option" where
  "settlement_counts c = map_option (\<lambda>m. (pm_settlements_success m, pm_settlements_failed m)) (pc_metrics c)"

definition count_settlements :: "log_event list \<Rightarrow> bool \<Rightarrow> (u64 \<times> u64) option \<Rightarrow> (u64 \<times> u64) option" where
  "count_settlements trail unanswered = map_option (\<lambda>(done, failed).
     (done + of_nat (length (filter confirmed trail)),
      failed + of_nat (length (filter (\<lambda>ev. \<not> confirmed ev) trail)) + (if unanswered then 1 else 0)))"

definition unanswered :: "await_point option \<Rightarrow> (facilitator_error + settle_response) \<Rightarrow> bool" where
  "unanswered cancel outcome \<longleftrightarrow> cancel \<noteq> Some AwaitSettle \<and> (\<exists>err. outcome = Inl err)"

lemma confirmed_audit [simp]: "confirmed (settlement_audit url s) \<longleftrightarrow> sr_success s"
  by (simp add: confirmed_def settlement_audit_def event_def)

lemma count_nothing [simp]: "count_settlements [] False n = n"
  by (cases n) (simp_all add: count_settlements_def split: prod.split)

lemma settlement_counts_same [simp]:
  "settlement_counts (on_metrics record_request c) = settlement_counts c"
  "settlement_counts (on_metrics record_challenge c) = settlement_counts c"
  "settlement_counts (on_metrics (record_verification b) c) = settlement_counts c"
  "settlement_counts (on_metrics (record_challenge \<circ> record_verification b) c) = settlement_counts c"
  "settlement_counts (drop_held r now c) = settlement_counts c"
  "settlement_counts (release_held r now c) = settlement_counts c"
  "settlement_counts (c\<lparr>pc_nonce_guard := g\<rparr>) = settlement_counts c"
  by (cases b; simp add: settlement_counts_def metrics_defs option.map_comp comp_def drop_held_def release_held_def
      split: option.split)+

lemma settlement_counts_settled:
  "settlement_counts (on_metrics (record_settlement ok elapsed) c) =
     map_option (\<lambda>(s, f). if ok then (s + 1, f) else (s, f + 1)) (settlement_counts c)"
  by (cases "pc_metrics c") (simp_all add: settlement_counts_def record_settlement_def Let_def)

lemma counts_admit: "admit x clock now c q = (c', s) \<Longrightarrow> settlement_counts c' = settlement_counts c"
  by (auto simp: admit_def Let_def take_reservation_def
      split: option.splits sum.splits if_splits prod.splits nonce_error.splits)

lemma run_settle_audit:
  assumes "run_settle e k c a h = (c', result, effects)"
    and "settle_outcome e c (ad_payload a) (ad_requirements a) = outcome"
  shows "settlement_counts c' = count_settlements (audited_outcome k (ad_url a) outcome) (unanswered k outcome) (settlement_counts c)"
    and "audited_outcome k (ad_url a) outcome = [] \<or> (\<exists>s. audited_outcome k (ad_url a) outcome = [settlement_audit (ad_url a) s]
      \<and> result = Responded (if sr_success s then settled_response (env_x e) s h else settlement_failure_response (env_x e) s))"
proof -
  show "settlement_counts c' = count_settlements (audited_outcome k (ad_url a) outcome) (unanswered k outcome) (settlement_counts c)"
    using assms
    by (cases outcome; cases "settlement_counts c")
      (auto simp: run_settle_def after_settle_def audited_outcome_def unanswered_def settlement_counts_settled
        count_settlements_def Let_def split: if_splits)
  show "audited_outcome k (ad_url a) outcome = [] \<or> (\<exists>s. audited_outcome k (ad_url a) outcome = [settlement_audit (ad_url a) s]
      \<and> result = Responded (if sr_success s then settled_response (env_x e) s h else settlement_failure_response (env_x e) s))"
    using assms
    by (cases outcome) (auto simp: run_settle_def after_settle_def audited_outcome_def Let_def)
qed

lemma run_handler_audit:
  assumes "run_handler e k c a req = (c', result, effects)" "CallSettle p r \<in> set effects"
  shows "\<exists>rest. run_settle e k c a (env_handler e req) = (c', result, rest) \<and> p = ad_payload a \<and> r = ad_requirements a
    \<and> k \<noteq> Some AwaitHandler \<and> resp_status (env_handler e req) < 400"
  using assms run_settle_effects [of e k c a "env_handler e req"]
  by (auto simp: run_handler_def after_handler_cases split: if_splits prod.splits)

lemma run_verify_audit:
  assumes "run_verify e k c a req = (c', result, effects)" "CallSettle p r \<in> set effects"
  shows "\<exists>c1 a' rest. run_settle e k c1 a' (env_handler e req) = (c', result, rest) \<and> p = ad_payload a \<and> r = ad_requirements a
    \<and> ad_payload a' = p \<and> ad_requirements a' = r \<and> ad_url a' = ad_url a \<and> same_settings c c1
    \<and> settlement_counts c1 = settlement_counts c \<and> k \<noteq> Some AwaitVerify \<and> verified (verify_outcome e c p r)
    \<and> k \<noteq> Some AwaitHandler \<and> resp_status (env_handler e req) < 400"
proof -
  let ?o = "verify_outcome e c (ad_payload a) (ad_requirements a)"
  obtain c1 a' eff where k: "k \<noteq> Some AwaitVerify"
    and av: "after_verify (env_x e) (env_finish_at e) c a ?o = (c1, Continue a')"
    and rh: "run_handler e k c1 a' req = (c', result, eff)" and call: "CallSettle p r \<in> set eff"
    using assms by (auto simp: run_verify_def Let_def split: if_splits prod.splits stage.splits)
  note ok = after_verify_Continue [OF av]
  obtain rest where "run_settle e k c1 a' (env_handler e req) = (c', result, rest)"
    using run_handler_audit [OF rh call] by blast
  with run_handler_audit [OF rh call] ok k show ?thesis
    by (intro exI [of _ c1] exI [of _ a'] exI [of _ rest]) (auto simp: verified_def)
qed

lemma run_handler_quiet:
  assumes "run_handler e k c a req = (c', result, effects)" "\<forall>p r. CallSettle p r \<notin> set effects"
  shows "settlement_counts c' = settlement_counts c" "k = Some AwaitHandler \<or> 400 \<le> resp_status (env_handler e req)"
  using assms run_settle_effects [of e k c a "env_handler e req"]
  by (auto simp: run_handler_def after_handler_cases split: if_splits prod.splits)

lemma run_verify_quiet:
  assumes "run_verify e k c a req = (c', result, effects)" "\<forall>p r. CallSettle p r \<notin> set effects"
  shows "settlement_counts c' = settlement_counts c" "audit_trail (verify_run_events e k c a req) = []"
proof -
  let ?o = "verify_outcome e c (ad_payload a) (ad_requirements a)"
  have eff: "effects = gate_trace e k c (ad_payload a) (ad_requirements a) req"
    using assms(1) run_verify_effects [of e k c a req] by simp
  with assms(2) show "audit_trail (verify_run_events e k c a req) = []"
    by (auto simp: audit_verify gate_trace_def split: if_splits)
  obtain c1 s where av: "after_verify (env_x e) (env_finish_at e) c a ?o = (c1, s)" by fastforce
  have same: "settlement_counts c1 = settlement_counts c"
    using av by (auto simp: after_verify_def Let_def split: sum.splits if_splits)
  show "settlement_counts c' = settlement_counts c"
  proof (cases "k \<noteq> Some AwaitVerify \<and> (\<exists>a'. s = Continue a')")
    case True
    with av assms(1) obtain a' eff' where "run_handler e k c1 a' req = (c', result, eff')"
        "\<exists>call. effects = call # eff'"
      by (auto simp: run_verify_def Let_def split: prod.splits)
    with assms(2) same show ?thesis using run_handler_quiet(1) by (metis list.set_intros(2))
  next
    case False
    with av assms(1) same show ?thesis
      by (cases s) (auto simp: run_verify_def Let_def split: if_splits)
  qed
qed

lemma no_payment_quiet:
  assumes "x402_payment e k c q = (c', result, [])"
  shows "settlement_counts c' = settlement_counts c" "audit_trail (gate_events e b64_error k c q) = []"
proof -
  obtain c1 s where ad: "admit (env_x e) (env_unix_clock e) (env_reserve_at e) c q = (c1, s)" by fastforce
  have stop: "\<not> (\<exists>a. s = Continue a)"
  proof
    assume "\<exists>a. s = Continue a"
    with ad assms obtain a where "run_verify e k c1 a (gr_request q) = (c', result, [])"
      by (auto simp: x402_payment_def)
    with run_verify_effects [of e k c1 a "gr_request q"] show False by (simp add: gate_trace_def)
  qed
  then show "settlement_counts c' = settlement_counts c"
    using assms ad counts_admit [OF ad] by (cases s) (auto simp: x402_payment_def)
  show "audit_trail (gate_events e b64_error k c q) = []"
    using stop ad by (cases s) (auto simp: gate_events_def)
qed

text \<open>
  C28: the audit trail tells what happened to the money, as far as the facilitator told it. A run
  that made its settlement call and got an answer writes one audit record, with that answer's
  transaction, network, payer and amount or its reason, and answers its client accordingly; a run whose
  settlement call failed, or whose client went away during it, writes none, nor does a run without a
  settlement call. The counters of confirmed and failed settlements grow by the audit records of
  their kind, and that of the failed ones also by a settlement call without an answer, which is the
  one case that the counters know and the audit trail does not.
\<close>
theorem audit_trail_exact:
  assumes run: "x402_payment e cancel c q = (c', result, effects)"
    and trail: "trail = audit_trail (gate_events e b64_error cancel c q)"
  shows "(CallSettle p r \<in> set effects \<longrightarrow>
        trail = audited_outcome cancel (resource_url q) (settle_outcome e c p r)
        \<and> settlement_counts c' = count_settlements trail (unanswered cancel (settle_outcome e c p r)) (settlement_counts c))
    \<and> ((\<forall>p r. CallSettle p r \<notin> set effects) \<longrightarrow> trail = [] \<and> settlement_counts c' = settlement_counts c)
    \<and> (trail \<noteq> [] \<longrightarrow> (\<exists>s. trail = [settlement_audit (resource_url q) s]
        \<and> result = Responded (if sr_success s then settled_response (env_x e) s (env_handler e (gr_request q))
                               else settlement_failure_response (env_x e) s)))"
proof (cases "effects = []")
  case True
  with run have "x402_payment e cancel c q = (c', result, [])" by simp
  from no_payment_quiet [OF this] True show ?thesis by (simp add: trail)
next
  case False
  with run obtain c1 a where
    ad: "admit (env_x e) (env_unix_clock e) (env_reserve_at e) c q = (c1, Continue a)"
    and rv: "run_verify e cancel c1 a (gr_request q) = (c', result, effects)"
    by (rule x402_effects)
  have events: "trail = audit_trail (verify_run_events e cancel c1 a (gr_request q))"
    by (simp add: trail gate_events_def ad)
  have url: "ad_url a = resource_url q" using ad by (rule admit_Continue(6))
  have fac: "pc_facilitator c1 = pc_facilitator c" using admit_settings [OF ad] by (rule same_settings_fields(1))
  note counts = counts_admit [OF ad]
  show ?thesis
  proof (cases "\<exists>p r. CallSettle p r \<in> set effects")
    case False
    with run_verify_quiet [OF rv] counts events show ?thesis by simp
  next
    case True
    then obtain p' r' where call: "CallSettle p' r' \<in> set effects" by blast
    from run_verify_audit [OF rv call] obtain c2 a' rest where
      rs: "run_settle e cancel c2 a' (env_handler e (gr_request q)) = (c', result, rest)"
      and p': "p' = ad_payload a" "r' = ad_requirements a" "ad_payload a' = p'" "ad_requirements a' = r'"
      and a': "ad_url a' = ad_url a" "same_settings c1 c2" "settlement_counts c2 = settlement_counts c1"
      and on: "cancel \<noteq> Some AwaitVerify" "verified (verify_outcome e c1 p' r')" "cancel \<noteq> Some AwaitHandler"
        "resp_status (env_handler e (gr_request q)) < 400" by blast
    let ?o = "settle_outcome e c p' r'"
    have o: "settle_outcome e c2 (ad_payload a') (ad_requirements a') = ?o"
      using same_settings_fields(1) [OF a'(2)] by (simp add: p'(3,4) fac)
    have tr: "trail = audited_outcome cancel (resource_url q) ?o"
      using on p'(1,2) by (simp add: events audit_verify url fac)
    have only: "p = p' \<and> r = r'" if "CallSettle p r \<in> set effects"
      using run_verify_audit [OF rv that] p'(1,2) by blast
    show ?thesis
      using run_settle_audit [OF rs o] only call tr counts a'(1,3) url by auto
  qed
qed

theorem audit_trail_exact_witness:
  "\<exists>c' result effects. x402_payment (sample_env 0 200) None sample_config sample_request = (c', result, effects)
     \<and> audit_trail (gate_events (sample_env 0 200) id None sample_config sample_request)
         = [settlement_audit ''/v1/forecast'' sample_receipt]
     \<and> settlement_counts c' = Some (1, 0)"
proof -
  obtain c' result effects where
    run: "x402_payment (sample_env 0 200) None sample_config sample_request = (c', result, effects)"
    by (metis prod_cases3)
  then have "CallSettle sample_payment sample_terms \<in> set effects" using sample_effects [of 0 200] by simp
  with audit_trail_exact [OF run refl, of sample_payment sample_terms id]
  have "audit_trail (gate_events (sample_env 0 200) id None sample_config sample_request)
      = [settlement_audit ''/v1/forecast'' sample_receipt]"
    and "settlement_counts c' = count_settlements [settlement_audit ''/v1/forecast'' sample_receipt] False
      (settlement_counts sample_config)"
    by (simp_all add: audited_outcome_def unanswered_def sample_settle [simplified] sample_url)
  with run show ?thesis
    by (auto simp: count_settlements_def settlement_counts_def new_metrics_def sample_receipt_def)
qed

subsection \<open>What the gate's events do not tell\<close>

text \<open>
  Two requests whose payments agree on their terms, their validity window and their authorization's
  identity, and may differ in everything else, the signature above all.
\<close>

definition same_logged_payment :: "externals \<Rightarrow> gate_request \<Rightarrow> gate_request \<Rightarrow> bool" where
  "same_logged_payment x q q' \<longleftrightarrow>
     resource_url q = resource_url q' \<and> req_method (gr_request q) = req_method (gr_request q')
     \<and> (\<exists>hv hv' p p'. payment_header x (req_headers (gr_request q)) = Some hv
          \<and> payment_header x (req_headers (gr_request q')) = Some hv'
          \<and> decode_payment_payload x hv = Some p \<and> decode_payment_payload x hv' = Some p'
          \<and> pp_accepted p = pp_accepted p'
          \<and> jget ''authorization'' (pp_payload p) = jget ''authorization'' (pp_payload p')
          \<and> authorization_identity p = authorization_identity p')"

text \<open>The world answers alike: the facilitator whatever it is sent, the upstream whatever it is asked.\<close>

definition answers_alike :: "environment \<Rightarrow> bool" where
  "answers_alike e \<longleftrightarrow> (\<forall>n a b. env_verify e n a = env_verify e n b) \<and> (\<forall>n a b. env_settle e n a = env_settle e n b)
     \<and> (\<forall>a b. env_handler e a = env_handler e b)"

lemma answers_alikeD:
  assumes "answers_alike e"
  shows "env_verify e n a = env_verify e n b" "env_settle e n a = env_settle e n b" "env_handler e q = env_handler e q'"
  using assms unfolding answers_alike_def by blast+

lemma call_events_alike:
  assumes "\<And>n a b. t n a = t n b"
  shows "call_events x c op decode p r t = call_events x c op decode p' r t"
    and "call x c op decode p r t = call x c op decode p' r t"
proof -
  define u where "u n = t n undefined" for n
  have reply: "t n a = u n" for n a unfolding u_def using assms by blast
  show "call_events x c op decode p r t = call_events x c op decode p' r t"
    by (simp add: call_events_def send_single_def reply)
  show "call x c op decode p r t = call x c op decode p' r t"
    by (simp add: call_def send_single_def reply)
qed

lemma decode_events_none: "decode_payment_payload x hv = Some p \<Longrightarrow> decode_events x b64_error hv = []"
  by (auto simp: decode_payment_payload_def decode_events_def split: option.splits if_splits)

lemma same_payment_stage:
  assumes "jget ''authorization'' (pp_payload p) = jget ''authorization'' (pp_payload p')"
    and "authorization_identity p = authorization_identity p'"
  shows "window_error g clock p = window_error g clock p'" "take_reservation x p now c = take_reservation x p' now c"
  unfolding window_error_def take_reservation_def reserve_def authorization_key_def assms by (rule refl)+

lemma same_payment_admit:
  assumes "same_logged_payment x q q'"
  shows "admit_events x b64_error clock now c q = admit_events x b64_error clock now c q'"
    and "\<exists>p'. admit x clock now c q' = map_prod id (map_stage (\<lambda>a. a\<lparr>ad_payload := p'\<rparr>)) (admit x clock now c q)"
proof -
  obtain hv hv' p p' where h: "payment_header x (req_headers (gr_request q)) = Some hv"
      "payment_header x (req_headers (gr_request q')) = Some hv'"
    and d: "decode_payment_payload x hv = Some p" "decode_payment_payload x hv' = Some p'"
    and same: "pp_accepted p = pp_accepted p'"
      "jget ''authorization'' (pp_payload p) = jget ''authorization'' (pp_payload p')"
      "authorization_identity p = authorization_identity p'"
    and url: "resource_url q = resource_url q'" "req_method (gr_request q) = req_method (gr_request q')"
    using assms by (auto simp: same_logged_payment_def)
  note stage = same_payment_stage [OF same(2,3)]
  show "admit_events x b64_error clock now c q = admit_events x b64_error clock now c q'"
    unfolding admit_events_def Let_def url
    by (simp add: h d decode_events_none [OF d(1)] decode_events_none [OF d(2)] same(1) stage
        cong: if_cong sum.case_cong option.case_cong)
  show "\<exists>p'. admit x clock now c q' = map_prod id (map_stage (\<lambda>a. a\<lparr>ad_payload := p'\<rparr>)) (admit x clock now c q)"
    by (rule exI [of _ p'])
      (simp add: admit_def Let_def h d same(1) stage url split: option.split sum.split prod.split nonce_error.split)
qed

lemma same_payment_settle:
  assumes alike: "answers_alike e"
  shows "settle_run_events e k c (a\<lparr>ad_payload := p\<rparr>) = settle_run_events e k c a"
proof -
  have outcome: "settle_outcome e c p r = settle_outcome e c (ad_payload a) r" for r
    unfolding settle_def by (rule arg_cong [OF call_events_alike(2) [OF answers_alikeD(2) [OF alike]]])
  have events: "call_events x f op d p r (env_settle e) = call_events x f op d (ad_payload a) r (env_settle e)"
    for x f op r and d :: "json \<Rightarrow> settle_response option"
    by (rule call_events_alike(1) [OF answers_alikeD(2) [OF alike]])
  show ?thesis
    by (simp add: settle_run_events_def settled_events_def outcome events Let_def split: sum.split)
qed

lemma same_payment_handler:
  "answers_alike e \<Longrightarrow> handler_run_events e k c (a\<lparr>ad_payload := p\<rparr>) payer req' = handler_run_events e k c a payer req"
proof -
  assume alike: "answers_alike e"
  then have "env_handler e req' = env_handler e req" by (rule answers_alikeD(3))
  with alike show ?thesis
    by (simp add: handler_run_events_def handled_events_def after_handler_cases same_payment_settle Let_def)
qed

lemma same_payment_verify:
  assumes alike: "answers_alike e"
  shows "verify_run_events e k c (a\<lparr>ad_payload := p\<rparr>) req' = verify_run_events e k c a req"
proof -
  have outcome: "verify_outcome e c p r = verify_outcome e c (ad_payload a) r" for r
    unfolding verify_def by (rule arg_cong [OF call_events_alike(2) [OF answers_alikeD(1) [OF alike]]])
  have events: "call_events x f op d p r (env_verify e) = call_events x f op d (ad_payload a) r (env_verify e)"
    for x f op r and d :: "json \<Rightarrow> verify_response option"
    by (rule call_events_alike(1) [OF answers_alikeD(1) [OF alike]])
  have handler: "handler_run_events e k c' (a\<lparr>ad_payload := p, ad_reservation := res\<rparr>) payer req'
      = handler_run_events e k c' (a\<lparr>ad_reservation := res\<rparr>) payer req" for c' res payer
  proof -
    have "a\<lparr>ad_payload := p, ad_reservation := res\<rparr> = a\<lparr>ad_reservation := res, ad_payload := p\<rparr>" by simp
    with same_payment_handler [OF alike] show ?thesis by (simp only:)
  qed
  show ?thesis
    by (simp add: verify_run_events_def verified_events_def after_verify_def outcome events handler Let_def
        split: sum.split)
qed

lemma gate_events_signature:
  assumes "same_logged_payment (env_x e) q q'" "answers_alike e"
  shows "gate_events e b64_error k c q = gate_events e b64_error k c q'"
proof -
  note same = same_payment_admit [OF assms(1)]
  obtain p' where ad: "admit (env_x e) (env_unix_clock e) (env_reserve_at e) c q'
      = map_prod id (map_stage (\<lambda>a. a\<lparr>ad_payload := p'\<rparr>)) (admit (env_x e) (env_unix_clock e) (env_reserve_at e) c q)"
    using same(2) by blast
  show ?thesis
  proof (cases "admit (env_x e) (env_unix_clock e) (env_reserve_at e) c q")
    case (Pair c1 s)
    then show ?thesis
      by (cases s)
        (simp_all add: gate_events_def same(1) ad
          same_payment_verify [OF assms(2), where req = "gr_request q" and req' = "gr_request q'"])
  qed
qed


text \<open>Two credentials, two requests that differ in a header's value and in their body, and two signatures.\<close>

definition logged_sample :: "str \<Rightarrow> str \<Rightarrow> request" where
  "logged_sample v b = \<lparr>req_method = ''GET'', req_uri = ''/v1/x'', req_path_query = Some ''/v1/x'',
     req_headers = [(''authorization'', v)], req_body = b\<rparr>"

definition signed_payment :: "str \<Rightarrow> payment_payload" where
  "signed_payment sig = sample_payment\<lparr>pp_payload := JObj
     [(''authorization'', JObj [(''from'', JStr ''0xab''), (''nonce'', JStr ''0x01'')]), (''signature'', JStr sig)]\<rparr>"

definition signed_env :: environment where
  "signed_env = (sample_env 0 200)\<lparr>env_x := sample_x\<lparr>json_parse := (\<lambda>s. Some (ser_payload (signed_payment s)))\<rparr>\<rparr>"

definition signed_request :: "str \<Rightarrow> gate_request" where
  "signed_request sig = \<lparr>gr_request = logged_sample '''' ''''\<lparr>req_headers := [(''payment-signature'', sig)]\<rparr>,
     gr_original_uri = None\<rparr>"

lemma signed_alike: "same_logged_payment (env_x signed_env) (signed_request ''first'') (signed_request ''second'')"
  "answers_alike signed_env"
proof -
  let ?x = "sample_x\<lparr>json_parse := (\<lambda>s. Some (ser_payload (signed_payment s)))\<rparr>"
  have head: "payment_header ?x (req_headers (gr_request (signed_request sig))) = Some sig" for sig
    by (simp add: payment_header_def signed_request_def hget_def to_str_ok_def text_eval)
  have round: "de_payload (ser_payload (signed_payment sig)) = Some (signed_payment sig)" for sig
    by (rule de_ser_payload)
      (simp_all add: signed_payment_def sample_payment_def sample_terms_def storable_def less_char_def)
  have dec: "decode_payment_payload ?x sig = Some (signed_payment sig)" if "trim sig = sig" for sig
    using that round by (simp add: decode_payment_payload_def) (simp add: signed_payment_def sample_payment_def)
  have trims: "trim ''first'' = ''first''" "trim ''second'' = ''second''"
    by (simp_all add: trim_visible text_eval)
  have "authorization_identity (signed_payment ''first'') = authorization_identity (signed_payment ''second'')"
    by (simp add: signed_payment_def sample_payment_def sample_terms_def authorization_identity_scope auth_scope_of_def
        eip3009_parts_def nonempty_str_def text_eval)
  then show "same_logged_payment (env_x signed_env) (signed_request ''first'') (signed_request ''second'')"
    using head dec [OF trims(1)] dec [OF trims(2)]
    by (simp add: same_logged_payment_def signed_env_def)
      (simp add: signed_payment_def signed_request_def logged_sample_def resource_url_def text_eval)
  show "answers_alike signed_env" by (simp add: answers_alike_def signed_env_def sample_env_def)
qed


end
