(* ===== verification/MiddlewareFiles.thy ===== *)
theory MiddlewareFiles
  imports TrustedProxies HeaderPolicies
begin

text \<open>
  The files under \<open>kite-x402-axum/src/middleware/\<close>. No module declaration names them, so they are
  not part of the built crate; they are modelled as they stand: a consecutive-failure breaker, a
  concurrency limiter, a client-address resolver, a retry policy with full jitter and a header
  policy. The byte slice of \<open>zero_copy_decoder.rs\<close> is in \<open>ByteSlice\<close>.

  The lemmas give the breaker by the failures since its last success, the exact number of permits
  that the limiter hands out when its two atomic accesses are interleaved, whom the resolver believes, the bound of the jittered delay, and the
  policy's headers.
\<close>

subsection \<open>The breaker (\<open>circuit_breaker.rs\<close>)\<close>

datatype simple_state = StateClosed | StateOpen | StateHalfOpen

record simple_breaker =
  sb_state :: simple_state
  sb_failure_threshold :: u32
  sb_failure_count :: u32

definition simple_breaker_new :: "u32 \<Rightarrow> simple_breaker" where
  "simple_breaker_new t = \<lparr>sb_state = StateClosed, sb_failure_threshold = t, sb_failure_count = 0\<rparr>"

definition simple_record_success :: "simple_breaker \<Rightarrow> simple_breaker" where
  "simple_record_success b = b\<lparr>sb_failure_count := 0, sb_state := StateClosed\<rparr>"

text \<open>\<open>+= 1\<close> wraps in the release profile.\<close>

definition simple_record_failure :: "simple_breaker \<Rightarrow> simple_breaker" where
  "simple_record_failure b =
     (let b = b\<lparr>sb_failure_count := sb_failure_count b + 1\<rparr>
      in if sb_failure_threshold b \<le> sb_failure_count b then b\<lparr>sb_state := StateOpen\<rparr> else b)"

lemma failures_in_a_row:
  assumes "0 < n" "n < 2 ^ 32"
  shows "(simple_record_failure ^^ n) (simple_record_success b)
    = b\<lparr>sb_failure_count := of_nat n,
        sb_state := (if unat (sb_failure_threshold b) \<le> n then StateOpen else StateClosed)\<rparr>"
  using assms
proof (induction n)
  case (Suc n)
  have count: "unat (1 + of_nat n :: u32) = Suc n" using Suc.prems by (simp add: unat_word_ariths unat_of_nat)
  show ?case
  proof (cases "n = 0")
    case True
    with count show ?thesis
      by (simp add: simple_record_failure_def simple_record_success_def Let_def word_le_nat_alt)
  next
    case False
    with Suc count show ?thesis by (auto simp: simple_record_failure_def Let_def word_le_nat_alt add.commute)
  qed
qed simp

subsection \<open>The concurrency limiter (\<open>concurrency_limiter.rs\<close>)\<close>

record conc_limiter =
  cl_active_requests :: usize
  cl_max_concurrent :: usize

definition conc_limiter_new :: "usize \<Rightarrow> conc_limiter" where
  "conc_limiter_new m = \<lparr>cl_active_requests = 0, cl_max_concurrent = m\<rparr>"

text \<open>\<open>try_acquire\<close> is a load followed by an addition, each atomic, the pair not.\<close>

definition load_allows :: "conc_limiter \<Rightarrow> bool" where
  "load_allows l \<longleftrightarrow> cl_active_requests l < cl_max_concurrent l"

definition add_active :: "conc_limiter \<Rightarrow> conc_limiter" where
  "add_active l = l\<lparr>cl_active_requests := cl_active_requests l + 1\<rparr>"

definition try_acquire :: "conc_limiter \<Rightarrow> bool \<times> conc_limiter" where
  "try_acquire l = (if load_allows l then (True, add_active l) else (False, l))"

definition release_active :: "conc_limiter \<Rightarrow> conc_limiter" where
  "release_active l = l\<lparr>cl_active_requests := cl_active_requests l - 1\<rparr>"

text \<open>
  Threads, by number: those between the load and the addition, and those that hold a permit. A
  thread refused by its load is not in the state.
\<close>

record limiter_run =
  lr_limiter :: conc_limiter
  lr_passed :: "nat set"
  lr_holding :: "nat set"

inductive limiter_step :: "limiter_run \<Rightarrow> limiter_run \<Rightarrow> bool" where
  load: "t \<notin> lr_passed s \<union> lr_holding s \<Longrightarrow> load_allows (lr_limiter s) \<Longrightarrow>
    limiter_step s (s\<lparr>lr_passed := insert t (lr_passed s)\<rparr>)"
| add: "t \<in> lr_passed s \<Longrightarrow>
    limiter_step s (s\<lparr>lr_limiter := add_active (lr_limiter s), lr_passed := lr_passed s - {t},
                      lr_holding := insert t (lr_holding s)\<rparr>)"
| release: "t \<in> lr_holding s \<Longrightarrow>
    limiter_step s (s\<lparr>lr_limiter := release_active (lr_limiter s), lr_holding := lr_holding s - {t}\<rparr>)"

text \<open>The steps of a system in which at most \<open>k\<close> threads are between the load and the addition.\<close>

definition window_step :: "nat \<Rightarrow> limiter_run \<Rightarrow> limiter_run \<Rightarrow> bool" where
  "window_step k s s' \<longleftrightarrow> limiter_step s s' \<and> card (lr_passed s') \<le> k"

definition limiter_start :: "usize \<Rightarrow> limiter_run" where
  "limiter_start m = \<lparr>lr_limiter = conc_limiter_new m, lr_passed = {}, lr_holding = {}\<rparr>"

definition overrun_inv :: "usize \<Rightarrow> nat \<Rightarrow> limiter_run \<Rightarrow> bool" where
  "overrun_inv m k s \<longleftrightarrow>
     cl_max_concurrent (lr_limiter s) = m
     \<and> cl_active_requests (lr_limiter s) = of_nat (card (lr_holding s))
     \<and> finite (lr_passed s) \<and> finite (lr_holding s) \<and> lr_passed s \<inter> lr_holding s = {}
     \<and> card (lr_holding s) + card (lr_passed s) < unat m + k"

lemmas limiter_defs = load_allows_def add_active_def try_acquire_def release_active_def

lemma limiter_step_inv:
  "limiter_step s s' \<Longrightarrow> overrun_inv m k s \<Longrightarrow> unat m + k \<le> 2 ^ 64 \<Longrightarrow> card (lr_passed s') \<le> k \<Longrightarrow>
     overrun_inv m k s'"
proof (induction rule: limiter_step.induct)
  case (load t s)
  have "card (lr_holding s) < 2 ^ 64" using load(3,4) by (simp add: overrun_inv_def)
  then have "unat (of_nat (card (lr_holding s)) :: usize) = card (lr_holding s)" by (simp add: unat_of_nat)
  with load show ?case by (auto simp: overrun_inv_def load_allows_def word_less_nat_alt)
next
  case (add t s)
  then obtain n where "card (lr_passed s) = Suc n"
    by (metis card_gt_0_iff empty_iff gr0_implies_Suc overrun_inv_def)
  moreover have "t \<notin> lr_holding s" using add by (auto simp: overrun_inv_def)
  ultimately show ?case using add by (auto simp: overrun_inv_def add_active_def)
next
  case (release t s)
  then obtain n where "card (lr_holding s) = Suc n"
    by (metis card_gt_0_iff empty_iff gr0_implies_Suc overrun_inv_def)
  with release show ?case by (auto simp: overrun_inv_def release_active_def)
qed

lemma window_bound:
  assumes "(window_step k)\<^sup>*\<^sup>* (limiter_start m) s" "0 < m" "unat m + k \<le> 2 ^ 64"
  shows "overrun_inv m k s"
  using assms(1)
proof (induction rule: rtranclp_induct)
  case base
  show ?case using assms(2) by (simp add: overrun_inv_def limiter_start_def conc_limiter_new_def word_less_nat_alt)
next
  case (step s s')
  then show ?case using limiter_step_inv assms(3) by (auto simp: window_step_def)
qed

text \<open>Undisturbed, the two accesses are \<open>try_acquire\<close>.\<close>

lemma try_acquire_steps:
  assumes "lr_passed s = {}" "t \<notin> lr_holding s" "try_acquire (lr_limiter s) = (True, l)"
  shows "(window_step 1)\<^sup>*\<^sup>* s (s\<lparr>lr_limiter := l, lr_holding := insert t (lr_holding s)\<rparr>)"
proof -
  let ?s = "s\<lparr>lr_passed := {t}\<rparr>"
  have "window_step 1 s ?s"
    using assms limiter_step.load [of t s] by (auto simp: window_step_def try_acquire_def split: if_splits)
  moreover have "window_step 1 ?s (s\<lparr>lr_limiter := l, lr_holding := insert t (lr_holding s)\<rparr>)"
    using assms limiter_step.add [of t ?s] by (cases s) (auto simp: window_step_def try_acquire_def split: if_splits)
  ultimately show ?thesis by (meson r_into_rtranclp rtranclp.rtrancl_into_rtrancl)
qed

text \<open>Threads are taken in order: \<open>j\<close> hold a permit, the next \<open>n\<close> have loaded.\<close>

definition stage :: "usize \<Rightarrow> nat \<Rightarrow> nat \<Rightarrow> limiter_run" where
  "stage m j n = \<lparr>lr_limiter = \<lparr>cl_active_requests = of_nat j, cl_max_concurrent = m\<rparr>,
     lr_passed = {j..<j + n}, lr_holding = {..<j}\<rparr>"

lemma stage_load: "j < unat m \<Longrightarrow> n < k \<Longrightarrow> window_step k (stage m j n) (stage m j (Suc n))"
proof -
  assume "j < unat m" "n < k"
  then have "(of_nat j :: usize) < m" using unat_less_word_size [of m] by (simp add: word_less_nat_alt unat_of_nat)
  then have "limiter_step (stage m j n) (stage m j n\<lparr>lr_passed := insert (j + n) (lr_passed (stage m j n))\<rparr>)"
    by (intro limiter_step.load) (simp_all add: stage_def load_allows_def)
  moreover have "insert (j + n) {j..<j + n} = {j..<j + Suc n}" by auto
  ultimately show ?thesis using \<open>n < k\<close> by (simp add: window_step_def stage_def)
qed

lemma stage_add: "n < k \<Longrightarrow> window_step k (stage m j (Suc n)) (stage m (Suc j) n)"
proof -
  assume "n < k"
  let ?s = "stage m j (Suc n)"
  have "limiter_step ?s (?s\<lparr>lr_limiter := add_active (lr_limiter ?s), lr_passed := lr_passed ?s - {j},
      lr_holding := insert j (lr_holding ?s)\<rparr>)"
    by (intro limiter_step.add) (simp add: stage_def)
  moreover have "{j..<j + Suc n} - {j} = {Suc j..<Suc j + n}" by auto
  ultimately show ?thesis
    using \<open>n < k\<close> by (simp add: window_step_def stage_def add_active_def lessThan_Suc add.commute)
qed

lemma stage_adds: "n \<le> k \<Longrightarrow> (window_step k)\<^sup>*\<^sup>* (stage m j n) (stage m (j + n) 0)"
proof (induction n arbitrary: j)
  case (Suc n)
  then have "(window_step k)\<^sup>*\<^sup>* (stage m (Suc j) n) (stage m (j + Suc n) 0)" by (metis Suc_leD add_Suc_shift)
  with stage_add [of n k m j] Suc.prems show ?case by (simp add: converse_rtranclp_into_rtranclp)
qed simp

lemma stage_loads: "j < unat m \<Longrightarrow> n \<le> k \<Longrightarrow> (window_step k)\<^sup>*\<^sup>* (stage m j 0) (stage m j n)"
proof (induction n)
  case (Suc n)
  then show ?case using stage_load [of j m n k] by (simp add: rtranclp.rtrancl_into_rtrancl)
qed simp

lemma stage_fill: "j < unat m \<Longrightarrow> 0 < k \<Longrightarrow> (window_step k)\<^sup>*\<^sup>* (stage m 0 0) (stage m j 0)"
proof (induction j)
  case (Suc j)
  then have "(window_step k)\<^sup>*\<^sup>* (stage m j 0) (stage m j 1)" "(window_step k)\<^sup>*\<^sup>* (stage m j 1) (stage m (Suc j) 0)"
    using stage_loads [of j m 1 k] stage_adds [of 1 k m j] by simp_all
  with Suc show ?case by (meson Suc_lessD rtranclp_trans)
qed simp

text \<open>
  When at most \<open>k\<close> calls of \<open>try_acquire\<close> are between their load and their addition at a time, at most
  \<open>k - 1\<close> threads more than the limit hold a permit, and that many can: only without such overlap
  (\<open>k = 1\<close>) does the limiter keep its limit.
\<close>
theorem concurrency_limit_overrun:
  assumes "0 < m" "0 < k" "unat m + k \<le> 2 ^ 64"
  shows "((window_step k)\<^sup>*\<^sup>* (limiter_start m) s \<longrightarrow> card (lr_holding s) \<le> unat m + (k - 1))
    \<and> (\<exists>s. (window_step k)\<^sup>*\<^sup>* (limiter_start m) s \<and> card (lr_holding s) = unat m + (k - 1))"
proof (intro conjI impI)
  show "card (lr_holding s) \<le> unat m + (k - 1)" if "(window_step k)\<^sup>*\<^sup>* (limiter_start m) s"
    using window_bound [OF that assms(1,3)] assms(2) unfolding overrun_inv_def by linarith
  let ?j = "unat m - 1"
  have j: "?j < unat m" using assms(1) by (simp add: word_less_nat_alt)
  have "(window_step k)\<^sup>*\<^sup>* (stage m 0 0) (stage m (?j + k) 0)"
    using stage_fill [OF j assms(2)] stage_loads [OF j order_refl] stage_adds [OF order_refl]
    by (meson rtranclp_trans)
  moreover have "stage m 0 0 = limiter_start m" by (simp add: stage_def limiter_start_def conc_limiter_new_def)
  moreover have "?j + k = unat m + (k - 1)" using assms(2) j by simp
  moreover have "card (lr_holding (stage m n 0)) = n" for n by (simp add: stage_def)
  ultimately show "\<exists>s. (window_step k)\<^sup>*\<^sup>* (limiter_start m) s \<and> card (lr_holding s) = unat m + (k - 1)"
    by (intro exI [of _ "stage m (?j + k) 0"]) simp
qed

theorem concurrency_limit_overrun_witness:
  "(\<exists>s. (window_step 3)\<^sup>*\<^sup>* (limiter_start 2) s \<and> card (lr_holding s) = 4)
    \<and> card (lr_holding (limiter_start 2)) \<le> 4"
  using concurrency_limit_overrun [of 2 3 "limiter_start 2"] by simp

subsection \<open>The client-address resolver (\<open>header_sanitizer.rs\<close>)\<close>

record header_sanitizer_config =
  hs_trusted_proxies :: "ip_addr list"

definition default_header_sanitizer :: header_sanitizer_config where
  "default_header_sanitizer = \<lparr>hs_trusted_proxies = [V4 0x7F000001, V6 1]\<rparr>"

definition resolve_client_ip :: "ip_addr \<Rightarrow> str option \<Rightarrow> str option \<Rightarrow> header_sanitizer_config \<Rightarrow> ip_addr" where
  "resolve_client_ip peer_addr forwarded_for cf_ip config =
     (if peer_addr \<notin> set (hs_trusted_proxies config) then peer_addr
      else
        (case Option.bind cf_ip (\<lambda>cf. parse_ip (trim cf)) of
           Some ip \<Rightarrow> ip
         | None \<Rightarrow>
             (case Option.bind forwarded_for (\<lambda>xff. parse_ip (trim (hd (split_on CHR '','' xff)))) of
                Some ip \<Rightarrow> ip
              | None \<Rightarrow> peer_addr)))"

lemma default_proxies_parsed:
  "map parse_ip [''127.0.0.1'', ''::1''] = map Some (hs_trusted_proxies default_header_sanitizer)"
  by (simp add: parse_ip_eval default_header_sanitizer_def)

lemma split_on_first: "c \<notin> set s \<Longrightarrow> hd (split_on c (s @ c # t)) = s"
  by (induction s) (auto simp: split_on_def split: list.split)

text \<open>
  Behind a trusted peer the resolver believes the leftmost hop, which the client itself writes, where
  the service's \<open>client_ip\<close> walks from the nearest hop. Nothing else than the peer counts from an
  untrusted one.
\<close>

lemma leftmost_hop_believed:
  "peer \<in> set (hs_trusted_proxies cfg) \<Longrightarrow> CHR '','' \<notin> set forged \<Longrightarrow> parse_ip (trim forged) = Some ip \<Longrightarrow>
     resolve_client_ip peer (Some (forged @ CHR '','' # hops)) None cfg = ip"
  by (simp add: resolve_client_ip_def split_on_first)

lemma untrusted_peer_counts:
  "peer \<notin> set (hs_trusted_proxies cfg) \<Longrightarrow> resolve_client_ip peer xff cf cfg = peer"
  by (simp add: resolve_client_ip_def)

subsection \<open>The retry policy (\<open>retry.rs\<close>)\<close>

record retry_policy =
  rp_max_attempts :: u32
  rp_base_delay :: duration
  rp_max_delay :: duration

definition default_retry_policy :: retry_policy where
  "default_retry_policy = \<lparr>rp_max_attempts = 3, rp_base_delay = from_millis 100, rp_max_delay = from_secs 3\<rparr>"

text \<open>\<open>as_millis() as u64\<close> keeps the low 64 bits. The draw of \<open>gen_range(0..=c)\<close> is \<open>draw c\<close>.\<close>

definition jittered_backoff :: "retry_policy \<Rightarrow> (u64 \<Rightarrow> u64) \<Rightarrow> u32 \<Rightarrow> duration" where
  "jittered_backoff p draw attempt =
     (if rp_max_attempts p \<le> attempt then rp_max_delay p
      else
        let multiplier = sat_pow 2 (unat attempt);
            ceiling_millis = min (sat_mul (of_nat (as_millis (rp_base_delay p))) multiplier)
                                 (of_nat (as_millis (rp_max_delay p)))
        in from_millis (draw ceiling_millis))"

lemma jittered_backoff_le: "(\<And>c. draw c \<le> c) \<Longrightarrow> jittered_backoff p draw attempt \<le> rp_max_delay p"
proof -
  assume draw: "\<And>c. draw c \<le> c"
  have "from_millis (draw (min a (of_nat (as_millis d)))) \<le> d" for a :: u64 and d
  proof -
    have "draw (min a (of_nat (as_millis d))) \<le> of_nat (as_millis d)" using draw by (rule order_trans) simp
    then have "unat (draw (min a (of_nat (as_millis d)))) \<le> unat (of_nat (as_millis d) :: u64)"
      by (simp only: word_le_nat_alt)
    also have "\<dots> \<le> as_millis d" by (simp add: unat_of_nat)
    finally have "from_millis (draw (min a (of_nat (as_millis d)))) \<le> as_millis d * nanos_per_milli"
      by (simp add: from_millis_def)
    also have "\<dots> \<le> d" by (simp add: as_millis_def)
    finally show ?thesis .
  qed
  then show ?thesis by (simp add: jittered_backoff_def Let_def)
qed

subsection \<open>The header policy (\<open>security_headers.rs\<close>)\<close>

record security_headers_policy =
  sp_hsts_enabled :: bool
  sp_frame_options :: str
  sp_content_type_options :: str

definition default_security_policy :: security_headers_policy where
  "default_security_policy = \<lparr>sp_hsts_enabled = True, sp_frame_options = ''DENY'', sp_content_type_options = ''nosniff''\<rparr>"

definition apply_security_policy :: "security_headers_policy \<Rightarrow> headers \<Rightarrow> headers" where
  "apply_security_policy p hs =
     (let hs = hinsert ''x-content-type-options'' (sp_content_type_options p) hs;
          hs = hinsert ''x-frame-options'' (sp_frame_options p) hs;
          hs = hinsert ''referrer-policy'' ''strict-origin-when-cross-origin'' hs
      in if sp_hsts_enabled p
         then hinsert ''strict-transport-security'' ''max-age=31536000; includeSubDomains'' hs else hs)"

lemma security_policy_get:
  "hget n (apply_security_policy p hs) =
     (if n = ''strict-transport-security'' \<and> sp_hsts_enabled p then Some ''max-age=31536000; includeSubDomains''
      else if n = ''referrer-policy'' then Some ''strict-origin-when-cross-origin''
      else if n = ''x-frame-options'' then Some (sp_frame_options p)
      else if n = ''x-content-type-options'' then Some (sp_content_type_options p)
      else hget n hs)" if "ascii_lower n = n"
  using that by (simp add: apply_security_policy_def Let_def hm.get_insert ascii_lower_def text_eval)

end
