(* ===== verification/ByteSlice.thy ===== *)
theory ByteSlice
  imports Text_Lib
begin

text \<open>
  The borrowed byte slice of \<open>kite-x402-axum/src/middleware/zero_copy_decoder.rs\<close> (a file outside the
  module tree) and the UTF-8 validation of the standard library that its \<open>as_str\<close> is. The lemmas
  say that validation accepts exactly the encodings of sequences of Unicode scalar values.
\<close>

subsection \<open>Validation\<close>

definition continuation :: "nat \<Rightarrow> bool" where
  "continuation b \<longleftrightarrow> 0x80 \<le> b \<and> b \<le> 0xBF"

definition pair_ok :: "nat \<Rightarrow> nat \<Rightarrow> bool" where
  "pair_ok a b \<longleftrightarrow> 0xC2 \<le> a \<and> a \<le> 0xDF \<and> continuation b"

definition triple_ok :: "nat \<Rightarrow> nat \<Rightarrow> nat \<Rightarrow> bool" where
  "triple_ok a b c \<longleftrightarrow>
     (a = 0xE0 \<and> 0xA0 \<le> b \<and> b \<le> 0xBF
      \<or> (0xE1 \<le> a \<and> a \<le> 0xEC \<or> a = 0xEE \<or> a = 0xEF) \<and> continuation b
      \<or> a = 0xED \<and> 0x80 \<le> b \<and> b \<le> 0x9F)
     \<and> continuation c"

definition quad_ok :: "nat \<Rightarrow> nat \<Rightarrow> nat \<Rightarrow> nat \<Rightarrow> bool" where
  "quad_ok a b c d \<longleftrightarrow>
     (a = 0xF0 \<and> 0x90 \<le> b \<and> b \<le> 0xBF
      \<or> 0xF1 \<le> a \<and> a \<le> 0xF3 \<and> continuation b
      \<or> a = 0xF4 \<and> 0x80 \<le> b \<and> b \<le> 0x8F)
     \<and> continuation c \<and> continuation d"

fun utf8_valid :: "nat list \<Rightarrow> bool" where
  "utf8_valid [] \<longleftrightarrow> True"
| "utf8_valid (a # bs) \<longleftrightarrow>
     (if a < 0x80 then utf8_valid bs
      else
        (case bs of
           [] \<Rightarrow> False
         | b # cs \<Rightarrow>
             if pair_ok a b then utf8_valid cs
             else
               (case cs of
                  [] \<Rightarrow> False
                | c # ds \<Rightarrow>
                    if triple_ok a b c then utf8_valid ds
                    else (case ds of [] \<Rightarrow> False | d # es \<Rightarrow> quad_ok a b c d \<and> utf8_valid es))))"

subsection \<open>The slice\<close>

text \<open>A slice is its bytes; \<open>as_str\<close> gives them as text, or fails.\<close>

type_synonym byte_slice = str

definition slice_len :: "byte_slice \<Rightarrow> nat" where
  "slice_len data = length data"

definition slice_is_empty :: "byte_slice \<Rightarrow> bool" where
  "slice_is_empty data \<longleftrightarrow> data = []"

definition slice_as_str :: "byte_slice \<Rightarrow> str option" where
  "slice_as_str data = (if utf8_valid (map char_code data) then Some data else None)"

definition slice_starts_with :: "byte_slice \<Rightarrow> str \<Rightarrow> bool" where
  "slice_starts_with data prefix \<longleftrightarrow> starts_with data prefix"

subsection \<open>Scalar values and their encoding\<close>

definition scalar_value :: "nat \<Rightarrow> bool" where
  "scalar_value c \<longleftrightarrow> c < 0xD800 \<or> 0xE000 \<le> c \<and> c < 0x110000"

definition utf8_encode :: "nat \<Rightarrow> nat list" where
  "utf8_encode c =
     (if c < 0x80 then [c]
      else if c < 0x800 then [0xC0 + c div 64, 0x80 + c mod 64]
      else if c < 0x10000 then [0xE0 + c div 4096, 0x80 + c div 64 mod 64, 0x80 + c mod 64]
      else [0xF0 + c div 262144, 0x80 + c div 4096 mod 64, 0x80 + c div 64 mod 64, 0x80 + c mod 64])"

lemma continuation_digit: "continuation (128 + n mod 64)"
  using pos_mod_bound [of 64 "int n"] by (simp add: continuation_def Suc_le_eq less_Suc_eq_le [symmetric])

lemma triple_ok_digits:
  assumes "x < 16" "y < 64" "z < 64" "x = 0 \<Longrightarrow> 32 \<le> y" "x = 13 \<Longrightarrow> y < 32"
  shows "triple_ok (0xE0 + x) (0x80 + y) (0x80 + z)"
  using assms unfolding triple_ok_def continuation_def by presburger

lemma quad_ok_digits:
  assumes "w \<le> 4" "x < 64" "y < 64" "z < 64" "w = 0 \<Longrightarrow> 16 \<le> x" "w = 4 \<Longrightarrow> x < 16"
  shows "quad_ok (0xF0 + w) (0x80 + x) (0x80 + y) (0x80 + z)"
  using assms unfolding quad_ok_def continuation_def by presburger

lemma low_digit: "(z :: nat) < 64 \<Longrightarrow> (64 * n + z) div 64 = n" "z < 64 \<Longrightarrow> (64 * n + z) mod 64 = z"
  by simp_all

lemma utf8_valid_encoded:
  assumes "scalar_value c"
  shows "utf8_valid (utf8_encode c @ bs) \<longleftrightarrow> utf8_valid bs"
proof -
  consider (1) "c < 0x80" | (2) "0x80 \<le> c" "c < 0x800" | (3) "0x800 \<le> c" "c < 0x10000"
    | (4) "0x10000 \<le> c" "c < 0x110000"
    using assms by (fastforce simp: scalar_value_def)
  then show ?thesis
  proof cases
    case 1
    then show ?thesis by (simp add: utf8_encode_def)
  next
    case 2
    then have "pair_ok (0xC0 + c div 64) (0x80 + c mod 64)"
      using continuation_digit [of c] by (simp add: pair_ok_def) linarith
    with 2 show ?thesis by (simp add: utf8_encode_def)
  next
    case 3
    have "triple_ok (0xE0 + c div 4096) (0x80 + c div 64 mod 64) (0x80 + c mod 64)"
    proof -
      have q: "c div 64 = 64 * (c div 4096) + c div 64 mod 64" by (simp add: div_mult2_eq [of c 64 64, simplified])
      have "c div 4096 < 16" using 3 by simp
      moreover have "c div 64 mod 64 < 64" by simp
      moreover have "c div 4096 = 0 \<Longrightarrow> 32 \<le> c div 64 mod 64" using q 3 by linarith
      moreover have "c div 4096 = 13 \<Longrightarrow> c div 64 mod 64 < 32"
        using q 3 assms unfolding scalar_value_def by linarith
      ultimately show ?thesis by (intro triple_ok_digits) simp_all
    qed
    moreover have "\<not> pair_ok (0xE0 + c div 4096) b" for b by (simp add: pair_ok_def)
    ultimately show ?thesis using 3 by (simp add: utf8_encode_def)
  next
    case 4
    have "quad_ok (0xF0 + c div 262144) (0x80 + c div 4096 mod 64) (0x80 + c div 64 mod 64) (0x80 + c mod 64)"
    proof -
      have q: "c div 4096 = 64 * (c div 262144) + c div 4096 mod 64"
        by (simp add: div_mult2_eq [of c 4096 64, simplified])
      have "c div 262144 \<le> 4" using 4 by linarith
      moreover have "c div 4096 mod 64 < 64" by simp
      moreover have "c div 262144 = 0 \<Longrightarrow> 16 \<le> c div 4096 mod 64" using q 4 by linarith
      moreover have "c div 262144 = 4 \<Longrightarrow> c div 4096 mod 64 < 16" using q 4 by linarith
      ultimately show ?thesis by (intro quad_ok_digits) simp_all
    qed
    moreover have "\<not> pair_ok (0xF0 + c div 262144) b" "\<not> triple_ok (0xF0 + c div 262144) b d" for b d
      by (simp_all add: pair_ok_def triple_ok_def)
    ultimately show ?thesis using 4 by (simp add: utf8_encode_def)
  qed
qed

text \<open>What each accepted sequence encodes.\<close>

lemma pair_encodes: "pair_ok a b \<Longrightarrow> \<exists>c. scalar_value c \<and> utf8_encode c = [a, b]"
proof -
  assume ok: "pair_ok a b"
  define x where "x = a - 0xC0"
  define y where "y = b - 0x80"
  have ab: "a = 0xC0 + x" "b = 0x80 + y" "y < 64" "2 \<le> x" "x < 32"
    using ok by (auto simp: pair_ok_def continuation_def x_def y_def)
  then have "utf8_encode (64 * x + y) = [a, b]" by (simp add: utf8_encode_def)
  moreover have "scalar_value (64 * x + y)" using ab by (simp add: scalar_value_def)
  ultimately show ?thesis by blast
qed

lemma triple_encodes: "triple_ok a b c \<Longrightarrow> \<exists>v. scalar_value v \<and> utf8_encode v = [a, b, c]"
proof -
  assume ok: "triple_ok a b c"
  define x where "x = a - 0xE0"
  define y where "y = b - 0x80"
  define z where "z = c - 0x80"
  have abc: "a = 0xE0 + x" "b = 0x80 + y" "c = 0x80 + z" "y < 64" "z < 64" "x < 16"
      "x = 0 \<Longrightarrow> 32 \<le> y" "x = 13 \<Longrightarrow> y < 32"
    using ok by (auto simp: triple_ok_def continuation_def x_def y_def z_def)
  let ?v = "64 * (64 * x + y) + z"
  have d: "?v div 64 = 64 * x + y" "?v mod 64 = z" using abc(5) by (rule low_digit)+
  have "?v div 4096 = ?v div 64 div 64" by (simp only: div_mult2_eq [symmetric]) simp
  then have e: "?v div 4096 = x" using abc d by simp
  have m: "?v div 64 mod 64 = y" unfolding d(1) using abc(4) by (rule low_digit)
  have range: "2048 \<le> ?v" "?v < 65536" using abc by (cases "x = 0"; simp)+
  have "2048 \<le> u \<Longrightarrow> u < 65536 \<Longrightarrow> u div 4096 = x \<Longrightarrow> u div 64 mod 64 = y \<Longrightarrow> u mod 64 = z \<Longrightarrow>
      utf8_encode u = [a, b, c]" for u
    using abc(1-3) by (simp add: utf8_encode_def)
  from this [OF range e m d(2)] have "utf8_encode ?v = [a, b, c]" .
  moreover have "scalar_value ?v"
  proof (cases "x = 13")
    case True
    then show ?thesis using abc by (simp add: scalar_value_def)
  next
    case False
    then consider "x < 13" | "14 \<le> x" by linarith
    then have "?v < 0xD800 \<or> 0xE000 \<le> ?v" using abc(4,5) by cases auto
    with range(2) show ?thesis unfolding scalar_value_def by linarith
  qed
  ultimately show ?thesis by blast
qed

lemma quad_encodes: "quad_ok a b c d \<Longrightarrow> \<exists>v. scalar_value v \<and> utf8_encode v = [a, b, c, d]"
proof -
  assume ok: "quad_ok a b c d"
  define w where "w = a - 0xF0"
  define x where "x = b - 0x80"
  define y where "y = c - 0x80"
  define z where "z = d - 0x80"
  have abcd: "a = 0xF0 + w" "b = 0x80 + x" "c = 0x80 + y" "d = 0x80 + z" "x < 64" "y < 64" "z < 64" "w \<le> 4"
      "w = 0 \<Longrightarrow> 16 \<le> x" "w = 4 \<Longrightarrow> x < 16"
    using ok by (auto simp: quad_ok_def continuation_def w_def x_def y_def z_def)
  let ?v = "64 * (64 * (64 * w + x) + y) + z"
  have d: "?v div 64 = 64 * (64 * w + x) + y" "?v mod 64 = z" using abcd(7) by (rule low_digit)+
  have "?v div 4096 = ?v div 64 div 64" by (simp only: div_mult2_eq [symmetric]) simp
  then have e: "?v div 4096 = 64 * w + x" using abcd d by simp
  have "?v div 262144 = ?v div 4096 div 64" by (simp only: div_mult2_eq [symmetric]) simp
  then have f: "?v div 262144 = w" using abcd e by simp
  have m: "?v div 64 mod 64 = y" "?v div 4096 mod 64 = x"
    unfolding d(1) e using abcd(5,6) by (simp_all only: low_digit)
  have range: "65536 \<le> ?v" "?v < 0x110000" using abcd by (cases "w = 0"; cases "w = 4"; simp)+
  have "65536 \<le> u \<Longrightarrow> u div 262144 = w \<Longrightarrow> u div 4096 mod 64 = x \<Longrightarrow> u div 64 mod 64 = y \<Longrightarrow> u mod 64 = z \<Longrightarrow>
      utf8_encode u = [a, b, c, d]" for u
    using abcd(1-4) by (simp add: utf8_encode_def)
  from this [OF range(1) f m(2,1) d(2)] have "utf8_encode ?v = [a, b, c, d]" .
  moreover have "scalar_value ?v" using range by (simp add: scalar_value_def)
  ultimately show ?thesis by blast
qed

lemma utf8_valid_sound: "utf8_valid bs \<Longrightarrow> \<exists>cs. list_all scalar_value cs \<and> bs = concat (map utf8_encode cs)"
proof (induction bs rule: utf8_valid.induct)
  case 1
  then show ?case by (intro exI [of _ "[]"]) simp
next
  case (2 a bs)
  have extend: "\<exists>cs. list_all scalar_value cs \<and> p @ rest = concat (map utf8_encode cs)"
    if "\<exists>c. scalar_value c \<and> utf8_encode c = p"
      "\<exists>cs. list_all scalar_value cs \<and> rest = concat (map utf8_encode cs)" for p rest
    using that by (metis concat.simps(2) list.simps(9) list.pred_inject(2))
  show ?case
  proof (cases "a < 0x80")
    case True
    with 2 have "\<exists>cs. list_all scalar_value cs \<and> bs = concat (map utf8_encode cs)" by simp
    moreover have "\<exists>c. scalar_value c \<and> utf8_encode c = [a]"
      using True by (intro exI [of _ a]) (simp add: scalar_value_def utf8_encode_def)
    ultimately show ?thesis using extend [of "[a]" bs] by simp
  next
    case big: False
    with 2(5) obtain b cs where bs: "bs = b # cs" by (auto split: list.splits)
    show ?thesis
    proof (cases "pair_ok a b")
      case True
      with 2 big bs have "\<exists>vs. list_all scalar_value vs \<and> cs = concat (map utf8_encode vs)" by simp
      with extend [OF pair_encodes [OF True]] show ?thesis by (simp add: bs)
    next
      case pair: False
      with 2(5) big bs obtain c ds where cs: "cs = c # ds" by (auto split: list.splits)
      show ?thesis
      proof (cases "triple_ok a b c")
        case True
        with 2 big bs pair cs have "\<exists>vs. list_all scalar_value vs \<and> ds = concat (map utf8_encode vs)" by simp
        with extend [OF triple_encodes [OF True]] show ?thesis by (simp add: bs cs)
      next
        case triple: False
        with 2(5) big bs pair cs obtain d es where ds: "ds = d # es" "quad_ok a b c d" "utf8_valid es"
          by (auto split: list.splits)
        with 2 big bs pair cs triple have "\<exists>vs. list_all scalar_value vs \<and> es = concat (map utf8_encode vs)" by simp
        with extend [OF quad_encodes [OF ds(2)]] show ?thesis by (simp add: bs cs ds)
      qed
    qed
  qed
qed

lemma utf8_valid_complete: "list_all scalar_value cs \<Longrightarrow> utf8_valid (concat (map utf8_encode cs))"
  by (induction cs) (simp_all add: utf8_valid_encoded)

lemma utf8_valid_iff: "utf8_valid bs \<longleftrightarrow> (\<exists>cs. list_all scalar_value cs \<and> bs = concat (map utf8_encode cs))"
  using utf8_valid_sound utf8_valid_complete by blast

text \<open>
  A slice is given as text, unchanged, exactly when its bytes encode a sequence of Unicode scalar
  values; overlong forms, surrogates and cut sequences are refused.
\<close>
theorem slice_text_iff:
  "slice_as_str data = Some s \<longleftrightarrow>
     s = data \<and> (\<exists>cs. list_all scalar_value cs \<and> map char_code data = concat (map utf8_encode cs))"
  unfolding slice_as_str_def utf8_valid_iff by auto

end
