(* ===== verification/TelemetryFiles.thy ===== *)
theory TelemetryFiles
  imports Text_Lib
begin

text \<open>
  The files under \<open>kite-x402-axum/src/telemetry/\<close>, which no module declaration names either: the
  audit trail, the connection pool's gauges with the wait for a drain, the readiness probe and the
  request span.

  The lemmas say which entries the trail keeps and whether the wait ends. Its loop is a partial
  function over what each check reads: the gauge and the clock.
\<close>

subsection \<open>The audit trail (\<open>audit_trail.rs\<close>)\<close>

record audit_entry =
  ae_event_type :: str
  ae_tx_hash :: str
  ae_timestamp_ms :: u64

record audit_trail_store =
  at_buffer :: "audit_entry list"
  at_capacity :: nat

definition audit_trail_new :: "nat \<Rightarrow> audit_trail_store" where
  "audit_trail_new capacity = \<lparr>at_buffer = [], at_capacity = capacity\<rparr>"

definition audit_append :: "str \<Rightarrow> str \<Rightarrow> u64 \<Rightarrow> audit_trail_store \<Rightarrow> audit_trail_store" where
  "audit_append event_type tx_hash timestamp_ms s =
     s\<lparr>at_buffer := push_bounded (at_capacity s) (at_buffer s)
         \<lparr>ae_event_type = event_type, ae_tx_hash = tx_hash, ae_timestamp_ms = timestamp_ms\<rparr>\<rparr>"

definition append_entry :: "audit_trail_store \<Rightarrow> audit_entry \<Rightarrow> audit_trail_store" where
  "append_entry s e = audit_append (ae_event_type e) (ae_tx_hash e) (ae_timestamp_ms e) s"

lemma append_entry_eq:
  "append_entry s e = s\<lparr>at_buffer := push_bounded (at_capacity s) (at_buffer s) e\<rparr>"
  by (cases e) (simp add: append_entry_def audit_append_def)

text \<open>The trail is the most recent entries, as many as the capacity, and never fewer than one.\<close>

lemma audit_trail_recent:
  "foldl append_entry (audit_trail_new capacity) es
     = \<lparr>at_buffer = drop (length es - max 1 capacity) es, at_capacity = capacity\<rparr>"
proof (induction es rule: rev_induct)
  case (snoc e es)
  have "push_bounded capacity (drop (length es - max 1 capacity) es) e
      = drop (Suc (length es) - max 1 capacity) (es @ [e])"
  proof (cases "max 1 capacity \<le> length es")
    case True
    then have "Suc (length es) - max 1 capacity = Suc (length es - max 1 capacity)" by linarith
    with True show ?thesis by (auto simp: push_bounded_def drop_Suc tl_drop)
  next
    case False
    then show ?thesis by (auto simp: push_bounded_def not_le)
  qed
  with snoc show ?case by (simp add: append_entry_eq)
qed (simp add: audit_trail_new_def)

subsection \<open>The connection pool (\<open>pool_metrics.rs\<close>)\<close>

record pool_metrics =
  po_active_connections :: usize
  po_idle_connections :: usize
  po_wait_queue_depth :: usize

definition pool_new :: pool_metrics where
  "pool_new = \<lparr>po_active_connections = 0, po_idle_connections = 0, po_wait_queue_depth = 0\<rparr>"

definition inc_active :: "pool_metrics \<Rightarrow> pool_metrics" where
  "inc_active p = p\<lparr>po_active_connections := po_active_connections p + 1\<rparr>"

definition dec_active :: "pool_metrics \<Rightarrow> pool_metrics" where
  "dec_active p = p\<lparr>po_active_connections := po_active_connections p - 1\<rparr>"

definition pool_snapshot :: "pool_metrics \<Rightarrow> usize \<times> usize \<times> usize" where
  "pool_snapshot p = (po_active_connections p, po_idle_connections p, po_wait_queue_depth p)"

lemma dec_inc_active: "dec_active (inc_active p) = p"
  by (simp add: dec_active_def inc_active_def)

lemma dec_active_new: "po_active_connections (dec_active pool_new) = - 1"
  by (simp add: dec_active_def pool_new_def)

text \<open>
  The \<open>i\<close>-th check reads the pool \<open>pool i\<close> and, when it goes on, the clock \<open>now i\<close>; between two
  checks the task sleeps.
\<close>

definition drain_poll :: duration where
  "drain_poll = from_millis 50"

partial_function (option) drain_loop ::
    "(nat \<Rightarrow> pool_metrics) \<Rightarrow> (nat \<Rightarrow> instant) \<Rightarrow> instant \<Rightarrow> duration \<Rightarrow> nat \<Rightarrow> bool option" where
  "drain_loop pool now start timeout i =
     (if 0 < po_active_connections (pool i) then
        if timeout \<le> duration_since (now i) start then Some False
        else drain_loop pool now start timeout (Suc i)
      else Some True)"

definition wait_for_drain ::
    "(nat \<Rightarrow> pool_metrics) \<Rightarrow> (nat \<Rightarrow> instant) \<Rightarrow> instant \<Rightarrow> duration \<Rightarrow> bool option" where
  "wait_for_drain pool now start timeout = drain_loop pool now start timeout 0"

definition drain_waits :: "(nat \<Rightarrow> pool_metrics) \<Rightarrow> (nat \<Rightarrow> instant) \<Rightarrow> instant \<Rightarrow> duration \<Rightarrow> nat \<Rightarrow> bool" where
  "drain_waits pool now start timeout i \<longleftrightarrow>
     0 < po_active_connections (pool i) \<and> duration_since (now i) start < timeout"

lemma drain_loop_skip:
  "(\<And>i. i < n \<Longrightarrow> drain_waits pool now start timeout i) \<Longrightarrow>
     drain_loop pool now start timeout 0 = drain_loop pool now start timeout n"
proof (induction n)
  case (Suc n)
  then have "drain_waits pool now start timeout n" by simp
  then have "drain_loop pool now start timeout n = drain_loop pool now start timeout (Suc n)"
    by (subst drain_loop.simps) (simp add: drain_waits_def)
  with Suc show ?case by simp
qed simp

lemma drain_loop_ends:
  "\<not> drain_waits pool now start timeout n \<Longrightarrow>
     drain_loop pool now start timeout n = Some (po_active_connections (pool n) = 0)"
  by (subst drain_loop.simps) (auto simp: drain_waits_def word_neq_0_conv [symmetric])

lemma sleeps_add_up:
  "(\<And>i. now i + int drain_poll \<le> now (Suc i)) \<Longrightarrow> start \<le> now 0 \<Longrightarrow> start + int (n * drain_poll) \<le> now n"
proof (induction n)
  case (Suc n)
  then have "start + int (n * drain_poll) \<le> now n" by simp
  moreover have "now n + int drain_poll \<le> now (Suc n)" by (rule Suc.prems(1))
  ultimately show ?case by (simp add: algebra_simps)
qed simp

text \<open>
  When each sleep lasts at least its fifty milliseconds, the wait returns, after at most one check
  more than the timeout has such pauses, begun or whole. It returns at the first check that finds no
  active connection or the time used up, and says which; before, neither was the case.
\<close>
theorem wait_for_drain_returns:
  assumes sleeps: "\<And>i. now i + int drain_poll \<le> now (Suc i)" and started: "start \<le> now 0"
  shows "\<exists>n. n * drain_poll < timeout + drain_poll
    \<and> wait_for_drain pool now start timeout = Some (po_active_connections (pool n) = 0)
    \<and> (po_active_connections (pool n) \<noteq> 0 \<longrightarrow> timeout \<le> duration_since (now n) start)
    \<and> (\<forall>i<n. po_active_connections (pool i) \<noteq> 0 \<and> duration_since (now i) start < timeout)"
proof -
  have elapsed: "n * drain_poll \<le> duration_since (now n) start" for n
  proof -
    have "start + int (n * drain_poll) \<le> now n" using assms by (rule sleeps_add_up)
    then have "int (n * drain_poll) \<le> now n - start" by linarith
    from nat_mono [OF this] show ?thesis by (simp only: nat_int duration_since_def)
  qed
  have poll: "0 < drain_poll" by (simp add: drain_poll_def from_millis_def nanos_per_milli_def)
  then have "timeout \<le> timeout * drain_poll" by simp
  also have "\<dots> \<le> duration_since (now timeout) start" by (rule elapsed)
  finally have "\<not> drain_waits pool now start timeout timeout" by (simp add: drain_waits_def)
  then obtain n where n: "\<not> drain_waits pool now start timeout n"
      "\<And>i. i < n \<Longrightarrow> drain_waits pool now start timeout i"
    using exists_least_iff [of "\<lambda>i. \<not> drain_waits pool now start timeout i"] by blast
  have "n * drain_poll < timeout + drain_poll"
  proof (cases n)
    case (Suc k)
    with n(2) [of k] elapsed [of k] show ?thesis by (simp add: drain_waits_def)
  qed (simp add: poll)
  moreover have "wait_for_drain pool now start timeout = Some (po_active_connections (pool n) = 0)"
    using drain_loop_skip [of n pool now start timeout] n drain_loop_ends by (simp add: wait_for_drain_def)
  ultimately show ?thesis
    using n by (intro exI [of _ n]) (auto simp: drain_waits_def word_neq_0_conv [symmetric])
qed

definition sample_pool :: "nat \<Rightarrow> pool_metrics" where
  "sample_pool i = (if i < 3 then inc_active pool_new else pool_new)"

text \<open>A connection that closes after the third check; one that never does.\<close>

theorem wait_for_drain_returns_witness:
  "wait_for_drain sample_pool (\<lambda>i. int i * 60000000) 0 (from_secs 1) = Some True
    \<and> wait_for_drain (\<lambda>_. inc_active pool_new) (\<lambda>i. int i * 50000000) 0 (from_millis 70) = Some False"
proof -
  have poll: "drain_poll = 50000000" by (simp add: drain_poll_def from_millis_def nanos_per_milli_def)
  obtain n where "n * drain_poll < from_secs 1 + drain_poll"
      "wait_for_drain sample_pool (\<lambda>i. int i * 60000000) 0 (from_secs 1) = Some (po_active_connections (sample_pool n) = 0)"
      "po_active_connections (sample_pool n) \<noteq> 0 \<Longrightarrow> from_secs 1 \<le> duration_since (int n * 60000000) 0"
    using wait_for_drain_returns [of "\<lambda>i. int i * 60000000" 0 "from_secs 1" sample_pool]
    by (auto simp: poll algebra_simps)
  moreover have "from_secs 1 = 1000000000" by (simp add: from_secs_def nanos_per_sec_def)
  ultimately have "wait_for_drain sample_pool (\<lambda>i. int i * 60000000) 0 (from_secs 1) = Some True"
    by (auto simp: sample_pool_def pool_new_def inc_active_def duration_since_def split: if_splits)
  moreover have "wait_for_drain (\<lambda>_. inc_active pool_new) (\<lambda>i. int i * 50000000) 0 (from_millis 70) = Some False"
    using wait_for_drain_returns [of "\<lambda>i. int i * 50000000" 0 "from_millis 70" "\<lambda>_. inc_active pool_new"]
    by (auto simp: poll algebra_simps pool_new_def inc_active_def)
  ultimately show ?thesis ..
qed

text \<open>
  A pause is needed only for the bound: were the clock to stand still with a connection open, the
  loop would not return.
\<close>

subsection \<open>The readiness probe (\<open>readiness_checker.rs\<close>)\<close>

record readiness_probe =
  rd_rpc_healthy :: bool
  rd_facilitator_healthy :: bool

definition readiness_new :: readiness_probe where
  "readiness_new = \<lparr>rd_rpc_healthy = True, rd_facilitator_healthy = True\<rparr>"

text \<open>The derived \<open>Default\<close>, which is not what \<open>new\<close> gives.\<close>

definition readiness_default :: readiness_probe where
  "readiness_default = \<lparr>rd_rpc_healthy = False, rd_facilitator_healthy = False\<rparr>"

definition set_rpc_status :: "bool \<Rightarrow> readiness_probe \<Rightarrow> readiness_probe" where
  "set_rpc_status healthy p = p\<lparr>rd_rpc_healthy := healthy\<rparr>"

definition set_facilitator_status :: "bool \<Rightarrow> readiness_probe \<Rightarrow> readiness_probe" where
  "set_facilitator_status healthy p = p\<lparr>rd_facilitator_healthy := healthy\<rparr>"

definition is_ready :: "readiness_probe \<Rightarrow> bool" where
  "is_ready p \<longleftrightarrow> rd_rpc_healthy p \<and> rd_facilitator_healthy p"

lemma default_not_ready: "is_ready readiness_new" "\<not> is_ready readiness_default"
  by (simp_all add: is_ready_def readiness_new_def readiness_default_def)

lemma ready_after_both:
  "is_ready (set_rpc_status a (set_facilitator_status b p)) \<longleftrightarrow> a \<and> b"
  by (simp add: is_ready_def set_rpc_status_def set_facilitator_status_def)

subsection \<open>The request span (\<open>span_tracer.rs\<close>)\<close>

record request_span =
  rs_correlation_id :: str
  rs_method :: str
  rs_path :: str
  rs_started_at :: instant

text \<open>\<open>random\<close> is the draw of \<open>rand::random::<u64>()\<close>.\<close>

definition request_span_new :: "u64 \<Rightarrow> instant \<Rightarrow> str \<Rightarrow> str \<Rightarrow> str option \<Rightarrow> request_span" where
  "request_span_new random now method path correlation_id =
     \<lparr>rs_correlation_id = (case correlation_id of Some c \<Rightarrow> c
        | None \<Rightarrow> ''trace-'' @ pad_zeros 16 (show_hex (unat random))),
      rs_method = method, rs_path = path, rs_started_at = now\<rparr>"

definition elapsed_millis :: "instant \<Rightarrow> request_span \<Rightarrow> nat" where
  "elapsed_millis now s = as_millis (duration_since now (rs_started_at s))"

end
