(* ===== verification/GuardSpec.thy ===== *)
theory GuardSpec
  imports NonceGuard
begin

text \<open>
  What the replay guard promises, without its store, its index of deadlines and its bounded clean-up:
  a map from authorizations to claims. A claim is held by a reservation or ends at a deadline. The
  specification is a relation, because the order in which ended claims are forgotten is the
  implementation's: it says how many go, that only ended ones go, and that those that ended first do.
  The theorem is a forward simulation: every run of \<open>nonce_guard.rs\<close>, an administrative clear
  included, is a run of the specification with the same answers.
\<close>

subsection \<open>The specification\<close>

datatype claim = Held nat | Until instant

type_synonym claims = "str \<Rightarrow> claim option"

definition ended :: "instant \<Rightarrow> claims \<Rightarrow> str set" where
  "ended now m = {k. \<exists>d. m k = Some (Until d) \<and> d \<le> now}"

definition forgets :: "instant \<Rightarrow> claims \<Rightarrow> claims \<Rightarrow> bool" where
  "forgets now m m' \<longleftrightarrow>
     (\<exists>gone \<subseteq> ended now m.
        m' = m |` (- gone) \<and> card gone = min 64 (card (ended now m))
        \<and> (\<forall>k \<in> gone. \<forall>k' \<in> ended now m - gone. \<forall>d d'. m k = Some (Until d) \<and> m k' = Some (Until d') \<longrightarrow> d \<le> d'))"

definition claims_reserve :: "nat \<Rightarrow> nat \<Rightarrow> str \<Rightarrow> instant \<Rightarrow> claims \<Rightarrow> nonce_error + reservation \<Rightarrow> claims \<Rightarrow> bool" where
  "claims_reserve cap n k now m answer m' \<longleftrightarrow>
     (\<exists>m1. forgets now m m1 \<and>
        (if k \<in> dom m1 then answer = Inl (ReplayDetected k) \<and> m' = m1
         else if cap \<le> card (dom m1) then answer = Inl CapacityExceeded \<and> m' = m1
         else answer = Inr \<lparr>res_key = k, res_generation = n, res_retain = False\<rparr> \<and> m' = m1(k \<mapsto> Held n)))"

definition claims_drop :: "duration \<Rightarrow> reservation \<Rightarrow> instant \<Rightarrow> claims \<Rightarrow> claims" where
  "claims_drop ttl r now m =
     (if m (res_key r) \<noteq> Some (Held (res_generation r)) then m
      else if res_retain r
      then (case instant_checked_add now ttl of Some d \<Rightarrow> m(res_key r \<mapsto> Until d) | None \<Rightarrow> m)
      else m(res_key r := None))"

record guard_spec =
  gs_claims :: claims
  gs_next :: nat
  gs_live :: "reservation list"

inductive claims_step :: "nat \<Rightarrow> duration \<Rightarrow> guard_spec \<Rightarrow> guard_event \<Rightarrow> guard_spec \<Rightarrow> bool" for cap ttl where
  admitted: "claims_reserve cap (gs_next s) k now (gs_claims s) (Inr r) m' \<Longrightarrow>
    claims_step cap ttl s (EvReserve k now)
      (s\<lparr>gs_claims := m', gs_next := Suc (gs_next s), gs_live := r # gs_live s\<rparr>)"
| refused: "claims_reserve cap (gs_next s) k now (gs_claims s) (Inl e) m' \<Longrightarrow>
    claims_step cap ttl s (EvReserve k now) (s\<lparr>gs_claims := m'\<rparr>)"
| retained: "i < length (gs_live s) \<Longrightarrow>
    claims_step cap ttl s (EvRetain i) (s\<lparr>gs_live := (gs_live s)[i := retain_on_drop (gs_live s ! i)]\<rparr>)"
| dropped: "i < length (gs_live s) \<Longrightarrow>
    claims_step cap ttl s (EvDrop i now) (s\<lparr>gs_claims := claims_drop ttl (gs_live s ! i) now (gs_claims s),
      gs_live := take i (gs_live s) @ drop (Suc i) (gs_live s)\<rparr>)"
| released: "i < length (gs_live s) \<Longrightarrow>
    claims_step cap ttl s (EvRelease i now)
      (s\<lparr>gs_claims := claims_drop ttl ((gs_live s ! i)\<lparr>res_retain := False\<rparr>) now (gs_claims s),
         gs_live := take i (gs_live s) @ drop (Suc i) (gs_live s)\<rparr>)"
| cleared: "claims_step cap ttl s EvClear (s\<lparr>gs_claims := Map.empty\<rparr>)"
| no_such: "length (gs_live s) \<le> i \<Longrightarrow> e \<in> {EvRetain i, EvDrop i now, EvRelease i now} \<Longrightarrow> claims_step cap ttl s e s"

inductive claims_run :: "nat \<Rightarrow> duration \<Rightarrow> guard_spec \<Rightarrow> guard_event list \<Rightarrow> guard_spec \<Rightarrow> bool" for cap ttl where
  finished: "claims_run cap ttl s [] s"
| event: "claims_step cap ttl s e s' \<Longrightarrow> claims_run cap ttl s' es s'' \<Longrightarrow> claims_run cap ttl s (e # es) s''"

subsection \<open>The abstraction\<close>

definition deadline_of :: "(instant \<times> str) list \<Rightarrow> str \<Rightarrow> instant option" where
  "deadline_of xs = map_of (map prod.swap xs)"

definition claims_in :: "(str, nat) fmap \<Rightarrow> (instant \<times> str) list \<Rightarrow> claims" where
  "claims_in es xs k =
     (case fmlookup es k of
        None \<Rightarrow> None
      | Some n \<Rightarrow> (case deadline_of xs k of Some d \<Rightarrow> Some (Until d) | None \<Rightarrow> Some (Held n)))"

definition claims_of :: "nonce_guard \<Rightarrow> claims" where
  "claims_of g = claims_in (ns_entries (ng_store g)) (deadlines g)"

definition abstract_guard :: "nonce_guard \<Rightarrow> reservation list \<Rightarrow> guard_spec" where
  "abstract_guard g live = \<lparr>gs_claims = claims_of g, gs_next = ng_next_generation g, gs_live = live\<rparr>"

lemma claims_dom: "dom (claims_of g) = fset (fmdom (ns_entries (ng_store g)))"
  by (auto simp: claims_of_def claims_in_def fmlookup_dom_iff dom_def split: option.splits)

lemma claims_card: "card (dom (claims_of g)) = guard_len g"
  by (simp add: claims_dom guard_len_def map_len_def fcard.rep_eq)

lemma deadline_of_iff:
  "distinct (map snd xs) \<Longrightarrow> deadline_of xs k = Some d \<longleftrightarrow> (d, k) \<in> set xs"
  by (auto simp: deadline_of_def comp_def map_of_eq_Some_iff)

lemma deadline_of_None: "deadline_of xs k = None \<longleftrightarrow> k \<notin> snd ` set xs"
  by (force simp: deadline_of_def map_of_eq_None_iff)

text \<open>The loop in closed form: it takes the first due deadlines, sixty-four at most.\<close>

definition due :: "instant \<Rightarrow> (instant \<times> 'k) list \<Rightarrow> (instant \<times> 'k) list" where
  "due now = takeWhile (\<lambda>p. fst p \<le> now)"

lemma expire_loop_closed:
  "expire_loop n now es xs = (fmdrop_set (snd ` set (take n (due now xs))) es, drop (min n (length (due now xs))) xs)"
  by (induction n now es xs rule: expire_loop.induct)
    (auto simp: due_def intro!: fmap_ext split: list.split prod.split)

lemma due_set: "sorted xs \<Longrightarrow> set (due now xs) = {p \<in> set xs. fst p \<le> now}"
  by (induction xs) (auto simp: due_def less_eq_prod_def)

lemma due_take: "take (min n (length (due now xs))) xs = take n (due now xs)"
  unfolding due_def by (metis min.commute take_take takeWhile_eq_take)

lemma deadline_of_drop:
  assumes "distinct (map snd xs)" "k \<notin> snd ` set (take n xs)"
  shows "deadline_of (drop n xs) k = deadline_of xs k"
proof -
  have "deadline_of (take n xs @ drop n xs) k = deadline_of (drop n xs) k"
    using assms(2)
    by (simp only: deadline_of_def map_append map_of_append)
      (force simp: map_add_def map_of_eq_None_iff split: option.split dest: map_of_SomeD)
  then show ?thesis by simp
qed

lemma guard_index:
  assumes "store_inv g"
  shows "sorted (deadlines g)" "distinct (map snd (deadlines g))"
    "snd ` set (deadlines g) \<subseteq> fset (fmdom (ns_entries (ng_store g)))"
  using assms by (auto simp: store_inv_def index_ok_def bt_wf_def)

lemma claims_until:
  assumes "store_inv g"
  shows "claims_of g k = Some (Until d) \<longleftrightarrow> (d, k) \<in> set (deadlines g)"
proof -
  note index = guard_index [OF assms]
  have "(d, k) \<in> set (deadlines g) \<Longrightarrow> fmlookup (ns_entries (ng_store g)) k \<noteq> None"
    using index(3) by (force simp: fmlookup_dom_iff)
  then show ?thesis
    unfolding claims_of_def claims_in_def deadline_of_iff [OF index(2), of k d, symmetric]
    by (cases "fmlookup (ns_entries (ng_store g)) k"; cases "deadline_of (deadlines g) k") auto
qed

lemma claims_held:
  "claims_of g k = Some (Held n) \<longleftrightarrow>
     fmlookup (ns_entries (ng_store g)) k = Some n \<and> k \<notin> snd ` set (deadlines g)"
  by (auto simp: claims_of_def claims_in_def simp flip: deadline_of_None split: option.splits)

lemma ended_due: "store_inv g \<Longrightarrow> ended now (claims_of g) = snd ` set (due now (deadlines g))"
  by (force simp: ended_def claims_until due_set guard_index(1))

lemma claims_expire:
  assumes "store_inv g"
  shows "claims_of (expire_guard now g) = claims_of g |` (- (snd ` set (take 64 (due now (deadlines g)))))"
proof
  fix k
  let ?j = "min 64 (length (due now (deadlines g)))"
  have gone: "set (take 64 (due now (deadlines g))) = set (take ?j (deadlines g))" by (simp only: due_take)
  have "ns_entries (ng_store (expire_guard now g)) =
      fmdrop_set (snd ` set (take ?j (deadlines g))) (ns_entries (ng_store g))"
    "deadlines (expire_guard now g) = drop ?j (deadlines g)"
    unfolding gone [symmetric]
    by (simp_all add: expire_guard_def ns_expire_def expire_loop_closed deadlines_def)
  then show "claims_of (expire_guard now g) k = (claims_of g |` (- (snd ` set (take 64 (due now (deadlines g)))))) k"
    unfolding gone using deadline_of_drop [OF guard_index(2) [OF assms], of k ?j]
    by (simp add: claims_of_def claims_in_def restrict_map_def cong: option.case_cong)
qed

lemma expire_forgets:
  assumes "store_inv g"
  shows "forgets now (claims_of g) (claims_of (expire_guard now g))"
proof -
  let ?due = "due now (deadlines g)"
  let ?gone = "snd ` set (take 64 ?due)"
  note index = guard_index [OF assms]
  have split: "?due @ dropWhile (\<lambda>p. fst p \<le> now) (deadlines g) = deadlines g" by (simp add: due_def)
  then have keys: "distinct (map snd ?due)" and sorted: "sorted ?due"
    using index(1,2) by (metis distinct_append map_append, metis sorted_append)
  have "distinct (map snd (take 64 ?due))" using keys by (metis distinct_take take_map)
  then have "card ?gone = min 64 (card (snd ` set ?due))"
    using keys by (metis distinct_card length_map length_take min.commute set_map)
  moreover have sub: "?gone \<subseteq> ended now (claims_of g)"
    unfolding ended_due [OF assms] by (intro image_mono) (rule set_take_subset)
  moreover have "d \<le> d'" if k: "k \<in> ?gone" "k' \<in> ended now (claims_of g) - ?gone"
      "claims_of g k = Some (Until d)" "claims_of g k' = Some (Until d')" for k k' d d'
  proof -
    have mem: "(d, k) \<in> set ?due" "(d', k') \<in> set ?due"
      using k sub unfolding ended_def
      by (auto simp: due_set index(1) simp flip: claims_until [OF assms])
    have "(d, k) \<in> set (take 64 ?due)"
    proof -
      from k(1) obtain e where "(e, k) \<in> set (take 64 ?due)" by auto
      moreover from this have "(e, k) \<in> set ?due" by (rule in_set_takeD)
      ultimately show ?thesis using mem(1) keys by (metis deadline_of_iff option.inject)
    qed
    moreover have "(d', k') \<in> set (drop 64 ?due)"
      using mem(2) k(2) by (metis Diff_iff UnE append_take_drop_id image_eqI set_append snd_conv)
    ultimately have "(d, k) \<le> (d', k')" using sorted by (metis append_take_drop_id sorted_append)
    then show ?thesis by (auto simp: less_eq_prod_def)
  qed
  ultimately show ?thesis
    unfolding forgets_def by (intro exI [of _ ?gone]) (auto simp: claims_expire assms ended_due)
qed

subsection \<open>The simulation\<close>

lemma reserve_refines:
  assumes "store_inv g" "reserve_key g k now = (answer, g')"
  shows "claims_reserve (ng_max_capacity g) (ng_next_generation g) k now (claims_of g) answer (claims_of g')"
proof -
  let ?e = "expire_guard now g"
  have st: "store_inv ?e" using assms(1) by (rule expire_guard_store_inv)
  have dom: "k \<in> dom (claims_of ?e) \<longleftrightarrow> protected_key ?e k" by (simp add: claims_dom protected_key_def)
  have claim: "claims_of (?e\<lparr>ng_store := (ng_store ?e)\<lparr>ns_entries := fmupd k n (ns_entries (ng_store ?e))\<rparr>, ng_next_generation := n'\<rparr>)
      = (claims_of ?e)(k \<mapsto> Held n)" if "\<not> protected_key ?e k" for n n'
  proof -
    have "k \<notin> snd ` set (deadlines ?e)" using guard_index(3) [OF st] that by (auto simp: protected_key_def)
    then have "deadline_of (deadlines ?e) k = None" by (simp add: deadline_of_None)
    then show ?thesis by (auto simp: claims_of_def claims_in_def deadlines_def fun_eq_iff)
  qed
  show ?thesis
    unfolding claims_reserve_def
    using assms(2) expire_forgets [OF assms(1), of now] dom
    by (intro exI [of _ "claims_of ?e"]) (auto simp: reserve_key_alt Let_def claims_card claim split: if_splits)
qed

lemma deadline_of_insert:
  assumes "distinct (map snd xs)" "k \<notin> snd ` set xs"
  shows "deadline_of (bt_insert (d, k) xs) k' = (if k' = k then Some d else deadline_of xs k')"
proof -
  have "mset (map snd (bt_insert (d, k) xs)) = mset (k # map snd xs)"
    using assms(2) by (force simp: bt_insert_def insort_insert_key_def mset_insort)
  then have "distinct (map snd (bt_insert (d, k) xs))" using assms by (metis distinct.simps(2) mset_eq_imp_distinct_iff set_map)
  then have "deadline_of (bt_insert (d, k) xs) k' = Some e \<longleftrightarrow> (if k' = k then Some d else deadline_of xs k') = Some e" for e
    using assms by (auto simp: deadline_of_iff image_iff)
  then show ?thesis by (metis not_None_eq)
qed

lemma drop_refines:
  assumes inv: "store_inv g" and free: "current g r \<Longrightarrow> res_key r \<notin> snd ` set (deadlines g)"
  shows "claims_of (drop_reservation g r now) = claims_drop (ng_ttl g) r now (claims_of g)"
proof (cases "current g r")
  case False
  then have "claims_of g (res_key r) \<noteq> Some (Held (res_generation r))"
    by (auto simp: claims_held current_def)
  with False show ?thesis by (simp add: drop_stale claims_drop_def)
next
  case True
  then have held: "claims_of g (res_key r) = Some (Held (res_generation r))"
    using free by (simp add: claims_held current_def)
  have entry: "fmlookup (ns_entries (ng_store g)) (res_key r) = Some (res_generation r)"
    using True by (simp add: current_def)
  show ?thesis
  proof (cases "res_retain r")
    case False
    then show ?thesis
      by (simp add: drop_reservation_current [OF True] claims_drop_def held) (auto simp: claims_of_def claims_in_def deadlines_def fun_eq_iff)
  next
    case retain: True
    show ?thesis
    proof (cases "instant_checked_add now (ng_ttl g)")
      case None
      with retain show ?thesis by (simp add: drop_reservation_current [OF True] claims_drop_def held)
    next
      case (Some d)
      with retain have "claims_of (drop_reservation g r now)
          = claims_in (ns_entries (ng_store g)) (bt_insert (d, res_key r) (deadlines g))"
        by (simp add: drop_reservation_current [OF True] claims_of_def) (simp add: deadlines_def)
      also have "\<dots> = (claims_of g)(res_key r \<mapsto> Until d)"
        using deadline_of_insert [OF guard_index(2) [OF inv] free [OF True], of d] entry
        by (auto simp: claims_of_def claims_in_def fun_eq_iff cong: option.case_cong)
      finally show ?thesis using Some retain by (simp add: claims_drop_def held)
    qed
  qed
qed

lemma clear_refines:
  "claims_of (clear_guard g) = Map.empty" "ng_next_generation (clear_guard g) = ng_next_generation g"
  by (simp_all add: claims_of_def claims_in_def clear_guard_def fun_eq_iff)

lemma guard_step_refines:
  assumes inv: "guard_inv False g live" and step: "guard_step (g, live) e = (g', live')"
  shows "claims_step (ng_max_capacity g) (ng_ttl g) (abstract_guard g live) e (abstract_guard g' live')"
proof -
  let ?s = "abstract_guard g live"
  have st: "store_inv g" using inv by (simp add: guard_inv_def)
  have free: "res_key (live ! i) \<notin> snd ` set (deadlines g)" if "i < length live" "current g (live ! i)" for i
    using inv that by (simp add: guard_inv_def)
  show ?thesis
  proof (cases e)
    case (EvReserve k now)
    obtain answer g1 where r: "reserve_key g k now = (answer, g1)" by fastforce
    note refines = reserve_refines [OF st r]
    show ?thesis
    proof (cases answer)
      case (Inl err)
      with step EvReserve r have "g' = g1" "live' = live" "ng_next_generation g1 = ng_next_generation g"
        by (auto simp: reserve_key_alt Let_def split: if_splits)
      then show ?thesis
        using claims_step.refused [of "ng_max_capacity g" ?s k now err "claims_of g1" "ng_ttl g"] refines Inl EvReserve
        by (simp add: abstract_guard_def)
    next
      case (Inr res)
      with step EvReserve r have "g' = g1" "live' = res # live" "ng_next_generation g1 = Suc (ng_next_generation g)"
        by (auto simp: reserve_key_alt Let_def split: if_splits)
      then show ?thesis
        using claims_step.admitted [of "ng_max_capacity g" ?s k now res "claims_of g1" "ng_ttl g"] refines Inr EvReserve
        by (simp add: abstract_guard_def)
    qed
  next
    case (EvRetain i)
    with step show ?thesis
      using claims_step.retained [of i ?s "ng_max_capacity g" "ng_ttl g"] claims_step.no_such [of ?s i e]
      by (cases "i < length live") (auto simp: abstract_guard_def)
  next
    case (EvDrop i now)
    with step show ?thesis
      using claims_step.dropped [of i ?s "ng_max_capacity g" "ng_ttl g" now] claims_step.no_such [of ?s i e]
        drop_refines [OF st free, of i now]
      by (cases "i < length live") (auto simp: abstract_guard_def)
  next
    case (EvRelease i now)
    have "claims_of (release_reservation g (live ! i) now)
        = claims_drop (ng_ttl g) ((live ! i)\<lparr>res_retain := False\<rparr>) now (claims_of g)" if "i < length live"
      using free [OF that] unfolding release_reservation_def by (intro drop_refines [OF st]) (simp add: current_def)
    with step EvRelease show ?thesis
      using claims_step.released [of i ?s "ng_max_capacity g" "ng_ttl g" now] claims_step.no_such [of ?s i e]
      by (cases "i < length live") (auto simp: abstract_guard_def release_reservation_def)
  next
    case EvClear
    with step show ?thesis
      using claims_step.cleared [of "ng_max_capacity g" "ng_ttl g" ?s]
      by (auto simp: abstract_guard_def clear_refines)
  qed
qed

lemma guard_step_ttl: "ng_ttl (fst (guard_step s e)) = ng_ttl (fst s)"
  by (cases s; cases e)
    (auto simp: reserve_key_alt Let_def release_reservation_def clear_guard_def split: prod.split sum.split)

lemma guard_run_refines:
  "guard_inv False g live \<Longrightarrow> guard_run (g, live) es = (g', live') \<Longrightarrow>
     claims_run (ng_max_capacity g) (ng_ttl g) (abstract_guard g live) es (abstract_guard g' live')"
proof (induction es arbitrary: g live)
  case Nil
  then show ?case by (auto intro: claims_run.finished)
next
  case (Cons e es)
  obtain g1 live1 where s: "guard_step (g, live) e = (g1, live1)" by fastforce
  have "guard_inv False g1 live1" using guard_step_inv [OF Cons.prems(1) _ s] by simp
  moreover have "guard_run (g1, live1) es = (g', live')" using Cons.prems(2) s by (simp add: guard_run_Cons)
  ultimately have "claims_run (ng_max_capacity g1) (ng_ttl g1) (abstract_guard g1 live1) es (abstract_guard g' live')"
    by (rule Cons.IH)
  moreover have "ng_max_capacity g1 = ng_max_capacity g" "ng_ttl g1 = ng_ttl g"
    using guard_step_capacity [of "(g, live)" e] guard_step_ttl [of "(g, live)" e] s by simp_all
  ultimately show ?case
    using guard_step_refines [OF Cons.prems(1) s] by (auto intro: claims_run.event)
qed

text \<open>The empty specification.\<close>

definition claims_start :: guard_spec where
  "claims_start = \<lparr>gs_claims = Map.empty, gs_next = 0, gs_live = []\<rparr>"

lemma abstract_new: "abstract_guard (new_guard c t) [] = claims_start"
  by (simp add: abstract_guard_def new_guard_def claims_of_def claims_in_def claims_start_def fun_eq_iff)

text \<open>
  C11: the replay guard implements its specification. Every sequence of reservations, retentions, drops,
  releases and clears on a new guard is a run of a plain map from authorizations to claims, with the
  same reservations handed out; the next attempt on any authorization gets an answer the specification
  allows: refused if it is claimed and not forgotten, refused as full if that many claims are left,
  and otherwise a reservation. The index of deadlines, the generations and the bound on the clean-up are
  not visible beyond which ended claims are gone: all of them when there are at most
  sixty-four.
\<close>
theorem guard_refines_claims:
  "let (g, live) = guard_run (new_guard c t, []) es;
       (answer, g') = reserve_key g k now
   in claims_run (max c 1) (from_secs (max t 1)) claims_start es (abstract_guard g live)
      \<and> claims_reserve (max c 1) (ng_next_generation g) k now (claims_of g) answer (claims_of g')"
proof -
  obtain g live where run: "guard_run (new_guard c t, []) es = (g, live)" by fastforce
  obtain answer g' where r: "reserve_key g k now = (answer, g')" by fastforce
  have start: "guard_inv False (new_guard c t) []" by (rule guard_inv_new)
  have st: "store_inv g" using guard_run_store_inv [OF run] by (simp add: guard_inv_def)
  have cap: "ng_max_capacity g = max c 1" "ng_max_capacity (new_guard c t) = max c 1"
    "ng_ttl (new_guard c t) = from_secs (max t 1)"
    using guard_run_capacity [of "(new_guard c t, [])" es] run by (simp_all add: new_guard_def)
  show ?thesis
    using guard_run_refines [OF start run] reserve_refines [OF st r] by (simp add: run r cap abstract_new)
qed

end
