(* ===== verification/SystemProgress.thy ===== *)
theory SystemProgress
  imports SystemRuns
begin

text \<open>
  Two properties of the concurrent service that need every step, not only the safe ones. No state is
  stuck: from every reachable one, all requests in flight can be answered, with no connection broken,
  and then every permit is back. And the payment counters that \<open>/metrics/x402\<close> exports tell one story
  under every interleaving: nothing is verified that was not received, nothing settled that was not
  verified.
\<close>

subsection \<open>Every request can be answered\<close>

text \<open>The settings of the gate never change.\<close>

lemma gate_step_settings: "gate_step x w w' \<Longrightarrow> same_settings (w_conf w) (w_conf w')"
  by (induction rule: gate_step.induct)
    (auto dest: admit_settings after_verify_settings
      simp: after_handler_cases after_settle_def split: if_splits sum.splits)

lemma gate_settings: "reachable x w w' \<Longrightarrow> same_settings (w_conf w) (w_conf w')"
  by (induction rule: rtranclp_induct) (auto intro: same_settings_trans gate_step_settings)

text \<open>A request without a payment is always answered, unless the configured price panics.\<close>

definition bare_request :: gate_request where
  "bare_request = \<lparr>gr_request = \<lparr>req_method = ''GET'', req_uri = ''/'', req_path_query = None,
     req_headers = [], req_body = ''''\<rparr>, gr_original_uri = None\<rparr>"

lemma bare_request_answered:
  assumes "requirements x c \<noteq> None"
  obtains c' resp where "admit x clock now c bare_request = (c', Answer resp)"
  using assms
  by (cases "requirements x c"; cases "the (requirements x c)")
    (auto simp: admit_def Let_def payment_header_def bare_request_def hget_def)

text \<open>What is left to do for the requests in flight.\<close>

definition to_do :: "system \<Rightarrow> nat" where
  "to_do s = 5 * sy_queued s + 4 * size (sy_granted s) + 3 * length (w_tasks (sy_world s)) + 2 * sy_leaving s
     + count (rn_flights (sy_runs s)) Outside"

definition unbroken :: "system \<Rightarrow> system \<Rightarrow> bool" where
  "unbroken s s' \<longleftrightarrow> rn_arrived (sy_runs s') = rn_arrived (sy_runs s)
     \<and> length (rn_answered (sy_runs s')) + size (rn_flights (sy_runs s'))
       = length (rn_answered (sy_runs s)) + size (rn_flights (sy_runs s))"

lemma unbroken_refl [simp]: "unbroken s s"
  by (simp add: unbroken_def)

lemma unbroken_trans [trans]: "unbroken s s' \<Longrightarrow> unbroken s' s'' \<Longrightarrow> unbroken s s''"
  by (simp add: unbroken_def)

lemma run_history [simp]:
  "rn_arrived (run_acquire r) = rn_arrived r" "rn_arrived (run_release r) = rn_arrived r"
  "rn_arrived (run_answer st r) = rn_arrived r"
  "rn_answered (run_acquire r) = rn_answered r" "rn_answered (run_release r) = rn_answered r"
  "rn_answered (run_answer st r) = st # rn_answered r"
  by (simp_all add: run_acquire_def run_release_def run_answer_def)

definition advances :: "externals \<Rightarrow> system \<Rightarrow> bool" where
  "advances x s \<longleftrightarrow> (\<exists>s'. system_step x s s' \<and> to_do s' < to_do s \<and> unbroken s s')"

lemma advancesI: "system_step x s s' \<Longrightarrow> to_do s' < to_do s \<Longrightarrow> unbroken s s' \<Longrightarrow> advances x s"
  unfolding advances_def by blast

lemma queue_advances:
  assumes "sy_queued s = Suc n"
  shows "advances x s"
proof (cases "sy_limiter s")
  case None
  from system_step.unlimited [OF assms this, of x] show ?thesis
    by (rule advancesI) (simp_all add: to_do_def unbroken_def assms)
next
  case (Some l)
  obtain r l' where acq: "rl_acquire (V4 0) (w_now (sy_world s)) l = (r, l')" by fastforce
  show ?thesis
  proof (cases r)
    case (Inl e)
    from system_step.throttled [OF assms Some order_refl acq [unfolded Inl], of x] show ?thesis
      by (rule advancesI) (simp_all add: to_do_def unbroken_def assms)
  next
    case (Inr remaining)
    from system_step.token [OF assms Some order_refl acq [unfolded Inr], of x] show ?thesis
      by (rule advancesI) (simp_all add: to_do_def unbroken_def assms)
  qed
qed

lemma granted_advances:
  assumes "p \<in># sy_granted s" "requirements x (w_conf (sy_world s)) \<noteq> None"
  shows "advances x s"
proof -
  obtain c' resp where "admit x (Some 0) (w_now (sy_world s)) (w_conf (sy_world s)) bare_request = (c', Answer resp)"
    using bare_request_answered [OF assms(2)] by blast
  from system_step.turned_away [OF assms(1) order_refl this] show ?thesis
    by (rule advancesI) (simp_all add: to_do_def unbroken_def gate_answers_def size_taken_out [OF assms(1)])
qed

text \<open>A task can always end: its verification can be refused, its handler fail, its settlement end somehow.\<close>

lemma task_advances:
  assumes tasks: "w_tasks (sy_world s) = t # ts"
  shows "advances x s"
proof -
  let ?w = "sy_world s"
  let ?refused = "Inl (BadResponse ''verify'' 500 '''') :: facilitator_error + verify_response"
  let ?failed = "\<lparr>resp_status = 500, resp_headers = [], resp_body = BytesBody ''''\<rparr>"
  have split: "w_tasks ?w = [] @ t # ts" using tasks by simp
  have "\<exists>c'. system_step x s (gate_answers s c' ([] @ ts))"
  proof (cases "t_phase t")
    case Verifying
    obtain c' resp where "after_verify x (w_now ?w) (w_conf ?w) (t_admitted t) ?refused = (c', Answer resp)"
      by (simp add: after_verify_def Let_def)
    from system_step.verified_bad [OF split Verifying this] show ?thesis by blast
  next
    case Handling
    obtain c' where "after_handler (w_now ?w) (w_conf ?w) (t_admitted t) ?failed = (c', Answer ?failed)"
      by (simp add: after_handler_def)
    from system_step.handler_error [OF split Handling this] show ?thesis by blast
  next
    case Settling
    obtain c' resp where "after_settle x 0 (w_now ?w) (w_conf ?w) (t_admitted t) ?failed
        (Inl (BadResponse ''settle'' 500 '''')) = (c', resp)" by fastforce
    from system_step.settlement [OF split Settling this] show ?thesis by blast
  qed
  then obtain c' where "system_step x s (gate_answers s c' ([] @ ts))" ..
  then show ?thesis
    by (rule advancesI) (simp_all add: to_do_def unbroken_def gate_answers_def tasks)
qed

lemma flight_advances:
  assumes placed: "placed s" and priced: "requirements x (w_conf (sy_world s)) \<noteq> None"
    and flight: "rn_flights (sy_runs s) \<noteq> {#}"
  shows "advances x s"
proof -
  consider n where "sy_queued s = Suc n" | p where "p \<in># sy_granted s" | t ts where "w_tasks (sy_world s) = t # ts"
    | n where "sy_leaving s = Suc n" | "below_permit s = 0"
    by (cases "sy_queued s"; cases "sy_granted s"; cases "w_tasks (sy_world s)"; cases "sy_leaving s")
      (auto simp: below_permit_def)
  then show ?thesis
  proof cases
    case (4 n)
    then have "Holding \<in># rn_flights (sy_runs s)"
      using placed by (intro placed_holding) (simp_all add: below_permit_def)
    with system_step.permit_back [OF 4, of x] show ?thesis
      by (intro advancesI) (auto simp: to_do_def unbroken_def 4 size_taken_out)
  next
    case 5
    with placed have "count (rn_flights (sy_runs s)) Holding = 0" by (simp add: placed_def)
    with flight have out: "Outside \<in># rn_flights (sy_runs s)"
      by (metis flight.exhaust multiset_nonemptyE not_in_iff)
    from system_step.answered [OF out, of x 200] show ?thesis
      by (rule advancesI) (use out in \<open>auto simp: to_do_def unbroken_def size_taken_out\<close>)
  qed (use queue_advances granted_advances [OF _ priced] task_advances in blast)+
qed

lemma drain:
  assumes "placed s" "requirements x (w_conf (sy_world s)) \<noteq> None"
  shows "\<exists>s'. system_reachable x s s' \<and> rn_flights (sy_runs s') = {#} \<and> placed s' \<and> unbroken s s'"
  using assms
proof (induction "to_do s" arbitrary: s rule: less_induct)
  case less
  show ?case
  proof (cases "rn_flights (sy_runs s) = {#}")
    case True
    with less.prems show ?thesis by (intro exI [of _ s]) simp
  next
    case False
    from flight_advances [OF less.prems this] obtain s1
      where s1: "system_step x s s1" "to_do s1 < to_do s" "unbroken s s1" by (auto simp: advances_def)
    have "same_settings (w_conf (sy_world s)) (w_conf (sy_world s1))"
      using project_gate [OF s1(1)] gate_step_settings by auto
    then have "requirements x (w_conf (sy_world s1)) \<noteq> None"
      using less.prems(2) same_settings_fields(5) [of "w_conf (sy_world s)" "w_conf (sy_world s1)" x] by simp
    from less.hyps [OF s1(2) placed_step [OF s1(1) less.prems(1)] this] obtain s2
      where s2: "system_reachable x s1 s2" "rn_flights (sy_runs s2) = {#}" "placed s2" "unbroken s1 s2" by blast
    moreover have "system_reachable x s s2" using s1(1) s2(1) by (rule converse_rtranclp_into_rtranclp)
    ultimately show ?thesis using unbroken_trans [OF s1(3)] by blast
  qed
qed

text \<open>
  C10: the service never gets stuck and never leaks a permit. From every state that any interleaving of
  requests, answers and broken connections can lead to, all requests in flight can be answered, each
  once and with no further connection broken; then the gate is empty, nobody queues, and every permit
  is back. The price has to be one that parses, or the gate would panic.
\<close>
theorem requests_can_be_answered:
  assumes "system_reachable x (system_start now c) s" "requirements x (sc_payment c) \<noteq> None"
  shows "\<exists>s'. system_reachable x s s' \<and> rn_flights (sy_runs s') = {#}
     \<and> rn_permits (sy_runs s') = li_max_concurrent (sc_limits c)
     \<and> w_tasks (sy_world s') = [] \<and> sy_queued s' = 0 \<and> sy_granted s' = {#} \<and> sy_leaving s' = 0
     \<and> rn_arrived (sy_runs s') = rn_arrived (sy_runs s)
     \<and> length (rn_answered (sy_runs s')) = length (rn_answered (sy_runs s)) + size (rn_flights (sy_runs s))"
proof -
  note inv = system_invariants [OF assms(1)]
  have "same_settings (sc_payment c) (w_conf (sy_world s))"
    using gate_settings [OF inv(3)] by (simp add: gate_start_def)
  then have "requirements x (w_conf (sy_world s)) \<noteq> None"
    using assms(2) same_settings_fields(5) [of "sc_payment c" "w_conf (sy_world s)" x] by simp
  from drain [OF inv(1) this] obtain s' where s': "system_reachable x s s'" "rn_flights (sy_runs s') = {#}"
      "placed s'" "unbroken s s'" by blast
  have "system_reachable x (system_start now c) s'" using assms(1) s'(1) by (rule rtranclp_trans)
  from system_invariants(2) [OF this] have "runs_inv (li_max_concurrent (sc_limits c)) (sy_runs s')"
    using runs_inv_start by (rule runs_inv_reachable)
  then have "rn_permits (sy_runs s') = li_max_concurrent (sc_limits c)" using s'(2) by (simp add: runs_inv_def)
  with s' show ?thesis by (intro exI [of _ s']) (auto simp: placed_def below_permit_def unbroken_def)
qed

subsection \<open>The exported payment counters\<close>

definition in_phase :: "phase \<Rightarrow> world \<Rightarrow> nat" where
  "in_phase p w = length (filter (\<lambda>t. t_phase t = p) (w_tasks w))"

definition counters_ok :: "nat \<Rightarrow> world \<Rightarrow> bool" where
  "counters_ok n w \<longleftrightarrow> (\<exists>m. pc_metrics (w_conf w) = Some m
     \<and> unat (pm_requests_total m) \<le> n
     \<and> unat (pm_challenges_total m) + unat (pm_verifications_success m) + in_phase Verifying w
         \<le> unat (pm_requests_total m)
     \<and> unat (pm_verifications_failed m) \<le> unat (pm_challenges_total m)
     \<and> length (w_settle_calls w) + in_phase Handling w \<le> unat (pm_verifications_success m)
     \<and> unat (pm_settlements_success m) + unat (pm_settlements_failed m) + in_phase Settling w
         \<le> length (w_settle_calls w))"

lemma unat_inc: "unat w < n \<Longrightarrow> n < 2 ^ 64 \<Longrightarrow> unat (w + 1) = Suc (unat w)" for w :: u64
  by (simp add: unat_word_ariths)

text \<open>What each stage does to the counters.\<close>

lemma admit_counts:
  assumes "admit x clock now c q = (c', Continue a)"
  shows "pc_metrics c' = map_option record_request (pc_metrics c)"
  using assms
  by (auto simp: admit_def Let_def take_reservation_def
      split: option.splits sum.splits if_splits prod.splits nonce_error.splits)

lemma admit_answer_counts:
  assumes "admit x clock now c q = (c', Answer resp)"
  shows "pc_metrics c' = map_option record_request (pc_metrics c)
    \<or> pc_metrics c' = map_option (record_challenge \<circ> record_request) (pc_metrics c)"
  using assms
  by (auto simp: admit_def Let_def take_reservation_def option.map_comp
      split: option.splits sum.splits if_splits prod.splits nonce_error.splits)

lemma drop_held_metrics [simp]:
  "pc_metrics (drop_held r now c) = pc_metrics c" "pc_metrics (release_held r now c) = pc_metrics c"
  by (simp_all add: drop_held_def release_held_def split: option.split)

lemma verify_answer_counts:
  "after_verify x now c a outcome = (c', Answer resp) \<Longrightarrow>
     pc_metrics c' = map_option (record_challenge \<circ> record_verification False) (pc_metrics c)"
  by (auto simp: after_verify_def Let_def split: sum.splits if_splits)

lemma settle_counts:
  "after_settle x elapsed now c a h outcome = (c', resp) \<Longrightarrow>
     \<exists>ok. pc_metrics c' = map_option (record_settlement ok elapsed) (pc_metrics c)"
  by (auto simp: after_settle_def split: sum.splits)

lemma in_phase_simps:
  "w_tasks w = xs @ t # ys \<Longrightarrow> in_phase p w = in_phase p (w\<lparr>w_tasks := xs @ ys\<rparr>) + of_bool (t_phase t = p)"
  by (simp add: in_phase_def)

lemma counters_inc:
  assumes "counters_ok n w" "pc_metrics (w_conf w) = Some m" "Suc n < 2 ^ 64"
  shows "unat (pm_requests_total m + 1) = Suc (unat (pm_requests_total m))"
    "unat (pm_challenges_total m + 1) = Suc (unat (pm_challenges_total m))"
    "unat (pm_verifications_success m + 1) = Suc (unat (pm_verifications_success m))"
    "unat (pm_verifications_failed m + 1) = Suc (unat (pm_verifications_failed m))"
    "unat (pm_settlements_success m + 1) = Suc (unat (pm_settlements_success m))"
    "unat (pm_settlements_failed m + 1) = Suc (unat (pm_settlements_failed m))"
  using assms by (auto simp: counters_ok_def intro!: unat_inc [where n = "Suc n"])

lemma counters_okE:
  assumes "counters_ok n w"
  obtains m where "pc_metrics (w_conf w) = Some m"
  using assms by (auto simp: counters_ok_def)

lemma counters_step:
  assumes "gate_step x w w'" "counters_ok n w" "Suc n < 2 ^ 64"
  shows "counters_ok (Suc n) w'"
proof -
  obtain m where m: "pc_metrics (w_conf w) = Some m" using assms(2) by (rule counters_okE)
  note inc = counters_inc [OF assms(2) m assms(3)]
  show ?thesis
    using assms(1,2) m inc
  proof (induction rule: gate_step.induct)
    case (arrive clock reading w q c' a)
    then show ?case
      by (auto simp: counters_ok_def in_phase_def admit_counts [OF arrive(1)] record_request_def)
  next
    case (turned_away clock reading w q c' resp)
    then show ?case
      using admit_answer_counts [OF turned_away(1)]
      by (auto simp: counters_ok_def in_phase_def record_request_def record_challenge_def)
  next
    case (verify_ok w xs t ys outcome c' a')
    then show ?case
      by (auto simp: counters_ok_def in_phase_def after_verify_Continue(2) [OF verify_ok(3)] record_verification_def)
  next
    case (verify_failed w xs t ys outcome c' resp)
    then show ?case
      by (auto simp: counters_ok_def in_phase_def verify_answer_counts [OF verify_failed(3)]
          record_challenge_def record_verification_def)
  next
    case (settled w xs t ys elapsed resp outcome c' resp')
    from settle_counts [OF settled(3)] obtain ok
      where "pc_metrics c' = map_option (record_settlement ok elapsed) (pc_metrics (w_conf w))" by blast
    with settled show ?case
      by (cases ok) (auto simp: counters_ok_def in_phase_def record_settlement_def Let_def)
  qed (auto simp: counters_ok_def in_phase_def after_handler_cases split: if_splits)
qed

lemma counters_start: "counters_ok 0 (gate_start now (c\<lparr>pc_metrics := Some new_metrics\<rparr>))"
  by (simp add: counters_ok_def gate_start_def in_phase_def new_metrics_def)

lemma counters_run:
  "(gate_step x ^^ n) (gate_start now (c\<lparr>pc_metrics := Some new_metrics\<rparr>)) w \<Longrightarrow> n < 2 ^ 64 \<Longrightarrow> counters_ok n w"
  by (induction n arbitrary: w) (auto simp: counters_start intro: counters_step)


subsection \<open>Two runs\<close>

lemma paid_requirements:
  assumes "load_service sample_x (\<lambda>_. ''1'') paid_env = Inr c"
  shows "requirements sample_x (sc_payment c) \<noteq> None"
proof -
  from paid_start assms obtain f where gate: "sc_payment c = with_nonce_guard (with_metrics (config_new ''0x11'' KITE_TESTNET ''1''
          ''Paid API access via Kite x402'' f) new_metrics) (new_guard 10 3600)" by auto
  obtain c1 a where "admit sample_x (Some 0) 0 (sc_payment c) sample_request = (c1, Continue a)"
    using paid_admit [OF gate] by blast
  from admit_Continue(1) [OF this] show ?thesis by simp
qed

theorem requests_can_be_answered_witness:
  "\<exists>c s s'. load_service sample_x (\<lambda>_. ''1'') paid_env = Inr c \<and> system_reachable sample_x (system_start 0 c) s
     \<and> length (w_tasks (sy_world s)) = 1 \<and> system_reachable sample_x s s' \<and> w_tasks (sy_world s') = []
     \<and> rn_permits (sy_runs s') = 64"
proof -
  from paid_start obtain c where c: "load_service sample_x (\<lambda>_. ''1'') paid_env = Inr c"
    and permits: "li_max_concurrent (sc_limits c) = 64" by blast
  from paid_run [OF c] obtain s where s: "system_reachable sample_x (system_start 0 c) s"
    "length (w_tasks (sy_world s)) = 1" by blast
  from requests_can_be_answered [OF s(1) paid_requirements [OF c]] obtain s' where
    "system_reachable sample_x s s'" "w_tasks (sy_world s') = []" "rn_permits (sy_runs s') = 64"
    unfolding permits by blast
  with c s show ?thesis by blast
qed


end
