(* ===== verification/EndToEnd.thy ===== *)
theory EndToEnd
  imports GateEvents ServiceSamples
begin

text \<open>
  The whole path of a paid request, through every layer of the service: what the client of a paid
  route is told agrees with what the facilitator was told to charge.
\<close>

subsection \<open>The gate\<close>

lemma challenge_status:
  "resp_status (payment_required_response x r url d error) = 402"
  "resp_status (settlement_failure_response x st) = 402" "resp_status capacity_response = 503"
  by (simp_all add: payment_required_response_def settlement_failure_response_def capacity_response_def)

lemma admit_answer_status: "admit x clock now c q = (c', Answer resp) \<Longrightarrow> 400 \<le> resp_status resp"
  using admit_Answer [of x clock now c q c' resp] by (auto simp: is_challenge_def challenge_status)

lemma verify_answer_status: "after_verify x now c a outcome = (c', Answer resp) \<Longrightarrow> 400 \<le> resp_status resp"
  by (auto simp: after_verify_def Let_def challenge_status split: sum.splits if_splits)

lemma handler_answer_status:
  assumes "run_handler e k c a req = (c', Responded resp, effects)" "\<forall>p t. CallSettle p t \<notin> set effects"
  shows "400 \<le> resp_status resp"
  using assms run_settle_effects [of e k c a "env_handler e req"]
  by (auto simp: run_handler_def after_handler_cases split: if_splits prod.splits)

lemma verify_run_status:
  assumes "run_verify e k c a req = (c', Responded resp, effects)" "\<forall>p t. CallSettle p t \<notin> set effects"
  shows "400 \<le> resp_status resp"
  using assms
  by (auto simp: run_verify_def Let_def intro: verify_answer_status handler_answer_status
      split: if_splits prod.splits stage.splits)

text \<open>The run of the gate in which the payment was settled.\<close>

definition settled_run :: "environment \<Rightarrow> payment_config \<Rightarrow> request \<Rightarrow> payment_payload \<Rightarrow> payment_requirements
    \<Rightarrow> settle_response \<Rightarrow> effect list \<Rightarrow> bool" where
  "settled_run e c req p t st effects \<longleftrightarrow>
     effects = [CallVerify p t, RunHandler req, CallSettle p t] \<and> settle_outcome e c p t = Inr st \<and> sr_success st"

lemma gate_answer:
  assumes run: "x402_payment e k c q = (c', Responded resp, effects)"
  shows "(\<exists>req p t st. settled_run e c req p t st effects \<and> resp_status (env_handler e req) < 400
        \<and> resp = settled_response (env_x e) st (env_handler e req))
    \<or> 400 \<le> resp_status resp \<and> \<not> (\<exists>req p t st. settled_run e c req p t st effects)"
proof (cases "effects = []")
  case True
  obtain c1 s where ad: "admit (env_x e) (env_unix_clock e) (env_reserve_at e) c q = (c1, s)" by fastforce
  have "400 \<le> resp_status resp"
  proof (cases s)
    case (Continue a)
    with ad run have "run_verify e k c1 a (gr_request q) = (c', Responded resp, effects)" by (simp add: x402_payment_def)
    then show ?thesis using run_verify_effects [of e k c1 a "gr_request q"] True by (simp add: gate_trace_def)
  qed (use ad run in \<open>auto simp: x402_payment_def intro: admit_answer_status\<close>)
  then show ?thesis using True by (simp add: settled_run_def)
next
  case False
  with run obtain c1 a where
    ad: "admit (env_x e) (env_unix_clock e) (env_reserve_at e) c q = (c1, Continue a)"
    and rv: "run_verify e k c1 a (gr_request q) = (c', Responded resp, effects)"
    and trace: "effects = gate_trace e k c (ad_payload a) (ad_requirements a) (gr_request q)"
    by (rule x402_effects)
  have fac: "pc_facilitator c1 = pc_facilitator c" using admit_settings [OF ad] by (rule same_settings_fields(1))
  show ?thesis
  proof (cases "\<exists>p t. CallSettle p t \<in> set effects")
    case False
    then show ?thesis using verify_run_status [OF rv] by (auto simp: settled_run_def)
  next
    case True
    then obtain p t where call: "CallSettle p t \<in> set effects" by blast
    from run_verify_audit [OF rv call] obtain c2 a' rest where
      rs: "run_settle e k c2 a' (env_handler e (gr_request q)) = (c', Responded resp, rest)"
      and p: "p = ad_payload a" "t = ad_requirements a" "ad_payload a' = p" "ad_requirements a' = t"
      and set: "same_settings c1 c2"
      and on: "k \<noteq> Some AwaitVerify" "verified (verify_outcome e c1 p t)" "k \<noteq> Some AwaitHandler"
        "resp_status (env_handler e (gr_request q)) < 400" by blast
    have o: "settle_outcome e c2 p t = settle_outcome e c p t"
      using same_settings_fields(1) [OF set] by (simp add: fac)
    have effects: "effects = [CallVerify p t, RunHandler (gr_request q), CallSettle p t]"
      using trace on by (simp add: gate_trace_def fac p(1,2))
    show ?thesis
      using rs on(4)
      by (cases "settle_outcome e c p t")
        (auto simp: run_settle_def after_settle_def p(3,4) o Let_def effects settled_run_def challenge_status
          split: if_splits)
  qed
qed

subsection \<open>The layers\<close>

definition below_gate :: "service_config \<Rightarrow> surroundings \<Rightarrow> environment" where
  "below_gate c w = (wo_env w)\<lparr>env_handler := paid_handler c w\<rparr>"

text \<open>What a layer above the gate may add to an answer.\<close>

definition dresses :: "response \<Rightarrow> response \<Rightarrow> bool" where
  "dresses r r' \<longleftrightarrow> resp_status r' = resp_status r \<and> resp_body r' = resp_body r
     \<and> hget_all ''payment-response'' (resp_headers r') = hget_all ''payment-response'' (resp_headers r)"

lemma dresses_refl [simp]: "dresses r r"
  by (simp add: dresses_def)

lemma dresses_trans: "dresses a b \<Longrightarrow> dresses b c \<Longrightarrow> dresses a c"
  by (simp add: dresses_def)

lemma receipt_name: "ascii_lower ''payment-response'' = ''payment-response''"
  by (simp add: ascii_lower_def text_eval)

lemma dresses_set_header: "ascii_lower n \<noteq> ''payment-response'' \<Longrightarrow> dresses r (set_header n v r)"
  by (simp add: dresses_def set_header_def hm.get_all_insert receipt_name)

lemmas dressing = dresses_trans [OF _ dresses_set_header] dresses_set_header

lemma layer_names:
  "ascii_lower ''x-ratelimit-remaining'' = ''x-ratelimit-remaining''"
  "ascii_lower ''x-ratelimit-limit'' = ''x-ratelimit-limit''"
  by (simp_all add: ascii_lower_def text_eval)

lemma dresses_layers [simp]:
  "dresses r (admitted_response x show_f64 l n r)" "dresses r (security_edit x sc r)"
  "dresses r (tag_response x i r)" "dresses r (attach_cors x cors m r)"
proof -
  show "dresses r (admitted_response x show_f64 l n r)"
    by (simp add: admitted_response_def try_header_def dressing layer_names)
  show "dresses r (security_edit x sc r)"
    by (simp add: security_edit_def Let_def dressing header_names)
  show "dresses r (tag_response x i r)"
    by (simp add: tag_response_def dressing id_name)
  have "resp_body (attach_cors x cors m r) = resp_body r"
    by (simp add: attach_cors_def Let_def split: option.split)
  then show "dresses r (attach_cors x cors m r)"
    by (simp add: dresses_def attach_cors_other receipt_name)
qed

text \<open>
  An answer accounts for the calls of its run: either the payment was settled and the answer is the
  handler's below 400 with the receipt, or it was not and the answer is an error.
\<close>

definition accounts :: "environment \<Rightarrow> service \<Rightarrow> response \<Rightarrow> service \<Rightarrow> bool" where
  "accounts e s r s' \<longleftrightarrow> (\<exists>new. sv_effects s' = sv_effects s @ new \<and>
     ((\<exists>req p t st. settled_run e (sv_payment s) req p t st new \<and> resp_status (env_handler e req) < 400
         \<and> dresses (settled_response (env_x e) st (env_handler e req)) r)
      \<or> 400 \<le> resp_status r \<and> \<not> (\<exists>req p t st. settled_run e (sv_payment s) req p t st new)))"

lemma accounts_dresses:
  assumes "accounts e s r s'" "dresses r r'"
  shows "accounts e s r' s'"
proof -
  have "resp_status r' = resp_status r" "\<And>a. dresses a r \<Longrightarrow> dresses a r'"
    using assms(2) by (simp_all add: dresses_def)
  with assms(1) show ?thesis unfolding accounts_def by simp blast
qed

lemma accounts_rejected: "400 \<le> resp_status r \<Longrightarrow> sv_effects s' = sv_effects s \<Longrightarrow> accounts e s r s'"
  by (auto simp: accounts_def settled_run_def)

lemma accounts_frame [simp]:
  "accounts e (s\<lparr>sv_permits := p\<rparr>) r s' = accounts e s r s'"
  "accounts e (s\<lparr>sv_metrics := m, sv_request_counter := n\<rparr>) r s' = accounts e s r s'"
  "accounts e s r (s'\<lparr>sv_permits := p\<rparr>) = accounts e s r s'"
  "accounts e s r (s'\<lparr>sv_limiter := l\<rparr>) = accounts e s r s'"
  "accounts e s r (s'\<lparr>sv_metrics := m\<rparr>) = accounts e s r s'"
  by (simp_all add: accounts_def)

definition accountable :: "environment \<Rightarrow> (request \<Rightarrow> service \<Rightarrow> response option \<times> service) \<Rightarrow> bool" where
  "accountable e f \<longleftrightarrow> (\<forall>req s r s'. f req s = (Some r, s') \<longrightarrow> accounts e s r s')"

lemma accountable_payment: "accountable (below_gate c w) (payment_layer c w original)"
  unfolding accountable_def
proof (intro allI impI)
  fix req s r s'
  assume run: "payment_layer c w original req s = (Some r, s')"
  let ?q = "\<lparr>gr_request = req, gr_original_uri = original\<rparr>"
  obtain pc result new where gate: "x402_payment (below_gate c w) (wo_cancel w) (sv_payment s) ?q = (pc, result, new)"
    by (metis prod_cases3)
  with run have "result = Responded r" "sv_effects s' = sv_effects s @ new"
    by (auto simp: payment_layer_def below_gate_def split: gate_result.splits)
  with gate_answer [of "below_gate c w" "wo_cancel w" "sv_payment s" ?q pc r new] gate
  show "accounts (below_gate c w) s r s'" unfolding accounts_def by (metis dresses_refl)
qed

lemma accountable_rate_limit:
  assumes "accountable e f"
  shows "accountable e (rate_limit_layer w f)"
  unfolding accountable_def
proof (intro allI impI)
  fix req s r s'
  assume run: "rate_limit_layer w f req s = (Some r, s')"
  have inner: "f req s = (Some r0, s0) \<Longrightarrow> accounts e s r0 s0" for r0 s0
    using assms by (simp add: accountable_def)
  have dressed: "f req s = (Some r0, s0) \<Longrightarrow> accounts e s (admitted_response x p l n r0) s0" for r0 s0 x p l n
    using inner dresses_layers(1) accounts_dresses by blast
  have status: "resp_status (quota_response x p l n) = 429" "resp_status (rejection st m) = st" for x p l n st m
    by (simp_all add: quota_response_def rejection_def try_header_def)
  show "accounts e s r s'"
    using run
    by (auto simp: rate_limit_layer_def rate_limit_middleware_def Let_def status intro: accounts_rejected inner dressed
        split: option.splits sum.splits prod.splits rate_limit_rejection.splits)
qed

lemma accountable_paid: "accountable (below_gate c w) (paid c w original)"
proof -
  have "accountable (below_gate c w) (rate_limit_layer w (payment_layer c w original))"
    by (intro accountable_rate_limit accountable_payment)
  then show ?thesis
    by (fastforce simp: accountable_def paid_def concurrency_limiter_def busy_response_def Let_def
        intro: accounts_rejected split: if_splits prod.splits)
qed

text \<open>The answer of the application to a request on a paid route.\<close>

definition on_paid_route :: "service_config \<Rightarrow> surroundings \<Rightarrow> request \<Rightarrow> bool" where
  "on_paid_route c w req \<longleftrightarrow> \<not> is_preflight (env_x (wo_env w)) (sc_cors c) req
     \<and> (\<forall>i. \<exists>uri path_query original. wo_route w (tag_request (env_x (wo_env w)) i req) = Paid uri path_query original)"

lemma app_accounts:
  assumes "app c w req s = (Some r, s')" "on_paid_route c w req"
  shows "accounts (below_gate c w) s r s'"
proof (rule logged_run [of w req s c])
  let ?x = "env_x (wo_env w)"
  fix i counter r1 s2
  assume run: "routed c w (tag_request ?x i req)
      (s\<lparr>sv_metrics := count_request (guard_new (sv_metrics s)), sv_request_counter := counter\<rparr>) = (r1, s2)"
    and logged: "logged c w req s = (map_option (tag_response ?x i \<circ> security_edit ?x (sc_security c)) r1,
       s2\<lparr>sv_metrics := guard_drop (case r1 of None \<Rightarrow> sv_metrics s2 | Some r \<Rightarrow> count_response (resp_status r) (sv_metrics s2))\<rparr>)"
  from assms obtain r0 where r0: "r1 = Some r0" "s' = s2\<lparr>sv_metrics := guard_drop (count_response (resp_status r0) (sv_metrics s2))\<rparr>"
    "dresses (tag_response ?x i (security_edit ?x (sc_security c) r0)) r"
    by (cases r1) (auto simp: app_cases on_paid_route_def logged split: if_splits)
  have "dresses r0 r" using r0(3) dresses_trans dresses_layers(2,3) by blast
  moreover from assms(2) obtain uri path_query original
    where "wo_route w (tag_request ?x i req) = Paid uri path_query original" unfolding on_paid_route_def by blast
  with run r0(1) have "paid c w original ((tag_request ?x i req)\<lparr>req_uri := uri, req_path_query := path_query\<rparr>)
      (s\<lparr>sv_metrics := count_request (guard_new (sv_metrics s)), sv_request_counter := counter\<rparr>) = (Some r0, s2)"
    by (simp add: routed_def)
  with accountable_paid [of c w original] have "accounts (below_gate c w) s r0 s2"
    unfolding accountable_def by (metis accounts_frame(2))
  ultimately show ?thesis using accounts_dresses by (simp add: r0(2))
qed

subsection \<open>What the client is told and what it is charged\<close>

definition charged :: "surroundings \<Rightarrow> service \<Rightarrow> request \<Rightarrow> payment_payload \<Rightarrow> payment_requirements \<Rightarrow> settle_response
    \<Rightarrow> service \<Rightarrow> bool" where
  "charged w s req p t st s' \<longleftrightarrow>
     sv_effects s' = sv_effects s @ [CallVerify p t, RunHandler req, CallSettle p t]
       \<and> settle_outcome (wo_env w) (sv_payment s) p t = Inr st \<and> sr_success st"

lemma charged_run:
  "sv_effects s' = sv_effects s @ new \<Longrightarrow>
     settled_run (below_gate c w) (sv_payment s) req p t st new \<longleftrightarrow> charged w s req p t st s'"
  by (auto simp: settled_run_def charged_def below_gate_def)

lemma settled_response_shape:
  "resp_status (settled_response x st h) = resp_status h" "resp_body (settled_response x st h) = resp_body h"
  "hget_all ''payment-response'' (resp_headers (settled_response x st h))
     = [header_value_or x '''' (encode_settle_response x st)]"
  by (simp_all add: settled_response_def Let_def set_header_def hm.get_all_insert ascii_lower_def text_eval)

text \<open>What the gate's handler asks the proxy for.\<close>

definition proxied_call :: "request \<Rightarrow> proxy_request" where
  "proxied_call req = \<lparr>px_method = req_method req, px_path_query = req_path_query req, px_nested = True,
     px_headers = req_headers req, px_body = Some (req_body req)\<rparr>"

lemma paid_handler_call: "paid_handler c w req = proxy (wo_checks w) (sc_upstream c) (wo_upstream w) (proxied_call req)"
  by (simp add: paid_handler_def proxied_call_def)

lemma charged_unique: "charged w s req p t st s' \<Longrightarrow> charged w s req' p' t' st' s' \<Longrightarrow> req' = req \<and> p' = p \<and> t' = t \<and> st' = st"
  by (auto simp: charged_def)

text \<open>
  C4: a client gets the goods exactly if it pays, through all layers of the service. On a paid route,
  whatever the router, the limits, the gate, the facilitator and the upstream do, an answer below
  400 is given if and only if during this request one settlement was confirmed by the facilitator,
  after the payment was verified and the upstream called. In that case the answer is the upstream's:
  the call it was charged for was sent on, the upstream replied with that status and every chunk of
  its body arrived within the limit, the body of the answer is their concatenation, and the one
  receipt on it is the encoding of what the facilitator confirmed, whatever receipt the upstream sent.
\<close>
theorem delivered_iff_charged:
  assumes "app c w req s = (Some r, s')" "on_paid_route c w req"
  shows "(resp_status r < 400 \<longleftrightarrow> (\<exists>req2 p t st. charged w s req2 p t st s'))
    \<and> (\<forall>req2 p t st. charged w s req2 p t st s' \<longrightarrow>
         hget_all ''payment-response'' (resp_headers r)
           = [header_value_or (env_x (wo_env w)) '''' (encode_settle_response (env_x (wo_env w)) st)]
         \<and> (\<exists>out hs cs. build_request (wo_checks w) (sc_upstream c) (proxied_call req2) = Inr out
              \<and> wo_upstream w out = UpstreamReplied (resp_status r) hs (map Chunk cs)
              \<and> length (concat cs) \<le> MAX_RESPONSE_BODY_BYTES \<and> resp_body r = BytesBody (concat cs)))"
proof -
  obtain new where new: "sv_effects s' = sv_effects s @ new" and
    cases: "(\<exists>req2 p t st. settled_run (below_gate c w) (sv_payment s) req2 p t st new
        \<and> resp_status (env_handler (below_gate c w) req2) < 400
        \<and> dresses (settled_response (env_x (below_gate c w)) st (env_handler (below_gate c w) req2)) r)
      \<or> 400 \<le> resp_status r \<and> \<not> (\<exists>req2 p t st. settled_run (below_gate c w) (sv_payment s) req2 p t st new)"
    using app_accounts [OF assms] unfolding accounts_def by blast
  from cases show ?thesis
  proof (elim disjE exE conjE)
    fix req2 p t st
    assume "settled_run (below_gate c w) (sv_payment s) req2 p t st new"
      and low: "resp_status (env_handler (below_gate c w) req2) < 400"
      and r: "dresses (settled_response (env_x (below_gate c w)) st (env_handler (below_gate c w) req2)) r"
    then have paid: "charged w s req2 p t st s'" by (simp add: charged_run [OF new])
    have proxied: "resp_status (paid_handler c w req2) < 400" using low by (simp add: below_gate_def)
    note upstream = proxy_success [OF proxied [unfolded paid_handler_call], folded paid_handler_call]
    have shape: "resp_status r = resp_status (paid_handler c w req2)" "resp_body r = resp_body (paid_handler c w req2)"
      "hget_all ''payment-response'' (resp_headers r)
        = [header_value_or (env_x (wo_env w)) '''' (encode_settle_response (env_x (wo_env w)) st)]"
      using r by (simp_all add: dresses_def settled_response_shape below_gate_def)
    have "\<exists>out hs cs. build_request (wo_checks w) (sc_upstream c) (proxied_call req2) = Inr out
        \<and> wo_upstream w out = UpstreamReplied (resp_status r) hs (map Chunk cs)
        \<and> length (concat cs) \<le> MAX_RESPONSE_BODY_BYTES \<and> resp_body r = BytesBody (concat cs)"
      using upstream unfolding shape(1,2) by blast
    moreover have "req' = req2 \<and> st' = st" if "charged w s req' p' t' st' s'" for req' p' t' st'
      using charged_unique [OF paid that] by simp
    ultimately show ?thesis using paid proxied shape(1,3) by metis
  next
    assume "400 \<le> resp_status r"
      and "\<nexists>req2 p t st. settled_run (below_gate c w) (sv_payment s) req2 p t st new"
    then have "\<not> resp_status r < 400" "\<nexists>req2 p t st. charged w s req2 p t st s'"
      by (simp_all add: charged_run [OF new])
    then show ?thesis by metis
  qed
qed

subsection \<open>A delivered request\<close>

lemma run_verify_returns: "\<exists>c' resp effects. run_verify e None c a req = (c', Responded resp, effects)"
  using after_verify_no_panic [of "env_x e" "env_finish_at e" c a "verify_outcome e c (ad_payload a) (ad_requirements a)"]
  by (auto simp: run_verify_def run_handler_def run_settle_def after_handler_cases Let_def split: prod.splits stage.splits)

definition weather_request :: request where
  "weather_request = plain_request ''GET'' ''/v1/forecast'' [(''payment-signature'', ''pay'')]"

lemma weather_fields [simp]:
  "wo_cancel sample_surroundings = None" "sv_limiter (started\<lparr>sv_metrics := m, sv_request_counter := n\<rparr>) = None"
  "wo_upstream sample_surroundings = (\<lambda>_. UpstreamReplied 200 [] [])"
  by (simp_all add: sample_surroundings_def)

lemma weather_route:
  "wo_route sample_surroundings (tag_request x i weather_request)
     = Paid ''/forecast'' (Some ''/forecast'') (Some ''/v1/forecast'')"
  by (simp add: sample_surroundings_def tag_request_def plain_request_def weather_request_def)

lemma weather_proxied:
  assumes "req_path_query req = Some ''/forecast''" "req_body req = ''''"
  shows "resp_status (paid_handler sample_service_config sample_surroundings req) = 200"
  using assms
  by (simp add: paid_handler_def proxy_def build_request_def sample_surroundings_def has_dot_segment_def path_of_def
      split_on_def replace_all.simps forwarded_path_def is_path_separator_def MAX_REQUEST_BODY_BYTES_def
      relay_reply_def Let_def MAX_RESPONSE_BODY_BYTES_def)

lemma weather_gate:
  assumes "payment_header sample_x (req_headers req) = Some ''pay''" "req_path_query req = Some ''/forecast''"
    "req_body req = ''''"
  shows "\<exists>pc resp p t. x402_payment (below_gate sample_service_config sample_surroundings) None sample_config
     \<lparr>gr_request = req, gr_original_uri = original\<rparr>
     = (pc, Responded resp, [CallVerify p t, RunHandler req, CallSettle p t])"
proof -
  let ?e = "below_gate sample_service_config sample_surroundings"
  let ?q = "\<lparr>gr_request = req, gr_original_uri = original\<rparr>"
  have env: "env_x ?e = sample_x" "env_unix_clock ?e = Some 0" "env_reserve_at ?e = 0"
    "env_verify ?e = env_verify (sample_env 0 200)" "env_handler ?e = paid_handler sample_service_config sample_surroundings"
    by (simp_all add: below_gate_def)
  obtain c1 a where ad: "admit sample_x (Some 0) 0 sample_config ?q = (c1, Continue a)"
    using sample_admits [of ?q 0] assms(1) by auto
  obtain c' resp effects where run: "x402_payment ?e None sample_config ?q = (c', Responded resp, effects)"
    and rv: "run_verify ?e None c1 a req = (c', Responded resp, effects)"
    using run_verify_returns [of ?e c1 a req] ad by (auto simp: x402_payment_def env)
  have "effects \<noteq> []" using run_verify_calls [of ?e None c1 a req] rv by simp
  then have "\<exists>a' :: admitted. effects = gate_trace ?e None sample_config (ad_payload a') (ad_requirements a') req"
    by (rule x402_effects [OF run]) auto
  then obtain a' :: admitted where "effects = gate_trace ?e None sample_config (ad_payload a') (ad_requirements a') req" by blast
  moreover have "verified (verify_outcome ?e sample_config p t)" for p t
    using sample_verify [of 0 200 p t] by (simp add: env)
  ultimately have "effects = [CallVerify (ad_payload a') (ad_requirements a'), RunHandler req,
      CallSettle (ad_payload a') (ad_requirements a')]"
    by (simp add: gate_trace_def env weather_proxied assms(2,3))
  with run show ?thesis by blast
qed

lemma weather_run:
  "\<exists>r s' req2 p t. app sample_service_config sample_surroundings weather_request started = (Some r, s')
     \<and> charged sample_surroundings started req2 p t sample_receipt s'"
proof (rule logged_run [of sample_surroundings weather_request started sample_service_config])
  let ?c = sample_service_config and ?w = sample_surroundings
  fix i counter r1 s2
  let ?s = "started\<lparr>sv_metrics := count_request (guard_new (sv_metrics started)), sv_request_counter := counter\<rparr>"
  let ?req = "(tag_request sample_x i weather_request)\<lparr>req_uri := ''/forecast'', req_path_query := Some ''/forecast''\<rparr>"
  assume "routed ?c ?w (tag_request (env_x (wo_env ?w)) i weather_request) ?s = (r1, s2)"
  then have paid: "paid ?c ?w (Some ''/v1/forecast'') ?req ?s = (r1, s2)"
    by (simp add: routed_def weather_route)
  assume logged: "logged ?c ?w weather_request started
      = (map_option (tag_response (env_x (wo_env ?w)) i \<circ> security_edit (env_x (wo_env ?w)) (sc_security ?c)) r1,
         s2\<lparr>sv_metrics := guard_drop (case r1 of None \<Rightarrow> sv_metrics s2 | Some r \<Rightarrow> count_response (resp_status r) (sv_metrics s2))\<rparr>)"
  have "payment_header sample_x (req_headers ?req) = Some ''pay''" "req_path_query ?req = Some ''/forecast''"
    "req_body ?req = ''''"
    using paid_header by (simp_all add: tag_request_def weather_request_def plain_request_def)
  from weather_gate [OF this, of "Some ''/v1/forecast''"] obtain pc resp p t where
    gate: "x402_payment (below_gate ?c ?w) None sample_config \<lparr>gr_request = ?req, gr_original_uri = Some ''/v1/forecast''\<rparr>
      = (pc, Responded resp, [CallVerify p t, RunHandler ?req, CallSettle p t])" by blast
  have "payment_layer ?c ?w (Some ''/v1/forecast'') ?req (?s\<lparr>sv_permits := 0\<rparr>)
      = (Some resp, ?s\<lparr>sv_permits := 0, sv_payment := pc, sv_effects := [CallVerify p t, RunHandler ?req, CallSettle p t]\<rparr>)"
    using gate by (simp add: payment_layer_def below_gate_def)
  with paid have s2: "r1 = Some resp" "sv_effects s2 = [CallVerify p t, RunHandler ?req, CallSettle p t]"
    by (auto simp: paid_def concurrency_limiter_def rate_limit_layer_def rate_limit_middleware_def Let_def)
  have plain: "\<not> is_preflight x cors weather_request" for x cors
    by (simp add: weather_request_def not_preflight)
  have "\<exists>r. app ?c ?w weather_request started
      = (Some r, s2\<lparr>sv_metrics := guard_drop (count_response (resp_status resp) (sv_metrics s2))\<rparr>)"
    using logged by (simp add: app_cases plain s2(1) is_enabled_def)
  then obtain r where "app ?c ?w weather_request started
      = (Some r, s2\<lparr>sv_metrics := guard_drop (count_response (resp_status resp) (sv_metrics s2))\<rparr>)" by blast
  moreover have "charged ?w started ?req p t sample_receipt (s2\<lparr>sv_metrics := m\<rparr>)" for m
    using sample_settle [of 0 200 p t] by (simp add: charged_def s2 sample_receipt_def)
  ultimately show ?thesis by blast
qed

theorem delivered_iff_charged_witness:
  "\<exists>r s' req2 p t. app sample_service_config sample_surroundings weather_request started = (Some r, s')
     \<and> charged sample_surroundings started req2 p t sample_receipt s' \<and> resp_status r < 400
     \<and> hget_all ''payment-response'' (resp_headers r) = [encode_settle_response sample_x sample_receipt]"
proof -
  obtain r s' req2 p t where run: "app sample_service_config sample_surroundings weather_request started = (Some r, s')"
    and charged: "charged sample_surroundings started req2 p t sample_receipt s'"
    using weather_run by blast
  have "on_paid_route sample_service_config sample_surroundings weather_request"
    by (simp add: on_paid_route_def weather_route) (simp add: weather_request_def not_preflight)
  from delivered_iff_charged [OF run this] charged
  have "resp_status r < 400" "hget_all ''payment-response'' (resp_headers r)
      = [header_value_or sample_x '''' (encode_settle_response sample_x sample_receipt)]" by auto
  with run charged show ?thesis by (auto simp: header_value_or_def)
qed

end
