(* ===== verification/KiteTests.thy ===== *)
theory KiteTests
  imports Gate
begin

text \<open>
  The unit tests of \<open>kite.rs\<close>, one definition per test function, evaluated on the model: what the
  authors check of the code holds of its translation. \<open>unwrap\<close> and \<open>unwrap_err\<close> of the tests
  are comparisons with \<open>Some\<close> of the side they expect. Texts that are not ASCII are written as their bytes.
\<close>

definition priced :: "kite_chain \<Rightarrow> str \<Rightarrow> str \<Rightarrow> bool" where
  "priced chain price units \<longleftrightarrow>
     (case parse_price chain price of Some (Inr a) \<Rightarrow> aa_amount a = units | _ \<Rightarrow> False)"

definition parses :: "kite_chain \<Rightarrow> str \<Rightarrow> bool" where
  "parses chain price \<longleftrightarrow> (case parse_price chain price of Some (Inr _) \<Rightarrow> True | _ \<Rightarrow> False)"

definition price_error :: "kite_chain \<Rightarrow> str \<Rightarrow> kite_error option" where
  "price_error chain price = (case parse_price chain price of Some (Inl e) \<Rightarrow> Some e | _ \<Rightarrow> None)"

definition invalid_price :: "str \<Rightarrow> bool" where
  "invalid_price price \<longleftrightarrow> (case price_error KITE_MAINNET price of Some (InvalidPrice _) \<Rightarrow> True | _ \<Rightarrow> False)"

definition too_many_decimals :: "kite_chain \<Rightarrow> str \<Rightarrow> (u32 \<times> str) option" where
  "too_many_decimals chain price =
     (case price_error chain price of Some (TooManyDecimals _ d s) \<Rightarrow> Some (d, s) | _ \<Rightarrow> None)"

definition below_one_unit :: "kite_chain \<Rightarrow> str \<Rightarrow> bool" where
  "below_one_unit chain price \<longleftrightarrow> (case price_error chain price of Some (BelowOneUnit _ _) \<Rightarrow> True | _ \<Rightarrow> False)"

definition extra_of :: "kite_chain \<Rightarrow> str \<Rightarrow> str \<Rightarrow> json option" where
  "extra_of chain price field =
     (case parse_price chain price of Some (Inr a) \<Rightarrow>
        (case aa_extra a of JObj fs \<Rightarrow> map_of fs field | _ \<Rightarrow> None) | _ \<Rightarrow> None)"

text \<open>\<open>str::contains\<close>.\<close>

definition text_contains :: "str \<Rightarrow> str \<Rightarrow> bool" where
  "text_contains s part \<longleftrightarrow> list_ex (\<lambda>t. starts_with t part) (map (\<lambda>n. drop n s) [0..<Suc (length s)])"

definition resolves_known_networks :: bool where
  "resolves_known_networks \<longleftrightarrow>
     kite_chain_by_name '''' = Inr KITE_MAINNET \<and> kite_chain_by_name ''mainnet'' = Inr KITE_MAINNET
     \<and> kite_chain_by_name ''testnet'' = Inr KITE_TESTNET"

definition rejects_unknown_network :: bool where
  "rejects_unknown_network \<longleftrightarrow> kite_chain_by_name ''devnet'' = Inl (UnknownNetwork ''devnet'')"

definition parses_mainnet_price_to_six_decimals :: bool where
  "parses_mainnet_price_to_six_decimals \<longleftrightarrow>
     priced KITE_MAINNET ''0.001'' ''1000''
     \<and> (case parse_price KITE_MAINNET ''0.001'' of
          Some (Inr a) \<Rightarrow> aa_asset a = kc_asset_address KITE_MAINNET | _ \<Rightarrow> False)
     \<and> extra_of KITE_MAINNET ''0.001'' ''name'' = Some (JStr ''Bridged USDC (Kite AI)'')
     \<and> extra_of KITE_MAINNET ''0.001'' ''version'' = Some (JStr ''2'')"

definition parses_dollar_prefixed_price :: bool where
  "parses_dollar_prefixed_price \<longleftrightarrow> priced KITE_MAINNET ''$0.05'' ''50000''"

definition parses_testnet_price_to_eighteen_decimals :: bool where
  "parses_testnet_price_to_eighteen_decimals \<longleftrightarrow>
     priced KITE_TESTNET ''0.001'' ''1000000000000000''
     \<and> extra_of KITE_TESTNET ''0.001'' ''name'' = Some (JStr ''pieUSD'')
     \<and> extra_of KITE_TESTNET ''0.001'' ''version'' = Some (JStr ''1'')"

definition parses_whole_dollar_amount :: bool where
  "parses_whole_dollar_amount \<longleftrightarrow> priced KITE_MAINNET ''2'' ''2000000''"

definition rejects_too_many_decimals :: bool where
  "rejects_too_many_decimals \<longleftrightarrow> too_many_decimals KITE_MAINNET ''0.0000001'' \<noteq> None"

definition rejects_zero :: bool where
  "rejects_zero \<longleftrightarrow> below_one_unit KITE_MAINNET ''0''"

definition rejects_amount_below_one_unit :: bool where
  "rejects_amount_below_one_unit \<longleftrightarrow> below_one_unit KITE_MAINNET ''0.000000''"

definition rejects_negative_and_malformed_input :: bool where
  "rejects_negative_and_malformed_input \<longleftrightarrow>
     (\<forall>bad \<in> set [''-1'', ''1e10'', ''abc'', ''1.2.3'', ''.5'', ''5.'', '''']. price_error KITE_MAINNET bad \<noteq> None)"

definition network_name_is_trimmed_but_case_sensitive :: bool where
  "network_name_is_trimmed_but_case_sensitive \<longleftrightarrow>
     kite_chain_by_name (''  testnet'' @ [CHR 0x0A]) = Inr KITE_TESTNET
     \<and> kite_chain_by_name ''   '' = Inr KITE_MAINNET
     \<and> (\<forall>bad \<in> set [''Mainnet'', ''TESTNET'', ''main'', ''test-net'', ''eip155:2366''].
          kite_chain_by_name bad = Inl (UnknownNetwork bad))"

definition is_hexdigit :: "char \<Rightarrow> bool" where
  "is_hexdigit c \<longleftrightarrow> is_ascii_digit c \<or> 65 \<le> char_code c \<and> char_code c \<le> 70 \<or> 97 \<le> char_code c \<and> char_code c \<le> 102"

definition chain_constants_are_internally_consistent :: bool where
  "chain_constants_are_internally_consistent \<longleftrightarrow>
     (\<forall>chain \<in> set [KITE_MAINNET, KITE_TESTNET].
        starts_with (kc_network chain) ''eip155:''
        \<and> parse_u64 (drop (length ''eip155:'') (kc_network chain)) \<noteq> None
        \<and> starts_with (kc_rpc_url chain) ''https://''
        \<and> length (kc_asset_address chain) = 42 \<and> starts_with (kc_asset_address chain) ''0x''
        \<and> list_all is_hexdigit (drop 2 (kc_asset_address chain))
        \<and> kc_eip712_name chain \<noteq> '''' \<and> kc_eip712_version chain \<noteq> '''')
     \<and> kc_network KITE_MAINNET \<noteq> kc_network KITE_TESTNET
     \<and> kc_asset_address KITE_MAINNET \<noteq> kc_asset_address KITE_TESTNET
     \<and> kc_asset_decimals KITE_MAINNET = 6 \<and> kc_asset_decimals KITE_TESTNET = 18
     \<and> kc_network KITE_MAINNET = ''eip155:2366'' \<and> kc_network KITE_TESTNET = ''eip155:2368''"

definition facilitator_url_keeps_its_version_prefix :: bool where
  "facilitator_url_keeps_its_version_prefix \<longleftrightarrow>
     starts_with FACILITATOR_URL ''https://'' \<and> ends_with FACILITATOR_URL ''/v2''"

definition parses_at_the_smallest_representable_unit :: bool where
  "parses_at_the_smallest_representable_unit \<longleftrightarrow>
     priced KITE_MAINNET ''0.000001'' ''1'' \<and> priced KITE_TESTNET ''0.000000000000000001'' ''1''"

definition accepts_exactly_the_maximum_number_of_decimals_and_no_more :: bool where
  "accepts_exactly_the_maximum_number_of_decimals_and_no_more \<longleftrightarrow>
     parses KITE_MAINNET ''1.123456''
     \<and> too_many_decimals KITE_MAINNET ''1.1234567'' = Some (6, ''USDC.e'')
     \<and> parses KITE_TESTNET ''1.123456789012345678''
     \<and> too_many_decimals KITE_TESTNET ''1.1234567890123456789'' = Some (18, ''pieUSD'')"

definition trailing_zero_decimals_beyond_the_limit_are_still_too_many :: bool where
  "trailing_zero_decimals_beyond_the_limit_are_still_too_many \<longleftrightarrow>
     too_many_decimals KITE_MAINNET ''0.0000010'' \<noteq> None"

definition integer_math_has_no_float_rounding_errors :: bool where
  "integer_math_has_no_float_rounding_errors \<longleftrightarrow>
     priced KITE_TESTNET ''0.3'' ''300000000000000000'' \<and> priced KITE_TESTNET ''0.1'' ''100000000000000000''
     \<and> priced KITE_TESTNET ''19.99'' ''19990000000000000000'' \<and> priced KITE_MAINNET ''0.07'' ''70000''"

definition huge_values_do_not_overflow :: bool where
  "huge_values_do_not_overflow \<longleftrightarrow>
     (let big = ''123456789012345678901234567890'' in priced KITE_MAINNET big (big @ ''000000''))"

definition leading_zeros_are_normalised :: bool where
  "leading_zeros_are_normalised \<longleftrightarrow>
     priced KITE_MAINNET ''007'' ''7000000'' \<and> priced KITE_MAINNET ''0.5'' ''500000''
     \<and> priced KITE_MAINNET ''00.000001'' ''1''"

definition surrounding_whitespace_is_trimmed_but_inner_whitespace_is_not :: bool where
  "surrounding_whitespace_is_trimmed_but_inner_whitespace_is_not \<longleftrightarrow>
     priced KITE_MAINNET ''  0.5  '' ''500000'' \<and> priced KITE_MAINNET '' $0.5 '' ''500000''
     \<and> (\<forall>bad \<in> set [''$ 0.5'', ''0. 5'', ''1 000'', ''$'' @ [CHR 0x09] @ ''1'']. invalid_price bad)"

definition rejects_lookalike_and_non_decimal_numerals :: bool where
  "rejects_lookalike_and_non_decimal_numerals \<longleftrightarrow>
     (\<forall>bad \<in> set [''$'', ''$$1'', ''$-1'', ''+1'', ''1e3'', ''1E3'', ''0x10'', ''1_000'', ''1,5'', ''1.5.0'',
          [CHR 0xD9, CHR 0xA1, CHR 0xD9, CHR 0xA2, CHR 0xD9, CHR 0xA3],
          [CHR 0xEF, CHR 0xBC, CHR 0x91, CHR 0xEF, CHR 0xBC, CHR 0x92, CHR 0xEF, CHR 0xBC, CHR 0x93],
          ''NaN'', ''inf'', ''--1'', ''1.'', ''.'', ''..'', ''0..1'', ''1/2'']. invalid_price bad)"

definition errors_carry_the_original_input :: bool where
  "errors_carry_the_original_input \<longleftrightarrow>
     price_error KITE_MAINNET ''$abc'' = Some (InvalidPrice ''$abc'')
     \<and> price_error KITE_MAINNET ''$0'' = Some (BelowOneUnit ''$0'' ''USDC.e'')
     \<and> price_error KITE_MAINNET ''$0.0000001'' = Some (TooManyDecimals ''0.0000001'' 6 ''USDC.e'')"

text \<open>The quotation marks of \<open>{:?}\<close> are the parameter of the model for the Debug form of a text.\<close>

definition error_messages_are_human_readable :: "externals \<Rightarrow> bool" where
  "error_messages_are_human_readable x \<longleftrightarrow>
     kite_error_message x (UnknownNetwork ''devnet'')
       = ''unknown KITE_NETWORK '' @ debug_str x ''devnet'' @ '' (want mainnet or testnet)''
     \<and> kite_error_message x (InvalidPrice ''x'') = ''price must be a positive decimal, got '' @ debug_str x ''x''
     \<and> kite_error_message x (TooManyDecimals ''0.1234567'' 6 ''USDC.e'')
         = ''price 0.1234567 has more than 6 decimals (USDC.e)''
     \<and> kite_error_message x (BelowOneUnit ''0'' ''pieUSD'') = ''price 0 is below one unit of pieUSD''"

definition asset_amount_carries_the_eip712_domain_the_facilitator_needs :: bool where
  "asset_amount_carries_the_eip712_domain_the_facilitator_needs \<longleftrightarrow>
     parse_price KITE_TESTNET ''1'' = Some (Inr \<lparr>aa_asset = kc_asset_address KITE_TESTNET,
       aa_amount = ''1000000000000000000'',
       aa_extra = JObj [(''name'', JStr ''pieUSD''), (''version'', JStr ''1'')]\<rparr>)"

definition plain_decimal_predicate_edge_cases :: bool where
  "plain_decimal_predicate_edge_cases \<longleftrightarrow>
     (\<forall>ok \<in> set [''0'', ''1'', ''10'', ''0.1'', ''10.01'', ''000'', ''0.000'']. is_plain_positive_decimal ok)
     \<and> (\<forall>bad \<in> set ['''', ''.'', ''1.'', ''.1'', ''1.1.1'', ''a'', ''1a'', ''-1'', '' 1'', ''1 ''].
          \<not> is_plain_positive_decimal bad)"

subsection \<open>Evaluation\<close>

lemma contains_cons: "text_contains (c # s) part \<longleftrightarrow> starts_with (c # s) part \<or> text_contains s part"
  "text_contains [] part \<longleftrightarrow> starts_with [] part"
proof -
  have "[0..<Suc (length (c # s))] = 0 # map Suc [0..<Suc (length s)]" unfolding map_Suc_upt by (subst upt_rec) simp
  then show "text_contains (c # s) part \<longleftrightarrow> starts_with (c # s) part \<or> text_contains s part"
    by (simp add: text_contains_def comp_def del: upt_Suc)
  show "text_contains [] part \<longleftrightarrow> starts_with [] part" by (simp add: text_contains_def)
qed

lemma replicate_numeral_eval: "replicate (numeral n) x = x # replicate (pred_numeral n) x"
  by (simp add: numeral_eq_Suc)

lemma white_space_eval: "white_space = [[CHR 0x09], [CHR 0x0A], [CHR 0x0B], [CHR 0x0C], [CHR 0x0D], '' '',
  [CHR 0xC2, CHR 0x85], [CHR 0xC2, CHR 0xA0], [CHR 0xE1, CHR 0x9A, CHR 0x80], [CHR 0xE2, CHR 0x80, CHR 0xA8],
  [CHR 0xE2, CHR 0x80, CHR 0xA9], [CHR 0xE2, CHR 0x80, CHR 0xAF], [CHR 0xE2, CHR 0x81, CHR 0x9F], [CHR 0xE3, CHR 0x80, CHR 0x80],
  [CHR 0xE2, CHR 0x80, CHR 0x80], [CHR 0xE2, CHR 0x80, CHR 0x81], [CHR 0xE2, CHR 0x80, CHR 0x82], [CHR 0xE2, CHR 0x80, CHR 0x83],
  [CHR 0xE2, CHR 0x80, CHR 0x84], [CHR 0xE2, CHR 0x80, CHR 0x85], [CHR 0xE2, CHR 0x80, CHR 0x86], [CHR 0xE2, CHR 0x80, CHR 0x87],
  [CHR 0xE2, CHR 0x80, CHR 0x88], [CHR 0xE2, CHR 0x80, CHR 0x89], [CHR 0xE2, CHR 0x80, CHR 0x8A]]"
  by code_simp

lemmas trim_eval = trim_def trim_start_def trim_end_def white_space_eval trim_with.simps

lemma trimmed:
  "trim (''  testnet'' @ [CHR 0x0A]) = ''testnet''" "trim ''   '' = ''''" "trim ''  0.5  '' = ''0.5''" "trim '' $0.5 '' = ''$0.5''"
  "trim [CHR 0xD9, CHR 0xA1, CHR 0xD9, CHR 0xA2, CHR 0xD9, CHR 0xA3] = [CHR 0xD9, CHR 0xA1, CHR 0xD9, CHR 0xA2, CHR 0xD9, CHR 0xA3]"
  "trim [CHR 0xEF, CHR 0xBC, CHR 0x91, CHR 0xEF, CHR 0xBC, CHR 0x92, CHR 0xEF, CHR 0xBC, CHR 0x93]
     = [CHR 0xEF, CHR 0xBC, CHR 0x91, CHR 0xEF, CHR 0xBC, CHR 0x92, CHR 0xEF, CHR 0xBC, CHR 0x93]"
  by (simp_all add: trim_eval)

lemmas price_eval = priced_def parses_def price_error_def too_many_decimals_def below_one_unit_def extra_of_def invalid_price_def
  parse_price_def price_text_def is_plain_positive_decimal_def price_parts_def normalized_units_def trim_start_matches_def
  KITE_MAINNET_def KITE_TESTNET_def is_ascii_digit_def char_code_def ends_with_def starts_with_def Let_def
  visible_def trim_visible replicate_numeral_eval kite_chain_by_name_def trimmed trimmed [simplified]

text \<open>All the unit tests of \<open>kite.rs\<close> pass.\<close>

lemma network_tests:
  "resolves_known_networks" "rejects_unknown_network" "network_name_is_trimmed_but_case_sensitive"
  "chain_constants_are_internally_consistent" "facilitator_url_keeps_its_version_prefix"
  by (simp_all add: resolves_known_networks_def rejects_unknown_network_def network_name_is_trimmed_but_case_sensitive_def
      chain_constants_are_internally_consistent_def facilitator_url_keeps_its_version_prefix_def FACILITATOR_URL_def
      is_hexdigit_def parse_u64_def parse_unsigned_def price_eval)

lemma price_tests:
  "parses_mainnet_price_to_six_decimals" "parses_dollar_prefixed_price" "parses_testnet_price_to_eighteen_decimals"
  "parses_whole_dollar_amount" "parses_at_the_smallest_representable_unit" "integer_math_has_no_float_rounding_errors"
  "huge_values_do_not_overflow" "leading_zeros_are_normalised"
  "accepts_exactly_the_maximum_number_of_decimals_and_no_more"
  "asset_amount_carries_the_eip712_domain_the_facilitator_needs"
  by (simp_all add: parses_mainnet_price_to_six_decimals_def parses_dollar_prefixed_price_def
      parses_testnet_price_to_eighteen_decimals_def parses_whole_dollar_amount_def
      parses_at_the_smallest_representable_unit_def integer_math_has_no_float_rounding_errors_def
      huge_values_do_not_overflow_def leading_zeros_are_normalised_def
      accepts_exactly_the_maximum_number_of_decimals_and_no_more_def
      asset_amount_carries_the_eip712_domain_the_facilitator_needs_def price_eval)

lemma rejection_tests:
  "rejects_too_many_decimals" "rejects_zero" "rejects_amount_below_one_unit" "rejects_negative_and_malformed_input"
  "trailing_zero_decimals_beyond_the_limit_are_still_too_many" "errors_carry_the_original_input"
  "plain_decimal_predicate_edge_cases"
  by (simp_all add: rejects_too_many_decimals_def rejects_zero_def rejects_amount_below_one_unit_def
      rejects_negative_and_malformed_input_def trailing_zero_decimals_beyond_the_limit_are_still_too_many_def
      errors_carry_the_original_input_def plain_decimal_predicate_edge_cases_def price_eval)

lemma whitespace_tests:
  "surrounding_whitespace_is_trimmed_but_inner_whitespace_is_not" "rejects_lookalike_and_non_decimal_numerals"
  by (simp_all add: surrounding_whitespace_is_trimmed_but_inner_whitespace_is_not_def
      rejects_lookalike_and_non_decimal_numerals_def price_eval)

lemma message_tests: "error_messages_are_human_readable x"
  by (simp add: error_messages_are_human_readable_def show_nat.simps digit_chars)

end
