(* ===== verification/GuardTests.thy ===== *)
theory GuardTests
  imports NonceGuard Expiration
begin

text \<open>
  The unit tests of \<open>nonce_guard.rs\<close> and of \<open>expiration.rs\<close>, one definition per test function, evaluated
  on the model. \<open>Instant::now()\<close> reads zero, and a test takes no time: its clock stands still unless
  the test itself moves it. Left out are the tests that start threads, read a Debug text, or repeat a step a hundred
  times or more.
\<close>

definition started_at :: instant where
  "started_at = 0"

definition recorded :: "str \<Rightarrow> nonce_guard \<Rightarrow> nonce_guard" where
  "recorded nonce g = snd (check_and_record g nonce started_at started_at)"

definition record_answer :: "str \<Rightarrow> nonce_guard \<Rightarrow> nonce_error + unit" where
  "record_answer nonce g = fst (check_and_record g nonce started_at started_at)"

definition is_replay :: "nonce_error + 'a \<Rightarrow> bool" where
  "is_replay r \<longleftrightarrow> (case r of Inl (ReplayDetected _) \<Rightarrow> True | _ \<Rightarrow> False)"

definition is_capacity :: "nonce_error + 'a \<Rightarrow> bool" where
  "is_capacity r \<longleftrightarrow> (case r of Inl CapacityExceeded \<Rightarrow> True | _ \<Rightarrow> False)"

definition sample_requirements :: payment_requirements where
  "sample_requirements = \<lparr>pr_scheme = ''exact'', pr_network = ''eip155:2368'', pr_amount = ''1000'',
     pr_asset = ''0x0000000000000000000000000000000000000000'',
     pr_pay_to = ''0x1111111111111111111111111111111111111111'', pr_max_timeout_seconds = 60, pr_extra = None\<rparr>"

definition with_payload :: "json \<Rightarrow> payment_payload" where
  "with_payload v = \<lparr>pp_x402_version = 2, pp_resource = None, pp_accepted = sample_requirements, pp_payload = v,
     pp_extensions = None\<rparr>"

definition payment :: payment_payload where
  "payment = with_payload (JObj [(''authorization'', JObj [(''from'', JStr ''0xAbC1''), (''nonce'', JStr ''0xDeAd'')]),
     (''signature'', JStr ''private-signature'')])"

definition records_new_nonce_successfully :: bool where
  "records_new_nonce_successfully \<longleftrightarrow>
     (let guard = new_guard 100 60
      in guard_len guard = 0 \<and> record_answer ''nonce-1'' guard = Inr () \<and> guard_len (recorded ''nonce-1'' guard) = 1)"

definition rejects_replayed_nonce :: bool where
  "rejects_replayed_nonce \<longleftrightarrow>
     (let guard = new_guard 100 60
      in record_answer ''nonce-repeat'' guard = Inr ()
         \<and> record_answer ''nonce-repeat'' (recorded ''nonce-repeat'' guard) = Inl (ReplayDetected ''nonce-repeat''))"

definition isolates_distinct_nonces :: bool where
  "isolates_distinct_nonces \<longleftrightarrow>
     (let guard = new_guard 100 60; guard1 = recorded ''nonce-a'' guard; guard2 = recorded ''nonce-b'' guard1
      in record_answer ''nonce-a'' guard = Inr () \<and> record_answer ''nonce-b'' guard1 = Inr ()
         \<and> record_answer ''nonce-c'' guard2 = Inr () \<and> guard_len (recorded ''nonce-c'' guard2) = 3)"

definition extracts_nonce_from_authorization_subfield :: "externals \<Rightarrow> bool" where
  "extracts_nonce_from_authorization_subfield x \<longleftrightarrow>
     extract_nonce_key x (with_payload (JObj [(''authorization'', JObj [(''nonce'', JStr ''0xdeadbeef1234'')])]))
       = ''0xdeadbeef1234''"

definition extracts_nonce_from_top_level_payload :: "externals \<Rightarrow> bool" where
  "extracts_nonce_from_top_level_payload x \<longleftrightarrow>
     extract_nonce_key x (with_payload (JObj [(''nonce'', JStr ''0x5678'')])) = ''0x5678''"

definition capacity_never_evicts_unexpired_legacy_keys :: bool where
  "capacity_never_evicts_unexpired_legacy_keys \<longleftrightarrow>
     (let guard = recorded ''nonce-2'' (recorded ''nonce-1'' (new_guard 2 60)); guard3 = recorded ''nonce-3'' guard
      in record_answer ''nonce-3'' guard = Inl CapacityExceeded \<and> guard_len guard3 = 2
         \<and> is_replay (record_answer ''nonce-1'' guard3) \<and> is_replay (record_answer ''nonce-2'' (recorded ''nonce-1'' guard3)))"

definition protected_drop_retains_but_known_failure_can_release :: "externals \<Rightarrow> bool" where
  "protected_drop_retains_but_known_failure_can_release x \<longleftrightarrow>
     (case reserve x (new_guard 1 60) payment started_at of
        (Inr r, guard) \<Rightarrow>
          let guard = release_reservation guard (retain_on_drop r) started_at
          in guard_is_empty guard \<and>
             (case reserve x guard payment started_at of
                (Inr r, guard) \<Rightarrow>
                  let guard = drop_reservation guard (retain_on_drop r) started_at; (again, guard) = reserve x guard payment started_at
                  in is_replay again \<and> length (deadlines guard) = 1
              | _ \<Rightarrow> False)
      | _ \<Rightarrow> False)"

definition pending_authorizations_do_not_expire_or_get_evicted :: bool where
  "pending_authorizations_do_not_expire_or_get_evicted \<longleftrightarrow>
     (let later = started_at + int (from_secs 3600)
      in case reserve_key (new_guard 1 1) ''pending'' started_at of
           (Inr r, guard) \<Rightarrow>
             let (again, guard) = reserve_key guard ''pending'' later; (other, guard) = reserve_key guard ''other'' later;
                 guard = drop_reservation guard r later
             in is_replay again \<and> is_capacity other \<and> \<not> is_capacity (fst (reserve_key guard ''other'' later))
                \<and> \<not> is_replay (fst (reserve_key guard ''other'' later))
         | _ \<Rightarrow> False)"

definition retained_authorizations_expire_and_recover_capacity :: bool where
  "retained_authorizations_expire_and_recover_capacity \<longleftrightarrow>
     (let guard = recorded ''completed'' (new_guard 1 60); deadline = fst (hd (deadlines guard));
          (early, guard) = reserve_key guard ''other'' (deadline - 1)
      in is_capacity early \<and>
         (case reserve_key guard ''other'' deadline of
            (Inr _, guard) \<Rightarrow> guard_len guard = 1 \<and> deadlines guard = []
          | _ \<Rightarrow> False))"

definition stale_handles_cannot_release_or_retain_replacement_entries :: "externals \<Rightarrow> bool" where
  "stale_handles_cannot_release_or_retain_replacement_entries x \<longleftrightarrow>
     (\<forall>retain \<in> set [False, True].
        case reserve x (new_guard 1 60) payment started_at of
          (Inr old, guard) \<Rightarrow>
            (case reserve x (clear_guard guard) payment started_at of
               (Inr replacement, guard) \<Rightarrow>
                 let guard = drop_reservation guard (if retain then retain_on_drop old else old) started_at
                 in guard_len guard = 1 \<and> deadlines guard = []
                    \<and> guard_is_empty (drop_reservation guard replacement started_at)
             | _ \<Rightarrow> False)
        | _ \<Rightarrow> False)"

definition is_reserved :: "(nonce_error + reservation) \<times> nonce_guard \<Rightarrow> bool" where
  "is_reserved r \<longleftrightarrow> (case r of (Inr _, _) \<Rightarrow> True | _ \<Rightarrow> False)"

definition other_payer :: payment_payload where
  "other_payer = payment\<lparr>pp_payload := JObj [(''authorization'', JObj [(''from'', JStr ''0xOtherPayer''), (''nonce'', JStr ''0xDeAd'')]),
     (''signature'', JStr ''private-signature'')]\<rparr>"

definition authorizations_are_isolated_by_payer_asset_and_network :: "externals \<Rightarrow> bool" where
  "authorizations_are_isolated_by_payer_asset_and_network x \<longleftrightarrow>
     (\<forall>other \<in> {other_payer, payment\<lparr>pp_accepted := sample_requirements\<lparr>pr_asset := ''0xOtherAsset''\<rparr>\<rparr>,
          payment\<lparr>pp_accepted := sample_requirements\<lparr>pr_network := ''eip155:2369''\<rparr>\<rparr>}.
        is_reserved (reserve x (snd (reserve x (new_guard 10 60) payment started_at)) other started_at))"

definition hex_case_signatures_and_metadata_do_not_bypass_authorization_identity :: "externals \<Rightarrow> bool" where
  "hex_case_signatures_and_metadata_do_not_bypass_authorization_identity x \<longleftrightarrow>
     (let original = payment\<lparr>pp_accepted := sample_requirements\<lparr>pr_asset := ''0xAbCd''\<rparr>\<rparr>;
          alias = \<lparr>pp_x402_version = 2, pp_resource = Some \<lparr>ri_url = ''/other'', ri_description = None, ri_mime_type = None\<rparr>,
            pp_accepted = sample_requirements\<lparr>pr_asset := ''0xabcd''\<rparr>,
            pp_payload = JObj [(''authorization'', JObj [(''from'', JStr ''0xabc1''), (''nonce'', JStr ''0xdead'')]),
              (''signature'', JStr ''different-signature'')],
            pp_extensions = Some (JObj [(''custom'', JBool True)])\<rparr>
      in is_replay (fst (reserve x (snd (reserve x (new_guard 10 60) original started_at)) alias started_at)))"

definition opaque_fallback_uses_complete_payload_instead_of_a_bare_nonce :: "externals \<Rightarrow> bool" where
  "opaque_fallback_uses_complete_payload_instead_of_a_bare_nonce x \<longleftrightarrow>
     (let first = with_payload (JObj [(''nonce'', JStr ''same''), (''signature'', JStr ''first'')]);
          other = with_payload (JObj [(''nonce'', JStr ''same''), (''signature'', JStr ''second'')]);
          guard = snd (reserve x (new_guard 10 60) first started_at)
      in is_reserved (reserve x guard other started_at)
         \<and> is_replay (fst (reserve x guard first started_at)))"

subsection \<open>The validity window\<close>

definition valid_authorization_window :: bool where
  "valid_authorization_window \<longleftrightarrow>
     (let now = 1700000000 in validate default_expiration_guard (now - 100) (now + 3600) now = Inr ())"

definition rejects_inverted_window :: bool where
  "rejects_inverted_window \<longleftrightarrow> validate default_expiration_guard 2000 1000 1500 = Inl (InvertedWindow 2000 1000)"

definition rejects_expired_authorization :: bool where
  "rejects_expired_authorization \<longleftrightarrow> validate default_expiration_guard 1000 5000 10000 = Inl (Expired 5000 10000)"

definition rejects_premature_authorization :: bool where
  "rejects_premature_authorization \<longleftrightarrow> validate default_expiration_guard 1200 5000 1000 = Inl (NotYetValid 1200 1000)"

definition rejects_insufficient_remaining_validity :: bool where
  "rejects_insufficient_remaining_validity \<longleftrightarrow>
     validate (expiration_guard_new 10 5) 500 1003 1000 = Inl (InsufficientRemainingValidity 3 5)"

subsection \<open>Evaluation\<close>

lemmas guard_test_eval = guard_eval check_and_record_def record_answer_def recorded_def is_replay_def is_capacity_def
  is_reserved_def started_at_def guard_is_empty_def Let_def fmdrop_fmupd_same fmdrop_empty

lemma recording_test1: "records_new_nonce_successfully"
  by (simp add: records_new_nonce_successfully_def guard_test_eval)

lemma recording_test2: "rejects_replayed_nonce"
  by (simp add: rejects_replayed_nonce_def guard_test_eval)

text \<open>A further key, while no deadline has passed: the guard as it was, with one more entry and one more deadline.\<close>

lemma nothing_due: "(\<forall>p \<in> set xs. now < fst p) \<Longrightarrow> expire_loop n now es xs = (es, xs)"
  by (cases n; cases xs) auto

lemma record_fresh:
  assumes "\<forall>p \<in> set (ns_expirations (ng_store g)). 0 < fst p" "ng_ttl g = from_secs 60"
    and "nonce |\<notin>| fmdom (ns_entries (ng_store g))" "map_len (ns_entries (ng_store g)) < ng_max_capacity g"
  shows "check_and_record g nonce 0 0 = (Inr (), g\<lparr>ng_store :=
     \<lparr>ns_entries = fmupd nonce (ng_next_generation g) (ns_entries (ng_store g)),
      ns_expirations = bt_insert (int (from_secs 60), nonce) (ns_expirations (ng_store g))\<rparr>,
     ng_next_generation := Suc (ng_next_generation g)\<rparr>)"
  using assms
  by (simp add: check_and_record_def reserve_key_def ns_expire_def nothing_due drop_reservation_def retain_on_drop_def
      from_secs_def time_defs Let_def)

lemma recording_test3: "isolates_distinct_nonces"
  by (simp add: isolates_distinct_nonces_def record_answer_def recorded_def started_at_def record_fresh new_guard_def
      guard_len_def map_len_upd from_secs_def time_defs Let_def)

lemma recording_test4: "capacity_never_evicts_unexpired_legacy_keys"
  by (simp add: capacity_never_evicts_unexpired_legacy_keys_def guard_test_eval)

lemma recording_test5: "retained_authorizations_expire_and_recover_capacity"
  by (simp add: retained_authorizations_expire_and_recover_capacity_def guard_test_eval)

lemma recording_test6: "pending_authorizations_do_not_expire_or_get_evicted"
  by (simp add: pending_authorizations_do_not_expire_or_get_evicted_def guard_test_eval)

lemma reservation_test1: "protected_drop_retains_but_known_failure_can_release x"
  by (simp add: protected_drop_retains_but_known_failure_can_release_def reserve_def guard_test_eval)

lemma reservation_test2: "stale_handles_cannot_release_or_retain_replacement_entries x"
  by (simp add: stale_handles_cannot_release_or_retain_replacement_entries_def reserve_def guard_test_eval)

text \<open>The keys are texts; printing documents is injective.\<close>

lemma identity_tests:
  assumes "inj (json_print x)"
  shows "authorizations_are_isolated_by_payer_asset_and_network x"
    "hex_case_signatures_and_metadata_do_not_bypass_authorization_identity x"
    "opaque_fallback_uses_complete_payload_instead_of_a_bare_nonce x"
  using inj_eq [OF assms]
  by (simp_all add: authorizations_are_isolated_by_payer_asset_and_network_def
      hex_case_signatures_and_metadata_do_not_bypass_authorization_identity_def
      opaque_fallback_uses_complete_payload_instead_of_a_bare_nonce_def payment_def other_payer_def with_payload_def
      sample_requirements_def authorization_key_def authorization_identity_def opaque_identity_def nonempty_str_def
      starts_with_def text_eval reserve_def guard_test_eval)

lemma extraction_tests:
  "extracts_nonce_from_authorization_subfield x" "extracts_nonce_from_top_level_payload x"
  by (simp_all add: extracts_nonce_from_authorization_subfield_def extracts_nonce_from_top_level_payload_def
      extract_nonce_key_def with_payload_def Let_def)

lemma window_tests:
  "valid_authorization_window" "rejects_inverted_window" "rejects_expired_authorization" "rejects_premature_authorization"
  "rejects_insufficient_remaining_validity"
  by (simp_all add: valid_authorization_window_def rejects_inverted_window_def rejects_expired_authorization_def
      rejects_premature_authorization_def rejects_insufficient_remaining_validity_def validate_def
      default_expiration_guard_def expiration_guard_new_def sat_add_def sat_sub_def Let_def)

end
