(* ===== verification/TypesTests.thy ===== *)
theory TypesTests
  imports Wire
begin

text \<open>
  The unit tests of \<open>types.rs\<close>, one definition per test function, evaluated on the model.
  \<open>serde_json::to_value\<close> of a struct is the canonical form of its serialised document, and the literals of
  \<open>json!\<close> are compared in that form.
\<close>

definition requirements_sample :: payment_requirements where
  "requirements_sample = \<lparr>pr_scheme = ''exact'', pr_network = ''eip155:2368'', pr_amount = ''1000'', pr_asset = ''0xAsset'',
     pr_pay_to = ''0xPayTo'', pr_max_timeout_seconds = 60,
     pr_extra = Some (JObj [(''name'', JStr ''pieUSD''), (''version'', JStr ''1'')])\<rparr>"

definition requirements_value :: "(str \<times> json) list" where
  "requirements_value =
     [(''amount'', JStr ''1000''), (''asset'', JStr ''0xAsset''),
      (''extra'', JObj [(''name'', JStr ''pieUSD''), (''version'', JStr ''1'')]),
      (''maxTimeoutSeconds'', JNum (PosInt 60)), (''network'', JStr ''eip155:2368''), (''payTo'', JStr ''0xPayTo''),
      (''scheme'', JStr ''exact'')]"

definition requirements_serialize_with_camel_case_wire_names :: bool where
  "requirements_serialize_with_camel_case_wire_names \<longleftrightarrow>
     (let v = canon (ser_requirements requirements_sample)
      in v = JObj requirements_value \<and> jget ''pay_to'' v = None \<and> jget ''max_timeout_seconds'' v = None)"

definition requirements_omit_extra_when_none :: bool where
  "requirements_omit_extra_when_none \<longleftrightarrow>
     jget ''extra'' (canon (ser_requirements (requirements_sample\<lparr>pr_extra := None\<rparr>))) = None"

definition requirements_deserialize_without_extra :: bool where
  "requirements_deserialize_without_extra \<longleftrightarrow>
     (case de_requirements (JObj [(''asset'', JStr ''a''), (''amount'', JStr ''1''), (''maxTimeoutSeconds'', JNum (PosInt 5)),
         (''network'', JStr ''n''), (''payTo'', JStr ''p''), (''scheme'', JStr ''exact'')]) of
        Some r \<Rightarrow> pr_extra r = None \<and> pr_max_timeout_seconds r = 5 | None \<Rightarrow> False)"

definition requirements_reject_missing_required_fields :: bool where
  "requirements_reject_missing_required_fields \<longleftrightarrow>
     (\<forall>missing \<in> set [''scheme'', ''network'', ''amount'', ''asset'', ''payTo'', ''maxTimeoutSeconds''].
        de_requirements (JObj (filter (\<lambda>(k, _). k \<noteq> missing) requirements_value)) = None)"

definition replacing :: "str \<Rightarrow> json \<Rightarrow> json" where
  "replacing k v = JObj (obj_insert k v requirements_value)"

definition requirements_reject_wrongly_typed_fields :: bool where
  "requirements_reject_wrongly_typed_fields \<longleftrightarrow>
     de_requirements (replacing ''amount'' (JNum (PosInt 1000))) = None
     \<and> de_requirements (replacing ''maxTimeoutSeconds'' (JNum (NegInt (- 1)))) = None"

definition requirements_ignore_unknown_fields :: bool where
  "requirements_ignore_unknown_fields \<longleftrightarrow>
     de_requirements (replacing ''somethingNew'' (JBool True)) = Some requirements_sample"

definition requirements_equality_is_field_wise_including_extra :: bool where
  "requirements_equality_is_field_wise_including_extra \<longleftrightarrow>
     requirements_sample \<noteq> requirements_sample\<lparr>pr_amount := ''1001''\<rparr>
     \<and> requirements_sample \<noteq> requirements_sample\<lparr>pr_extra :=
         Some (JObj [(''name'', JStr ''pieUSD''), (''version'', JStr ''2'')])\<rparr>
     \<and> requirements_sample \<noteq> requirements_sample\<lparr>pr_extra := None\<rparr>"

definition resource_info_uses_mime_type_wire_name_and_skips_none :: bool where
  "resource_info_uses_mime_type_wire_name_and_skips_none \<longleftrightarrow>
     canon (ser_resource_info \<lparr>ri_url = ''/v1/x'', ri_description = Some ''d'', ri_mime_type = Some ''application/json''\<rparr>)
       = JObj [(''description'', JStr ''d''), (''mimeType'', JStr ''application/json''), (''url'', JStr ''/v1/x'')]
     \<and> canon (ser_resource_info \<lparr>ri_url = ''/v1/x'', ri_description = None, ri_mime_type = None\<rparr>)
       = JObj [(''url'', JStr ''/v1/x'')]"

definition payment_required_omits_error_when_none :: bool where
  "payment_required_omits_error_when_none \<longleftrightarrow>
     jget ''error'' (canon (ser_payment_required \<lparr>pq_x402_version = 2, pq_error = None,
       pq_resource = \<lparr>ri_url = ''u'', ri_description = None, ri_mime_type = None\<rparr>, pq_accepts = []\<rparr>)) = None"

definition payload_deserializes_the_shape_a_client_sends :: bool where
  "payload_deserializes_the_shape_a_client_sends \<longleftrightarrow>
     (case de_payload (JObj [(''accepted'', JObj requirements_value),
         (''payload'', JObj [(''authorization'', JObj [(''from'', JStr ''0xabc'')]), (''signature'', JStr ''0xsig'')]),
         (''x402Version'', JNum (PosInt 2))]) of
        Some p \<Rightarrow> pp_x402_version p = 2 \<and> pp_resource p = None \<and> pp_extensions p = None
          \<and> pp_accepted p = requirements_sample
          \<and> Option.bind (jget ''authorization'' (pp_payload p)) (jget ''from'') = Some (JStr ''0xabc'')
      | None \<Rightarrow> False)"

definition payload_keeps_optional_resource_and_extensions :: bool where
  "payload_keeps_optional_resource_and_extensions \<longleftrightarrow>
     (case de_payload (JObj [(''accepted'', JObj requirements_value), (''extensions'', JObj [(''foo'', JNum (PosInt 1))]),
         (''payload'', JObj []),
         (''resource'', JObj [(''mimeType'', JStr ''text/plain''), (''url'', JStr ''https://x/v1/y'')]),
         (''x402Version'', JNum (PosInt 2))]) of
        Some p \<Rightarrow> Option.bind (pp_resource p) ri_mime_type = Some ''text/plain''
          \<and> Option.bind (pp_extensions p) (jget ''foo'') = Some (JNum (PosInt 1))
      | None \<Rightarrow> False)"

definition payload_requires_accepted_and_payload :: bool where
  "payload_requires_accepted_and_payload \<longleftrightarrow>
     de_payload (JObj [(''payload'', JObj []), (''x402Version'', JNum (PosInt 2))]) = None
     \<and> de_payload (JObj [(''accepted'', JObj requirements_value), (''x402Version'', JNum (PosInt 2))]) = None"

definition verify_response_minimal_valid :: bool where
  "verify_response_minimal_valid \<longleftrightarrow>
     de_verify_response (JObj [(''isValid'', JBool True)])
       = Some \<lparr>vr_is_valid = True, vr_invalid_reason = None, vr_invalid_message = None, vr_payer = None\<rparr>"

definition verify_response_full_invalid :: bool where
  "verify_response_full_invalid \<longleftrightarrow>
     de_verify_response (JObj [(''invalidMessage'', JStr ''balance too low''), (''invalidReason'', JStr ''insufficient_funds''),
         (''isValid'', JBool False), (''payer'', JStr ''0xabc'')])
       = Some \<lparr>vr_is_valid = False, vr_invalid_reason = Some ''insufficient_funds'',
           vr_invalid_message = Some ''balance too low'', vr_payer = Some ''0xabc''\<rparr>"

definition verify_response_accepts_explicit_nulls :: bool where
  "verify_response_accepts_explicit_nulls \<longleftrightarrow>
     (case de_verify_response (JObj [(''invalidReason'', JNull), (''isValid'', JBool False), (''payer'', JNull)]) of
        Some v \<Rightarrow> vr_invalid_reason v = None \<and> vr_payer v = None | None \<Rightarrow> False)"

definition verify_response_requires_is_valid :: bool where
  "verify_response_requires_is_valid \<longleftrightarrow>
     de_verify_response (JObj [(''payer'', JStr ''0x1'')]) = None
     \<and> de_verify_response (JObj [(''isValid'', JStr ''yes'')]) = None"

definition settle_response_round_trips_and_skips_none :: bool where
  "settle_response_round_trips_and_skips_none \<longleftrightarrow>
     (let s = \<lparr>sr_success = True, sr_error_reason = None, sr_error_message = None, sr_payer = Some ''0xabc'',
            sr_transaction = ''0xtx'', sr_network = ''eip155:2368'', sr_amount = None\<rparr>;
          v = canon (ser_settle_response s)
      in v = JObj [(''network'', JStr ''eip155:2368''), (''payer'', JStr ''0xabc''), (''success'', JBool True),
               (''transaction'', JStr ''0xtx'')]
         \<and> (case de_settle_response v of Some back \<Rightarrow> sr_success back \<and> sr_error_reason back = None | None \<Rightarrow> False))"

definition settle_response_failure_uses_camel_case_error_fields :: bool where
  "settle_response_failure_uses_camel_case_error_fields \<longleftrightarrow>
     (let v = canon (ser_settle_response \<lparr>sr_success = False, sr_error_reason = Some ''r'', sr_error_message = Some ''m'',
            sr_payer = None, sr_transaction = '''', sr_network = ''n'', sr_amount = Some ''5''\<rparr>)
      in jget ''errorReason'' v = Some (JStr ''r'') \<and> jget ''errorMessage'' v = Some (JStr ''m'')
         \<and> jget ''amount'' v = Some (JStr ''5''))"

definition settle_response_requires_transaction_and_network :: bool where
  "settle_response_requires_transaction_and_network \<longleftrightarrow>
     de_settle_response (JObj [(''network'', JStr ''n''), (''success'', JBool True)]) = None
     \<and> de_settle_response (JObj [(''success'', JBool True), (''transaction'', JStr ''t'')]) = None"

text \<open>Through text and back, for a package that reads what it printed.\<close>

definition payment_required_round_trips :: "externals \<Rightarrow> bool" where
  "payment_required_round_trips x \<longleftrightarrow>
     (let pr = \<lparr>pq_x402_version = 2, pq_error = Some ''nope'',
            pq_resource = \<lparr>ri_url = ''/v1/x'', ri_description = None, ri_mime_type = None\<rparr>,
            pq_accepts = [requirements_sample]\<rparr>
      in jget ''x402Version'' (ser_payment_required pr) = Some (JNum (PosInt 2)) \<and>
         (case Option.bind (json_parse x (json_print x (ser_payment_required pr))) de_payment_required of
            Some back \<Rightarrow> pq_x402_version back = 2 \<and> pq_error back = Some ''nope'' \<and> pq_accepts back = [requirements_sample]
          | None \<Rightarrow> False))"

subsection \<open>Evaluation\<close>

lemmas types_eval = serde_defs requirements_sample_def requirements_value_def ser_requirements_def de_requirements_def
  ser_resource_info_def de_resource_info_def ser_payment_required_def de_payload_def de_verify_response_def
  ser_settle_response_def de_settle_response_def less_char_def replacing_def ser_u32_def Let_def

lemma requirements_tests:
  "requirements_serialize_with_camel_case_wire_names" "requirements_omit_extra_when_none"
  "requirements_deserialize_without_extra" "requirements_reject_missing_required_fields"
  "requirements_reject_wrongly_typed_fields" "requirements_ignore_unknown_fields"
  "requirements_equality_is_field_wise_including_extra"
  by (simp_all add: requirements_serialize_with_camel_case_wire_names_def requirements_omit_extra_when_none_def
      requirements_deserialize_without_extra_def requirements_reject_missing_required_fields_def
      requirements_reject_wrongly_typed_fields_def requirements_ignore_unknown_fields_def
      requirements_equality_is_field_wise_including_extra_def types_eval)

lemma challenge_tests:
  "resource_info_uses_mime_type_wire_name_and_skips_none" "payment_required_omits_error_when_none"
  by (simp_all add: resource_info_uses_mime_type_wire_name_and_skips_none_def
      payment_required_omits_error_when_none_def types_eval)

lemma payload_tests:
  "payload_deserializes_the_shape_a_client_sends" "payload_keeps_optional_resource_and_extensions"
  "payload_requires_accepted_and_payload"
  by (simp_all add: payload_deserializes_the_shape_a_client_sends_def payload_keeps_optional_resource_and_extensions_def
      payload_requires_accepted_and_payload_def types_eval)

lemma response_tests:
  "verify_response_minimal_valid" "verify_response_full_invalid" "verify_response_accepts_explicit_nulls"
  "verify_response_requires_is_valid" "settle_response_round_trips_and_skips_none"
  "settle_response_failure_uses_camel_case_error_fields" "settle_response_requires_transaction_and_network"
  by (simp_all add: verify_response_minimal_valid_def verify_response_full_invalid_def
      verify_response_accepts_explicit_nulls_def verify_response_requires_is_valid_def
      settle_response_round_trips_and_skips_none_def settle_response_failure_uses_camel_case_error_fields_def
      settle_response_requires_transaction_and_network_def types_eval)

lemma challenge_text_test:
  assumes "\<And>v. json_parse x (json_print x v) = Some v"
  shows "payment_required_round_trips x"
proof -
  have "storable (pr_extra requirements_sample)"
    by (simp add: storable_def requirements_sample_def less_char_def)
  then show ?thesis
    by (simp add: payment_required_round_trips_def assms de_ser_payment_required Let_def)
       (simp add: ser_payment_required_def ser_u32_def)
qed

end
