(* ===== verification/RecordTests.thy ===== *)
theory RecordTests
  imports PaymentMetrics Ledger Webhook
begin

text \<open>
  The unit tests of \<open>metrics.rs\<close>, \<open>settlement_ledger.rs\<close> and \<open>webhook.rs\<close>, one definition per test
  function, evaluated on the model. The ledger test that records a hundred and one transactions is left out.
\<close>

subsection \<open>Counters\<close>

definition metrics_initial_state :: bool where
  "metrics_initial_state \<longleftrightarrow>
     (let snap = snapshot new_metrics
      in pm_requests_total snap = 0 \<and> pm_challenges_total snap = 0 \<and> pm_settlements_success snap = 0
         \<and> pm_settlements_failed snap = 0 \<and> ms_avg_settlement_latency_ms snap = 0
         \<and> ms_settlement_success_rate snap = 1)"

definition metrics_record_and_snapshot :: bool where
  "metrics_record_and_snapshot \<longleftrightarrow>
     (let snap = snapshot (record_settlement False (from_millis 150) (record_settlement True (from_millis 50)
            (record_verification True (record_challenge (record_request new_metrics)))))
      in pm_requests_total snap = 1 \<and> pm_challenges_total snap = 1 \<and> pm_verifications_success snap = 1
         \<and> pm_settlements_success snap = 1 \<and> pm_settlements_failed snap = 1
         \<and> pm_total_settlement_latency_ms snap = 200
         \<and> ms_avg_settlement_latency_ms snap = 100 \<and> ms_settlement_success_rate snap = 1 / 2)"

definition metrics_reset :: bool where
  "metrics_reset \<longleftrightarrow>
     (let m = record_settlement True (from_millis 100) (record_request new_metrics); snap = snapshot (reset m)
      in pm_requests_total (snapshot m) = 1 \<and> pm_requests_total snap = 0 \<and> pm_settlements_success snap = 0
         \<and> pm_total_settlement_latency_ms snap = 0)"

subsection \<open>The ledger\<close>

definition ledger_record :: "str \<Rightarrow> str \<Rightarrow> bool \<Rightarrow> settlement_record" where
  "ledger_record tx network success = \<lparr>sl_tx_hash = tx, sl_payer = ''0xAbCd'', sl_pay_to = ''recipient'', sl_amount = 7,
     sl_network = network, sl_timestamp_secs = 1, sl_success = success, sl_error_reason = None\<rparr>"

definition recording :: "(str \<Rightarrow> str) \<Rightarrow> settlement_record list \<Rightarrow> ledger" where
  "recording lower rs = fold (record_settlement_in lower) rs (ledger_new 100)"

definition duplicate_confirmations_are_counted_once :: "(str \<Rightarrow> str) \<Rightarrow> bool" where
  "duplicate_confirmations_are_counted_once lower \<longleftrightarrow>
     (let ledger = recording lower [ledger_record ''0xAB'' ''eip155:2368'' True, ledger_record ''0xab'' ''eip155:2368'' True]
      in ledger_len ledger = 1 \<and> ls_total_settled_volume (ledger_summary_of ledger) = 7)"

definition transactions_are_scoped_to_network_and_confirmations_do_not_regress :: "(str \<Rightarrow> str) \<Rightarrow> bool" where
  "transactions_are_scoped_to_network_and_confirmations_do_not_regress lower \<longleftrightarrow>
     (let ledger = recording lower [ledger_record ''tx'' ''a'' False, ledger_record ''tx'' ''a'' True,
            ledger_record ''tx'' ''a'' False, ledger_record ''tx'' ''b'' True]
      in ledger_len ledger = 2 \<and> ls_successful_count (ledger_summary_of ledger) = 2
         \<and> ls_failed_count (ledger_summary_of ledger) = 0 \<and> get_by_tx ''tx'' ledger = None
         \<and> (case get_by_network_tx ''a'' ''TX'' ledger of Some r \<Rightarrow> sl_success r | None \<Rightarrow> False))"

definition attempts_without_transaction_hashes_remain_independent :: "(str \<Rightarrow> str) \<Rightarrow> bool" where
  "attempts_without_transaction_hashes_remain_independent lower \<longleftrightarrow>
     (let ledger = recording lower [ledger_record '''' ''a'' False, ledger_record '''' ''a'' False]
      in ledger_len ledger = 2 \<and> ls_failed_count (ledger_summary_of ledger) = 2 \<and> get_by_tx '''' ledger = None)"

subsection \<open>Webhooks\<close>

definition webhook_enqueue_and_delivery :: "duration option \<Rightarrow> u64 \<Rightarrow> bool" where
  "webhook_enqueue_and_delivery clock hash \<longleftrightarrow>
     (let cfg = \<lparr>wc_target_urls = [''https://example.com/webhook''], wc_max_retries = 2,
            wc_initial_backoff = from_millis 100, wc_max_queue_size = 50, wc_signing_secret = Some ''secret-key''\<rparr>;
          (ids, s) = enqueue_event cfg clock hash PaymentSettled (Some ''0x1234'') (Some ''kite-mainnet'') (Some ''5000000'')
            (Some ''0xabc...'') (Some ''/v1/data'') webhook_new;
          (delivery, s') = record_attempt_result cfg clock (hd ids) True (Some 200) None s
      in length ids = 1 \<and> pending_count s = 1 \<and> map_option wd_status delivery = Some Delivered
         \<and> pending_count s' = 0 \<and> history_count s' = 1)"

definition webhook_retry_and_abandonment :: "duration option \<Rightarrow> u64 \<Rightarrow> bool" where
  "webhook_retry_and_abandonment clock hash \<longleftrightarrow>
     (let cfg = default_webhook_config\<lparr>wc_target_urls := [''https://example.com/webhook''], wc_max_retries := 1\<rparr>;
          (ids, s) = enqueue_event cfg clock hash PaymentFailed None None None None None webhook_new;
          (d1, s1) = record_attempt_result cfg clock (hd ids) False (Some 500) (Some ''Server error'') s;
          (d2, s2) = record_attempt_result cfg clock (hd ids) False (Some 500) (Some ''Server error'') s1
      in map_option wd_status d1 = Some Failed \<and> pending_count s1 = 1
         \<and> map_option wd_status d2 = Some Abandoned \<and> pending_count s2 = 0 \<and> history_count s2 = 1)"

subsection \<open>Evaluation\<close>

lemma exact_quotients: "f64_div (f64_of_u64 200) (f64_of_u64 2) = 100" "f64_div (f64_of_u64 1) (f64_of_u64 2) = 1 / 2"
proof -
  have "rnd 100 = 100" using rnd_exact [of 100] by simp
  moreover have "rnd (1 / 2) = 1 / 2" by code_simp
  ultimately show "f64_div (f64_of_u64 200) (f64_of_u64 2) = 100" "f64_div (f64_of_u64 1) (f64_of_u64 2) = 1 / 2"
    by (simp_all add: f64_div_def f64_exact)
qed

lemma metrics_tests: "metrics_initial_state" "metrics_record_and_snapshot" "metrics_reset"
  by (simp_all add: metrics_initial_state_def metrics_record_and_snapshot_def metrics_reset_def snapshot_def
      new_metrics_def record_request_def record_challenge_def record_verification_def record_settlement_def reset_def
      from_millis_def as_millis_def payment_metrics.defs std_simps Let_def exact_quotients)

lemma ledger_tests:
  assumes "lower ''0xAbCd'' = ''0xabcd''"
  shows "duplicate_confirmations_are_counted_once lower"
  "transactions_are_scoped_to_network_and_confirmations_do_not_regress lower"
  "attempts_without_transaction_hashes_remain_independent lower"
  by (simp_all add: duplicate_confirmations_are_counted_once_def
      transactions_are_scoped_to_network_and_confirmations_do_not_regress_def
      attempts_without_transaction_hashes_remain_independent_def recording_def ledger_record_def record_settlement_in_def
      append_record_def evict_oldest_def drop_previous_def remove_indexes_def transaction_key_def ledger_new_def
      ledger_len_def ledger_summary_of_def add_to_summary_def get_by_tx_def get_by_network_tx_def trim_visible
      sorted_list_of_fset.rep_eq insort_insert_key_def assms sat_add_def text_eval Let_def)

lemma webhook_tests: "webhook_enqueue_and_delivery clock hash" "webhook_retry_and_abandonment clock hash"
  by (simp_all add: webhook_enqueue_and_delivery_def webhook_retry_and_abandonment_def default_webhook_config_def
      enqueue_event_def record_attempt_result_def push_bounded_def webhook_new_def pending_count_def history_count_def Let_def)

end
