(* ===== verification/ProxyTests.thy ===== *)
theory ProxyTests
  imports Proxy
begin

text \<open>
  The unit tests of \<open>proxy.rs\<close>, one definition per test function, evaluated on the model. A URL of the redirect
  test is given by the components its text parses to. Left out are the tests of \<open>Clone\<close> and Debug.
\<close>

definition proxy_config :: "str \<Rightarrow> upstream_config" where
  "proxy_config auth_value = \<lparr>uc_base_url = ''http://127.0.0.1:1'', uc_auth_header = ''X-Api-Key'', uc_auth_value = auth_value\<rparr>"

definition hop_by_hop_list_is_lowercase_and_complete :: bool where
  "hop_by_hop_list_is_lowercase_and_complete \<longleftrightarrow>
     (\<forall>h \<in> set [''connection'', ''keep-alive'', ''transfer-encoding'', ''te'', ''trailer'', ''upgrade'', ''host'', ''content-length''].
        h \<in> set HOP_BY_HOP)
     \<and> list_all (\<lambda>h. h = ascii_lower h) HOP_BY_HOP"

definition payment_headers_cover_the_current_and_the_legacy_name :: bool where
  "payment_headers_cover_the_current_and_the_legacy_name \<longleftrightarrow>
     PAYMENT_HEADERS = [''payment-signature'', ''x-payment''] \<and> list_all (\<lambda>h. h = ascii_lower h) PAYMENT_HEADERS"

definition strip_v1_prefix_removes_only_a_whole_leading_segment :: bool where
  "strip_v1_prefix_removes_only_a_whole_leading_segment \<longleftrightarrow>
     list_all (\<lambda>(input, expected). strip_v1_prefix input = expected)
       [(''/v1/orders'', ''/orders''), (''/v1/orders?a=1'', ''/orders?a=1''), (''/v1/v1/orders'', ''/v1/orders''),
        (''/v1'', ''''), (''/v1?a=1'', ''?a=1''), (''/v1beta/orders'', ''/v1beta/orders''), (''/v10'', ''/v10''),
        (''/orders/v1'', ''/orders/v1''), (''/'', ''/'')]"

definition dot_segments_are_detected_in_every_spelling :: bool where
  "dot_segments_are_detected_in_every_spelling \<longleftrightarrow>
     list_all has_dot_segment
       [''/..'', ''/.'', ''/a/../b'', ''/a/./b'', ''/a/..'', ''/%2e%2e/x'', ''/%2E%2E/x'', ''/.%2e/x'', ''/%2e./x'', ''/%2e/x'',
        ''/a'' @ [CHR 0x5C] @ ''..'' @ [CHR 0x5C] @ ''b'', ''/..?q=1'', ''/a/%2e%2E/b'']
     \<and> list_all (\<lambda>ok. \<not> has_dot_segment ok)
       [''/'', ''/a/b'', ''/a.b'', ''/a..b'', ''/...'', ''/.hidden'', ''/file.json'', ''/x?next=../y'', ''/x?a=%2e%2e'',
        ''/a%2fb'', ''/..a'', ''/a..'']"

definition site :: "str \<Rightarrow> str \<Rightarrow> u16 option \<Rightarrow> url" where
  "site scheme host port = \<lparr>url_scheme = scheme, url_host = Some host, url_port = port\<rparr>"

definition redirect_hops_stay_on_the_same_origin :: bool where
  "redirect_hops_stay_on_the_same_origin \<longleftrightarrow>
     is_same_origin_hop (site ''https'' ''api.example.com'' None) (site ''https'' ''api.example.com'' None)
     \<and> is_same_origin_hop (site ''http'' ''127.0.0.1'' (Some 8080)) (site ''http'' ''127.0.0.1'' (Some 8080))
     \<and> is_same_origin_hop (site ''http'' ''api.example.com'' None) (site ''https'' ''api.example.com'' None)
     \<and> \<not> is_same_origin_hop (site ''https'' ''api.example.com'' None) (site ''http'' ''api.example.com'' None)
     \<and> \<not> is_same_origin_hop (site ''https'' ''api.example.com'' None) (site ''https'' ''evil.example.net'' None)
     \<and> \<not> is_same_origin_hop (site ''https'' ''api.example.com'' None) (site ''https'' ''api.example.com.evil.net'' None)
     \<and> \<not> is_same_origin_hop (site ''https'' ''api.example.com'' None) (site ''https'' ''sub.api.example.com'' None)
     \<and> \<not> is_same_origin_hop (site ''http'' ''127.0.0.1'' (Some 8080)) (site ''http'' ''127.0.0.1'' (Some 9090))"

definition request_body_cap_is_sixteen_mebibytes :: bool where
  "request_body_cap_is_sixteen_mebibytes \<longleftrightarrow> MAX_REQUEST_BODY_BYTES = 16 * 1024 * 1024"

definition refused_upstream :: "upstream_request \<Rightarrow> upstream_reply" where
  "refused_upstream req = Unreachable ''connection refused''"

definition proxied :: "header_checks \<Rightarrow> str \<Rightarrow> str \<Rightarrow> response" where
  "proxied k m body = proxy k (proxy_config '''') refused_upstream
     \<lparr>px_method = m, px_path_query = Some ''/v1/x'', px_nested = False, px_headers = [], px_body = Some body\<rparr>"

definition refused_upstream_is_a_502_with_error_and_detail :: "header_checks \<Rightarrow> bool" where
  "refused_upstream_is_a_502_with_error_and_detail k \<longleftrightarrow>
     (let resp = proxied k ''GET'' ''''
      in resp_status resp = 502
         \<and> (case resp_body resp of
              JsonBody body \<Rightarrow> jget ''error'' body = Some (JStr ''upstream unreachable'')
                \<and> Option.bind (jget ''detail'' body) as_str \<noteq> None
            | _ \<Rightarrow> False))"

definition oversized_body_is_rejected_with_413_before_any_upstream_call :: "header_checks \<Rightarrow> bool" where
  "oversized_body_is_rejected_with_413_before_any_upstream_call k \<longleftrightarrow>
     resp_status (proxied k ''POST'' (replicate (MAX_REQUEST_BODY_BYTES + 1) (CHR 0x00))) = 413"

definition unknown_methods_do_not_panic :: "header_checks \<Rightarrow> bool" where
  "unknown_methods_do_not_panic k \<longleftrightarrow> resp_status (proxied k ''PURGE'' '''') = 502"

subsection \<open>Evaluation\<close>

lemma list_tests:
  "hop_by_hop_list_is_lowercase_and_complete" "payment_headers_cover_the_current_and_the_legacy_name"
  "strip_v1_prefix_removes_only_a_whole_leading_segment" "redirect_hops_stay_on_the_same_origin"
  "request_body_cap_is_sixteen_mebibytes"
  by (simp_all add: hop_by_hop_list_is_lowercase_and_complete_def payment_headers_cover_the_current_and_the_legacy_name_def
      strip_v1_prefix_removes_only_a_whole_leading_segment_def redirect_hops_stay_on_the_same_origin_def
      request_body_cap_is_sixteen_mebibytes_def HOP_BY_HOP_def PAYMENT_HEADERS_def strip_v1_prefix_def is_same_origin_hop_def
      site_def MAX_REQUEST_BODY_BYTES_def text_eval Let_def)

lemma dot_test: "dot_segments_are_detected_in_every_spelling"
  by (simp add: dot_segments_are_detected_in_every_spelling_def has_dot_segment_def path_of_def split_on_def
      is_path_separator_def replace_all.simps Let_def)

lemma plain_path: "\<not> has_dot_segment ''/v1/x''"
  by (simp add: has_dot_segment_def path_of_def split_on_def is_path_separator_def replace_all.simps Let_def)

lemma handler_tests:
  "refused_upstream_is_a_502_with_error_and_detail k" "unknown_methods_do_not_panic k"
  "oversized_body_is_rejected_with_413_before_any_upstream_call k"
  by (simp_all add: refused_upstream_is_a_502_with_error_and_detail_def unknown_methods_do_not_panic_def
      oversized_body_is_rejected_with_413_before_any_upstream_call_def proxied_def proxy_def build_request_def plain_path
      relay_reply_def refused_upstream_def error_response_def json_response_def Let_def)

end
