(* ===== verification/FacilitatorTests.thy ===== *)
theory FacilitatorTests
  imports Facilitator
begin

text \<open>
  The unit tests of \<open>facilitator.rs\<close> against their fake facilitator, one definition per test function, evaluated
  on the model. The fake answers as the handler of the tests does; what the tests read of the requests it saw is
  asked of the request when it arrives (\<open>inspecting\<close>), and their number is one more than the delays slept.
  A reply that comes after the client's timeout is \<open>reqwest\<close>'s timeout error, and a port nobody
  listens on gives its connection error. The parser of documents is a parameter, so the lemmas name what
  the literals of the tests read as. Left out are the tests of \<open>Clone\<close>, of the Debug text and of twenty clones at once,
  and the content type, which \<open>reqwest\<close> sets.
\<close>

record fake =
  fk_verify :: "nat \<times> str"
  fk_settle :: "nat \<times> str"
  fk_settle_sequence :: "(nat \<times> str) list"
  fk_delay :: "duration option"

definition valid_answer :: json where
  "valid_answer = JObj [(''isValid'', JBool True)]"

definition settled_answer :: json where
  "settled_answer = JObj [(''network'', JStr ''eip155:2368''), (''success'', JBool True), (''transaction'', JStr ''0xtx'')]"

definition supported_answer :: json where
  "supported_answer = JObj [(''kinds'', JArr [JObj [(''network'', JStr ''eip155:2368''), (''scheme'', JStr ''exact''),
     (''x402Version'', JNum (PosInt 2))]])]"

definition fake_new :: "externals \<Rightarrow> fake" where
  "fake_new x = \<lparr>fk_verify = (200, json_print x valid_answer), fk_settle = (200, json_print x settled_answer),
     fk_settle_sequence = [], fk_delay = None\<rparr>"

definition set_verify :: "nat \<Rightarrow> str \<Rightarrow> fake \<Rightarrow> fake" where
  "set_verify status body f = f\<lparr>fk_verify := (status, body)\<rparr>"

definition set_settle :: "nat \<Rightarrow> str \<Rightarrow> fake \<Rightarrow> fake" where
  "set_settle status body f = f\<lparr>fk_settle := (status, body)\<rparr>"

definition set_settle_sequence :: "(nat \<times> str) list \<Rightarrow> fake \<Rightarrow> fake" where
  "set_settle_sequence responses f = f\<lparr>fk_settle_sequence := responses\<rparr>"

text \<open>The \<open>n\<close>-th request of a settlement takes the \<open>n\<close>-th answer of the sequence.\<close>

definition handler_answer :: "externals \<Rightarrow> fake \<Rightarrow> nat \<Rightarrow> str \<Rightarrow> nat \<times> str" where
  "handler_answer x f n path =
     (if ends_with path ''/supported'' then (200, json_print x supported_answer)
      else if ends_with path ''/verify'' then fk_verify f
      else if n < length (fk_settle_sequence f) then fk_settle_sequence f ! n
      else fk_settle f)"

definition timed_out :: request_error where
  "timed_out = \<lparr>re_is_connect = False, re_is_timeout = True, re_text = ''operation timed out''\<rparr>"

definition refused :: request_error where
  "refused = \<lparr>re_is_connect = True, re_is_timeout = False, re_text = ''connection refused''\<rparr>"

definition reached :: "externals \<Rightarrow> fake \<Rightarrow> facilitator_client \<Rightarrow> nat \<Rightarrow> fac_request \<Rightarrow> http_outcome" where
  "reached x f c n req =
     (if (case fk_delay f of Some d \<Rightarrow> fc_timeout c < d | None \<Rightarrow> False) then SendFailed timed_out
      else case handler_answer x f n (fr_url req) of (status, body) \<Rightarrow> Replied status (Some body))"

definition inspecting :: "(fac_request \<Rightarrow> bool) \<Rightarrow> (nat \<Rightarrow> fac_request \<Rightarrow> http_outcome) \<Rightarrow> nat \<Rightarrow> fac_request \<Rightarrow> http_outcome" where
  "inspecting check transport n req = (if check req then transport n req else SendFailed refused)"

definition nobody :: "nat \<Rightarrow> fac_request \<Rightarrow> http_outcome" where
  "nobody n req = SendFailed refused"

definition start_url :: str where
  "start_url = ''http://127.0.0.1:40211''"

definition test_requirements :: payment_requirements where
  "test_requirements = \<lparr>pr_scheme = ''exact'', pr_network = ''eip155:2368'', pr_amount = ''1000'', pr_asset = ''0xasset'',
     pr_pay_to = ''0xpayto'', pr_max_timeout_seconds = 60, pr_extra = None\<rparr>"

definition test_payload :: payment_payload where
  "test_payload = \<lparr>pp_x402_version = 2, pp_resource = None, pp_accepted = test_requirements,
     pp_payload = JObj [(''signature'', JStr ''0xsig'')], pp_extensions = None\<rparr>"

definition is_ok :: "'e + 'a \<Rightarrow> bool" where
  "is_ok r \<longleftrightarrow> (case r of Inr _ \<Rightarrow> True | Inl _ \<Rightarrow> False)"

fun json_at :: "json \<Rightarrow> str list \<Rightarrow> json option" where
  "json_at v [] = Some v"
| "json_at v (k # ks) = Option.bind (jget k v) (\<lambda>w. json_at w ks)"

definition seen_count :: "'r \<times> duration list \<Rightarrow> nat" where
  "seen_count r = Suc (length (snd r))"

subsection \<open>Construction\<close>

definition default_timeout_is_thirty_seconds :: bool where
  "default_timeout_is_thirty_seconds \<longleftrightarrow> DEFAULT_TIMEOUT = from_secs 30"

definition base_url_has_trailing_slashes_trimmed_but_keeps_the_version_prefix :: bool where
  "base_url_has_trailing_slashes_trimmed_but_keeps_the_version_prefix \<longleftrightarrow>
     client_base_url (client_new ''https://f.example/v2'') = ''https://f.example/v2''
     \<and> client_base_url (client_new ''https://f.example/v2/'') = ''https://f.example/v2''
     \<and> client_base_url (client_new ''https://f.example/v2///'') = ''https://f.example/v2''
     \<and> client_base_url (client_new ''http://x'') = ''http://x''"

subsection \<open>The request\<close>

definition verify_posts_json_to_slash_verify :: "externals \<Rightarrow> bool" where
  "verify_posts_json_to_slash_verify x \<longleftrightarrow>
     (let c = client_new start_url;
          check = (\<lambda>req. fr_url req = start_url @ ''/verify''
            \<and> json_at (fr_body req) [''x402Version''] = Some (JNum (PosInt 2))
            \<and> json_at (fr_body req) [''paymentPayload'', ''payload'', ''signature''] = Some (JStr ''0xsig'')
            \<and> json_at (fr_body req) [''paymentPayload'', ''accepted'', ''payTo''] = Some (JStr ''0xpayto'')
            \<and> json_at (fr_body req) [''paymentRequirements'', ''amount''] = Some (JStr ''1000'')
            \<and> (case fr_body req of JObj fs \<Rightarrow> length fs = 3 | _ \<Rightarrow> False));
          r = verify x c test_payload test_requirements (inspecting check (reached x (fake_new x) c))
      in is_ok (fst r) \<and> seen_count r = 1)"

definition settle_posts_json_to_slash_settle :: "externals \<Rightarrow> bool" where
  "settle_posts_json_to_slash_settle x \<longleftrightarrow>
     (let c = client_new start_url;
          check = (\<lambda>req. fr_url req = start_url @ ''/settle''
            \<and> json_at (fr_body req) [''paymentRequirements'', ''network''] = Some (JStr ''eip155:2368''))
      in is_ok (fst (settle x c test_payload test_requirements (inspecting check (reached x (fake_new x) c)))))"

definition the_version_prefix_in_the_base_url_is_kept_and_trailing_slash_is_not_doubled :: "externals \<Rightarrow> bool" where
  "the_version_prefix_in_the_base_url_is_kept_and_trailing_slash_is_not_doubled x \<longleftrightarrow>
     (let c = client_new (start_url @ ''/v2/'');
          at = (\<lambda>path. inspecting (\<lambda>req. fr_url req = start_url @ path) (reached x (fake_new x) c))
      in is_ok (fst (verify x c test_payload test_requirements (at ''/v2/verify'')))
         \<and> is_ok (fst (settle x c test_payload test_requirements (at ''/v2/settle''))))"

definition x402_version_on_the_wire_comes_from_the_payload :: "externals \<Rightarrow> bool" where
  "x402_version_on_the_wire_comes_from_the_payload x \<longleftrightarrow>
     (let c = client_new start_url; p = test_payload\<lparr>pp_x402_version := 1\<rparr>;
          check = (\<lambda>req. json_at (fr_body req) [''x402Version''] = Some (JNum (PosInt 1)))
      in is_ok (fst (verify x c p test_requirements (inspecting check (reached x (fake_new x) c)))))"

definition optional_fields_that_are_none_are_not_sent :: "externals \<Rightarrow> bool" where
  "optional_fields_that_are_none_are_not_sent x \<longleftrightarrow>
     (let c = client_new start_url;
          check = (\<lambda>req. json_at (fr_body req) [''paymentRequirements'', ''extra''] = None
            \<and> json_at (fr_body req) [''paymentPayload'', ''resource''] = None
            \<and> json_at (fr_body req) [''paymentPayload'', ''extensions''] = None)
      in is_ok (fst (verify x c test_payload test_requirements (inspecting check (reached x (fake_new x) c)))))"

subsection \<open>The answer\<close>

definition verify_answered :: "externals \<Rightarrow> nat \<Rightarrow> str \<Rightarrow> facilitator_error + verify_response" where
  "verify_answered x status body =
     (let c = client_new start_url
      in fst (verify x c test_payload test_requirements (reached x (set_verify status body (fake_new x)) c)))"

definition settle_answered :: "externals \<Rightarrow> nat \<Rightarrow> str \<Rightarrow> facilitator_error + settle_response" where
  "settle_answered x status body =
     (let c = client_new start_url
      in fst (settle x c test_payload test_requirements (reached x (set_settle status body (fake_new x)) c)))"

definition verify_parses_a_valid_answer :: "externals \<Rightarrow> bool" where
  "verify_parses_a_valid_answer x \<longleftrightarrow>
     (case verify_answered x 200 ''{\"isValid\":true,\"payer\":\"0xabc\"}'' of
        Inr v \<Rightarrow> vr_is_valid v \<and> vr_payer v = Some ''0xabc'' | Inl _ \<Rightarrow> False)"

definition an_invalid_payment_is_an_ok_value_not_an_error :: "externals \<Rightarrow> bool" where
  "an_invalid_payment_is_an_ok_value_not_an_error x \<longleftrightarrow>
     (case verify_answered x 200 ''{\"isValid\":false,\"invalidReason\":\"expired\",\"invalidMessage\":\"too late\"}'' of
        Inr v \<Rightarrow> \<not> vr_is_valid v \<and> vr_invalid_reason v = Some ''expired'' \<and> vr_invalid_message v = Some ''too late''
      | Inl _ \<Rightarrow> False)"

definition a_failed_settlement_is_an_ok_value_not_an_error :: "externals \<Rightarrow> bool" where
  "a_failed_settlement_is_an_ok_value_not_an_error x \<longleftrightarrow>
     (case settle_answered x 200 ''{\"success\":false,\"errorReason\":\"reverted\",\"errorMessage\":\"boom\",\"transaction\":\"\",\"network\":\"eip155:2368\"}'' of
        Inr s \<Rightarrow> \<not> sr_success s \<and> sr_error_reason s = Some ''reverted'' \<and> sr_error_message s = Some ''boom''
      | Inl _ \<Rightarrow> False)"

definition settle_parses_a_success_receipt :: "externals \<Rightarrow> bool" where
  "settle_parses_a_success_receipt x \<longleftrightarrow>
     (case settle_answered x 200 ''{\"success\":true,\"transaction\":\"0xhash\",\"network\":\"eip155:2368\",\"payer\":\"0xp\",\"amount\":\"1000\"}'' of
        Inr s \<Rightarrow> sr_success s \<and> (sr_transaction s, sr_amount s) = (''0xhash'', Some ''1000'')
      | Inl _ \<Rightarrow> False)"

definition non_success_status_becomes_bad_response_with_op_status_and_body :: "externals \<Rightarrow> bool" where
  "non_success_status_becomes_bad_response_with_op_status_and_body x \<longleftrightarrow>
     (\<forall>status \<in> set [400, 401, 404, 429, 500, 502, 503].
        verify_answered x status ''upstream said no'' = Inl (BadResponse ''verify'' status ''upstream said no'')
        \<and> settle_answered x status ''settle said no'' = Inl (BadResponse ''settle'' status ''settle said no''))"

definition unparseable_success_body_becomes_bad_response :: "externals \<Rightarrow> bool" where
  "unparseable_success_body_becomes_bad_response x \<longleftrightarrow>
     (\<forall>body \<in> set ['''', ''<html>hi</html>'', ''null'', ''[]'', ''{\"isValid\":\"yes\"}'', ''{\"other\":1}''].
        case verify_answered x 200 body of
          Inl (BadResponse op status text) \<Rightarrow>
            op = ''verify'' \<and> status = 200 \<and> starts_with text ''could not parse facilitator verify response''
        | _ \<Rightarrow> False)"

definition settle_body_missing_required_fields_becomes_bad_response :: "externals \<Rightarrow> bool" where
  "settle_body_missing_required_fields_becomes_bad_response x \<longleftrightarrow>
     (case settle_answered x 200 ''{\"success\":true}'' of
        Inl (BadResponse op status _) \<Rightarrow> op = ''settle'' \<and> status = 200 | _ \<Rightarrow> False)"

definition connection_refused_becomes_a_request_error :: "externals \<Rightarrow> bool" where
  "connection_refused_becomes_a_request_error x \<longleftrightarrow>
     (case fst (verify x (client_new start_url) test_payload test_requirements nobody) of
        Inl (RequestFailed e) \<Rightarrow> re_is_connect e | _ \<Rightarrow> False)"

definition slow_facilitator_becomes_a_timeout_request_error :: "externals \<Rightarrow> bool" where
  "slow_facilitator_becomes_a_timeout_request_error x \<longleftrightarrow>
     (let fake = (fake_new x)\<lparr>fk_delay := Some (from_millis 600)\<rparr>; c = client_with_timeout start_url (from_millis 80)
      in case fst (settle x c test_payload test_requirements (reached x fake c)) of
           Inl (RequestFailed e) \<Rightarrow> re_is_timeout e | _ \<Rightarrow> False)"

definition a_facilitator_that_is_fast_enough_is_not_timed_out :: "externals \<Rightarrow> bool" where
  "a_facilitator_that_is_fast_enough_is_not_timed_out x \<longleftrightarrow>
     (let fake = (fake_new x)\<lparr>fk_delay := Some (from_millis 50)\<rparr>; c = client_with_timeout start_url (from_secs 5)
      in is_ok (fst (verify x c test_payload test_requirements (reached x fake c))))"

definition error_messages_name_the_operation_status_and_body :: bool where
  "error_messages_name_the_operation_status_and_body \<longleftrightarrow>
     facilitator_error_message (BadResponse ''verify'' 503 ''down'') = ''facilitator verify returned 503: down''"

definition request_errors_display_with_a_prefix :: "externals \<Rightarrow> bool" where
  "request_errors_display_with_a_prefix x \<longleftrightarrow>
     (case fst (verify x (client_new start_url) test_payload test_requirements nobody) of
        Inl err \<Rightarrow> starts_with (facilitator_error_message err) ''facilitator request failed:'' | Inr _ \<Rightarrow> False)"

subsection \<open>The probe\<close>

definition probe_returns_ok_when_facilitator_is_reachable :: "externals \<Rightarrow> bool" where
  "probe_returns_ok_when_facilitator_is_reachable x \<longleftrightarrow>
     (let c = client_new start_url
      in is_ok (probe x c (\<lambda>url. reached x (fake_new x) c 0 \<lparr>fr_url = url, fr_body = JNull\<rparr>)))"

definition probe_fails_when_facilitator_is_unreachable :: "externals \<Rightarrow> bool" where
  "probe_fails_when_facilitator_is_unreachable x \<longleftrightarrow> \<not> is_ok (probe x (client_new start_url) (\<lambda>url. SendFailed refused))"

definition readiness_requires_successful_supported_json_and_matching_capability :: "externals \<Rightarrow> bool" where
  "readiness_requires_successful_supported_json_and_matching_capability x \<longleftrightarrow>
     (\<forall>(status, body, expected) \<in> set
        [(404, ''{}'', False), (401, ''{}'', False), (200, ''<html>ok</html>'', False), (200, ''{}'', False),
         (200, ''{\"kinds\":[]}'', False),
         (200, ''{\"kinds\":[{\"x402Version\":1,\"scheme\":\"exact\",\"network\":\"eip155:2368\"}]}'', False),
         (200, ''{\"kinds\":[{\"x402Version\":2,\"scheme\":\"upto\",\"network\":\"eip155:2368\"}]}'', False),
         (200, ''{\"kinds\":[{\"x402Version\":2,\"scheme\":\"exact\",\"network\":\"eip155:2366\"}]}'', False),
         (200, ''{\"kinds\":[{\"x402Version\":2,\"scheme\":\"exact\",\"network\":\"eip155:2368\"}]}'', True)].
        is_ok (probe_network x (client_new start_url) ''eip155:2368'' (\<lambda>url. Replied status (Some body))) = expected)"

subsection \<open>Retries\<close>

definition retry_config_calculates_exponential_backoff_and_caps_at_maximum :: bool where
  "retry_config_calculates_exponential_backoff_and_caps_at_maximum \<longleftrightarrow>
     (let config = retry_config_new 3 (from_millis 50) (from_millis 300)
      in calculate_backoff config 0 = from_millis 50 \<and> calculate_backoff config 1 = from_millis 100
         \<and> calculate_backoff config 2 = from_millis 200 \<and> calculate_backoff config 3 = from_millis 300
         \<and> calculate_backoff config 4 = from_millis 300)"

definition settle_does_not_repeat_an_indeterminate_503 :: "externals \<Rightarrow> bool" where
  "settle_does_not_repeat_an_indeterminate_503 x \<longleftrightarrow>
     (let fake = set_settle_sequence [(503, ''Service Unavailable''),
            (200, json_print x (JObj [(''network'', JStr ''eip155:2368''), (''success'', JBool True), (''transaction'', JStr ''0xretry_tx'')]))]
            (fake_new x);
          c = with_retry_config (client_new start_url) (retry_config_new 2 (from_millis 10) (from_millis 50));
          r = settle x c test_payload test_requirements (reached x fake c)
      in \<not> is_ok (fst r) \<and> seen_count r = 1)"

definition settle_does_not_retry_non_transient_400 :: "externals \<Rightarrow> bool" where
  "settle_does_not_retry_non_transient_400 x \<longleftrightarrow>
     (let fake = set_settle 400 ''Bad Request'' (fake_new x);
          c = with_retry_config (client_new start_url) (retry_config_new 3 (from_millis 10) (from_millis 50));
          r = settle x c test_payload test_requirements (reached x fake c)
      in (case fst r of Inl (BadResponse _ status _) \<Rightarrow> status = 400 | _ \<Rightarrow> False) \<and> seen_count r = 1)"

definition verification_retries_are_bounded_and_explicit :: "externals \<Rightarrow> bool" where
  "verification_retries_are_bounded_and_explicit x \<longleftrightarrow>
     (let fake = set_verify 503 ''Facilitator Unavailable'' (fake_new x);
          c = with_retry_config (client_new start_url) (retry_config_new 3 (from_millis 10) (from_millis 50));
          r = verify x c test_payload test_requirements (reached x fake c)
      in (case fst r of Inl (BadResponse _ status _) \<Rightarrow> status = 503 | _ \<Rightarrow> False) \<and> seen_count r = 4)"

definition settlement_timeout_is_not_retried_even_with_a_retry_policy :: "externals \<Rightarrow> bool" where
  "settlement_timeout_is_not_retried_even_with_a_retry_policy x \<longleftrightarrow>
     (let fake = (fake_new x)\<lparr>fk_delay := Some (from_millis 100)\<rparr>;
          c = with_retry_config (client_with_timeout start_url (from_millis 20))
                (retry_config_new 3 (from_millis 1) (from_millis 2));
          r = settle x c test_payload test_requirements (reached x fake c)
      in \<not> is_ok (fst r) \<and> seen_count r = 1)"

subsection \<open>Evaluation\<close>

lemmas client_eval = client_new_def client_with_timeout_def with_retry_config_def retry_config_new_def
  default_retry_config_def client_base_url_def start_url_def trim_end_matches_def DEFAULT_TIMEOUT_def

lemmas fake_eval = reached_def handler_answer_def fake_new_def set_verify_def set_settle_def set_settle_sequence_def
  ends_with_def starts_with_def inspecting_def nobody_def refused_def timed_out_def is_ok_def seen_count_def from_millis_def from_secs_def nanos_per_milli_def nanos_per_sec_def

lemmas call_eval = verify_def settle_def call_def retry_loop_zero send_single_def is_success_def Let_def

lemmas message_eval = test_payload_def test_requirements_def ser_facilitator_request_def ser_payload_def ser_requirements_def
  ser_u32_def

lemma construction_tests:
  "default_timeout_is_thirty_seconds" "base_url_has_trailing_slashes_trimmed_but_keeps_the_version_prefix"
  "error_messages_name_the_operation_status_and_body"
  by (simp_all add: default_timeout_is_thirty_seconds_def
      base_url_has_trailing_slashes_trimmed_but_keeps_the_version_prefix_def
      error_messages_name_the_operation_status_and_body_def text_eval client_eval show_nat.simps)

lemma backoff_test: "retry_config_calculates_exponential_backoff_and_caps_at_maximum"
  by (simp add: retry_config_calculates_exponential_backoff_and_caps_at_maximum_def calculate_backoff_def retry_config_new_def
      duration_sat_mul_def sat_pow_def from_millis_def nanos_per_milli_def duration_max_def Let_def)

lemma request_tests:
  assumes "json_parse x (json_print x valid_answer) = Some valid_answer"
    and "json_parse x (json_print x settled_answer) = Some settled_answer"
  shows "verify_posts_json_to_slash_verify x" "settle_posts_json_to_slash_settle x"
    "the_version_prefix_in_the_base_url_is_kept_and_trailing_slash_is_not_doubled x"
    "x402_version_on_the_wire_comes_from_the_payload x" "optional_fields_that_are_none_are_not_sent x"
  using assms
  by (simp_all add: verify_posts_json_to_slash_verify_def settle_posts_json_to_slash_settle_def
      the_version_prefix_in_the_base_url_is_kept_and_trailing_slash_is_not_doubled_def
      x402_version_on_the_wire_comes_from_the_payload_def optional_fields_that_are_none_are_not_sent_def
      client_eval fake_eval call_eval message_eval valid_answer_def settled_answer_def
      de_verify_response_def de_settle_response_def serde_defs)

lemma answer_tests:
  assumes "json_parse x ''{\"isValid\":true,\"payer\":\"0xabc\"}'' = Some (JObj [(''isValid'', JBool True), (''payer'', JStr ''0xabc'')])"
    and "json_parse x ''{\"isValid\":false,\"invalidReason\":\"expired\",\"invalidMessage\":\"too late\"}''
      = Some (JObj [(''invalidMessage'', JStr ''too late''), (''invalidReason'', JStr ''expired''), (''isValid'', JBool False)])"
  shows "verify_parses_a_valid_answer x" "an_invalid_payment_is_an_ok_value_not_an_error x"
  using assms
  by (simp_all add: verify_parses_a_valid_answer_def an_invalid_payment_is_an_ok_value_not_an_error_def verify_answered_def
      client_eval fake_eval call_eval de_verify_response_def serde_defs)

lemma receipt_tests:
  assumes "json_parse x ''{\"success\":false,\"errorReason\":\"reverted\",\"errorMessage\":\"boom\",\"transaction\":\"\",\"network\":\"eip155:2368\"}''
      = Some (JObj [(''errorMessage'', JStr ''boom''), (''errorReason'', JStr ''reverted''), (''network'', JStr ''eip155:2368''),
          (''success'', JBool False), (''transaction'', JStr '''')])"
    and "json_parse x ''{\"success\":true,\"transaction\":\"0xhash\",\"network\":\"eip155:2368\",\"payer\":\"0xp\",\"amount\":\"1000\"}''
      = Some (JObj [(''amount'', JStr ''1000''), (''network'', JStr ''eip155:2368''), (''payer'', JStr ''0xp''),
          (''success'', JBool True), (''transaction'', JStr ''0xhash'')])"
    and "json_parse x ''{\"success\":true}'' = Some (JObj [(''success'', JBool True)])"
  shows "a_failed_settlement_is_an_ok_value_not_an_error x" "settle_parses_a_success_receipt x"
    "settle_body_missing_required_fields_becomes_bad_response x"
  using assms
  by (simp_all add: a_failed_settlement_is_an_ok_value_not_an_error_def settle_parses_a_success_receipt_def
      settle_body_missing_required_fields_becomes_bad_response_def settle_answered_def
      client_eval fake_eval call_eval de_settle_response_def serde_defs)

lemma status_tests:
  "non_success_status_becomes_bad_response_with_op_status_and_body x" "connection_refused_becomes_a_request_error x"
  "slow_facilitator_becomes_a_timeout_request_error x" "request_errors_display_with_a_prefix x"
  by (simp_all add: non_success_status_becomes_bad_response_with_op_status_and_body_def
      connection_refused_becomes_a_request_error_def slow_facilitator_becomes_a_timeout_request_error_def
      request_errors_display_with_a_prefix_def verify_answered_def settle_answered_def client_eval fake_eval call_eval)

lemma unparseable_test:
  assumes "json_parse x '''' = None" "json_parse x ''<html>hi</html>'' = None" "json_parse x ''null'' = Some JNull"
    and "json_parse x ''[]'' = Some (JArr [])"
    and "json_parse x ''{\"isValid\":\"yes\"}'' = Some (JObj [(''isValid'', JStr ''yes'')])"
    and "json_parse x ''{\"other\":1}'' = Some (JObj [(''other'', JNum (PosInt 1))])"
  shows "unparseable_success_body_becomes_bad_response x"
  using assms
  by (simp add: unparseable_success_body_becomes_bad_response_def verify_answered_def
      client_eval fake_eval call_eval de_verify_response_def serde_defs)

lemma speed_test:
  assumes "json_parse x (json_print x valid_answer) = Some valid_answer"
  shows "a_facilitator_that_is_fast_enough_is_not_timed_out x"
  using assms
  by (simp add: a_facilitator_that_is_fast_enough_is_not_timed_out_def client_eval fake_eval call_eval valid_answer_def
      de_verify_response_def serde_defs)

lemma retry_tests:
  "settle_does_not_repeat_an_indeterminate_503 x" "settle_does_not_retry_non_transient_400 x"
  "settlement_timeout_is_not_retried_even_with_a_retry_policy x"
  by (simp_all add: settle_does_not_repeat_an_indeterminate_503_def settle_does_not_retry_non_transient_400_def
      settlement_timeout_is_not_retried_even_with_a_retry_policy_def client_eval fake_eval call_eval)

lemma retry_loop_failing:
  "is_transient e \<Longrightarrow> n \<le> m \<Longrightarrow>
     fst (retry_loop cfg m (\<lambda>_. Inl e) n) = Inl e \<and> length (snd (retry_loop cfg m (\<lambda>_. Inl e) n)) = m - n"
proof (induction "m - n" arbitrary: n)
  case 0
  then show ?case by (simp add: retry_loop.simps [of cfg _ _ n])
next
  case (Suc k)
  then show ?case
    using Suc.hyps(1) [of "Suc n"] by (simp add: retry_loop.simps [of cfg m _ n] split_beta Let_def Suc_diff_Suc)
qed

lemma verification_test: "verification_retries_are_bounded_and_explicit x"
  by (simp add: verification_retries_are_bounded_and_explicit_def client_eval fake_eval call_eval)
    (simp add: retry_loop_failing)

lemma probe_tests:
  assumes "json_parse x (json_print x supported_answer) = Some supported_answer"
  shows "probe_returns_ok_when_facilitator_is_reachable x" "probe_fails_when_facilitator_is_unreachable x"
  using assms
  by (simp_all add: probe_returns_ok_when_facilitator_is_reachable_def probe_fails_when_facilitator_is_unreachable_def
      probe_def probe_capability_def client_eval fake_eval is_success_def supported_answer_def Let_def
      de_supported_def de_kind_def offers_def serde_defs)

text \<open>The announcement of one capability.\<close>

definition kind_document :: "u64 \<Rightarrow> str \<Rightarrow> str \<Rightarrow> json" where
  "kind_document version scheme network = JObj [(''kinds'', JArr [JObj [(''network'', JStr network), (''scheme'', JStr scheme),
     (''x402Version'', JNum (PosInt version))]])]"

lemma readiness_test:
  assumes "json_parse x ''{}'' = Some (JObj [])" "json_parse x ''<html>ok</html>'' = None"
    and "json_parse x ''{\"kinds\":[]}'' = Some (JObj [(''kinds'', JArr [])])"
    and "json_parse x ''{\"kinds\":[{\"x402Version\":1,\"scheme\":\"exact\",\"network\":\"eip155:2368\"}]}''
      = Some (kind_document 1 ''exact'' ''eip155:2368'')"
    and "json_parse x ''{\"kinds\":[{\"x402Version\":2,\"scheme\":\"upto\",\"network\":\"eip155:2368\"}]}''
      = Some (kind_document 2 ''upto'' ''eip155:2368'')"
    and "json_parse x ''{\"kinds\":[{\"x402Version\":2,\"scheme\":\"exact\",\"network\":\"eip155:2366\"}]}''
      = Some (kind_document 2 ''exact'' ''eip155:2366'')"
    and "json_parse x ''{\"kinds\":[{\"x402Version\":2,\"scheme\":\"exact\",\"network\":\"eip155:2368\"}]}''
      = Some (kind_document 2 ''exact'' ''eip155:2368'')"
  shows "readiness_requires_successful_supported_json_and_matching_capability x"
  using assms
  by (simp add: readiness_requires_successful_supported_json_and_matching_capability_def probe_network_def
      probe_capability_def client_eval is_ok_def is_success_def kind_document_def Let_def
      de_supported_def de_kind_def offers_def serde_defs)

end
