(* ===== verification/GateTests.thy ===== *)
theory GateTests
  imports KiteTests FacilitatorTests
begin

text \<open>
  The unit tests of \<open>middleware.rs\<close>, one definition per test function, evaluated on the model: a gate
  before a stub handler, with a facilitator nobody listens for. How often the stub is reached is read off the effects of
  the run. Header values are read with the decoders of the packages, which are parameters: the lemmas
  assume that they invert the encoders. The test of \<open>Clone\<close> and Debug is left out.
\<close>

definition PAY_TO :: str where
  "PAY_TO = ''0xC0FFEE0000000000000000000000000000C0FFEE''"

definition dead_facilitator :: facilitator_client where
  "dead_facilitator = client_new ''http://127.0.0.1:1''"

definition test_config :: "kite_chain \<Rightarrow> str \<Rightarrow> payment_config" where
  "test_config chain price = \<lparr>pc_pay_to = PAY_TO, pc_chain = chain, pc_price_usd = price,
     pc_description = ''Unit test service'', pc_facilitator = dead_facilitator, pc_expiration_guard = None,
     pc_metrics = None, pc_nonce_guard = None\<rparr>"

definition dead_environment :: "externals \<Rightarrow> environment" where
  "dead_environment x = \<lparr>env_x = x, env_unix_clock = Some 1700000000, env_reserve_at = 0, env_settle_elapsed = 0,
     env_finish_at = 0, env_verify = nobody,
     env_handler = (\<lambda>_. \<lparr>resp_status = 200, resp_headers = [], resp_body = BytesBody ''inner''\<rparr>), env_settle = nobody\<rparr>"

definition gate :: "externals \<Rightarrow> payment_config \<Rightarrow> gate_request \<Rightarrow> payment_config \<times> gate_result \<times> effect list" where
  "gate x c q = x402_payment (dead_environment x) None c q"

definition times_reached :: "effect list \<Rightarrow> nat" where
  "times_reached effects = length (filter (\<lambda>e. case e of RunHandler _ \<Rightarrow> True | _ \<Rightarrow> False) effects)"

definition test_request :: "str \<Rightarrow> headers \<Rightarrow> gate_request" where
  "test_request uri hs = \<lparr>gr_request = \<lparr>req_method = ''GET'', req_uri = uri, req_path_query = Some uri,
     req_headers = map (\<lambda>(k, v). (ascii_lower k, v)) hs, req_body = ''''\<rparr>, gr_original_uri = None\<rparr>"

definition decode_header :: "externals \<Rightarrow> response \<Rightarrow> str \<Rightarrow> json option" where
  "decode_header x resp name =
     Option.bind (Option.bind (Option.bind (get_header name resp) (to_str_ok x)) (b64_decode x)) (json_parse x)"

definition header_field :: "externals \<Rightarrow> response \<Rightarrow> str \<Rightarrow> str list \<Rightarrow> json option" where
  "header_field x resp name path = Option.bind (decode_header x resp name) (\<lambda>v. json_at v path)"

definition payload_for :: "payment_requirements \<Rightarrow> json \<Rightarrow> payment_payload" where
  "payload_for r v = \<lparr>pp_x402_version = 2, pp_resource = None, pp_accepted = r, pp_payload = v, pp_extensions = None\<rparr>"

definition encode_payload :: "externals \<Rightarrow> payment_payload \<Rightarrow> str" where
  "encode_payload x p = b64_encode x (json_print x (ser_payload p))"

definition payload_header :: "externals \<Rightarrow> payment_requirements \<Rightarrow> str" where
  "payload_header x r = encode_payload x (payload_for r (JObj []))"

text \<open>What a test asks of the response and of the number of times the handler ran.\<close>

definition responds :: "payment_config \<times> gate_result \<times> effect list \<Rightarrow> (response \<Rightarrow> nat \<Rightarrow> bool) \<Rightarrow> bool" where
  "responds run check \<longleftrightarrow> (case run of (_, Responded resp, effects) \<Rightarrow> check resp (times_reached effects) | _ \<Rightarrow> False)"

definition required :: "externals \<Rightarrow> payment_config \<Rightarrow> (payment_requirements \<Rightarrow> bool) \<Rightarrow> bool" where
  "required x c check \<longleftrightarrow> (case requirements x c of Some (Inr r) \<Rightarrow> check r | _ \<Rightarrow> False)"

subsection \<open>Requirements\<close>

definition requirements_for_testnet :: "externals \<Rightarrow> bool" where
  "requirements_for_testnet x \<longleftrightarrow>
     required x (test_config KITE_TESTNET ''0.001'') (\<lambda>r.
        pr_scheme r = ''exact'' \<and> pr_network r = ''eip155:2368'' \<and> pr_amount r = ''1000000000000000''
        \<and> pr_asset r = kc_asset_address KITE_TESTNET \<and> pr_pay_to r = PAY_TO \<and> pr_max_timeout_seconds r = 60
        \<and> pr_extra r = Some (JObj [(''name'', JStr ''pieUSD''), (''version'', JStr ''1'')]))"

definition requirements_for_mainnet :: "externals \<Rightarrow> bool" where
  "requirements_for_mainnet x \<longleftrightarrow>
     required x (test_config KITE_MAINNET ''$1.50'') (\<lambda>r.
        pr_network r = ''eip155:2366'' \<and> pr_amount r = ''1500000'' \<and> pr_asset r = kc_asset_address KITE_MAINNET
        \<and> Option.bind (pr_extra r) (jget ''name'') = Some (JStr ''Bridged USDC (Kite AI)''))"

definition requirements_are_deterministic :: "externals \<Rightarrow> bool" where
  "requirements_are_deterministic x \<longleftrightarrow>
     (let c = test_config KITE_TESTNET ''0.25'' in required x c (\<lambda>r. required x c (\<lambda>s. r = s)))"

definition requirements_report_bad_prices_with_context :: "externals \<Rightarrow> bool" where
  "requirements_report_bad_prices_with_context x \<longleftrightarrow>
     (\<forall>bad \<in> set ['''', ''abc'', ''-1'', ''0'', ''0.0000001'', ''1e3''].
        case requirements x (test_config KITE_MAINNET bad) of
          Some (Inl err) \<Rightarrow> starts_with err ''invalid PRICE_USD configured on the server: '' | _ \<Rightarrow> False)"

subsection \<open>Response builders\<close>

definition payment_required_response_has_status_headers_and_empty_body :: "externals \<Rightarrow> bool" where
  "payment_required_response_has_status_headers_and_empty_body x \<longleftrightarrow>
     required x (test_config KITE_TESTNET ''0.001'') (\<lambda>r.
       let resp = payment_required_response x r ''/v1/x'' ''desc'' None; field = header_field x resp ''PAYMENT-REQUIRED''
       in resp_status resp = 402 \<and> get_header ''cache-control'' resp = Some ''no-store''
          \<and> get_header ''content-type'' resp = Some ''application/json'' \<and> get_header ''PAYMENT-RESPONSE'' resp = None
          \<and> field [''x402Version''] = Some (JNum (PosInt 2)) \<and> field [''error''] = None
          \<and> field [''resource'', ''url''] = Some (JStr ''/v1/x'')
          \<and> field [''resource'', ''description''] = Some (JStr ''desc'')
          \<and> field [''resource'', ''mimeType''] = Some (JStr ''application/json'')
          \<and> (case field [''accepts''] of
               Some (JArr (t # _)) \<Rightarrow> jget ''payTo'' t = Some (JStr PAY_TO) | _ \<Rightarrow> False)
          \<and> resp_body resp = JsonBody (JObj []))"

definition payment_required_response_includes_the_error_when_given :: "externals \<Rightarrow> bool" where
  "payment_required_response_includes_the_error_when_given x \<longleftrightarrow>
     required x (test_config KITE_TESTNET ''0.001'') (\<lambda>r.
       header_field x (payment_required_response x r ''/v1/x'' ''d'' (Some ''because'')) ''PAYMENT-REQUIRED'' [''error'']
         = Some (JStr ''because''))"

definition payment_required_response_survives_unusual_text :: "externals \<Rightarrow> bool" where
  "payment_required_response_survives_unusual_text x \<longleftrightarrow>
     required x (test_config KITE_TESTNET ''0.001'') (\<lambda>r.
       let err = ''err'' @ [CHR 0x0D, CHR 0x0A] @ ''Injected: header'';
           resp = payment_required_response x r
             (''/v1/'' @ [CHR 0xC3, CHR 0xBC] @ ''n'' @ [CHR 0xC3, CHR 0xAF] @ ''?q='' @ [CHR 0x0A, CHR 0x09] @ ''\"x\"'')
             (''line1'' @ [CHR 0x0A] @ ''line2 '' @ [CHR 0xE2, CHR 0x80, CHR 0x94] @ '' ''
                @ [CHR 0xF0, CHR 0x9F, CHR 0x92, CHR 0xB8]) (Some err)
       in resp_status resp = 402 \<and> get_header ''Injected'' resp = None
          \<and> header_field x resp ''PAYMENT-REQUIRED'' [''error''] = Some (JStr err))"

definition settlement_failure_response_shape :: "externals \<Rightarrow> bool" where
  "settlement_failure_response_shape x \<longleftrightarrow>
     (let resp = settlement_failure_response x \<lparr>sr_success = False, sr_error_reason = Some ''reverted'',
            sr_error_message = None, sr_payer = Some ''0xp'', sr_transaction = '''', sr_network = ''eip155:2368'', sr_amount = None\<rparr>;
          field = header_field x resp ''PAYMENT-RESPONSE''
      in resp_status resp = 402 \<and> get_header ''cache-control'' resp = Some ''no-store''
         \<and> get_header ''PAYMENT-REQUIRED'' resp = None
         \<and> field [''success''] = Some (JBool False) \<and> field [''errorReason''] = Some (JStr ''reverted'')
         \<and> field [''payer''] = Some (JStr ''0xp'') \<and> resp_body resp = JsonBody (JObj []))"

subsection \<open>Branches before the verification\<close>

definition missing_header_returns_a_plain_challenge_without_reaching_the_inner_service :: "externals \<Rightarrow> bool" where
  "missing_header_returns_a_plain_challenge_without_reaching_the_inner_service x \<longleftrightarrow>
     responds (gate x (test_config KITE_TESTNET ''0.001'') (test_request ''/anything'' [])) (\<lambda>resp n.
       resp_status resp = 402 \<and> decode_header x resp ''PAYMENT-REQUIRED'' \<noteq> None
       \<and> header_field x resp ''PAYMENT-REQUIRED'' [''error''] = None \<and> n = 0)"

definition resource_url_falls_back_to_the_request_uri_without_original_uri :: "externals \<Rightarrow> bool" where
  "resource_url_falls_back_to_the_request_uri_without_original_uri x \<longleftrightarrow>
     responds (gate x (test_config KITE_TESTNET ''0.001'') (test_request ''/some/path?x=1'' [])) (\<lambda>resp n.
       header_field x resp ''PAYMENT-REQUIRED'' [''resource'', ''url''] = Some (JStr ''/some/path?x=1''))"

definition resource_url_prefers_the_original_uri_extension :: "externals \<Rightarrow> bool" where
  "resource_url_prefers_the_original_uri_extension x \<longleftrightarrow>
     responds (gate x (test_config KITE_TESTNET ''0.001'')
         ((test_request ''/stripped'' [])\<lparr>gr_original_uri := Some ''/v1/stripped?a=b''\<rparr>)) (\<lambda>resp n.
       header_field x resp ''PAYMENT-REQUIRED'' [''resource'', ''url''] = Some (JStr ''/v1/stripped?a=b''))"

definition undecodable_header_is_rejected_as_an_invalid_signature :: "externals \<Rightarrow> bool" where
  "undecodable_header_is_rejected_as_an_invalid_signature x \<longleftrightarrow>
     (\<forall>name \<in> set [''PAYMENT-SIGNATURE'', ''X-PAYMENT''].
        responds (gate x (test_config KITE_TESTNET ''0.001'') (test_request ''/x'' [(name, ''%%%not-base64%%%'')])) (\<lambda>resp n.
          resp_status resp = 402
          \<and> header_field x resp ''PAYMENT-REQUIRED'' [''error''] = Some (JStr ''Invalid payment signature'') \<and> n = 0))"

definition requirement_mismatch_is_rejected_before_the_facilitator_is_contacted :: "externals \<Rightarrow> bool" where
  "requirement_mismatch_is_rejected_before_the_facilitator_is_contacted x \<longleftrightarrow>
     (let cfg = test_config KITE_TESTNET ''0.001''
      in required x cfg (\<lambda>r.
           responds (gate x cfg (test_request ''/x'' [(''PAYMENT-SIGNATURE'', payload_header x (r\<lparr>pr_amount := ''1''\<rparr>))]))
             (\<lambda>resp n. header_field x resp ''PAYMENT-REQUIRED'' [''error''] = Some (JStr ''No matching payment requirements'')
                \<and> n = 0)))"

definition matching_payment_with_dead_facilitator_is_402_unavailable_and_never_runs_the_handler :: "externals \<Rightarrow> bool" where
  "matching_payment_with_dead_facilitator_is_402_unavailable_and_never_runs_the_handler x \<longleftrightarrow>
     (let cfg = test_config KITE_TESTNET ''0.001''
      in required x cfg (\<lambda>r.
           responds (gate x cfg (test_request ''/x'' [(''PAYMENT-SIGNATURE'', payload_header x r)])) (\<lambda>resp n.
             resp_status resp = 402
             \<and> (case header_field x resp ''PAYMENT-REQUIRED'' [''error''] of
                  Some (JStr err) \<Rightarrow> starts_with err ''facilitator verify unavailable: '' | _ \<Rightarrow> False)
             \<and> n = 0)))"

definition invalid_server_price_is_a_500_json_error_even_when_a_payment_is_attached :: "externals \<Rightarrow> bool" where
  "invalid_server_price_is_a_500_json_error_even_when_a_payment_is_attached x \<longleftrightarrow>
     responds (gate x (test_config KITE_TESTNET ''not-a-price'')
         (test_request ''/x'' [(''PAYMENT-SIGNATURE'', ''whatever'')])) (\<lambda>resp n.
       resp_status resp = 500 \<and> get_header ''PAYMENT-REQUIRED'' resp = None
       \<and> (case resp_body resp of
            JsonBody body \<Rightarrow> (case Option.bind (jget ''error'' body) as_str of
                Some err \<Rightarrow> text_contains err ''invalid PRICE_USD'' | None \<Rightarrow> False)
          | _ \<Rightarrow> False)
       \<and> n = 0)"

definition header_names_are_case_insensitive :: "externals \<Rightarrow> bool" where
  "header_names_are_case_insensitive x \<longleftrightarrow>
     (let cfg = test_config KITE_TESTNET ''0.001''
      in required x cfg (\<lambda>r.
           responds (gate x cfg
               (test_request ''/x'' [(''payment-signature'', payload_header x (r\<lparr>pr_pay_to := ''0xsomeoneelse''\<rparr>))]))
             (\<lambda>resp n. header_field x resp ''PAYMENT-REQUIRED'' [''error''] = Some (JStr ''No matching payment requirements''))))"

definition fresh_config :: payment_config where
  "fresh_config = config_new PAY_TO KITE_TESTNET ''0.001'' ''Unit test service'' dead_facilitator"

definition expired_authorization_is_rejected_before_facilitator_call :: "externals \<Rightarrow> bool" where
  "expired_authorization_is_rejected_before_facilitator_call x \<longleftrightarrow>
     (let cfg = with_expiration_guard fresh_config (expiration_guard_new 5 5)
      in required x cfg (\<lambda>r.
           let p = payload_for r (JObj [(''authorization'', JObj [(''validAfter'', JStr ''0''), (''validBefore'', JStr ''1000'')])])
           in responds (gate x cfg (test_request ''/v1/data'' [(''PAYMENT-SIGNATURE'', encode_payload x p)])) (\<lambda>resp n.
                resp_status resp = 402 \<and> n = 0
                \<and> (case header_field x resp ''PAYMENT-REQUIRED'' [''error''] of
                     Some (JStr err) \<Rightarrow> text_contains err ''expired'' | _ \<Rightarrow> False))))"

definition middleware_records_metrics_on_unauthenticated_request :: "externals \<Rightarrow> bool" where
  "middleware_records_metrics_on_unauthenticated_request x \<longleftrightarrow>
     (case gate x (with_metrics fresh_config new_metrics) (test_request ''/v1/data'' []) of
        (cfg, Responded resp, _) \<Rightarrow>
          resp_status resp = 402 \<and>
          (case map_option snapshot (pc_metrics cfg) of
             Some snap \<Rightarrow> pm_requests_total snap = 1 \<and> pm_challenges_total snap = 1
               \<and> pm_verifications_success snap = 0 \<and> pm_settlements_success snap = 0
           | None \<Rightarrow> False)
      | _ \<Rightarrow> False)"

definition failed_verification_does_not_poison_the_authorization :: "externals \<Rightarrow> bool" where
  "failed_verification_does_not_poison_the_authorization x \<longleftrightarrow>
     (let cfg = with_nonce_guard fresh_config (new_guard 100 60)
      in required x cfg (\<lambda>r.
           let p = payload_for r (JObj [(''authorization'', JObj [(''nonce'', JStr ''0xreplayed_nonce_123'')])]);
               q = test_request ''/v1/data'' [(''PAYMENT-SIGNATURE'', encode_payload x p)];
               first = gate x cfg q;
               error = (\<lambda>resp P. case header_field x resp ''PAYMENT-REQUIRED'' [''error''] of Some (JStr err) \<Rightarrow> P err | _ \<Rightarrow> False)
           in responds first (\<lambda>resp n. resp_status resp = 402 \<and> error resp (\<lambda>err. \<not> text_contains err ''already been used''))
              \<and> responds (gate x (fst first) q) (\<lambda>resp n. resp_status resp = 402 \<and> n = 0
                   \<and> error resp (\<lambda>err. text_contains err ''facilitator verify unavailable''))))"

subsection \<open>Evaluation\<close>

definition testnet_terms :: payment_requirements where
  "testnet_terms = \<lparr>pr_scheme = ''exact'', pr_network = ''eip155:2368'', pr_amount = ''1000000000000000'',
     pr_asset = kc_asset_address KITE_TESTNET, pr_pay_to = PAY_TO, pr_max_timeout_seconds = 60,
     pr_extra = Some (JObj [(''name'', JStr ''pieUSD''), (''version'', JStr ''1'')])\<rparr>"

lemma testnet_price: "parse_price KITE_TESTNET ''0.001'' = Some (Inr \<lparr>aa_asset = kc_asset_address KITE_TESTNET,
    aa_amount = ''1000000000000000'', aa_extra = JObj [(''name'', JStr ''pieUSD''), (''version'', JStr ''1'')]\<rparr>)"
  by (simp add: price_eval)

lemma testnet_requirements:
  "pc_chain c = KITE_TESTNET \<Longrightarrow> pc_price_usd c = ''0.001'' \<Longrightarrow> pc_pay_to c = PAY_TO \<Longrightarrow>
     requirements x c = Some (Inr testnet_terms)"
  by (simp add: requirements_def testnet_price testnet_terms_def) (simp add: KITE_TESTNET_def)

lemmas config_eval = test_config_def fresh_config_def config_new_def with_expiration_guard_def with_metrics_def
  with_nonce_guard_def dead_facilitator_def

lemma gate_terms_tests:
  "requirements_for_testnet x" "requirements_for_mainnet x" "requirements_are_deterministic x"
  "requirements_report_bad_prices_with_context x"
  by (simp_all add: requirements_for_testnet_def requirements_for_mainnet_def requirements_are_deterministic_def
      requirements_report_bad_prices_with_context_def required_def requirements_def config_eval price_eval)

text \<open>
  What the tests need of the packages: base64 and the printer are inverted at every document, and an encoded
  text is a legal header value that needs no trimming.
\<close>

definition codec_faithful :: "externals \<Rightarrow> bool" where
  "codec_faithful x \<longleftrightarrow> (\<forall>doc. codec_inverts x doc)
     \<and> (\<forall>s. header_value_ok x (b64_encode x s) \<and> header_text x (b64_encode x s))"

lemma faithful:
  assumes "codec_faithful x"
  shows "header_value_ok x (b64_encode x s)" "header_text x (b64_encode x s)"
    "b64_decode x (b64_encode x (json_print x doc)) = Some (json_print x doc)"
    "trim (b64_encode x (json_print x doc)) = b64_encode x (json_print x doc)"
    "json_parse x (json_print x doc) = Some doc"
  using assms by (simp_all add: codec_faithful_def codec_inverts_def Let_def)

lemma challenge_field:
  assumes "codec_faithful x"
  shows "header_field x (payment_required_response x r url d e) ''PAYMENT-REQUIRED'' path
      = json_at (ser_payment_required (challenge_body r url d e)) path"
    and "decode_header x (payment_required_response x r url d e) ''PAYMENT-REQUIRED''
      = Some (ser_payment_required (challenge_body r url d e))"
  by (simp_all add: header_field_def decode_header_def payment_required_response_def get_set_header to_str_ok_def
      header_value_or_def encode_payment_required_def faithful [OF assms])
    (simp_all add: text_eval)

lemma receipt_field:
  assumes "codec_faithful x"
  shows "header_field x (settlement_failure_response x s) ''PAYMENT-RESPONSE'' path = json_at (ser_settle_response s) path"
  by (simp add: header_field_def decode_header_def settlement_failure_response_def get_set_header to_str_ok_def
      header_value_or_def encode_settle_response_def faithful [OF assms])
    (simp add: text_eval)

lemma challenge_shape [simp]:
  "resp_status (payment_required_response x r url d e) = 402"
  "resp_body (payment_required_response x r url d e) = JsonBody (JObj [])"
  by (simp_all add: payment_required_response_def set_header_def json_response_def)

lemma builder_tests:
  assumes "codec_faithful x"
  shows "payment_required_response_includes_the_error_when_given x" "payment_required_response_survives_unusual_text x"
    "payment_required_response_has_status_headers_and_empty_body x" "settlement_failure_response_shape x"
proof -
  note eval = required_def testnet_requirements config_eval challenge_field [OF assms] receipt_field [OF assms]
    ser_payment_required_def ser_resource_info_def ser_settle_response_def challenge_body_def ser_requirements_def
    opt_entry_def ser_u32_def testnet_terms_def Let_def
  show "payment_required_response_includes_the_error_when_given x"
    by (simp add: payment_required_response_includes_the_error_when_given_def eval)
  show "payment_required_response_survives_unusual_text x"
    by (simp add: payment_required_response_survives_unusual_text_def eval)
      (simp add: payment_required_response_def get_header_def set_header_def hget_def hinsert_def json_response_def text_eval)
  show "payment_required_response_has_status_headers_and_empty_body x"
    by (simp add: payment_required_response_has_status_headers_and_empty_body_def eval)
      (simp add: payment_required_response_def get_header_def set_header_def hget_def hinsert_def json_response_def text_eval)
  show "settlement_failure_response_shape x"
    by (simp add: settlement_failure_response_shape_def eval)
      (simp add: settlement_failure_response_def get_header_def set_header_def hget_def hinsert_def json_response_def text_eval)
qed

lemma gate_header:
  "payment_header x [] = None"
  "payment_header x [(''payment-signature'', v)] = to_str_ok x v"
  "payment_header x [(''x-payment'', v)] = to_str_ok x v"
  by (simp_all add: payment_header_def hget_def text_eval)

lemma header_spelling:
  "ascii_lower ''PAYMENT-SIGNATURE'' = ''payment-signature''" "ascii_lower ''payment-signature'' = ''payment-signature''"
  "ascii_lower ''X-PAYMENT'' = ''x-payment''"
  by (simp_all add: text_eval)

lemma payload_decoded:
  assumes "codec_faithful x" "storable (pr_extra r)" "canon v = v"
  shows "decode_payment_payload x (encode_payload x (payload_for r v)) = Some (payload_for r v)"
    "to_str_ok x (encode_payload x (payload_for r v)) = Some (encode_payload x (payload_for r v))"
proof -
  have "de_payload (ser_payload (payload_for r v)) = Some (payload_for r v)"
    by (rule de_ser_payload) (simp_all add: payload_for_def assms storable_def [of None])
  then show "decode_payment_payload x (encode_payload x (payload_for r v)) = Some (payload_for r v)"
    by (simp add: decode_payment_payload_def encode_payload_def faithful [OF assms(1)]) (simp add: payload_for_def)
  show "to_str_ok x (encode_payload x (payload_for r v)) = Some (encode_payload x (payload_for r v))"
    by (simp add: to_str_ok_def encode_payload_def faithful [OF assms(1)])
qed

lemma terms_storable: "storable (pr_extra (testnet_terms\<lparr>pr_amount := a\<rparr>))" "storable (pr_extra testnet_terms)"
  "storable (pr_extra (testnet_terms\<lparr>pr_pay_to := a\<rparr>))"
  by (simp_all add: storable_def testnet_terms_def less_char_def)

lemma nobody_verifies: "fst (verify x dead_facilitator p r nobody) = Inl (RequestFailed refused)"
  by (simp add: verify_def call_def dead_facilitator_def client_new_def client_with_timeout_def default_retry_config_def
      retry_loop_zero send_single_def nobody_def)

lemmas run_eval = gate_def x402_payment_def admit_def dead_environment_def test_request_def resource_url_def responds_def
  times_reached_def header_spelling gate_header Let_def

lemma gate_challenge_tests:
  assumes "codec_faithful x"
  shows "missing_header_returns_a_plain_challenge_without_reaching_the_inner_service x"
    "resource_url_falls_back_to_the_request_uri_without_original_uri x"
    "resource_url_prefers_the_original_uri_extension x"
    "middleware_records_metrics_on_unauthenticated_request x"
  by (simp_all add: missing_header_returns_a_plain_challenge_without_reaching_the_inner_service_def
      resource_url_falls_back_to_the_request_uri_without_original_uri_def
      resource_url_prefers_the_original_uri_extension_def middleware_records_metrics_on_unauthenticated_request_def
      run_eval testnet_requirements config_eval challenge_field [OF assms] ser_payment_required_def challenge_body_def
      opt_entry_def ser_resource_info_def new_metrics_def record_request_def record_challenge_def snapshot_def
      on_metrics_def requirements_on_metrics payment_metrics.defs)

lemma undecodable_test:
  assumes "codec_faithful x" "header_text x ''%%%not-base64%%%''" "b64_decode x ''%%%not-base64%%%'' = None"
  shows "undecodable_header_is_rejected_as_an_invalid_signature x"
proof -
  have "decode_payment_payload x ''%%%not-base64%%%'' = None"
    by (simp add: decode_payment_payload_def assms(3) trim_visible text_eval)
  then show ?thesis
    by (simp add: undecodable_header_is_rejected_as_an_invalid_signature_def run_eval testnet_requirements config_eval
        challenge_field [OF assms(1)] ser_payment_required_def challenge_body_def opt_entry_def to_str_ok_def assms(2))
qed

lemma mismatch_tests:
  assumes "codec_faithful x"
  shows "requirement_mismatch_is_rejected_before_the_facilitator_is_contacted x" "header_names_are_case_insensitive x"
proof -
  have d: "testnet_terms\<lparr>pr_amount := ''1''\<rparr> \<noteq> testnet_terms" "testnet_terms\<lparr>pr_pay_to := ''0xsomeoneelse''\<rparr> \<noteq> testnet_terms"
    by (simp_all add: testnet_terms_def PAY_TO_def)
  note eval = required_def run_eval testnet_requirements config_eval payload_header_def payload_decoded [OF assms] terms_storable
    challenge_field [OF assms] ser_payment_required_def challenge_body_def opt_entry_def
  show "requirement_mismatch_is_rejected_before_the_facilitator_is_contacted x"
    using d(1) by (simp add: requirement_mismatch_is_rejected_before_the_facilitator_is_contacted_def eval)
      (simp add: payload_for_def)
  show "header_names_are_case_insensitive x"
    using d(2) by (simp add: header_names_are_case_insensitive_def eval) (simp add: payload_for_def)
qed

lemma price_refused: "required x (test_config KITE_TESTNET ''not-a-price'') P = False"
    "\<exists>e. requirements x (test_config KITE_TESTNET ''not-a-price'')
       = Some (Inl (''invalid PRICE_USD configured on the server: '' @ e))"
  by (simp_all add: required_def requirements_def test_config_def price_eval)

lemma contains_prefix: "starts_with s part \<Longrightarrow> text_contains (s @ t) part"
proof -
  assume "starts_with s part"
  then obtain r where "s @ t = part @ r @ t" by (auto simp: starts_with_def strip_prefix_Some)
  then have "starts_with (s @ t) part" by (simp add: starts_with_def strip_prefix_Some)
  then show ?thesis by (cases "s @ t") (simp_all add: contains_cons)
qed

lemma invalid_price_test: "invalid_server_price_is_a_500_json_error_even_when_a_payment_is_attached x"
proof -
  obtain e where "requirements x (test_config KITE_TESTNET ''not-a-price'')
      = Some (Inl (''invalid PRICE_USD configured on the server: '' @ e))"
    using price_refused(2) by blast
  moreover have "text_contains (''invalid PRICE_USD configured on the server: '' @ e) ''invalid PRICE_USD''"
    by (rule contains_prefix) (simp add: starts_with_def)
  ultimately show ?thesis
    by (simp add: invalid_server_price_is_a_500_json_error_even_when_a_payment_is_attached_def run_eval json_response_def
        get_header_def hget_def)
      (simp add: text_eval)
qed

lemma dead_facilitator_test:
  assumes "codec_faithful x"
  shows "matching_payment_with_dead_facilitator_is_402_unavailable_and_never_runs_the_handler x"
proof -
  have f: "pc_facilitator (test_config KITE_TESTNET ''0.001'') = dead_facilitator"
    "pc_nonce_guard (test_config KITE_TESTNET ''0.001'') = None" "pc_expiration_guard (test_config KITE_TESTNET ''0.001'') = None"
    "requirements x (test_config KITE_TESTNET ''0.001'') = Some (Inr testnet_terms)"
    by (simp_all add: testnet_requirements test_config_def)
  show ?thesis
    by (simp add: matching_payment_with_dead_facilitator_is_402_unavailable_and_never_runs_the_handler_def required_def
        run_eval f payload_header_def payload_decoded [OF assms] terms_storable window_error_def take_reservation_def
        run_verify_def after_verify_def nobody_verifies)
      (simp add: payload_for_def run_eval run_verify_def after_verify_def f nobody_verifies challenge_field [OF assms]
        ser_payment_required_def challenge_body_def opt_entry_def starts_with_def)
qed

lemma expired_test:
  assumes "codec_faithful x"
  shows "expired_authorization_is_rejected_before_facilitator_call x"
proof -
  let ?v = "JObj [(''authorization'', JObj [(''validAfter'', JStr ''0''), (''validBefore'', JStr ''1000'')])]"
  let ?c = "with_expiration_guard fresh_config (expiration_guard_new 5 5)"
  have r: "requirements x ?c = Some (Inr testnet_terms)"
    by (simp add: testnet_requirements config_eval)
  have "parse_u64 ''0'' = Some 0" "parse_u64 ''1000'' = Some 1000"
    by (simp_all add: parse_u64_def parse_unsigned_def text_eval)
  then have "window_error (Some (expiration_guard_new 5 5)) (Some 1700000000) (payload_for testnet_terms ?v)
      = Some (Expired 1000 1700000000)"
    by (simp add: window_error_def payload_for_def validity_bound_def validate_now_def validate_def expiration_guard_new_def
        sat_add_def sat_sub_def)
  then have w: "window_error (pc_expiration_guard ?c) (Some 1700000000) (payload_for testnet_terms ?v)
      = Some (Expired 1000 1700000000)"
    by (simp add: config_eval)
  have "canon ?v = ?v" by (simp add: less_char_def)
  note d = payload_decoded [OF assms terms_storable(2) this]
  show ?thesis
    by (simp add: expired_authorization_is_rejected_before_facilitator_call_def required_def r run_eval d w)
      (simp add: payload_for_def run_eval w challenge_field [OF assms] ser_payment_required_def challenge_body_def
        opt_entry_def contains_cons starts_with_def)
qed

text \<open>An authorization whose verification failed is free again, so the second run does what the first did.\<close>

lemma poison_test:
  assumes "codec_faithful x"
  shows "failed_verification_does_not_poison_the_authorization x"
proof -
  let ?v = "JObj [(''authorization'', JObj [(''nonce'', JStr ''0xreplayed_nonce_123'')])]"
  let ?p = "payload_for testnet_terms ?v" and ?c = "with_nonce_guard fresh_config"
  let ?q = "test_request ''/v1/data'' [(''PAYMENT-SIGNATURE'', encode_payload x ?p)]"
  let ?e = "''facilitator verify unavailable: '' @ facilitator_error_message (RequestFailed refused)"
  let ?r = "payment_required_response x testnet_terms ''/v1/data'' ''Unit test service'' (Some ?e)"
  have r: "requirements x (?c g) = Some (Inr testnet_terms)" for g
    by (simp add: testnet_requirements config_eval)
  have "canon ?v = ?v" by (simp add: less_char_def)
  note d = payload_decoded [OF assms terms_storable(2) this]
  have run: "gate x (?c g) ?q = (?c g', Responded ?r, [CallVerify ?p testnet_terms])"
    if "reserve_key g (authorization_key x ?p) 0 = (Inr res, h)" "drop_reservation h res 0 = g'" for g g' h res
    using that
    by (simp add: run_eval r d) (simp add: payload_for_def run_eval window_error_def take_reservation_def reserve_def
        run_verify_def after_verify_def drop_held_def on_metrics_def nobody_verifies config_eval
        nobody_verifies [unfolded dead_facilitator_def])
  have twice: "\<exists>res h. reserve_key (new_guard 100 60) k 0 = (Inr res, h)
      \<and> (\<exists>res' h'. reserve_key (drop_reservation h res 0) k 0 = (Inr res', h'))" for k
    by (simp add: guard_eval fmdrop_fmupd_same)
  obtain g g' where first: "gate x (?c (new_guard 100 60)) ?q = (?c g, Responded ?r, [CallVerify ?p testnet_terms])"
    and second: "gate x (?c g) ?q = (?c g', Responded ?r, [CallVerify ?p testnet_terms])"
    using twice [of "authorization_key x ?p"] run by blast
  have err: "header_field x ?r ''PAYMENT-REQUIRED'' [''error''] = Some (JStr ?e)"
    by (simp add: challenge_field [OF assms] ser_payment_required_def challenge_body_def opt_entry_def)
  have t: "\<not> text_contains ?e ''already been used''" "text_contains ?e ''facilitator verify unavailable''"
    by (simp_all add: refused_def contains_cons starts_with_def)
  show ?thesis
    using first second err t
    by (simp add: failed_verification_does_not_poison_the_authorization_def required_def r responds_def times_reached_def Let_def)
qed

end
