(* ===== verification/RateTests.thy ===== *)
theory RateTests
  imports RateLimit
begin

text \<open>
  The unit tests of the service's rate limiter (\<open>service/src/rate_limit.rs\<close>), one definition per test
  function, evaluated on the model. Left out are those that start threads, repeat a
  call a hundred times or more, or refill at a rate that is not a binary fraction.
\<close>

definition limits :: "f64 \<Rightarrow> rate_limiter_config" where
  "limits burst = \<lparr>rl_rps = 1, rl_burst = burst, rl_trusted_proxies = [], rl_max_clients = 10000,
     rl_idle_timeout = from_secs 300\<rparr>"

text \<open>\<open>resolve\<close>; \<open>None\<close> is a panic of one of its \<open>unwrap\<close>s.\<close>

definition resolve :: "externals \<Rightarrow> str \<Rightarrow> str \<Rightarrow> (str \<times> str) list \<Rightarrow> (unit + ip_addr) option" where
  "resolve x peer proxies values =
     Option.bind (parse_ip peer) (\<lambda>peer.
     Option.bind (parse_proxies proxies) (\<lambda>proxies.
     Some (client_ip x (fold (\<lambda>(n, v). happend n v) values []) peer proxies)))"

definition resolved_to :: "str \<Rightarrow> (unit + ip_addr) option" where
  "resolved_to ip = map_option Inr (parse_ip ip)"

definition networks_match_ipv4_ipv6_and_mapped_addresses :: bool where
  "networks_match_ipv4_ipv6_and_mapped_addresses \<longleftrightarrow>
     (\<forall>(network, inside, outside) \<in> set
        [(''10.2.3.4/8'', ''10.99.0.1'', ''11.0.0.1''), (''192.0.2.1'', ''192.0.2.1'', ''192.0.2.2''),
         (''2001:db8::/32'', ''2001:db8::1'', ''2001:db9::1''), (''::1'', ''::1'', ''::2''),
         (''0.0.0.0/0'', ''203.0.113.1'', ''::1''), (''::/0'', ''2001:db8::1'', ''192.0.2.1''),
         (''::ffff:192.0.2.0/120'', ''::ffff:192.0.2.2'', ''192.0.3.1'')].
        case (parse_proxies network, parse_ip inside, parse_ip outside) of
          (Some proxies, Some inside, Some outside) \<Rightarrow> proxies_contain proxies inside \<and> \<not> proxies_contain proxies outside
        | _ \<Rightarrow> False)
     \<and> (\<forall>value \<in> set [''*'', ''host.example'', ''127.0.0.1/33'', ''::/129'', ''127.0.0.1,'', '','', ''127.0.0.1/x''].
          parse_proxies value = None)"

definition untrusted_peers_cannot_choose_their_bucket :: "externals \<Rightarrow> bool" where
  "untrusted_peers_cannot_choose_their_bucket x \<longleftrightarrow>
     resolve x ''192.0.2.1'' ''10.0.0.0/8'' [(''x-forwarded-for'', ''bad''), (''x-real-ip'', ''203.0.113.9'')]
       = resolved_to ''192.0.2.1''
     \<and> resolve x ''::ffff:192.0.2.1'' '''' [] = resolved_to ''192.0.2.1''"

definition trusted_chain_stops_at_first_untrusted_hop :: "externals \<Rightarrow> bool" where
  "trusted_chain_stops_at_first_untrusted_hop x \<longleftrightarrow>
     (\<forall>forwarded \<in> set [''garbage, 203.0.113.9, 10.0.0.2'', ''192.0.2.100, 203.0.113.9, 10.0.0.2''].
        resolve x ''10.0.0.1'' ''10.0.0.0/8'' [(''x-forwarded-for'', forwarded)] = resolved_to ''203.0.113.9'')
     \<and> resolve x ''2001:db8::1'' ''2001:db8::/32'' [(''x-forwarded-for'', ''2001:db9::5, 2001:db8::2'')]
         = resolved_to ''2001:db9::5''"

definition repeated_forwarded_headers_preserve_chain_order :: "externals \<Rightarrow> bool" where
  "repeated_forwarded_headers_preserve_chain_order x \<longleftrightarrow>
     resolve x ''10.0.0.1'' ''10.0.0.0/8'' [(''x-forwarded-for'', ''203.0.113.9''), (''x-forwarded-for'', ''10.0.0.2'')]
       = resolved_to ''203.0.113.9''"

definition trusted_headers_are_validated_and_precedence_is_explicit :: "externals \<Rightarrow> bool" where
  "trusted_headers_are_validated_and_precedence_is_explicit x \<longleftrightarrow>
     (\<forall>value \<in> set ['''', ''not-an-ip'', ''203.0.113.9,'', ''203.0.113.9:80''].
        resolve x ''10.0.0.1'' ''10.0.0.0/8'' [(''x-forwarded-for'', value), (''x-real-ip'', ''203.0.113.8'')] = Some (Inl ()))
     \<and> resolve x ''10.0.0.1'' ''10.0.0.0/8'' [(''x-real-ip'', ''203.0.113.8'')] = resolved_to ''203.0.113.8''
     \<and> resolve x ''10.0.0.1'' ''10.0.0.0/8'' [(''x-real-ip'', ''203.0.113.8''), (''x-real-ip'', ''203.0.113.9'')] = Some (Inl ())
     \<and> resolve x ''10.0.0.1'' ''10.0.0.0/8'' [(''x-forwarded-for'', ''203.0.113.9''), (''x-real-ip'', ''203.0.113.8'')]
         = resolved_to ''203.0.113.9''"

text \<open>The answers to a row of calls, each by a client at a number of seconds after the start.\<close>

fun answers :: "rate_limiter \<Rightarrow> (ip_addr \<times> nat) list \<Rightarrow> (rate_limit_rejection + u64) list \<times> rate_limiter" where
  "answers l [] = ([], l)"
| "answers l ((ip, after) # calls) =
     (let (r, l) = rl_acquire ip (int (from_secs (of_nat after))) l; (rs, l) = answers l calls in (r # rs, l))"

definition client_one :: ip_addr where
  "client_one = V4 0xC0000201"

definition client_two :: ip_addr where
  "client_two = V4 0xC0000202"

definition rate_limiter_allows_burst_and_keeps_clients_separate :: bool where
  "rate_limiter_allows_burst_and_keeps_clients_separate \<longleftrightarrow>
     (let (rs, l) = answers (rate_limiter_new (limits 2)) [(client_one, 0), (client_one, 0), (client_one, 0), (client_one, 1)]
      in parse_ip ''192.0.2.1'' = Some client_one \<and> parse_ip ''192.0.2.2'' = Some client_two
         \<and> rs = [Inr 1, Inr 0, Inl (Quota 1), Inr 0]
         \<and> (case rl_acquire client_two 0 l of (Inr _, _) \<Rightarrow> True | _ \<Rightarrow> False))"

definition capacity_preserves_existing_quotas_and_recovers_after_idle_refill :: bool where
  "capacity_preserves_existing_quotas_and_recovers_after_idle_refill \<longleftrightarrow>
     (let (rs, l) = answers (rate_limiter_new ((limits 1)\<lparr>rl_max_clients := 1, rl_idle_timeout := from_secs 2\<rparr>))
            [(client_one, 0), (client_two, 0), (client_one, 0), (client_one, 1), (client_two, 2), (client_two, 3)]
      in rs = [Inr 0, Inl Capacity, Inl (Quota 1), Inr 0, Inl Capacity, Inr 0]
         \<and> client_one |\<notin>| fmdom (bs_clients (tb_buckets l)) \<and> map_len (bs_clients (tb_buckets l)) = 1
         \<and> length (bs_expirations (tb_buckets l)) = 1)"

definition fractional_refill_and_out_of_order_timestamps_preserve_tokens :: bool where
  "fractional_refill_and_out_of_order_timestamps_preserve_tokens \<longleftrightarrow>
     fst (answers (rate_limiter_new ((limits 1)\<lparr>rl_rps := 1 / 2\<rparr>))
       [(client_one, 0), (client_one, 1), (client_one, 0), (client_one, 2)])
     = [Inr 0, Inl (Quota 1), Inl (Quota 1), Inr 0]"

definition ipv4_mapped_peers_share_the_ipv4_quota :: bool where
  "ipv4_mapped_peers_share_the_ipv4_quota \<longleftrightarrow>
     fst (answers (rate_limiter_new (limits 1)) [(client_one, 0), (V6 (map_to_ipv6 0xC0000201), 0)])
       = [Inr 0, Inl (Quota 1)]
     \<and> parse_ip ''::ffff:192.0.2.1'' = Some (V6 (map_to_ipv6 0xC0000201))"

text \<open>Two requests through the layer; the router behind it answers 200.\<close>

definition ok_handler :: "request \<Rightarrow> unit \<Rightarrow> response option \<times> unit" where
  "ok_handler req s = (Some \<lparr>resp_status = 200, resp_headers = [], resp_body = BytesBody ''''\<rparr>, s)"

definition get_test :: "headers \<Rightarrow> request" where
  "get_test hs = \<lparr>req_method = ''GET'', req_uri = ''/test'', req_path_query = Some ''/test'', req_headers = hs, req_body = ''''\<rparr>"

definition through_limiter :: "externals \<Rightarrow> (f64 \<Rightarrow> str) \<Rightarrow> rate_limiter option \<Rightarrow> ip_addr option \<Rightarrow> headers
    \<Rightarrow> response option \<times> rate_limiter option" where
  "through_limiter x show_f64 limiter peer hs =
     (case rate_limit_middleware x show_f64 limiter peer 0 ok_handler (get_test hs) () of ((resp, _), l) \<Rightarrow> (resp, l))"

definition middleware_requires_peer_metadata_only_when_enabled :: "externals \<Rightarrow> (f64 \<Rightarrow> str) \<Rightarrow> bool" where
  "middleware_requires_peer_metadata_only_when_enabled x show_f64 \<longleftrightarrow>
     (\<forall>enabled \<in> set [False, True].
        map_option resp_status
          (fst (through_limiter x show_f64 (if enabled then Some (rate_limiter_new (limits 1)) else None) None []))
        = Some (if enabled then 503 else 200))"

definition middleware_returns_429_for_the_same_transport_peer :: "externals \<Rightarrow> (f64 \<Rightarrow> str) \<Rightarrow> bool" where
  "middleware_returns_429_for_the_same_transport_peer x show_f64 \<longleftrightarrow>
     (let peer = parse_ip ''127.0.0.1'';
          (first, l) = through_limiter x show_f64 (Some (rate_limiter_new (limits 1))) peer [(''x-forwarded-for'', ''192.0.2.8'')];
          (second, l) = through_limiter x show_f64 l peer [(''x-forwarded-for'', ''192.0.2.9'')]
      in (case (first, second) of
            (Some a, Some b) \<Rightarrow>
              resp_status a = 200 \<and> get_header ''x-ratelimit-remaining'' a = Some ''0''
              \<and> resp_status b = 429 \<and> get_header ''x-ratelimit-remaining'' b = Some ''0''
              \<and> get_header ''retry-after'' b = Some ''1'' \<and> get_header ''cache-control'' b = Some ''no-store''
          | _ \<Rightarrow> False))"

subsection \<open>Evaluation\<close>

lemmas address_eval = parse_ip_eval parse_proxies_def parse_network_def split_on_def parse_unsigned_def trim_visible trim_blank
  visible_def address_bits_def to_ipv4_mapped_def proxies_contain_def network_contains_def is_ascii_digit_def Let_def

lemma trusted_network_tests: "networks_match_ipv4_ipv6_and_mapped_addresses"
  by (simp add: networks_match_ipv4_ipv6_and_mapped_addresses_def address_eval)

lemmas resolve_eval = address_eval resolve_def resolved_to_def client_ip_def to_str_ok_def hget_def hget_all_def
  hcontains_def happend_def ascii_lower_def lower_char_def is_ascii_upper_def

lemma client_tests:
  assumes "\<And>v. header_text x v"
  shows "untrusted_peers_cannot_choose_their_bucket x" "trusted_chain_stops_at_first_untrusted_hop x"
    "repeated_forwarded_headers_preserve_chain_order x" "trusted_headers_are_validated_and_precedence_is_explicit x"
  by (simp_all add: untrusted_peers_cannot_choose_their_bucket_def trusted_chain_stops_at_first_untrusted_hop_def
      repeated_forwarded_headers_preserve_chain_order_def trusted_headers_are_validated_and_precedence_is_explicit_def
      resolve_eval assms)

lemma rnd_values: "rnd (numeral n) = numeral n" if "numeral n \<le> (2 ^ 53 :: nat)"
  using rnd_exact [OF that] by simp

lemma rnd_half: "rnd (1 / 2) = 1 / 2"
  by code_simp

lemma expire_loop_row:
  "expire_loop n now es [] = (es, [])"
  "expire_loop (numeral k) now es ((d, key) # xs)
     = (if now < d then (es, (d, key) # xs) else expire_loop (pred_numeral k) now (fmdrop key es) xs)"
  by (cases n) (simp_all add: numeral_eq_Suc)

lemmas limiter_eval = expire_loop_row limits_def rl_acquire_def spend_def take_token_def refilled_def fresh_bucket_def bucket_deadline_def
  bt_insert_def bt_remove_def insort_insert_key_def f64_sub_def f64_mul_add_def f64_div_def f64_add_def
  f64_ceil_def f64_to_u64_def as_secs_f64_def try_from_secs_f64_def round_half_even_def fr.zero fr.one rnd_values rnd_half
  from_secs_def nanos_per_sec_def duration_since_def time_defs map_len_upd fmdrop_fmupd_same fmdrop_empty Let_def client_one_def client_two_def

lemma limiter_test1: "rate_limiter_allows_burst_and_keeps_clients_separate"
  by (simp add: rate_limiter_allows_burst_and_keeps_clients_separate_def parse_ip_eval limiter_eval)

lemma limiter_test2: "capacity_preserves_existing_quotas_and_recovers_after_idle_refill"
  by (simp add: capacity_preserves_existing_quotas_and_recovers_after_idle_refill_def limiter_eval)

lemma limiter_test3: "fractional_refill_and_out_of_order_timestamps_preserve_tokens"
  by (simp add: fractional_refill_and_out_of_order_timestamps_preserve_tokens_def limiter_eval)

lemma limiter_test4: "ipv4_mapped_peers_share_the_ipv4_quota"
  by (simp add: ipv4_mapped_peers_share_the_ipv4_quota_def parse_ip_eval limiter_eval to_ipv4_mapped_def map_to_ipv6_def)

lemma peer_test: "middleware_requires_peer_metadata_only_when_enabled x show_f64"
  by (simp add: middleware_requires_peer_metadata_only_when_enabled_def through_limiter_def rate_limit_middleware_def
      ok_handler_def rejection_def json_response_def set_header_def)

lemma burst_of_one:
  "\<exists>l1 l2. rl_acquire (V4 0x7F000001) 0 (rate_limiter_new (limits 1)) = (Inr 0, l1)
     \<and> rl_acquire (V4 0x7F000001) 0 l1 = (Inl (Quota 1), l2) \<and> rl_trusted_proxies (tb_config l1) = []"
  by (simp add: limiter_eval)

lemma direct_client: "client_ip x hs (V4 0x7F000001) [] = Inr (V4 0x7F000001)"
  by (simp add: client_ip_def proxies_contain_def)

lemma layer_test:
  assumes "\<And>v. header_value_ok x v"
  shows "middleware_returns_429_for_the_same_transport_peer x show_f64"
proof -
  obtain l1 l2 where l: "rl_acquire (V4 0x7F000001) 0 (rate_limiter_new (limits 1)) = (Inr 0, l1)"
    "rl_acquire (V4 0x7F000001) 0 l1 = (Inl (Quota 1), l2)" "rl_trusted_proxies (tb_config l1) = []"
    using burst_of_one by blast
  have p: "parse_ip ''127.0.0.1'' = Some (V4 0x7F000001)"
    by (simp add: parse_ip_eval)
  have n: "rl_trusted_proxies (tb_config (rate_limiter_new (limits 1))) = []"
    by (simp add: limits_def)
  have first: "through_limiter x show_f64 (Some (rate_limiter_new (limits 1))) (Some (V4 0x7F000001)) hs
      = (Some (admitted_response x show_f64 (rate_limiter_new (limits 1)) 0
          \<lparr>resp_status = 200, resp_headers = [], resp_body = BytesBody ''''\<rparr>), Some l1)" for hs
    using l(1) n by (simp add: through_limiter_def rate_limit_middleware_def direct_client ok_handler_def)
  have second: "through_limiter x show_f64 (Some l1) (Some (V4 0x7F000001)) hs = (Some (quota_response x show_f64 l1 1), Some l2)" for hs
    using l(2,3) by (simp add: through_limiter_def rate_limit_middleware_def direct_client)
  show ?thesis
    unfolding middleware_returns_429_for_the_same_transport_peer_def p Let_def first second prod.case option.case
    by (simp add: admitted_response_def quota_response_def try_header_def assms json_response_def get_set_header)
      (simp add: set_header_def text_eval show_nat.simps flip: One_nat_def)
qed

end
