(* ===== verification/ServiceTests.thy ===== *)
theory ServiceTests
  imports Service KiteTests
begin

text \<open>
  The unit tests of the service's CORS layer (\<open>service/src/cors.rs\<close>) and of its start-up and layers
  (\<open>service/src/main.rs\<close>), one definition per test function, evaluated on the model. A router with
  one route is a function from requests to responses; \<open>oneshot\<close> is one run of the layer around it.
  Texts that a test reads as text are texts, and the header values of the tests are legal values.
\<close>

subsection \<open>The CORS layer\<close>

definition preserve_and_deduplicate_existing_variation :: "externals \<Rightarrow> bool" where
  "preserve_and_deduplicate_existing_variation x \<longleftrightarrow>
     (\<forall>existing \<in> set [''Accept-Encoding'', ''Accept-Encoding, oRiGiN'', ''*''].
        let values = hget_all ''vary'' (vary_origin x (vary_origin x (happend ''vary'' existing [])))
        in hd values = existing \<and> length values = (if existing = ''Accept-Encoding'' then 2 else 1))"

definition ask :: "str \<Rightarrow> str \<Rightarrow> str option \<Rightarrow> request" where
  "ask method uri origin = \<lparr>req_method = method, req_uri = uri, req_path_query = Some uri,
     req_headers = (case origin of Some origin \<Rightarrow> happend ''origin'' origin [] | None \<Rightarrow> []), req_body = ''''\<rparr>"

definition plain_answer :: "headers \<Rightarrow> str \<Rightarrow> response" where
  "plain_answer hs body = \<lparr>resp_status = 200, resp_headers = hs, resp_body = BytesBody body\<rparr>"

definition behind_cors :: "externals \<Rightarrow> cors_config \<Rightarrow> response \<Rightarrow> request \<Rightarrow> response option" where
  "behind_cors x cfg answer req = fst (cors_middleware x cfg (\<lambda>_ s. (Some answer, s)) req ())"

definition variation_is_preserved_for_allowed_denied_and_absent_origins :: "externals \<Rightarrow> bool" where
  "variation_is_preserved_for_allowed_denied_and_absent_origins x \<longleftrightarrow>
     (\<forall>origin \<in> set [Some ''https://app.example.com'', Some ''https://denied.example'', None].
        case behind_cors x (Origins [''https://app.example.com'']) (plain_answer [(''vary'', ''Accept-Encoding'')] ''ok'')
            (ask ''GET'' ''/'' origin) of
          Some res \<Rightarrow> hget_all ''vary'' (resp_headers res) = [''Accept-Encoding'', ''Origin'']
            \<and> (hcontains ''access-control-allow-origin'' (resp_headers res) \<longleftrightarrow> origin = Some ''https://app.example.com'')
        | None \<Rightarrow> False)"

definition parse_disabled :: bool where
  "parse_disabled \<longleftrightarrow> from_env None = Disabled \<and> from_env (Some '''') = Disabled \<and> from_env (Some ''   '') = Disabled"

definition parse_wildcard :: bool where
  "parse_wildcard \<longleftrightarrow> from_env (Some ''*'') = Wildcard \<and> from_env (Some ''  *  '') = Wildcard"

definition parse_specific_origins :: bool where
  "parse_specific_origins \<longleftrightarrow>
     from_env (Some ''https://app.example.com, http://localhost:3000/,  https://dashboard.io  '')
       = Origins [''https://app.example.com'', ''http://localhost:3000'', ''https://dashboard.io'']"

definition match_origin_rules :: bool where
  "match_origin_rules \<longleftrightarrow>
     match_origin Disabled ''https://foo.com'' = None \<and> match_origin Wildcard ''https://foo.com'' = Some ''*'' \<and>
     (let specific = Origins [''https://app.example.com'', ''http://localhost:3000'']
      in match_origin specific ''https://app.example.com'' = Some ''https://app.example.com''
         \<and> match_origin specific ''http://localhost:3000/'' = Some ''http://localhost:3000/''
         \<and> match_origin specific ''https://unauthorized.org'' = None)"

definition preflight_wildcard_returns_204_and_headers :: "externals \<Rightarrow> bool" where
  "preflight_wildcard_returns_204_and_headers x \<longleftrightarrow>
     (case behind_cors x Wildcard (plain_answer [] ''payload'') (ask ''OPTIONS'' ''/v1/data'' (Some ''https://client.example.com'')) of
        Some res \<Rightarrow> resp_status res = 204
          \<and> hget ''access-control-allow-origin'' (resp_headers res) = Some ''*''
          \<and> hget ''access-control-allow-methods'' (resp_headers res) \<noteq> None
          \<and> hget ''access-control-allow-headers'' (resp_headers res) \<noteq> None
          \<and> hget ''access-control-max-age'' (resp_headers res) = Some ''86400''
      | None \<Rightarrow> False)"

definition preflight_specific_origin_returns_204_and_vary :: "externals \<Rightarrow> bool" where
  "preflight_specific_origin_returns_204_and_vary x \<longleftrightarrow>
     (case behind_cors x (Origins [''https://app.example.com'']) (plain_answer [] ''payload'')
         (ask ''OPTIONS'' ''/v1/data'' (Some ''https://app.example.com'')) of
        Some res \<Rightarrow> resp_status res = 204
          \<and> hget ''access-control-allow-origin'' (resp_headers res) = Some ''https://app.example.com''
          \<and> hget ''vary'' (resp_headers res) = Some ''Origin''
      | None \<Rightarrow> False)"

definition preflight_unmatched_origin_does_not_set_allow_origin :: "externals \<Rightarrow> bool" where
  "preflight_unmatched_origin_does_not_set_allow_origin x \<longleftrightarrow>
     (case behind_cors x (Origins [''https://app.example.com'']) (plain_answer [] ''payload'')
         (ask ''OPTIONS'' ''/v1/data'' (Some ''https://evil.com'')) of
        Some res \<Rightarrow> resp_status res = 204 \<and> hget ''vary'' (resp_headers res) = Some ''Origin''
          \<and> hget ''access-control-allow-origin'' (resp_headers res) = None
      | None \<Rightarrow> False)"

definition get_request_exposes_payment_headers :: "externals \<Rightarrow> bool" where
  "get_request_exposes_payment_headers x \<longleftrightarrow>
     (case behind_cors x Wildcard (plain_answer [] ''ok'') (ask ''GET'' ''/v1/data'' (Some ''https://client.example.com'')) of
        Some res \<Rightarrow> resp_status res = 200
          \<and> hget ''access-control-allow-origin'' (resp_headers res) = Some ''*''
          \<and> (case hget ''access-control-expose-headers'' (resp_headers res) of
               Some expose \<Rightarrow> text_contains expose ''Payment-Required'' \<and> text_contains expose ''Payment-Response''
             | None \<Rightarrow> False)
      | None \<Rightarrow> False)"

definition request_without_origin_has_no_cors_headers :: "externals \<Rightarrow> bool" where
  "request_without_origin_has_no_cors_headers x \<longleftrightarrow>
     (case behind_cors x Wildcard (plain_answer [] ''ok'') (ask ''GET'' ''/v1/data'' None) of
        Some res \<Rightarrow> resp_status res = 200 \<and> hget ''access-control-allow-origin'' (resp_headers res) = None
      | None \<Rightarrow> False)"

subsection \<open>Start-up and layers\<close>

definition unset_env :: environ where
  "unset_env = (\<lambda>_. None)"

definition set_env :: "str \<Rightarrow> environ" where
  "set_env value = (\<lambda>_. Some (Unicode value))"

definition env_or_returns_the_fallback_when_unset :: bool where
  "env_or_returns_the_fallback_when_unset \<longleftrightarrow> env_or unset_env ''KITE_TEST_ENV_OR_UNSET'' ''fallback'' = ''fallback''"

definition env_or_returns_the_trimmed_value_when_set :: bool where
  "env_or_returns_the_trimmed_value_when_set \<longleftrightarrow>
     env_or (set_env (''  value '' @ [CHR 0x0A])) ''KITE_TEST_ENV_OR_SET'' ''fallback'' = ''value''"

definition env_or_treats_blank_values_as_unset :: bool where
  "env_or_treats_blank_values_as_unset \<longleftrightarrow>
     (\<forall>blank \<in> set ['''', ''   '', [CHR 0x09, CHR 0x0A]]. env_or (set_env blank) ''KITE_TEST_ENV_OR_BLANK'' ''fallback'' = ''fallback'')"

definition env_or_does_not_trim_the_fallback :: bool where
  "env_or_does_not_trim_the_fallback \<longleftrightarrow> env_or unset_env ''KITE_TEST_ENV_OR_UNSET_2'' '' padded '' = '' padded ''"

definition parse_payment_clock_drift_secs :: bool where
  "parse_payment_clock_drift_secs \<longleftrightarrow>
     Option.bind (env_var (set_env ''45'') ''PAYMENT_CLOCK_DRIFT_SECS'') (\<lambda>v. parse_u64 (trim v)) = Some 45"

definition bare_answer :: "nat \<Rightarrow> response" where
  "bare_answer status = \<lparr>resp_status = status, resp_headers = [], resp_body = BytesBody ''''\<rparr>"

definition health_router :: "request \<Rightarrow> 's \<Rightarrow> response option \<times> 's" where
  "health_router req s = (if req_uri req = ''/healthz'' then (Some healthz, s) else (Some (bare_answer 404), s))"

definition answered_with :: "response option \<Rightarrow> nat \<Rightarrow> bool" where
  "answered_with r status \<longleftrightarrow> map_option resp_status r = Some status"

definition healthz_returns_ok :: "externals \<Rightarrow> duration option \<Rightarrow> service \<Rightarrow> bool" where
  "healthz_returns_ok x clock s \<longleftrightarrow>
     answered_with (fst (http_request_logger x clock health_router (ask ''GET'' ''/healthz'' None) s)) 200"

definition logger_handles_404 :: "externals \<Rightarrow> duration option \<Rightarrow> service \<Rightarrow> bool" where
  "logger_handles_404 x clock s \<longleftrightarrow>
     answered_with (fst (http_request_logger x clock health_router (ask ''GET'' ''/not_found'' None) s)) 404"

definition logger_passes_every_status_class_through_unchanged :: "externals \<Rightarrow> duration option \<Rightarrow> service \<Rightarrow> bool" where
  "logger_passes_every_status_class_through_unchanged x clock s \<longleftrightarrow>
     (\<forall>status \<in> set [200, 204, 302, 402, 404, 500, 503].
        answered_with (fst (http_request_logger x clock (\<lambda>_ s. (Some (bare_answer status), s)) (ask ''GET'' ''/s'' None) s)) status)"

definition logger_does_not_alter_headers_or_body :: "externals \<Rightarrow> duration option \<Rightarrow> service \<Rightarrow> bool" where
  "logger_does_not_alter_headers_or_body x clock s \<longleftrightarrow>
     (case fst (http_request_logger x clock (\<lambda>_ s. (Some (plain_answer [(''x-thing'', ''1'')] ''payload''), s))
         (ask ''GET'' ''/h'' None) s) of
        Some res \<Rightarrow> hget ''x-thing'' (resp_headers res) = Some ''1'' \<and> resp_body res = BytesBody ''payload''
      | None \<Rightarrow> False)"

definition healthz_body_is_status_ok_json :: bool where
  "healthz_body_is_status_ok_json \<longleftrightarrow> resp_body healthz = JsonBody (JObj [(''status'', JStr ''ok'')])"

definition body_value :: "str \<Rightarrow> response \<Rightarrow> json option" where
  "body_value field r = (case resp_body r of JsonBody v \<Rightarrow> jget field v | _ \<Rightarrow> None)"

definition livez_body_contains_ok_and_uptime :: "instant \<Rightarrow> service_metrics \<Rightarrow> bool" where
  "livez_body_contains_ok_and_uptime now m \<longleftrightarrow>
     body_value ''status'' (livez now m) = Some (JStr ''ok'')
     \<and> Option.bind (body_value ''uptime_seconds'' (livez now m)) as_u64 \<noteq> None"

definition metrics_router :: "instant \<Rightarrow> request \<Rightarrow> service \<Rightarrow> response option \<times> service" where
  "metrics_router now req s =
     (if req_uri req = ''/healthz'' then (Some healthz, s)
      else if req_uri req = ''/metrics'' then (Some (metrics_endpoint now (sv_metrics s)), s)
      else (Some (bare_answer 404), s))"

definition metrics_endpoint_tracks_and_reports_requests :: "externals \<Rightarrow> duration option \<Rightarrow> instant \<Rightarrow> service \<Rightarrow> bool" where
  "metrics_endpoint_tracks_and_reports_requests x clock now s \<longleftrightarrow>
     (let s = s\<lparr>sv_metrics := service_metrics_new now\<rparr>;
          (res, s) = http_request_logger x clock (metrics_router now) (ask ''GET'' ''/metrics'' None) s;
          (res2, s) = http_request_logger x clock (metrics_router now) (ask ''GET'' ''/healthz'' None) s;
          snap = metrics_endpoint now (sv_metrics s)
      in answered_with res 200
         \<and> Option.bind res (body_value ''total_requests'') = Some (JNum (PosInt 1))
         \<and> Option.bind res (body_value ''active_requests'') = Some (JNum (PosInt 1))
         \<and> answered_with res2 200
         \<and> body_value ''total_requests'' snap = Some (JNum (PosInt 2))
         \<and> body_value ''successful_requests'' snap = Some (JNum (PosInt 2))
         \<and> sm_active_requests (sv_metrics s) = 0)"

definition hardened_answer :: "externals \<Rightarrow> security_config \<Rightarrow> response option" where
  "hardened_answer x c = fst (security_headers_middleware x c (\<lambda>_ s. (Some (plain_answer [] ''ok''), s)) (ask ''GET'' ''/test'' None) ())"

definition security_headers_applied_by_default :: "externals \<Rightarrow> bool" where
  "security_headers_applied_by_default x \<longleftrightarrow>
     (case hardened_answer x default_security_config of
        Some res \<Rightarrow> resp_status res = 200
          \<and> hget ''x-content-type-options'' (resp_headers res) = Some ''nosniff''
          \<and> hget ''x-frame-options'' (resp_headers res) = Some ''DENY''
          \<and> hget ''x-xss-protection'' (resp_headers res) = Some ''0''
          \<and> hget ''referrer-policy'' (resp_headers res) = Some ''strict-origin-when-cross-origin''
          \<and> hget ''content-security-policy'' (resp_headers res)
              = Some (''default-src 'none'; frame-ancestors 'none'' @ [CHR 0x27])
      | None \<Rightarrow> False)"

definition security_headers_disabled_when_flag_false :: "externals \<Rightarrow> bool" where
  "security_headers_disabled_when_flag_false x \<longleftrightarrow>
     (case hardened_answer x (default_security_config\<lparr>se_enabled := False\<rparr>) of
        Some res \<Rightarrow> resp_status res = 200 \<and> \<not> hcontains ''x-content-type-options'' (resp_headers res)
          \<and> \<not> hcontains ''x-frame-options'' (resp_headers res) \<and> \<not> hcontains ''content-security-policy'' (resp_headers res)
      | None \<Rightarrow> False)"

definition security_headers_custom_csp_and_referrer :: "externals \<Rightarrow> bool" where
  "security_headers_custom_csp_and_referrer x \<longleftrightarrow>
     (case hardened_answer x \<lparr>se_enabled = True, se_csp = ''default-src 'self'' @ [CHR 0x27], se_referrer_policy = ''no-referrer''\<rparr> of
        Some res \<Rightarrow> hget ''content-security-policy'' (resp_headers res) = Some (''default-src 'self'' @ [CHR 0x27])
          \<and> hget ''referrer-policy'' (resp_headers res) = Some ''no-referrer''
      | None \<Rightarrow> False)"

subsection \<open>Evaluation\<close>

lemma blanks_trimmed: "trim ''   '' = ''''" "trim ''  *  '' = ''*''" "trim ''  https://dashboard.io'' = ''https://dashboard.io''"
  "trim '' http://localhost:3000/'' = ''http://localhost:3000/''" "trim '' oRiGiN'' = ''oRiGiN''"
  "trim ''https://app.example.com, http://localhost:3000/,  https://dashboard.io  ''
     = ''https://app.example.com, http://localhost:3000/,  https://dashboard.io''"
  by (simp_all add: trim_eval)

lemmas cors_eval = cors_middleware_def preflight_response_def attach_cors_def origin_of_def is_enabled_def is_origins_def
  behind_cors_def ask_def plain_answer_def vary_origin_def names_origin_def to_str_ok_def header_value_or_def set_header_def
  hget_def hget_all_def hcontains_def happend_def hinsert_def split_on_def eq_ignore_case_def trim_visible
  trim_end_matches_def ascii_lower_def lower_char_def text_eval Let_def

lemma origin_tests: "parse_disabled" "parse_wildcard" "parse_specific_origins" "match_origin_rules"
  by (simp_all add: parse_disabled_def parse_wildcard_def parse_specific_origins_def match_origin_rules_def from_env_def
      blanks_trimmed cors_eval)

lemma cors_tests:
  assumes "\<And>v. header_text x v" "\<And>v. header_value_ok x v"
  shows "preserve_and_deduplicate_existing_variation x" "variation_is_preserved_for_allowed_denied_and_absent_origins x"
    "preflight_wildcard_returns_204_and_headers x" "preflight_specific_origin_returns_204_and_vary x"
    "preflight_unmatched_origin_does_not_set_allow_origin x" 
    "request_without_origin_has_no_cors_headers x"
  by (simp_all add: assms preserve_and_deduplicate_existing_variation_def
      variation_is_preserved_for_allowed_denied_and_absent_origins_def preflight_wildcard_returns_204_and_headers_def
      preflight_specific_origin_returns_204_and_vary_def preflight_unmatched_origin_does_not_set_allow_origin_def
      request_without_origin_has_no_cors_headers_def blanks_trimmed cors_eval)

lemma cors_exposes:
  assumes "\<And>v. header_text x v" "\<And>v. header_value_ok x v"
  shows "get_request_exposes_payment_headers x"
  by (simp add: assms get_request_exposes_payment_headers_def contains_cons cors_eval)

lemma env_trimmed: "trim (''  value '' @ [CHR 0x0A]) = ''value''" "trim [CHR 0x09, CHR 0x0A] = ''''"
  by (simp_all add: trim_eval)

lemma environment_tests:
  "env_or_returns_the_fallback_when_unset" "env_or_returns_the_trimmed_value_when_set" "env_or_treats_blank_values_as_unset"
  "env_or_does_not_trim_the_fallback" "parse_payment_clock_drift_secs"
  using env_trimmed(1)
  by (simp_all add: env_or_returns_the_fallback_when_unset_def env_or_returns_the_trimmed_value_when_set_def
      env_or_treats_blank_values_as_unset_def env_or_does_not_trim_the_fallback_def parse_payment_clock_drift_secs_def
      env_or_def env_var_def unset_env_def set_env_def env_trimmed blanks_trimmed parse_u64_def parse_unsigned_def trim_visible text_eval)

lemma logger_answer:
  "map_option resp_status (fst (http_request_logger x clock f req s))
     = map_option resp_status (fst (f (tag_request x (fst (take_request_id x clock req (sv_request_counter s))) req)
         (s\<lparr>sv_metrics := count_request (guard_new (sv_metrics s)),
            sv_request_counter := snd (take_request_id x clock req (sv_request_counter s))\<rparr>)))"
  by (simp add: http_request_logger_def Let_def option.map_comp comp_def split: prod.split option.split)

lemma tagged_uri [simp]: "req_uri (tag_request x i req) = req_uri req"
  by (simp add: tag_request_def)

lemma logger_tests:
  "healthz_returns_ok x clock s" "logger_handles_404 x clock s" "logger_passes_every_status_class_through_unchanged x clock s"
  "healthz_body_is_status_ok_json" "livez_body_contains_ok_and_uptime now m"
  by (simp_all add: healthz_returns_ok_def logger_handles_404_def logger_passes_every_status_class_through_unchanged_def
      healthz_body_is_status_ok_json_def livez_body_contains_ok_and_uptime_def answered_with_def logger_answer
      health_router_def ask_def bare_answer_def healthz_def livez_def body_value_def)

lemma logger_keeps_test: "logger_does_not_alter_headers_or_body x clock s"
  by (simp add: logger_does_not_alter_headers_or_body_def http_request_logger_def tag_response_def plain_answer_def
      set_header_def hm.get_insert id_name Let_def split: prod.split)
    (simp add: hget_def text_eval)

lemma metrics_test: "metrics_endpoint_tracks_and_reports_requests x clock now s"
  by (simp add: metrics_endpoint_tracks_and_reports_requests_def http_request_logger_def metrics_router_def ask_def
      answered_with_def metrics_endpoint_def service_snapshot_def service_metrics_new_def guard_new_def guard_drop_def
      count_request_def count_response_def healthz_def body_value_def tag_response_def Let_def split: prod.split)

lemma security_tests:
  assumes "\<And>v. header_value_ok x v"
  shows "security_headers_applied_by_default x" "security_headers_disabled_when_flag_false x"
    "security_headers_custom_csp_and_referrer x"
  by (simp_all add: assms security_headers_applied_by_default_def security_headers_disabled_when_flag_false_def
      security_headers_custom_csp_and_referrer_def hardened_answer_def security_headers_middleware_def security_edit_def
      default_security_config_def default_csp_def plain_answer_def set_header_def hm.get_insert hm.contains_insert
      header_names Let_def)
    (simp_all add: hcontains_def)

end
