(* ===== verification/Spec2Isabelle.thy ===== *)
theory Spec2Isabelle
  imports Kite Expiration PaymentMetrics NonceGuard Facilitator Gate Gate_Samples GateConcurrency
    Proxy CircuitBreaker CacheStore Idempotency Ledger Firewall RateBound Webhook SlidingLimiter
    HeaderPolicies ServiceSamples SystemRuns SerdeRecords ProxyStream GateEvents MiddlewareFiles ByteSlice
    TelemetryFiles GuardSpec SystemProgress EndToEnd
    KiteTests GuardTests TypesTests RecordTests ProxyTests FacilitatorTests GateTests RateTests ServiceTests
begin

text \<open>
  A verification development for \<open>kite-x402-axum\<close>, a payment gate for HTTP services: an axum
  middleware that answers a request with \<open>402 Payment Required\<close> until it carries a payment that a
  remote facilitator verifies, runs the protected handler, and settles the payment afterwards; and
  for the service built on it (\<open>src/service\<close>).

  How the parts interact. The middleware (\<open>src/kite-x402-axum/src/middleware.rs\<close>) computes its
  terms with the price parser (\<open>kite.rs\<close>), reads and writes its headers with \<open>wire.rs\<close> over the
  message types of \<open>types.rs\<close>, checks the validity window (\<open>expiration.rs\<close>), takes a reservation
  in the replay guard (\<open>nonce_guard.rs\<close>), calls the facilitator (\<open>facilitator.rs\<close>) before and after
  the handler, and counts what happens (\<open>metrics.rs\<close>). The handler it protects is the reverse proxy
  (\<open>proxy.rs\<close>). The service (\<open>src/service/src/main.rs\<close>) reads its environment and stacks, from the
  outside in, CORS (\<open>cors.rs\<close>), the request logger, the security headers, the routes, and under
  \<open>/v1\<close> the concurrency limiter, the rate limiter (\<open>rate_limit.rs\<close>), the payment middleware and the
  proxy. The circuit breaker, the caches, the ledger, the webhook queue, the firewall, the sliding
  window and the two header policies are components of the library that a service can add.

  Theories, from the bottom up.
  \<^item> \<open>Prelude\<close> and \<open>Text_Lib\<close>: machine integers with saturating and checked operations, durations and
    instants, maps; the string operations of the Rust standard library the code uses.
  \<^item> \<open>Json\<close>, \<open>Http\<close>, \<open>Externals\<close>, \<open>F64\<close>, \<open>F64_Text\<close>, \<open>F64_Bits\<close>, \<open>IpAddr\<close>: JSON values and the deserialisation
    rules of structs, header maps, the packages left as parameters, double arithmetic over the
    rationals with its text form and its bits, IP addresses.
  \<^item> \<open>Wire\<close> (\<open>types.rs\<close>, \<open>wire.rs\<close>), \<open>Kite\<close> (\<open>kite.rs\<close>), \<open>Expiration\<close> (\<open>expiration.rs\<close>),
    \<open>Expiry\<close> and \<open>NonceGuard\<close> (\<open>nonce_guard.rs\<close>), \<open>PaymentMetrics\<close> (\<open>metrics.rs\<close>),
    \<open>Facilitator\<close> (\<open>facilitator.rs\<close>).
  \<^item> \<open>Gate\<close> (\<open>middleware.rs\<close>): one definition per stage between two awaits, composed as in the code;
    \<open>GateConcurrency\<close>: many runs over the shared guard as a step relation; \<open>Gate_Samples\<close> and
    \<open>Sample_Codec\<close>: a concrete codec and the theorems applied to concrete requests.
  \<^item> \<open>Proxy\<close> (\<open>proxy.rs\<close>), \<open>CircuitBreaker\<close> (\<open>circuit_breaker.rs\<close>), \<open>TtlCache\<close> (the contract of a
    cache with deadlines), \<open>CacheStore\<close> (\<open>cache_store.rs\<close>), \<open>Idempotency\<close> (\<open>idempotency.rs\<close>),
    \<open>Ledger\<close> (\<open>settlement_ledger.rs\<close>), \<open>Firewall\<close> (\<open>firewall.rs\<close>), \<open>SlidingLimiter\<close>
    (\<open>sliding_limiter.rs\<close>), \<open>Webhook\<close> (\<open>webhook.rs\<close>), \<open>HeaderPolicies\<close> (\<open>cors_guard.rs\<close>,
    \<open>security_headers.rs\<close>). \<open>ProxyStream\<close> runs the proxy's body loop over a body that may never end;
    \<open>SerdeRecords\<close> has the derived serialisation of the records these components hand out.
  \<^item> \<open>TrustedProxies\<close>, \<open>RateLimit\<close>, \<open>RateBound\<close> (\<open>service/src/rate_limit.rs\<close>): the client address
    behind proxies, the token buckets, and the bound on what a client is granted; \<open>ServiceCors\<close>
    (\<open>service/src/cors.rs\<close>); \<open>ServiceConfig\<close>, \<open>Service\<close>, \<open>ServiceRuns\<close>, \<open>ServiceSamples\<close>
    (\<open>service/src/main.rs\<close>): start-up, the layers and their composition, interleaved requests;
    \<open>SystemRuns\<close>: all layers below \<open>/v1\<close> under concurrency, as one transition system that refines
    those of its parts; \<open>SystemProgress\<close>: that it never gets stuck, and what its payment counters say;
    \<open>ServiceTypes\<close>: the well-formed states and responses of the whole service; \<open>EndToEnd\<close>: what a client
    is told and what it is charged, through all layers.
  \<^item> \<open>GuardSpec\<close>: the replay guard as a map of claims, which its store, its index and its bounded
    clean-up implement.
  \<^item> \<open>LogRecords\<close>: the hand-written \<open>Debug\<close> forms, and the log events of the start-up, of the request
    logger and of the proxy; \<open>GateEvents\<close>: those of the middleware, the header codec and the facilitator
    client, the audit trail among them.
  \<^item> \<open>MiddlewareFiles\<close> and \<open>ByteSlice\<close> (\<open>middleware/*.rs\<close>), \<open>TelemetryFiles\<close> (\<open>telemetry/*.rs\<close>): the
    files of the library that no module declaration names. They are not part of the program that is
    built, and no other theory uses them.
  \<^item> \<open>KiteTests\<close>, \<open>GuardTests\<close>, \<open>TypesTests\<close>, \<open>RecordTests\<close>, \<open>ProxyTests\<close>, \<open>FacilitatorTests\<close>,
    \<open>GateTests\<close>, \<open>RateTests\<close>, \<open>ServiceTests\<close>: the unit tests in the source files themselves, one definition per
    test function under its name, and their evaluation on the model. What the authors check of the code holds of
    its translation, so these lemmas test the definitions above and prove nothing about the program.

  State. A struct behind a lock or made of atomics is a record, and each critical section or atomic
  update one function on it; a clock reading is an argument. A stage of the middleware ends at an
  await, where its future can be dropped, and the step relations \<open>gate_step\<close> and \<open>run_step\<close> interleave
  such stages of any number of requests; \<open>system_step\<close> has both of them and the rate limiter. \<open>Drop\<close> is written out where the code relies on it
  (reservations, permits, the gauge of active requests). A panic is a value of its own.

  What the lemmas show. Each component has an invariant that its operations keep and the behaviour
  of each operation on every branch; the caches, the expiry index, the header map and the rounding of
  doubles are contracts (locales) interpreted on the code's own definitions; the ledger refines a
  list, the replay guard a map of claims, the breaker a machine with three states, the idempotency cache
  one machine for each key. The properties about the gate compose them: who may reach the handler, what is charged, what
  can be replayed, under every interleaving and cancellation. The properties about the service
  show that nothing is paid or forwarded before the limits, that the limits, the replay guard and the
  rate hold of the whole under concurrency, that a client gets the goods exactly if it is charged,
  that all requests in flight can be answered and give their permits back, that the exported counters are
  consistent, what every response carries, that every
  state and every response is well-formed, that the audit trail tells every settlement the
  facilitator answered, and that no secret is written to the log.

  Bounds. Integers keep their width; texts are shorter than 4 GiB where the code casts a length to
  32 bits; the loops that reclaim expired entries stop after 64 as in the code. There is no fuel:
  a recursion is structural or has a measure, except for two loops that may run for ever, the body
  loop of the proxy and the wait for a drain. These are partial functions into an option type, and
  the theorems say when they return.

  Not modelled. \<open>lib.rs\<close> has no operation. Of the unit tests those that start threads, read a \<open>Debug\<close> text,
  clone a configuration or repeat a step a hundred times are left out, and so are the integration tests, which need sockets. The text of the derived \<open>Debug\<close> forms, the events
  of the health routes and of the rate limiter, the listener and the signals have no effect on
  what is stated. The serialisation of \<open>RetryConfig\<close> rests on that of \<open>Duration\<close>, which belongs to the
  package \<open>serde\<close>. base64, JSON text, the checks of package \<open>http\<close>, the router's path matching, the
  facilitator and the upstream are parameters.
\<close>

end
